(* ===== verification/BL_Prelude.thy ===== *)
theory BL_Prelude
  imports Main "HOL-Library.Word"
begin

unbundle bit_operations_syntax

text \<open>
  The prelude of the development: Python's exceptions as values, byte strings, the integer
  conversions \<^verbatim>\<open>int.to_bytes\<close> and \<^verbatim>\<open>int.from_bytes\<close>, the slices and the \<^verbatim>\<open>BytesIO\<close> stream
  that every component of the library uses.
\<close>

named_theorems eval_bytes \<open>equations that evaluate the conversions on numerals\<close>

section \<open>Exceptions as values\<close>

text \<open>
  One constructor per exception class the modelled code raises or lets escape.
  \<open>NonTermination\<close> stands for a loop of the source that never returns.
\<close>

datatype py_error =
    EncodingError | ScriptError | TransactionError | BKeyError | NetworkError
  | ValueError | IndexError | KeyError | OverflowError | TypeError | AttributeError
  | AssertionError | ZeroDivisionError | GenericException | WalletError | ServiceError | WarningException
  | NonTermination

type_synonym 'a res = "py_error + 'a"

definition bindE :: "'a res \<Rightarrow> ('a \<Rightarrow> 'b res) \<Rightarrow> 'b res" where
  "bindE m f = (case m of Inl e \<Rightarrow> Inl e | Inr x \<Rightarrow> f x)"

definition guardE :: "bool \<Rightarrow> py_error \<Rightarrow> unit res" where
  "guardE b e = (if b then Inr () else Inl e)"

definition is_ok :: "'a res \<Rightarrow> bool" where
  "is_ok m = (case m of Inl _ \<Rightarrow> False | Inr _ \<Rightarrow> True)"

lemma bindE_simps [simp]:
  "bindE (Inl e) f = Inl e"
  "bindE (Inr x) f = f x"
  by (simp_all add: bindE_def)

lemma bindE_Inr_iff: "bindE m f = Inr y \<longleftrightarrow> (\<exists>x. m = Inr x \<and> f x = Inr y)"
  by (cases m) simp_all

lemma bindE_Inl_iff: "bindE m f = Inl e \<longleftrightarrow> m = Inl e \<or> (\<exists>x. m = Inr x \<and> f x = Inl e)"
  by (cases m) simp_all

lemma bindE_cong [fundef_cong]:
  "m = m' \<Longrightarrow> (\<And>x. m' = Inr x \<Longrightarrow> f x = g x) \<Longrightarrow> bindE m f = bindE m' g"
  by (cases m') simp_all

lemma bindE_Inr_right [simp]: "bindE m Inr = m"
  by (cases m) simp_all

lemma bindE_assoc: "bindE (bindE m f) g = bindE m (\<lambda>x. bindE (f x) g)"
  by (cases m) simp_all

lemma guardE_simps [simp]:
  "guardE True e = Inr ()"
  "guardE False e = Inl e"
  by (simp_all add: guardE_def)

lemma guardE_Inr_iff [simp]: "guardE b e = Inr u \<longleftrightarrow> b"
  by (simp add: guardE_def)

lemma bindE_guardE_Inr_iff: "bindE (guardE b e) f = Inr y \<longleftrightarrow> b \<and> f () = Inr y"
  by (simp add: guardE_def)

lemma is_ok_simps [simp]: "is_ok (Inl e) = False" "is_ok (Inr x) = True"
  by (simp_all add: is_ok_def)

section \<open>Bytes\<close>

type_synonym byte = "8 word"
type_synonym bytes = "byte list"

abbreviation byte_of :: "nat \<Rightarrow> byte" where
  "byte_of n \<equiv> of_nat n"

lemma unat_byte_lt [simp]: "unat (b :: byte) < 256"
  by (rule order.strict_trans2 [OF unsigned_less]) simp

lemma unat_byte_of: "n < 256 \<Longrightarrow> unat (byte_of n) = n"
  by (simp add: unat_of_nat)

lemma unat_byte_of_mod [simp]: "unat (byte_of (n mod 256)) = n mod 256"
  by (simp add: unat_of_nat)

lemma byte_of_unat [simp]: "byte_of (unat b) = b"
  by simp

section \<open>int.to_bytes and int.from_bytes\<close>

text \<open>
  \<open>le_val\<close> and \<open>be_val\<close> are \<^verbatim>\<open>int.from_bytes(b, 'little')\<close> and
  \<^verbatim>\<open>int.from_bytes(b, 'big')\<close>; \<open>le_bytes n v\<close> and \<open>be_bytes n v\<close> are the \<open>n\<close>-byte strings
  of a value below \<open>256 ^ n\<close>. \<open>int_to_le\<close> and \<open>int_to_be\<close> are \<^verbatim>\<open>int.to_bytes(n, order)\<close>
  with its \<^verbatim>\<open>OverflowError\<close> for a negative value and for one that does not fit.
\<close>

fun le_val :: "bytes \<Rightarrow> nat" where
  "le_val [] = 0"
| "le_val (b # bs) = unat b + 256 * le_val bs"

definition be_val :: "bytes \<Rightarrow> nat" where
  "be_val bs = le_val (rev bs)"

fun le_bytes :: "nat \<Rightarrow> nat \<Rightarrow> bytes" where
  "le_bytes 0 v = []"
| "le_bytes (Suc n) v = byte_of (v mod 256) # le_bytes n (v div 256)"

definition be_bytes :: "nat \<Rightarrow> nat \<Rightarrow> bytes" where
  "be_bytes n v = rev (le_bytes n v)"

definition int_to_le :: "nat \<Rightarrow> int \<Rightarrow> bytes res" where
  "int_to_le n v = (if v < 0 \<or> v \<ge> 256 ^ n then Inl OverflowError else Inr (le_bytes n (nat v)))"

definition int_to_be :: "nat \<Rightarrow> int \<Rightarrow> bytes res" where
  "int_to_be n v = (if v < 0 \<or> v \<ge> 256 ^ n then Inl OverflowError else Inr (be_bytes n (nat v)))"

lemma le_bytes_numeral [eval_bytes]:
  "le_bytes (numeral k) v = byte_of (v mod 256) # le_bytes (pred_numeral k) (v div 256)"
  by (simp only: numeral_eq_Suc le_bytes.simps)

lemma length_le_bytes [simp]: "length (le_bytes n v) = n"
  by (induction n arbitrary: v) simp_all

lemma length_be_bytes [simp]: "length (be_bytes n v) = n"
  by (simp add: be_bytes_def)

lemma le_val_le_bytes: "v < 256 ^ n \<Longrightarrow> le_val (le_bytes n v) = v"
proof (induction n arbitrary: v)
  case 0
  then show ?case by simp
next
  case (Suc n)
  then have "v div 256 < 256 ^ n" by (simp add: less_mult_imp_div_less mult.commute)
  then show ?case using Suc.IH by simp
qed

lemma be_val_be_bytes: "v < 256 ^ n \<Longrightarrow> be_val (be_bytes n v) = v"
  by (simp add: be_val_def be_bytes_def le_val_le_bytes)

lemma digit_bound: "d < (256::nat) \<Longrightarrow> v < 256 ^ n \<Longrightarrow> d + 256 * v < 256 * 256 ^ n"
  by simp

lemma le_val_bound: "le_val bs < 256 ^ length bs"
  by (induction bs) (simp_all add: digit_bound)

lemma be_val_bound: "be_val bs < 256 ^ length bs"
  using le_val_bound [of "rev bs"] by (simp add: be_val_def)

lemma digit_mod: "(d::nat) < b \<Longrightarrow> (d + b * n) mod b = d"
  by simp

lemma digit_div: "(d::nat) < b \<Longrightarrow> (d + b * n) div b = n"
  by simp

lemma byte_digit_mod [simp]: "(unat (b :: byte) + 256 * n) mod 256 = unat b"
  by (rule digit_mod) (rule unat_byte_lt)

lemma byte_digit_div [simp]: "(unat (b :: byte) + 256 * n) div 256 = n"
  by (rule digit_div) (rule unat_byte_lt)

lemma le_bytes_le_val: "length bs = n \<Longrightarrow> le_bytes n (le_val bs) = bs"
  by (induction bs arbitrary: n) auto

lemma be_bytes_be_val: "length bs = n \<Longrightarrow> be_bytes n (be_val bs) = bs"
  by (simp add: be_bytes_def be_val_def le_bytes_le_val)

lemma le_val_append: "le_val (xs @ ys) = le_val xs + 256 ^ length xs * le_val ys"
  by (induction xs) (simp_all add: algebra_simps)

lemma be_val_append: "be_val (xs @ ys) = be_val xs * 256 ^ length ys + be_val ys"
  by (simp add: be_val_def le_val_append)

lemma le_val_replicate_0 [simp]: "le_val (replicate n 0) = 0"
  by (induction n) simp_all

lemma be_val_replicate_0 [simp]: "be_val (replicate n 0) = 0"
  by (simp add: be_val_def)

lemma be_val_Nil [simp]: "be_val [] = 0"
  by (simp add: be_val_def)

lemma be_val_Cons: "be_val (b # bs) = unat b * 256 ^ length bs + be_val bs"
  using be_val_append [of "[b]" bs] by (simp add: be_val_def)

lemma int_to_le_Inr: "0 \<le> v \<Longrightarrow> v < 256 ^ n \<Longrightarrow> int_to_le n v = Inr (le_bytes n (nat v))"
  by (simp add: int_to_le_def)

lemma int_to_be_Inr: "0 \<le> v \<Longrightarrow> v < 256 ^ n \<Longrightarrow> int_to_be n v = Inr (be_bytes n (nat v))"
  by (simp add: int_to_be_def)

lemma int_to_le_Inr_iff: "int_to_le n v = Inr b \<longleftrightarrow> 0 \<le> v \<and> v < 256 ^ n \<and> b = le_bytes n (nat v)"
  by (auto simp: int_to_le_def)

lemma int_to_be_Inr_iff: "int_to_be n v = Inr b \<longleftrightarrow> 0 \<le> v \<and> v < 256 ^ n \<and> b = be_bytes n (nat v)"
  by (auto simp: int_to_be_def)

section \<open>Slices\<close>

text \<open>
  \<^verbatim>\<open>s[a:b]\<close> for non-negative bounds; \<^verbatim>\<open>s[-k:]\<close> and \<^verbatim>\<open>s[:-k]\<close> for \<open>0 < k\<close>, where Python
  takes the whole string (respectively nothing) when it is shorter than \<open>k\<close>.
\<close>

definition slice :: "nat \<Rightarrow> nat \<Rightarrow> 'a list \<Rightarrow> 'a list" where
  "slice a b xs = drop a (take b xs)"

definition last_n :: "nat \<Rightarrow> 'a list \<Rightarrow> 'a list" where
  "last_n k xs = drop (length xs - k) xs"

definition but_last_n :: "nat \<Rightarrow> 'a list \<Rightarrow> 'a list" where
  "but_last_n k xs = take (length xs - k) xs"

definition startswith :: "'a list \<Rightarrow> 'a list \<Rightarrow> bool" where
  "startswith p xs = (take (length p) xs = p)"

lemma but_last_n_append [simp]: "length ys = k \<Longrightarrow> but_last_n k (xs @ ys) = xs"
  by (simp add: but_last_n_def)

lemma last_n_append [simp]: "length ys = k \<Longrightarrow> last_n k (xs @ ys) = ys"
  by (simp add: last_n_def)

section \<open>BytesIO\<close>

text \<open>
  A \<^verbatim>\<open>BytesIO\<close> object: the buffer and the position. A read past the end returns what is left
  and does not move the position beyond the bytes it returned; \<^verbatim>\<open>seek\<close> sets any position, also
  one behind the end, from where every read returns \<^verbatim>\<open>b''\<close>.
\<close>

record stream =
  sbuf :: bytes
  spos :: nat

definition mk_stream :: "bytes \<Rightarrow> stream" where
  "mk_stream bs = \<lparr>sbuf = bs, spos = 0\<rparr>"

definition rest :: "stream \<Rightarrow> bytes" where
  "rest s = drop (spos s) (sbuf s)"

definition sread :: "nat \<Rightarrow> stream \<Rightarrow> bytes \<times> stream" where
  "sread n s = (let d = take n (rest s) in (d, s\<lparr>spos := spos s + length d\<rparr>))"

definition sseek :: "nat \<Rightarrow> stream \<Rightarrow> stream" where
  "sseek p s = s\<lparr>spos := p\<rparr>"

text \<open>\<^verbatim>\<open>seek(-1, 1)\<close>: one byte back from the current position, never before the start.\<close>

definition sseek_back :: "stream \<Rightarrow> stream" where
  "sseek_back s = s\<lparr>spos := spos s - 1\<rparr>"

lemma rest_mk_stream [simp]: "rest (mk_stream bs) = bs"
  by (simp add: rest_def mk_stream_def)

lemma fst_sread: "fst (sread n s) = take n (rest s)"
  by (simp add: sread_def Let_def)

lemma sread_rest: "rest (snd (sread n s)) = drop n (rest s)"
proof (cases "n \<le> length (rest s)")
  case True
  then show ?thesis
    by (simp add: sread_def Let_def rest_def add.commute min_def)
next
  case False
  then show ?thesis
    by (simp add: sread_def Let_def rest_def)
qed

lemma sread_sbuf [simp]: "sbuf (snd (sread n s)) = sbuf s"
  by (simp add: sread_def Let_def)

lemma rest_seek: "rest (s\<lparr>spos := spos s + n\<rparr>) = drop n (rest s)"
  by (simp add: rest_def add.commute)

lemma sread_exact:
  "rest s = d @ r \<Longrightarrow> length d = n \<Longrightarrow>
   sread n s = (d, s\<lparr>spos := spos s + n\<rparr>) \<and> rest (s\<lparr>spos := spos s + n\<rparr>) = r"
  by (simp add: sread_def Let_def rest_seek)

end
