(* ===== verification/Py_Text.thy ===== *)
theory Py_Text
  imports BL_Prelude
begin

text \<open>
  Text and the helpers of \<^verbatim>\<open>bitcoinlib/encoding.py\<close> that accept both text and bytes:
  \<^verbatim>\<open>to_bytes\<close>, \<^verbatim>\<open>to_hexstring\<close> and \<^verbatim>\<open>normalize_var\<close>, with what they use of Python's
  standard library: UTF-8 encoding, \<^verbatim>\<open>bytes.fromhex\<close>, \<^verbatim>\<open>bytes.hex\<close>, \<^verbatim>\<open>int(text, base)\<close>.
  A \<^typ>\<open>string\<close> is a text whose code points are below 256.
\<close>

section \<open>Values a caller may pass\<close>

datatype pyval = PInt int | PStr string | PBytes bytes | PList "int list"

section \<open>UTF-8, hexadecimal and decimal text\<close>

definition utf8_char :: "char \<Rightarrow> bytes" where
  "utf8_char c = (let n = of_char c :: nat
                  in if n < 128 then [byte_of n]
                     else [byte_of (192 + n div 64), byte_of (128 + n mod 64)])"

definition utf8_encode :: "string \<Rightarrow> bytes" where
  "utf8_encode s = concat (map utf8_char s)"

definition ascii_space :: "nat \<Rightarrow> bool" where
  "ascii_space c \<longleftrightarrow> c = 32 \<or> (9 \<le> c \<and> c \<le> 13)"

definition digit_val :: "nat \<Rightarrow> nat option" where
  "digit_val c = (if 48 \<le> c \<and> c \<le> 57 then Some (c - 48)
                  else if 97 \<le> c \<and> c \<le> 102 then Some (c - 87)
                  else if 65 \<le> c \<and> c \<le> 70 then Some (c - 55) else None)"

text \<open>
  \<^verbatim>\<open>bytes.fromhex\<close> on code points: ASCII white space between the bytes is skipped, anything
  else that is not a pair of hexadecimal digits is a \<^verbatim>\<open>ValueError\<close> (\<open>None\<close>).
\<close>

fun fromhex :: "nat list \<Rightarrow> bytes option" where
  "fromhex [] = Some []"
| "fromhex [c] = (if ascii_space c then Some [] else None)"
| "fromhex (c # d # cs) =
     (if ascii_space c then fromhex (d # cs)
      else case (digit_val c, digit_val d) of
             (Some h, Some l) \<Rightarrow> map_option (\<lambda>bs. byte_of (16 * h + l) # bs) (fromhex cs)
           | _ \<Rightarrow> None)"

definition hex_char :: "nat \<Rightarrow> char" where
  "hex_char n = char_of (if n < 10 then 48 + n else 87 + n)"

definition hex_of :: "bytes \<Rightarrow> string" where
  "hex_of bs = concat (map (\<lambda>b. [hex_char (unat b div 16), hex_char (unat b mod 16)]) bs)"

definition codes :: "string \<Rightarrow> nat list" where
  "codes s = map of_char s"

text \<open>
  \<^verbatim>\<open>int(b, base)\<close> of a byte string: surrounding white space, a sign, a \<^verbatim>\<open>0x\<close> prefix in base
  16, digits with single underscores between them. \<open>None\<close> is \<^verbatim>\<open>ValueError\<close>.
\<close>

fun parse_digits :: "nat \<Rightarrow> bool \<Rightarrow> nat \<Rightarrow> nat list \<Rightarrow> nat option" where
  "parse_digits base was_digit acc [] = (if was_digit then Some acc else None)"
| "parse_digits base was_digit acc (c # cs) =
     (if c = 95 then (if was_digit then parse_digits base False acc cs else None)
      else case digit_val c of
             Some d \<Rightarrow> (if d < base then parse_digits base True (acc * base + d) cs else None)
           | None \<Rightarrow> None)"

definition strip_space :: "nat list \<Rightarrow> nat list" where
  "strip_space cs = rev (dropWhile ascii_space (rev (dropWhile ascii_space cs)))"

definition parse_unsigned :: "nat \<Rightarrow> nat list \<Rightarrow> nat option" where
  "parse_unsigned base cs =
    (case cs of
       z # x # ds \<Rightarrow>
         if base = 16 \<and> z = 48 \<and> (x = 120 \<or> x = 88)
         then parse_digits base False 0 (case ds of u # es \<Rightarrow> if u = 95 then es else ds | [] \<Rightarrow> [])
         else parse_digits base False 0 cs
     | _ \<Rightarrow> parse_digits base False 0 cs)"

definition py_int :: "nat \<Rightarrow> bytes \<Rightarrow> int option" where
  "py_int base b =
    (case strip_space (map unat b) of
       [] \<Rightarrow> None
     | c # cs \<Rightarrow>
         if c = 45 then map_option (\<lambda>n. - int n) (parse_unsigned base cs)
         else if c = 43 then map_option int (parse_unsigned base cs)
         else map_option int (parse_unsigned base (c # cs)))"

section \<open>to\_bytes and to\_hexstring\<close>

text \<open>
  \<^verbatim>\<open>to_bytes(string, unhexlify)\<close>. A byte string is decoded as UTF-8 first; the decoded text
  is hexadecimal only if every byte is an ASCII hexadecimal digit or white space, and in every
  other case the function falls through to the bytes themselves.
\<close>

definition to_bytes :: "pyval \<Rightarrow> bool \<Rightarrow> bytes res" where
  "to_bytes x unhexlify =
    (case x of
       PBytes b \<Rightarrow>
         Inr (if b = [] then []
              else if unhexlify
              then (case fromhex (map unat b) of Some s \<Rightarrow> s | None \<Rightarrow> b)
              else b)
     | PStr s \<Rightarrow>
         Inr (if s = [] then []
              else if unhexlify
              then (case fromhex (codes s) of Some b \<Rightarrow> b | None \<Rightarrow> utf8_encode s)
              else utf8_encode s)
     | PInt i \<Rightarrow> (if i = 0 then Inr [] else Inl TypeError)
     | PList l \<Rightarrow> (if l = [] then Inr [] else Inl TypeError))"

definition to_hexstring :: "pyval \<Rightarrow> string res" where
  "to_hexstring x =
    (case x of
       PBytes b \<Rightarrow> Inr (if b = [] then [] else hex_of b)
     | PStr s \<Rightarrow>
         Inr (if s = [] then []
              else case fromhex (codes s) of Some _ \<Rightarrow> s | None \<Rightarrow> hex_of (utf8_encode s))
     | PInt i \<Rightarrow> (if i = 0 then Inr [] else Inl TypeError)
     | PList l \<Rightarrow> (if l = [] then Inr [] else Inl TypeError))"

definition normalize_var :: "pyval \<Rightarrow> nat \<Rightarrow> pyval res" where
  "normalize_var var base =
    (let var1 = (case var of PStr s \<Rightarrow> PBytes (utf8_encode s) | _ \<Rightarrow> var)
     in if base = 10
        then (case var1 of
                PBytes b \<Rightarrow> (case py_int 10 b of Some i \<Rightarrow> Inr (PInt i) | None \<Rightarrow> Inl ValueError)
              | PInt i \<Rightarrow> Inr (PInt i)
              | _ \<Rightarrow> Inl TypeError)
        else Inr var1)"

section \<open>Hexadecimal round trips\<close>

lemma of_char_hex_char: "n < 16 \<Longrightarrow> of_char (hex_char n) = (if n < 10 then 48 + n else 87 + n)"
  by (simp add: hex_char_def)

lemma digit_val_hex_char [simp]: "n < 16 \<Longrightarrow> digit_val (of_char (hex_char n)) = Some n"
  by (simp add: of_char_hex_char digit_val_def)

lemma ascii_space_hex_char [simp]: "n < 16 \<Longrightarrow> \<not> ascii_space (of_char (hex_char n))"
  by (simp add: of_char_hex_char ascii_space_def)

lemma fromhex_hex_of: "fromhex (codes (hex_of bs)) = Some bs"
proof (induction bs)
  case (Cons b bs)
  have b: "unat b div 16 < 16" "unat b mod 16 < 16"
    using unat_byte_lt [of b] by (simp_all add: less_mult_imp_div_less)
  have "byte_of (16 * (unat b div 16) + unat b mod 16) = b" by simp
  with b Cons show ?case by (simp add: hex_of_def codes_def)
qed (simp add: hex_of_def codes_def)

lemma hex_of_eq_Nil [simp]: "hex_of bs = [] \<longleftrightarrow> bs = []"
  by (cases bs) (simp_all add: hex_of_def)

lemma length_hex_of [simp]: "length (hex_of bs) = 2 * length bs"
  by (induction bs) (simp_all add: hex_of_def)

lemma to_bytes_hex_of: "to_bytes (PStr (hex_of b)) True = Inr b"
  by (simp add: to_bytes_def fromhex_hex_of)

text \<open>A byte that is not an ASCII hexadecimal digit or white space keeps a byte string as it is.\<close>

lemma fromhex_None:
  "c \<in> set cs \<Longrightarrow> \<not> ascii_space c \<Longrightarrow> digit_val c = None \<Longrightarrow> fromhex cs = None"
  by (induction cs rule: fromhex.induct) (auto split: option.splits)

lemma to_bytes_bytes_id:
  assumes "c \<in> set b" "digit_val (unat c) = None" "\<not> ascii_space (unat c)"
  shows "to_bytes (PBytes b) u = Inr b"
proof -
  have "fromhex (map unat b) = None"
    using assms by (intro fromhex_None [of "unat c"]) auto
  then show ?thesis by (simp add: to_bytes_def)
qed

end
