(* ===== verification/Bech32.thy ===== *)
theory Bech32
  imports Py_Text
begin

text \<open>
  Bech32 and bech32m addresses: \<^verbatim>\<open>_bech32_polymod\<close>, \<^verbatim>\<open>convertbits\<close>,
  \<^verbatim>\<open>_array_to_codestring\<close>, \<^verbatim>\<open>_codestring_to_array\<close>, \<^verbatim>\<open>pubkeyhash_to_addr_bech32\<close>,
  \<^verbatim>\<open>addr_bech32_to_pubkeyhash\<close> and \<^verbatim>\<open>addr_bech32_checksum\<close> of
  \<^verbatim>\<open>bitcoinlib/encoding.py\<close>. Python's integers are \<^typ>\<open>int\<close>, with their bit operations on
  the two's complement.
\<close>

section \<open>Code strings\<close>

definition bech32_alphabet :: string where
  "bech32_alphabet = ''qpzry9x8gf2tvdw0s3jn54khce6mua7l''"

text \<open>\<^verbatim>\<open>codebase[i]\<close>: a negative index counts from the end.\<close>

definition code_char :: "int \<Rightarrow> char res" where
  "code_char i = (let j = (if i < 0 then 32 + i else i)
                  in if 0 \<le> j \<and> j < 32 then Inr (bech32_alphabet ! nat j) else Inl IndexError)"

fun array_to_codestring :: "int list \<Rightarrow> string res" where
  "array_to_codestring [] = Inr []"
| "array_to_codestring (i # is) =
     bindE (code_char i) (\<lambda>c. bindE (array_to_codestring is) (\<lambda>cs. Inr (c # cs)))"

fun char_index :: "nat \<Rightarrow> string \<Rightarrow> int option" where
  "char_index n [] = None"
| "char_index n (c # cs) =
     (if of_char c = n then Some 0 else map_option (\<lambda>i. i + 1) (char_index n cs))"

fun codes_to_array :: "bytes \<Rightarrow> int list res" where
  "codes_to_array [] = Inr []"
| "codes_to_array (s # ss) =
     (case char_index (unat s) bech32_alphabet of
        None \<Rightarrow> Inl EncodingError
      | Some i \<Rightarrow> bindE (codes_to_array ss) (\<lambda>is. Inr (i # is)))"

definition codestring_to_array :: "string \<Rightarrow> int list res" where
  "codestring_to_array s = codes_to_array (utf8_encode s)"

section \<open>The checksum\<close>

definition bech32_generator :: "int list" where
  "bech32_generator = [0x3b6a57b2, 0x26508e6d, 0x1ea119fa, 0x3d4233dd, 0x2a1462b3]"

definition polymod_step :: "int \<Rightarrow> int \<Rightarrow> int" where
  "polymod_step chk value =
    (let top = drop_bit 25 chk;
         chk1 = push_bit 5 (chk AND 0x1ffffff) XOR value
     in fold (\<lambda>i c. c XOR (if drop_bit i top AND 1 \<noteq> 0 then bech32_generator ! i else 0))
          [0..<5] chk1)"

definition bech32_polymod :: "int list \<Rightarrow> int" where
  "bech32_polymod values = foldl polymod_step 1 values"

definition BECH32M_CONST :: int where
  "BECH32M_CONST = 0x2bc830a3"

definition hrp_expand :: "string \<Rightarrow> int list" where
  "hrp_expand hrp = map (\<lambda>x. drop_bit 5 (of_char x)) hrp @ [0] @ map (\<lambda>x. of_char x AND 31) hrp"

section \<open>Regrouping bits\<close>

text \<open>
  The inner loop \<^verbatim>\<open>while bits >= tobits\<close>, for \<open>0 < tobits\<close>: emit the leading group of the
  pending bits.
\<close>

function emit_groups :: "nat \<Rightarrow> int \<Rightarrow> nat \<Rightarrow> int list \<Rightarrow> nat \<times> int list" where
  "emit_groups tobits acc bits ret =
    (if tobits = 0 \<or> bits < tobits then (bits, ret)
     else emit_groups tobits acc (bits - tobits)
            (ret @ [drop_bit (bits - tobits) acc AND (2 ^ tobits - 1)]))"
  by pat_completeness auto
termination
  by (relation "measure (\<lambda>(tobits, acc, bits, ret). bits)") auto

declare emit_groups.simps [simp del]

text \<open>The outer loop; \<open>None\<close> for a value that does not fit \<open>frombits\<close> bits.\<close>

fun convert_loop :: "nat \<Rightarrow> nat \<Rightarrow> int list \<Rightarrow> int \<Rightarrow> nat \<Rightarrow> int list
    \<Rightarrow> (int \<times> nat \<times> int list) option" where
  "convert_loop frombits tobits [] acc bits ret = Some (acc, bits, ret)"
| "convert_loop frombits tobits (value # data) acc bits ret =
     (if value < 0 \<or> drop_bit frombits value \<noteq> 0 then None
      else (let acc1 = (push_bit frombits acc OR value) AND (2 ^ (frombits + tobits - 1) - 1);
                (bits1, ret1) = emit_groups tobits acc1 (bits + frombits) ret
            in convert_loop frombits tobits data acc1 bits1 ret1))"

definition convertbits :: "int list \<Rightarrow> nat \<Rightarrow> nat \<Rightarrow> bool \<Rightarrow> int list option res" where
  "convertbits data frombits tobits pad =
    (if frombits + tobits = 0 then Inl ValueError
     else if tobits = 0 \<and> data \<noteq> [] \<and> \<not> (hd data < 0 \<or> drop_bit frombits (hd data) \<noteq> 0)
     then Inl NonTermination
     else case convert_loop frombits tobits data 0 0 [] of
            None \<Rightarrow> Inr None
          | Some (acc, bits, ret) \<Rightarrow>
              if pad then
                Inr (Some (if bits \<noteq> 0
                           then ret @ [push_bit (tobits - bits) acc AND (2 ^ tobits - 1)]
                           else ret))
              else if bits \<ge> frombits \<or> push_bit (tobits - bits) acc AND (2 ^ tobits - 1) \<noteq> 0
              then Inl EncodingError
              else Inr (Some ret))"

section \<open>Encoding and decoding addresses\<close>

definition pubkeyhash_to_addr_bech32 ::
  "pyval \<Rightarrow> string \<Rightarrow> int \<Rightarrow> string \<Rightarrow> int \<Rightarrow> string res" where
  "pubkeyhash_to_addr_bech32 pubkeyhash prefix witver separator checksum_xor =
    bindE (to_bytes pubkeyhash True) (\<lambda>pkh.
    bindE (if length pkh \<notin> {20, 32, 40}
           then (case pkh of
                   p0 # p1 # body \<Rightarrow>
                     if unat p1 \<noteq> length body then Inl EncodingError
                     else Inr (if p0 \<noteq> 0 then uint p0 - 0x50 else witver, body)
                 | _ \<Rightarrow> Inl IndexError)
           else Inr (witver, pkh))
    (\<lambda>(wv, body).
       if wv > 16 then Inl EncodingError
       else (let wv1 = (if checksum_xor = BECH32M_CONST \<and> wv = 0 then 1 else wv);
                 xor1 = (if \<not> (checksum_xor = BECH32M_CONST \<and> wv = 0) \<and> wv > 0
                         then BECH32M_CONST else checksum_xor)
             in bindE (convertbits (map uint body) 8 5 True) (\<lambda>conv.
                case conv of
                  None \<Rightarrow> Inl TypeError
                | Some groups \<Rightarrow>
                    (let data = wv1 # groups;
                         polymod = bech32_polymod (hrp_expand prefix @ data @ [0, 0, 0, 0, 0, 0])
                                   XOR xor1;
                         checksum = map (\<lambda>i. drop_bit (5 * (5 - i)) polymod AND 31) [0..<6]
                     in bindE (array_to_codestring data) (\<lambda>ds.
                        bindE (array_to_codestring checksum) (\<lambda>cs.
                          Inr (prefix @ separator @ ds @ cs))))))))"

definition py_lower :: "char \<Rightarrow> char" where
  "py_lower c = (let n = of_char c :: nat
                    in if (65 \<le> n \<and> n \<le> 90) \<or> (192 \<le> n \<and> n \<le> 222 \<and> n \<noteq> 215)
                       then char_of (n + 32) else c)"

definition py_upper :: "char \<Rightarrow> char" where
  "py_upper c = (let n = of_char c :: nat in if 97 \<le> n \<and> n \<le> 122 then char_of (n - 32) else c)"

text \<open>\<^verbatim>\<open>s.rfind('1')\<close>; \<open>None\<close> is \<^verbatim>\<open>-1\<close>.\<close>

fun rfind_1 :: "string \<Rightarrow> nat option" where
  "rfind_1 [] = None"
| "rfind_1 (c # cs) = (case rfind_1 cs of Some i \<Rightarrow> Some (Suc i)
                       | None \<Rightarrow> if c = CHR ''1'' then Some 0 else None)"

text \<open>
  The decoder, up to the choice between bytes and hexadecimal text: the witness version, and
  the result with or without the two leading bytes of a witness program.
\<close>

definition bech32_decode :: "string \<Rightarrow> string option \<Rightarrow> bool \<Rightarrow> bytes res" where
  "bech32_decode bech0 prefix include_witver =
    (if list_ex (\<lambda>x. of_char x < (33 :: nat) \<or> of_char x > (126 :: nat)) bech0 \<or>
        (map py_lower bech0 \<noteq> bech0 \<and> map py_upper bech0 \<noteq> bech0)
     then Inl EncodingError
     else (let bech = map py_lower bech0 in
       case rfind_1 bech of
         None \<Rightarrow> Inl EncodingError
       | Some pos \<Rightarrow>
           if pos < 1 \<or> pos + 7 > length bech \<or> length bech > 90 then Inl EncodingError
           else if (case prefix of None \<Rightarrow> False | Some p \<Rightarrow> p \<noteq> [] \<and> p \<noteq> take pos bech)
           then Inl EncodingError
           else (let hrp = take pos bech in
             bindE (codestring_to_array (drop (pos + 1) bech)) (\<lambda>data.
               let check = bech32_polymod (hrp_expand hrp @ data)
               in if \<not> (check = 1 \<or> check = BECH32M_CONST) then Inl EncodingError
                  else if hd data = 0 \<and> check \<noteq> 1 then Inl EncodingError
                  else if hd data \<noteq> 0 \<and> check \<noteq> BECH32M_CONST then Inl EncodingError
                  else (let data1 = but_last_n 6 data in
                    bindE (convertbits (drop 1 data1) 5 8 False) (\<lambda>conv.
                      case conv of
                        None \<Rightarrow> Inl TypeError
                      | Some groups \<Rightarrow>
                          (let decoded = map word_of_int groups :: bytes in
                           if length decoded < 2 \<or> length decoded > 40 then Inl EncodingError
                           else if hd data1 > 16 then Inl EncodingError
                           else if hd data1 = 0 \<and> length decoded \<notin> {20, 32}
                           then Inl EncodingError
                           else Inr (if include_witver
                                     then word_of_int (if hd data1 \<noteq> 0 then hd data1 + 0x50 else 0)
                                          # byte_of (length decoded) # decoded
                                     else decoded))))))))"

definition addr_bech32_to_pubkeyhash :: "string \<Rightarrow> string option \<Rightarrow> bool \<Rightarrow> bool \<Rightarrow> pyval res" where
  "addr_bech32_to_pubkeyhash bech prefix include_witver as_hex =
    bindE (bech32_decode bech prefix include_witver) (\<lambda>b.
      Inr (if as_hex then PStr (hex_of b) else PBytes b))"

definition addr_bech32_checksum :: "string \<Rightarrow> int res" where
  "addr_bech32_checksum bech0 =
    (let bech = map py_lower bech0;
         (hrp, tl1) = (case rfind_1 bech of
                         Some pos \<Rightarrow> (take pos bech, drop (pos + 1) bech)
                       | None \<Rightarrow> (butlast bech, bech))
     in bindE (codestring_to_array tl1) (\<lambda>data. Inr (bech32_polymod (hrp_expand hrp @ data))))"

end
