(* ===== verification/Bech32_Bits.thy ===== *)
theory Bech32_Bits
  imports Bech32
begin

text \<open>
  \<^verbatim>\<open>convertbits\<close> regroups a bit string: the groups it returns, followed by the bits it still
  holds, are the groups it was given, read as one string of bits. The round trip of a witness
  program through 5-bit groups follows.
\<close>

fun nbits :: "nat \<Rightarrow> int \<Rightarrow> bool list" where
  "nbits 0 x = []"
| "nbits (Suc n) x = bit x n # nbits n x"

definition all_bits :: "nat \<Rightarrow> int list \<Rightarrow> bool list" where
  "all_bits n xs = concat (map (nbits n) xs)"

definition fits :: "nat \<Rightarrow> int \<Rightarrow> bool" where
  "fits n x \<longleftrightarrow> take_bit n x = x"

lemma fits_iff: "fits n x \<longleftrightarrow> 0 \<le> x \<and> x < 2 ^ n"
  by (simp add: fits_def take_bit_int_eq_self_iff)

lemma length_nbits [simp]: "length (nbits n x) = n"
  by (induction n) simp_all

lemma all_bits_simps [simp]:
  "all_bits n [] = []"
  "all_bits n (x # xs) = nbits n x @ all_bits n xs"
  "all_bits n (xs @ ys) = all_bits n xs @ all_bits n ys"
  by (simp_all add: all_bits_def)

lemma length_all_bits [simp]: "length (all_bits n xs) = n * length xs"
  by (induction xs) simp_all

lemma nbits_cong: "(\<And>i. i < n \<Longrightarrow> bit x i = bit y i) \<Longrightarrow> nbits n x = nbits n y"
  by (induction n) simp_all

lemma nbits_eqD: "nbits n x = nbits n y \<Longrightarrow> i < n \<Longrightarrow> bit x i = bit y i"
  by (induction n) (auto simp: less_Suc_eq)

lemma nbits_add: "nbits (t + m) x = nbits t (drop_bit m x) @ nbits m x"
  by (induction t) (simp_all add: bit_drop_bit_eq add.commute)

lemma nbits_inj: "fits n x \<Longrightarrow> fits n y \<Longrightarrow> nbits n x = nbits n y \<Longrightarrow> x = y"
proof (rule bit_eqI)
  fix i
  assume "fits n x" "fits n y" "nbits n x = nbits n y"
  then show "bit x i = bit y i"
    using bit_take_bit_iff [of n x i] bit_take_bit_iff [of n y i] nbits_eqD [of n x y i]
    by (auto simp: fits_def)
qed

lemma nbits_0 [simp]: "nbits n 0 = replicate n False"
  by (induction n) simp_all

lemma all_bits_inj:
  "length xs = length ys \<Longrightarrow> \<forall>x \<in> set xs. fits n x \<Longrightarrow> \<forall>y \<in> set ys. fits n y \<Longrightarrow>
   all_bits n xs = all_bits n ys \<Longrightarrow> xs = ys"
  by (induction rule: list_induct2) (auto dest: nbits_inj)

lemma and_mask: "x AND (2 ^ n - 1) = take_bit n (x :: int)"
  by (simp add: take_bit_eq_mask mask_eq_exp_minus_1)

lemma fits_take_bit [simp]: "fits n (take_bit n x)"
  by (simp add: fits_def)

section \<open>The loops\<close>

lemma emit_groups_bits:
  assumes "0 < t"
  shows "\<exists>b' gs. emit_groups t acc b ret = (b', ret @ gs) \<and> b' < t \<and>
    (\<forall>g \<in> set gs. fits t g) \<and> all_bits t gs @ nbits b' acc = nbits b acc"
proof (induction b arbitrary: ret rule: less_induct)
  case (less b)
  show ?case
  proof (cases "b < t")
    case True
    then have "emit_groups t acc b ret = (b, ret @ [])"
      by (simp add: emit_groups.simps [of t acc b ret])
    with True show ?thesis by fastforce
  next
    case False
    let ?g = "take_bit t (drop_bit (b - t) acc)"
    from less [of "b - t" "ret @ [?g]"] assms False obtain b' gs where
      g: "emit_groups t acc (b - t) (ret @ [?g]) = (b', (ret @ [?g]) @ gs)" "b' < t"
        "\<forall>g \<in> set gs. fits t g" "all_bits t gs @ nbits b' acc = nbits (b - t) acc"
      by auto
    have step: "emit_groups t acc b ret = (b', ret @ (?g # gs))"
      using False assms g(1)
      by (subst emit_groups.simps) (simp add: and_mask)
    have "nbits b acc = nbits t (drop_bit (b - t) acc) @ nbits (b - t) acc"
      using False nbits_add [of t "b - t" acc] by simp
    also have "nbits t (drop_bit (b - t) acc) = nbits t ?g"
      by (rule nbits_cong) (simp add: bit_take_bit_iff)
    finally have "all_bits t (?g # gs) @ nbits b' acc = nbits b acc"
      using g(4) by simp
    moreover have "\<forall>g \<in> set (?g # gs). fits t g" using g(3) by simp
    ultimately show ?thesis using step g(2) by blast
  qed
qed

lemma fits_drop_bit: "fits f v \<Longrightarrow> drop_bit f v = 0"
  by (simp add: fits_iff drop_bit_eq_div)

lemma convert_loop_bits:
  assumes "0 < t" "0 < f"
  shows "\<forall>v \<in> set data. fits f v \<Longrightarrow> b < t \<Longrightarrow>
    \<exists>acc' b' gs. convert_loop f t data acc b ret = Some (acc', b', ret @ gs) \<and> b' < t \<and>
      (\<forall>g \<in> set gs. fits t g) \<and>
      all_bits t gs @ nbits b' acc' = nbits b acc @ all_bits f data"
proof (induction data arbitrary: acc b ret)
  case Nil
  have "convert_loop f t [] acc b ret = Some (acc, b, ret @ [])" by simp
  with Nil show ?case by fastforce
next
  case (Cons v data)
  let ?acc = "(push_bit f acc OR v) AND (2 ^ (f + t - 1) - 1)"
  have v: "fits f v" using Cons.prems by simp
  obtain b1 gs1 where e: "emit_groups t ?acc (b + f) ret = (b1, ret @ gs1)" "b1 < t"
    "\<forall>g \<in> set gs1. fits t g" "all_bits t gs1 @ nbits b1 ?acc = nbits (b + f) ?acc"
    using emit_groups_bits [OF assms(1)] by blast
  have "\<forall>v \<in> set data. fits f v" using Cons.prems by simp
  from Cons.IH [OF this e(2), of ?acc "ret @ gs1"] obtain acc' b' gs where
    l: "convert_loop f t data ?acc b1 (ret @ gs1) = Some (acc', b', ret @ (gs1 @ gs))" "b' < t"
      "\<forall>g \<in> set gs. fits t g" "all_bits t gs @ nbits b' acc' = nbits b1 ?acc @ all_bits f data"
    by auto
  have step: "convert_loop f t (v # data) acc b ret = Some (acc', b', ret @ (gs1 @ gs))"
    using v e(1) l(1) by (simp add: fits_iff fits_drop_bit Let_def)
  have "nbits (b + f) ?acc = nbits b (drop_bit f ?acc) @ nbits f ?acc"
    by (rule nbits_add)
  also have "nbits f ?acc = nbits f v"
    by (rule nbits_cong) (use assms in \<open>auto simp: and_mask bit_simps\<close>)
  also have "nbits b (drop_bit f ?acc) = nbits b acc"
  proof (rule nbits_cong)
    fix i assume "i < b"
    moreover have "\<not> bit v (f + i)" using v bit_take_bit_iff [of f v "f + i"] by (simp add: fits_def)
    ultimately show "bit (drop_bit f ?acc) i = bit acc i"
      using Cons.prems(2) by (auto simp: and_mask bit_simps)
  qed
  finally have "all_bits t (gs1 @ gs) @ nbits b' acc' = nbits b acc @ all_bits f (v # data)"
    using e(4) l(4) by (simp flip: append_assoc) (simp add: l(4))
  moreover have "\<forall>g \<in> set (gs1 @ gs). fits t g" using e(3) l(3) by auto
  ultimately show ?case using step l(2) by blast
qed

section \<open>Regrouping and back\<close>

lemma push_bit_pad:
  assumes "b < t"
  shows "nbits t (push_bit (t - b) acc AND (2 ^ t - 1)) = nbits b acc @ replicate (t - b) False"
proof -
  have "nbits (b + (t - b)) (push_bit (t - b) acc AND (2 ^ t - 1)) =
      nbits b acc @ nbits (t - b) 0"
    unfolding nbits_add and_mask
    by (intro arg_cong2 [where f = append] nbits_cong)
      (use assms in \<open>auto simp: bit_simps\<close>)
  then show ?thesis using assms by simp
qed

lemma convertbits_pad:
  assumes "0 < t" "0 < f" "\<forall>v \<in> set data. fits f v"
  shows "\<exists>gs k. convertbits data f t True = Inr (Some gs) \<and> k < t \<and> (\<forall>g \<in> set gs. fits t g) \<and>
    all_bits t gs = all_bits f data @ replicate k False"
proof -
  obtain acc b gs where l: "convert_loop f t data 0 0 [] = Some (acc, b, gs)" "b < t"
    "\<forall>g \<in> set gs. fits t g" "all_bits t gs @ nbits b acc = all_bits f data"
    using convert_loop_bits [OF assms, of 0 0 "[]"] assms(1) by auto
  show ?thesis
  proof (cases "b = 0")
    case True
    then show ?thesis using l assms
      by (intro exI [of _ gs] exI [of _ 0]) (simp add: convertbits_def)
  next
    case False
    let ?g = "push_bit (t - b) acc AND (2 ^ t - 1)"
    have "all_bits t (gs @ [?g]) = all_bits f data @ replicate (t - b) False"
      unfolding all_bits_simps push_bit_pad [OF l(2)] using l(4) by (simp flip: append_assoc)
    moreover have "\<forall>g \<in> set (gs @ [?g]). fits t g" using l(3) by (simp add: and_mask)
    ultimately show ?thesis using l(1) False assms
      by (intro exI [of _ "gs @ [?g]"] exI [of _ "t - b"]) (simp add: convertbits_def)
  qed
qed

lemma convertbits_unpad:
  assumes "0 < f" "f \<le> t" "k < f" "\<forall>g \<in> set gs. fits f g" "\<forall>v \<in> set data. fits t v"
    and bits: "all_bits f gs = all_bits t data @ replicate k False"
  shows "convertbits gs f t False = Inr (Some data)"
proof -
  have t: "0 < t" using assms by simp
  obtain acc b vs where l: "convert_loop f t gs 0 0 [] = Some (acc, b, vs)" "b < t"
    "\<forall>v \<in> set vs. fits t v" "all_bits t vs @ nbits b acc = all_bits f gs"
    using convert_loop_bits [OF t assms(1,4), of 0 0 "[]"] t by auto
  have len: "t * length vs + b = t * length data + k"
    using arg_cong [OF l(4) [unfolded bits], of length] by simp
  have k: "k < t" using assms by simp
  have n: "length vs = length data"
    using arg_cong [OF len, of "\<lambda>x. x div t"] l(2) k t by simp
  then have b: "b = k" using len by simp
  have "all_bits t vs = all_bits t data" and z: "nbits b acc = replicate k False"
    using l(4) [unfolded bits] n by (simp_all add: append_eq_append_conv)
  then have vs: "vs = data" using n l(3) assms(5) by (intro all_bits_inj)
  have "push_bit (t - b) acc AND (2 ^ t - 1) = 0"
  proof (rule bit_eqI)
    fix i
    have "\<not> bit acc j" if "j < b" for j
      using nbits_eqD [of b acc 0 j] z b that by simp
    then show "bit (push_bit (t - b) acc AND (2 ^ t - 1)) i = bit (0 :: int) i"
      using l(2) by (auto simp: and_mask bit_simps)
  qed
  then show ?thesis using l(1) b vs assms t by (simp add: convertbits_def)
qed

text \<open>Bytes through \<open>f\<close>-bit groups, \<open>f \<le> 8\<close>, and back.\<close>

lemma convertbits_roundtrip:
  assumes "0 < f" "f \<le> t" "\<forall>v \<in> set data. fits t v"
  shows "\<exists>gs. convertbits data t f True = Inr (Some gs) \<and> (\<forall>g \<in> set gs. fits f g) \<and>
    convertbits gs f t False = Inr (Some data)"
proof -
  have "0 < t" using assms by simp
  from convertbits_pad [OF assms(1) this assms(3)] obtain gs k where
    "convertbits data t f True = Inr (Some gs)" "k < f" "\<forall>g \<in> set gs. fits f g"
    "all_bits f gs = all_bits t data @ replicate k False" by blast
  with assms show ?thesis by (blast intro: convertbits_unpad)
qed

end
