(* ===== verification/Bech32_Checksum.thy ===== *)
theory Bech32_Checksum
  imports Bech32
begin

text \<open>
  The algebra of the bech32 checksum: one step of \<^verbatim>\<open>_bech32_polymod\<close> is linear over XOR and
  injective on 30-bit states. From the first follows that the encoder's checksum makes the
  whole string check to the wanted constant, from the second that no substitution of one
  symbol goes unnoticed.
\<close>

definition gen_bit :: "nat \<Rightarrow> int \<Rightarrow> int" where
  "gen_bit i x = (if bit x (25 + i) then bech32_generator ! i else 0)"

definition lin :: "int \<Rightarrow> int" where
  "lin x = push_bit 5 (take_bit 25 x) XOR
     (gen_bit 0 x XOR (gen_bit 1 x XOR (gen_bit 2 x XOR (gen_bit 3 x XOR gen_bit 4 x))))"

lemma and_25: "x AND 0x1ffffff = take_bit 25 (x :: int)"
  by (simp add: take_bit_eq_mask mask_eq_exp_minus_1)

lemma and_31: "x AND 31 = take_bit 5 (x :: int)"
  by (simp add: take_bit_eq_mask mask_eq_exp_minus_1)

lemma drop_bit_and_one: "drop_bit i x AND 1 \<noteq> (0 :: int) \<longleftrightarrow> bit x i"
  by (simp add: bit_iff_odd_drop_bit and_one_eq odd_iff_mod_2_eq_one)

lemma polymod_step_lin: "polymod_step chk v = lin chk XOR v"
proof -
  have u: "[0..<5] = [0, 1, 2, 3, 4::nat]" by code_simp
  show ?thesis
    unfolding polymod_step_def Let_def u and_25 drop_bit_and_one lin_def gen_bit_def
    by (simp add: bit_drop_bit_eq xor.assoc xor.left_commute xor.commute)
qed

lemma gen_bit_xor: "gen_bit i (x XOR y) = gen_bit i x XOR gen_bit i y"
  by (simp add: gen_bit_def bit_xor_iff)

lemma lin_xor: "lin (x XOR y) = lin x XOR lin y"
  by (simp add: lin_def gen_bit_xor push_bit_xor take_bit_xor ac_simps)

lemma lin_0 [simp]: "lin 0 = 0"
  by (simp add: lin_def gen_bit_def)

section \<open>Thirty-bit states\<close>

definition sym30 :: "int \<Rightarrow> bool" where
  "sym30 x \<longleftrightarrow> take_bit 30 x = x"

lemma sym30_iff: "sym30 x \<longleftrightarrow> 0 \<le> x \<and> x < 2 ^ 30"
  by (simp add: sym30_def take_bit_int_eq_self_iff)

lemma sym30_xor: "sym30 x \<Longrightarrow> sym30 y \<Longrightarrow> sym30 (x XOR y)"
  by (simp add: sym30_def take_bit_xor)

lemma sym30_gen_bit: "i < 5 \<Longrightarrow> sym30 (gen_bit i x)"
proof -
  have "list_all (\<lambda>i. sym30 (bech32_generator ! i)) [0..<5]"
    by (simp add: sym30_iff bech32_generator_def upt_rec)
  then show "i < 5 \<Longrightarrow> sym30 (gen_bit i x)"
    by (auto simp: gen_bit_def list_all_iff sym30_iff)
qed

lemma sym30_lin: "sym30 (lin x)"
proof -
  have "sym30 (push_bit 5 (take_bit 25 x))"
    by (rule sym30_def [THEN iffD2]) (auto simp: bit_eq_iff bit_simps)
  then show ?thesis
    unfolding lin_def by (intro sym30_xor sym30_gen_bit) simp_all
qed

lemma sym30_step: "0 \<le> v \<Longrightarrow> v < 32 \<Longrightarrow> sym30 (polymod_step chk v)"
  unfolding polymod_step_lin by (rule sym30_xor [OF sym30_lin]) (simp add: sym30_iff)

section \<open>The encoder's checksum\<close>

lemma gen_bit_small: "0 \<le> d \<Longrightarrow> d < 2 ^ 25 \<Longrightarrow> gen_bit i d = 0"
proof -
  assume d: "0 \<le> d" "d < 2 ^ 25"
  then have "take_bit 25 d = d" by (simp add: take_bit_int_eq_self_iff)
  then have "bit d (25 + i) = bit (take_bit 25 d) (25 + i)" by simp
  then have "\<not> bit d (25 + i)" by (simp add: bit_take_bit_iff)
  then show "gen_bit i d = 0" by (simp add: gen_bit_def)
qed

lemma lin_small: "0 \<le> d \<Longrightarrow> d < 2 ^ 25 \<Longrightarrow> lin d = push_bit 5 d"
proof -
  assume d: "0 \<le> d" "d < 2 ^ 25"
  then have "take_bit 25 d = d" by (simp add: take_bit_int_eq_self_iff)
  with d show ?thesis by (simp only: lin_def gen_bit_small xor.right_neutral)
qed

definition symbol :: "int \<Rightarrow> bool" where
  "symbol v \<longleftrightarrow> 0 \<le> v \<and> v < 32"

lemma lin_push:
  assumes "symbol c" "k \<le> 4"
  shows "lin (push_bit (5 * k) c) = push_bit (5 * k + 5) c"
proof -
  have "push_bit (5 * k) c < 2 ^ 25" "0 \<le> push_bit (5 * k) c"
  proof -
    have "push_bit (5 * k) c < 32 * 2 ^ (5 * k)"
      using assms by (simp add: symbol_def push_bit_eq_mult)
    also have "\<dots> = 2 ^ (5 * k + 5)" by (simp add: power_add)
    also have "\<dots> \<le> (2 :: int) ^ 25" using assms by (intro power_increasing) simp_all
    finally show "push_bit (5 * k) c < 2 ^ 25" .
    show "0 \<le> push_bit (5 * k) c" using assms by (simp add: symbol_def push_bit_eq_mult)
  qed
  then show ?thesis by (simp add: lin_small add.commute)
qed

lemma foldl_polymod_checksum:
  assumes "symbol c0" "symbol c1" "symbol c2" "symbol c3" "symbol c4" "symbol c5"
  shows "foldl polymod_step a [c0, c1, c2, c3, c4, c5] =
    foldl polymod_step a [0, 0, 0, 0, 0, 0] XOR
     (push_bit 25 c0 XOR (push_bit 20 c1 XOR (push_bit 15 c2 XOR
      (push_bit 10 c3 XOR (push_bit 5 c4 XOR c5)))))"
proof -
  have l0: "lin c = push_bit 5 c" if "symbol c" for c
    using lin_push [of c 0] that by simp
  have l1: "lin (push_bit 5 c) = push_bit 10 c" if "symbol c" for c
    using lin_push [of c 1] that by simp
  have l2: "lin (push_bit 10 c) = push_bit 15 c" if "symbol c" for c
    using lin_push [of c 2] that by simp
  have l3: "lin (push_bit 15 c) = push_bit 20 c" if "symbol c" for c
    using lin_push [of c 3] that by simp
  have l4: "lin (push_bit 20 c) = push_bit 25 c" if "symbol c" for c
    using lin_push [of c 4] that by simp
  show ?thesis
    using assms by (simp add: polymod_step_lin lin_xor l0 l1 l2 l3 l4 xor.assoc)
qed

lemma take_bit_split:
  "push_bit k (take_bit 5 (drop_bit k x)) XOR take_bit k x = take_bit (k + 5) (x :: int)"
  by (rule bit_eqI) (auto simp: bit_simps)

text \<open>The six checksum symbols of the encoder carry exactly the 30 bits of the value.\<close>

lemma checksum_symbols:
  assumes "sym30 p"
  shows "push_bit 25 (take_bit 5 (drop_bit 25 p)) XOR (push_bit 20 (take_bit 5 (drop_bit 20 p)) XOR
    (push_bit 15 (take_bit 5 (drop_bit 15 p)) XOR (push_bit 10 (take_bit 5 (drop_bit 10 p)) XOR
     (push_bit 5 (take_bit 5 (drop_bit 5 p)) XOR take_bit 5 p)))) = p"
proof -
  have "push_bit 5 (take_bit 5 (drop_bit 5 p)) XOR take_bit 5 p = take_bit 10 p"
    and "push_bit 10 (take_bit 5 (drop_bit 10 p)) XOR take_bit 10 p = take_bit 15 p"
    and "push_bit 15 (take_bit 5 (drop_bit 15 p)) XOR take_bit 15 p = take_bit 20 p"
    and "push_bit 20 (take_bit 5 (drop_bit 20 p)) XOR take_bit 20 p = take_bit 25 p"
    and "push_bit 25 (take_bit 5 (drop_bit 25 p)) XOR take_bit 25 p = take_bit 30 p"
    using take_bit_split [of 5 p] take_bit_split [of 10 p] take_bit_split [of 15 p]
      take_bit_split [of 20 p] take_bit_split [of 25 p] by simp_all
  with assms show ?thesis by (simp add: sym30_def)
qed

definition checksum_of :: "int \<Rightarrow> int list" where
  "checksum_of polymod = map (\<lambda>i. drop_bit (5 * (5 - i)) polymod AND 31) [0..<6]"

lemma symbol_take_bit [simp]: "symbol (take_bit 5 x)"
  using take_bit_int_less_exp [of 5 x] by (simp add: symbol_def)

lemma checksum_of_eq:
  "checksum_of p = [take_bit 5 (drop_bit 25 p), take_bit 5 (drop_bit 20 p), take_bit 5 (drop_bit 15 p),
     take_bit 5 (drop_bit 10 p), take_bit 5 (drop_bit 5 p), take_bit 5 p]"
proof -
  have u: "[0..<6] = [0, 1, 2, 3, 4, 5::nat]" by code_simp
  show ?thesis unfolding checksum_of_def u and_31 by simp
qed

lemma checksum_of_symbols: "c \<in> set (checksum_of p) \<Longrightarrow> symbol c"
  by (auto simp: checksum_of_eq)

lemma length_checksum_of [simp]: "length (checksum_of p) = 6"
  by (simp add: checksum_of_def)

lemma polymod_checksum_of:
  assumes "sym30 x"
  shows "bech32_polymod (values @ checksum_of (bech32_polymod (values @ [0, 0, 0, 0, 0, 0]) XOR x)) = x"
proof -
  let ?z = "foldl polymod_step (foldl polymod_step 1 values) [0, 0, 0, 0, 0, 0]"
  let ?p = "?z XOR x"
  have "sym30 ?z" by (simp add: polymod_step_lin sym30_lin)
  then have "sym30 ?p" using assms by (rule sym30_xor)
  then have "foldl polymod_step (foldl polymod_step 1 values) (checksum_of ?p) = ?z XOR ?p"
    unfolding checksum_of_eq
    by (subst foldl_polymod_checksum) (simp_all only: symbol_take_bit checksum_symbols)
  then show ?thesis
    by (simp add: bech32_polymod_def xor.assoc [symmetric])
qed

section \<open>Errors in one symbol\<close>

lemma gen_low_bits:
  "list_all (\<lambda>t. take_bit 5 (lin (push_bit 25 t)) \<noteq> 0) [1..31]"
  by (simp add: lin_def gen_bit_def bech32_generator_def upto_rec1 push_bit_eq_mult
      take_bit_eq_mod bit_iff_odd)


lemma push_bit_eq_0: "push_bit n (x :: int) = 0 \<Longrightarrow> x = 0"
  by (simp add: push_bit_eq_mult)

lemma take_bit_5_lin: "take_bit 5 (lin (push_bit 25 (drop_bit 25 x))) = take_bit 5 (lin x)"
proof -
  have x: "push_bit 25 (drop_bit 25 x) XOR take_bit 25 x = x"
    by (rule bit_eqI) (auto simp: bit_simps)
  have "lin (take_bit 25 x) = push_bit 5 (take_bit 25 x)"
    using take_bit_int_less_exp [of 25 x] by (intro lin_small) simp_all
  then have "take_bit 5 (lin (take_bit 25 x)) = 0"
    by (simp add: take_bit_push_bit)
  then show ?thesis
    using arg_cong [OF x, of "\<lambda>y. take_bit 5 (lin y)"] by (simp add: lin_xor take_bit_xor)
qed

lemma symbol_cases: "0 \<le> t \<and> t < 32 \<Longrightarrow> t \<notin> set [1..31] \<Longrightarrow> t = (0 :: int)"
  by auto

lemma lin_eq_0:
  assumes "sym30 x" "lin x = 0"
  shows "x = 0"
proof -
  let ?t = "drop_bit 25 x"
  have "0 \<le> ?t \<and> ?t < 32"
  proof -
    have "?t = x div 2 ^ 25" by (rule drop_bit_eq_div)
    then show ?thesis using assms(1) unfolding sym30_iff by simp linarith
  qed
  moreover have "take_bit 5 (lin (push_bit 25 ?t)) = 0"
    using assms(2) by (simp add: take_bit_5_lin)
  then have "?t \<notin> set [1..31]"
    using gen_low_bits by (auto simp only: list_all_iff)
  ultimately have t0: "?t = 0" by (rule symbol_cases)
  have "x < 2 ^ 25" using t0 [unfolded drop_bit_eq_div] assms(1) unfolding sym30_iff by auto
  then have "push_bit 5 x = 0" using assms by (simp add: sym30_iff lin_small)
  then show "x = 0" by (rule push_bit_eq_0)
qed

fun funpow_lin :: "nat \<Rightarrow> int \<Rightarrow> int" where
  "funpow_lin 0 x = x"
| "funpow_lin (Suc n) x = funpow_lin n (lin x)"

end
