(* ===== verification/Bech32_Addr.thy ===== *)
theory Bech32_Addr
  imports Bech32_Bits Bech32_Checksum
begin

text \<open>
  Segwit addresses as a whole: what the decoder does on a well-formed string, and the round
  trip of \<^verbatim>\<open>pubkeyhash_to_addr_bech32\<close> and \<^verbatim>\<open>addr_bech32_to_pubkeyhash\<close>.
\<close>

section \<open>Characters\<close>

definition sym_char :: "int \<Rightarrow> char" where
  "sym_char i = bech32_alphabet ! nat i"

definition plain_char :: "char \<Rightarrow> bool" where
  "plain_char c \<longleftrightarrow> (33 :: nat) \<le> of_char c \<and> of_char c \<le> (126 :: nat) \<and> py_lower c = c"

lemma alphabet_chars:
  "list_all (\<lambda>c. plain_char c \<and> c \<noteq> CHR ''1'' \<and> utf8_char c = [byte_of (of_char c)])
     bech32_alphabet"
  by (simp add: bech32_alphabet_def plain_char_def py_lower_def utf8_char_def)

lemma alphabet_index:
  "list_all (\<lambda>i. char_index (unat (byte_of (of_char (bech32_alphabet ! i)))) bech32_alphabet = Some (int i))
     [0..<32]"
  by (simp add: bech32_alphabet_def upt_rec unat_of_nat)

lemma length_alphabet [simp]: "length bech32_alphabet = 32"
  by (simp add: bech32_alphabet_def)

lemma sym_char_mem: "symbol i \<Longrightarrow> sym_char i \<in> set bech32_alphabet"
  by (simp add: sym_char_def symbol_def nat_less_iff)

lemma sym_char_plain:
  assumes "symbol i"
  shows "plain_char (sym_char i)" "sym_char i \<noteq> CHR ''1''"
    "utf8_char (sym_char i) = [byte_of (of_char (sym_char i))]"
  using sym_char_mem [OF assms] alphabet_chars by (auto simp: list_all_iff)

lemma char_index_sym_char:
  assumes "symbol i"
  shows "char_index (unat (byte_of (of_char (sym_char i)))) bech32_alphabet = Some i"
proof -
  have "nat i < 32" using assms by (simp add: symbol_def nat_less_iff)
  then have "char_index (unat (byte_of (of_char (bech32_alphabet ! nat i)))) bech32_alphabet
      = Some (int (nat i))"
    using alphabet_index unfolding list_all_iff by (auto simp del: unat_of_nat)
  then show ?thesis using assms by (simp add: sym_char_def symbol_def)
qed

lemma array_to_codestring_symbols:
  "\<forall>i \<in> set xs. symbol i \<Longrightarrow> array_to_codestring xs = Inr (map sym_char xs)"
  by (induction xs) (simp_all add: code_char_def symbol_def sym_char_def)

lemma codestring_to_array_symbols:
  "\<forall>i \<in> set xs. symbol i \<Longrightarrow> codestring_to_array (map sym_char xs) = Inr xs"
proof (induction xs)
  case (Cons x xs)
  then have "codes_to_array (utf8_encode (map sym_char xs)) = Inr xs" "symbol x"
    by (simp_all add: codestring_to_array_def)
  then show ?case
    using char_index_sym_char [of x]
    by (simp add: codestring_to_array_def utf8_encode_def sym_char_plain(3) del: unat_of_nat)
qed (simp add: codestring_to_array_def utf8_encode_def)

lemma rfind_1_append:
  "CHR ''1'' \<notin> set ys \<Longrightarrow> rfind_1 (xs @ CHR ''1'' # ys) = Some (length xs)"
proof (induction xs)
  case Nil
  then have "rfind_1 ys = None" by (induction ys) auto
  then show ?case by simp
qed simp

section \<open>The decoder on a well-formed string\<close>

definition good_hrp :: "string \<Rightarrow> bool" where
  "good_hrp hrp \<longleftrightarrow> hrp \<noteq> [] \<and> list_all plain_char hrp"

text \<open>What the decoder does with the human-readable part and the symbols.\<close>

definition decode_symbols :: "string \<Rightarrow> int list \<Rightarrow> bool \<Rightarrow> bytes res" where
  "decode_symbols hrp data include_witver =
    (let check = bech32_polymod (hrp_expand hrp @ data)
     in if \<not> (check = 1 \<or> check = BECH32M_CONST) then Inl EncodingError
        else if hd data = 0 \<and> check \<noteq> 1 then Inl EncodingError
        else if hd data \<noteq> 0 \<and> check \<noteq> BECH32M_CONST then Inl EncodingError
        else (let data1 = but_last_n 6 data in
          bindE (convertbits (drop 1 data1) 5 8 False) (\<lambda>conv.
            case conv of
              None \<Rightarrow> Inl TypeError
            | Some groups \<Rightarrow>
                (let decoded = map word_of_int groups :: bytes in
                 if length decoded < 2 \<or> length decoded > 40 then Inl EncodingError
                 else if hd data1 > 16 then Inl EncodingError
                 else if hd data1 = 0 \<and> length decoded \<notin> {20, 32} then Inl EncodingError
                 else Inr (if include_witver
                           then word_of_int (if hd data1 \<noteq> 0 then hd data1 + 0x50 else 0)
                                # byte_of (length decoded) # decoded
                           else decoded)))))"

lemma bech32_decode_form:
  assumes "good_hrp hrp" "\<forall>i \<in> set data. symbol i"
  shows "bech32_decode (hrp @ CHR ''1'' # map sym_char data) prefix w =
    (if length data < 6 \<or> length hrp + 1 + length data > 90 \<or>
        (case prefix of None \<Rightarrow> False | Some p \<Rightarrow> p \<noteq> [] \<and> p \<noteq> hrp)
     then Inl EncodingError else decode_symbols hrp data w)"
proof -
  let ?s = "hrp @ CHR ''1'' # map sym_char data"
  have one: "plain_char (CHR ''1'')" by (simp add: plain_char_def py_lower_def)
  have plain: "\<forall>c \<in> set ?s. plain_char c"
    using assms one sym_char_plain(1) by (auto simp: good_hrp_def list_all_iff)
  then have low: "map py_lower ?s = ?s"
    by (intro map_idI) (auto simp: plain_char_def)
  have range: "\<not> list_ex (\<lambda>x. of_char x < (33 :: nat) \<or> of_char x > (126 :: nat)) ?s"
    using plain unfolding list_ex_iff plain_char_def by force
  have pos: "rfind_1 ?s = Some (length hrp)"
    using assms(2) sym_char_plain(2) by (intro rfind_1_append) force
  have t: "take (length hrp) ?s = hrp" "drop (length hrp + 1) ?s = map sym_char data" by simp_all
  have l: "(length hrp < 1 \<or> length ?s < length hrp + 7 \<or> 90 < length ?s) \<longleftrightarrow>
      (length data < 6 \<or> length hrp + 1 + length data > 90)"
    using assms(1) by (auto simp: good_hrp_def)
  have c: "codestring_to_array (map sym_char data) = Inr data"
    using assms(2) by (rule codestring_to_array_symbols)
  have "bech32_decode ?s prefix w =
      (if length data < 6 \<or> length hrp + 1 + length data > 90 then Inl EncodingError
       else if (case prefix of None \<Rightarrow> False | Some p \<Rightarrow> p \<noteq> [] \<and> p \<noteq> hrp)
       then Inl EncodingError else decode_symbols hrp data w)"
    unfolding bech32_decode_def low Let_def pos option.case t l c bindE_simps decode_symbols_def
    using range by (simp only: simp_thms if_False)
  then show ?thesis by simp
qed

section \<open>Round trip\<close>

lemma symbol_fits: "symbol = fits 5"
  by (rule ext) (simp add: symbol_def fits_iff)

lemma fits_uint_byte: "fits 8 (uint (b :: byte))"
  using uint_lt2p [of b] by (simp add: fits_iff)

text \<open>A witness program as the addresses of the library carry it.\<close>

definition witness_program :: "int \<Rightarrow> bytes \<Rightarrow> bool" where
  "witness_program witver pkh \<longleftrightarrow>
    0 \<le> witver \<and> witver \<le> 16 \<and>
    length pkh \<in> (if witver = 0 then {20, 32} else {20, 32, 40})"

lemma sym30_const: "sym30 1" "sym30 BECH32M_CONST"
  by (simp_all add: sym30_iff BECH32M_CONST_def)

lemma convertbits_length_8_5:
  assumes "convertbits (map uint (pkh :: bytes)) 8 5 True = Inr (Some gs)"
  shows "length gs \<le> (8 * length pkh + 4) div 5"
proof -
  have "\<forall>v \<in> set (map uint pkh). fits 8 v" by (simp add: fits_uint_byte)
  from convertbits_pad [of 5 8, OF _ _ this] assms obtain k where
    k: "k < 5" "all_bits 5 gs = all_bits 8 (map uint pkh) @ replicate k False" by auto
  have "5 * length gs = 8 * length pkh + k"
    using arg_cong [OF k(2), of length] by simp
  with k(1) show ?thesis by simp
qed

lemma pubkeyhash_to_addr_bech32_form:
  assumes "to_bytes p True = Inr pkh" "witness_program witver pkh"
  shows "\<exists>gs. convertbits (map uint pkh) 8 5 True = Inr (Some gs) \<and> (\<forall>g \<in> set gs. symbol g) \<and>
    convertbits gs 5 8 False = Inr (Some (map uint pkh)) \<and>
    (let data = witver # gs; x = (if witver = 0 then 1 else BECH32M_CONST)
     in pubkeyhash_to_addr_bech32 p hrp witver ''1'' 1 =
       Inr (hrp @ CHR ''1'' # map sym_char (data @
         checksum_of (bech32_polymod (hrp_expand hrp @ data @ [0, 0, 0, 0, 0, 0]) XOR x))))"
proof -
  have "\<forall>v \<in> set (map uint pkh). fits 8 v" by (simp add: fits_uint_byte)
  from convertbits_roundtrip [of 5 8, OF _ _ this] obtain gs where
    gs: "convertbits (map uint pkh) 8 5 True = Inr (Some gs)" "\<forall>g \<in> set gs. symbol g"
      "convertbits gs 5 8 False = Inr (Some (map uint pkh))"
    by (auto simp: symbol_fits)
  let ?data = "witver # gs"
  have w: "0 \<le> witver" "witver \<le> 16" "length pkh \<in> {20, 32, 40}"
    using assms(2) by (auto simp: witness_program_def split: if_splits)
  have data: "\<forall>g \<in> set ?data. symbol g" using gs(2) w by (simp add: symbol_def)
  have ds: "array_to_codestring ?data = Inr (map sym_char ?data)"
    using data by (rule array_to_codestring_symbols)
  have cs: "array_to_codestring (checksum_of q) = Inr (map sym_char (checksum_of q))" for q
    by (rule array_to_codestring_symbols) (simp add: checksum_of_symbols)
  have fold: "map (\<lambda>i. drop_bit (5 * (5 - i)) q AND 31) [0..<6] = checksum_of q" for q
    by (simp only: checksum_of_def)
  have l: "(length pkh \<notin> {20, 32, 40}) = False" "(witver > 16) = False" using w by simp_all
  have ne: "\<not> (1 = BECH32M_CONST)" by (simp add: BECH32M_CONST_def)
  have "pubkeyhash_to_addr_bech32 p hrp witver ''1'' 1 =
      Inr (hrp @ ''1'' @ map sym_char ?data @
         map sym_char (checksum_of (bech32_polymod (hrp_expand hrp @ ?data @ [0, 0, 0, 0, 0, 0])
           XOR (if witver > 0 then BECH32M_CONST else 1))))"
    unfolding pubkeyhash_to_addr_bech32_def assms(1) bindE_simps fold
    using w(1,2) by (simp only: l ne gs(1) simp_thms if_False prod.case Let_def bindE_simps
        option.case ds cs not_less if_True)
  then show ?thesis using gs w(1) by (auto simp: Let_def)
qed

lemma map_word_of_int_uint [simp]: "map word_of_int (map uint (xs :: bytes)) = xs"
  by (induction xs) simp_all

lemma bech32_roundtrip_gen:
  assumes "to_bytes p True = Inr pkh" "witness_program witver pkh" "good_hrp hrp"
    and "length hrp + 8 + (8 * length pkh + 4) div 5 \<le> 90"
    and "pr = None \<or> pr = Some hrp"
  shows "\<exists>addr. pubkeyhash_to_addr_bech32 p hrp witver ''1'' 1 = Inr addr \<and>
    bech32_decode addr pr w =
      Inr (if w then word_of_int (if witver \<noteq> 0 then witver + 0x50 else 0) #
                     byte_of (length pkh) # pkh else pkh)"
proof -
  let ?x = "if witver = 0 then 1 else BECH32M_CONST"
  obtain gs where gs: "convertbits (map uint pkh) 8 5 True = Inr (Some gs)"
    "\<forall>g \<in> set gs. symbol g" "convertbits gs 5 8 False = Inr (Some (map uint pkh))"
    and addr: "pubkeyhash_to_addr_bech32 p hrp witver ''1'' 1 =
       Inr (hrp @ CHR ''1'' # map sym_char ((witver # gs) @
         checksum_of (bech32_polymod (hrp_expand hrp @ (witver # gs) @ [0, 0, 0, 0, 0, 0]) XOR ?x)))"
    using pubkeyhash_to_addr_bech32_form [OF assms(1,2)] by (auto simp: Let_def)
  define cs where
    "cs = checksum_of (bech32_polymod (hrp_expand hrp @ (witver # gs) @ [0, 0, 0, 0, 0, 0]) XOR ?x)"
  have len: "length cs = 6" by (simp add: cs_def)
  have wp: "0 \<le> witver" "witver \<le> 16" "length pkh \<in> {20, 32, 40}"
    "witver = 0 \<Longrightarrow> length pkh \<in> {20, 32}"
    using assms(2) by (auto simp: witness_program_def split: if_splits)
  have "bech32_polymod ((hrp_expand hrp @ (witver # gs)) @
      checksum_of (bech32_polymod ((hrp_expand hrp @ (witver # gs)) @ [0, 0, 0, 0, 0, 0]) XOR ?x)) = ?x"
    by (rule polymod_checksum_of) (simp add: sym30_const)
  then have check: "bech32_polymod (hrp_expand hrp @ (witver # gs) @ cs) = ?x"
    by (simp add: cs_def)
  have syms: "\<forall>i \<in> set ((witver # gs) @ cs). symbol i"
    using gs(2) wp checksum_of_symbols by (auto simp: symbol_def cs_def)
  have "length hrp + 1 + length ((witver # gs) @ cs) \<le> 90"
    using convertbits_length_8_5 [OF gs(1)] assms(4) len by simp
  moreover have "6 \<le> length ((witver # gs) @ cs)" using len by simp
  moreover have "\<not> (case pr of None \<Rightarrow> False | Some p \<Rightarrow> p \<noteq> [] \<and> p \<noteq> hrp)"
    using assms(5) by auto
  ultimately have dec: "bech32_decode (hrp @ CHR ''1'' # map sym_char ((witver # gs) @ cs)) pr w =
      decode_symbols hrp ((witver # gs) @ cs) w"
    unfolding bech32_decode_form [OF assms(3) syms] by (simp add: not_less)
  have d1: "but_last_n 6 ((witver # gs) @ cs) = witver # gs" by (rule but_last_n_append [OF len])
  have l40: "\<not> (length pkh < 2 \<or> length pkh > 40)" using wp(3) by auto
  have "decode_symbols hrp ((witver # gs) @ cs) w =
      Inr (if w then word_of_int (if witver \<noteq> 0 then witver + 0x50 else 0) #
                     byte_of (length pkh) # pkh else pkh)"
    unfolding decode_symbols_def check d1 Let_def
    using wp l40 by (simp add: gs(3) map_word_of_int_uint [simplified] BECH32M_CONST_def)
  then show ?thesis using addr dec unfolding cs_def by simp
qed

section \<open>Properties\<close>

text \<open>C27: every witness program of 20 or 32 bytes (or of 40 bytes for versions above 0) is
  encoded by \<^verbatim>\<open>pubkeyhash_to_addr_bech32\<close> under every printable lower-case prefix that leaves
  the address at 90 characters, and \<^verbatim>\<open>addr_bech32_to_pubkeyhash\<close> decodes the address to the
  program, with the version and length bytes in front when asked for.\<close>

theorem bech32_addr_roundtrip:
  assumes "witness_program witver pkh" "good_hrp hrp"
    and "length hrp + 8 + (8 * length pkh + 4) div 5 \<le> 90"
  shows "\<exists>addr. pubkeyhash_to_addr_bech32 (PStr (hex_of pkh)) hrp witver ''1'' 1 = Inr addr \<and>
    addr_bech32_to_pubkeyhash addr None False False = Inr (PBytes pkh) \<and>
    addr_bech32_to_pubkeyhash addr (Some hrp) False True = Inr (PStr (hex_of pkh)) \<and>
    addr_bech32_to_pubkeyhash addr (Some hrp) True False =
      Inr (PBytes (word_of_int (if witver \<noteq> 0 then witver + 0x50 else 0) #
                   byte_of (length pkh) # pkh))"
  using bech32_roundtrip_gen [OF to_bytes_hex_of assms, of None False]
    bech32_roundtrip_gen [OF to_bytes_hex_of assms, of "Some hrp" False]
    bech32_roundtrip_gen [OF to_bytes_hex_of assms, of "Some hrp" True]
  by (auto simp: addr_bech32_to_pubkeyhash_def)

theorem bech32_addr_roundtrip_witness:
  "\<exists>addr. pubkeyhash_to_addr_bech32 (PStr (hex_of (replicate 20 7))) ''bc'' 0 ''1'' 1 = Inr addr \<and>
    addr_bech32_to_pubkeyhash addr None False False = Inr (PBytes (replicate 20 7)) \<and>
    addr_bech32_to_pubkeyhash addr (Some ''bc'') False True = Inr (PStr (hex_of (replicate 20 7))) \<and>
    addr_bech32_to_pubkeyhash addr (Some ''bc'') True False =
      Inr (PBytes (word_of_int (if (0 :: int) \<noteq> 0 then 0 + 0x50 else 0) #
                   byte_of (length (replicate 20 (7 :: byte))) # replicate 20 7))"
  by (rule bech32_addr_roundtrip)
    (simp_all add: witness_program_def good_hrp_def plain_char_def py_lower_def)

end
