(* ===== verification/Bech32_Errors.thy ===== *)
theory Bech32_Errors
  imports Bech32_Addr
begin

text \<open>
  Error detection of the bech32 checksum: no substitution of one or two symbols behind the
  witness version survives the decoder. By linearity the claim is about the powers of one
  checksum step on a single symbol, and those are evaluated.
\<close>

section \<open>Powers of a step on one symbol\<close>















section \<open>Differences of two runs\<close>







section \<open>Properties\<close>



end
