(* ===== verification/Script_Num.thy ===== *)
theory Script_Num
  imports BL_Prelude
begin

text \<open>
  The numbers of the script language: \<^verbatim>\<open>encode_num\<close> and \<^verbatim>\<open>decode_num\<close> of
  \<^verbatim>\<open>bitcoinlib/scripts.py\<close>, little endian with the sign in the highest bit of the last byte.
\<close>

section \<open>Definitions\<close>

text \<open>\<^verbatim>\<open>int.bit_length\<close>\<close>

fun bit_length :: "nat \<Rightarrow> nat" where
  "bit_length n = (if n = 0 then 0 else Suc (bit_length (n div 2)))"

declare bit_length.simps [simp del]

definition encode_num :: "int \<Rightarrow> bytes" where
  "encode_num num =
    (if num = 0 then []
     else (let abs_num = nat \<bar>num\<bar>;
               negative = (num < 0);
               len = (bit_length abs_num + 7) div 8;
               encoded = le_bytes len abs_num
           in if last encoded AND 0x80 \<noteq> 0 then encoded @ [if negative then 0x80 else 0]
              else if negative then butlast encoded @ [last encoded + 0x80]
              else encoded))"

definition decode_num :: "bytes \<Rightarrow> int" where
  "decode_num encoded =
    (if encoded = [] then 0
     else (let negative = (last encoded AND 0x80 \<noteq> 0);
               element = butlast encoded @ [last encoded AND 0x7f];
               num = int (le_val element)
           in if negative then - num else num))"

section \<open>The sign bit\<close>

lemma and_7f: "unat (b AND 0x7f :: byte) = unat b mod 128"
proof -
  have "b AND 0x7f = take_bit 7 b" by (simp add: take_bit_eq_mask mask_eq_exp_minus_1)
  then have "unat (b AND 0x7f) = take_bit 7 (unat b)" by (simp only: unsigned_take_bit_eq)
  then show ?thesis by (simp add: take_bit_eq_mod)
qed

lemma bit_7_iff: "bit (b :: byte) 7 \<longleftrightarrow> 128 \<le> unat b"
proof -
  have "bit b 7 \<longleftrightarrow> bit (unat b) 7" by (simp add: bit_unsigned_iff)
  also have "\<dots> \<longleftrightarrow> odd (unat b div 128)" by (simp add: bit_iff_odd)
  also have "\<dots> \<longleftrightarrow> 128 \<le> unat b"
  proof (cases "128 \<le> unat b")
    case True
    with unat_byte_lt [of b] have "unat b div 128 = 1" by (intro div_nat_eqI) simp_all
    with True show ?thesis by simp
  next
    case False
    then have "unat b div 128 = 0" by simp
    with False show ?thesis by simp
  qed
  finally show ?thesis .
qed

lemma and_80: "b AND 0x80 = (0 :: byte) \<longleftrightarrow> unat b < 128"
proof -
  have "b AND 0x80 = 0 \<longleftrightarrow> \<not> bit b 7"
    using and_exp_eq_0_iff_not_bit [of b 7] by simp
  then show ?thesis by (simp add: bit_7_iff not_le)
qed

lemma plus_80: "unat (b :: byte) < 128 \<Longrightarrow> unat (b + 0x80) = unat b + 128"
  by (subst unat_add_lem [THEN iffD1]) simp_all

section \<open>Length\<close>

lemma bit_length_0 [simp]: "bit_length 0 = 0"
  by (simp add: bit_length.simps)

lemma less_bit_length: "n < 2 ^ bit_length n"
proof (induction n rule: bit_length.induct)
  case (1 n)
  then show ?case by (cases "n = 0") (auto simp: bit_length.simps [of n])
qed

lemma bit_length_le: "0 < n \<Longrightarrow> 2 ^ (bit_length n - 1) \<le> n"
proof (induction n rule: bit_length.induct)
  case (1 n)
  show ?case
  proof (cases "n div 2 = 0")
    case True
    with 1(2) show ?thesis by (simp add: bit_length.simps [of n])
  next
    case False
    then have "2 ^ (bit_length (n div 2) - 1) \<le> n div 2" using 1 by simp
    then have "2 * 2 ^ (bit_length (n div 2) - 1) \<le> n" by linarith
    moreover have "0 < bit_length (n div 2)" using False by (simp add: bit_length.simps [of "n div 2"])
    ultimately show ?thesis
      using 1(2) by (simp add: bit_length.simps [of n] power_eq_if split: if_splits)
  qed
qed

lemma bit_length_less: "n < 2 ^ k \<Longrightarrow> bit_length n \<le> k"
proof (cases "n = 0")
  case False
  assume "n < 2 ^ k"
  then have "2 ^ (bit_length n - 1) < (2 :: nat) ^ k"
    using bit_length_le [of n] False by linarith
  then have "bit_length n - 1 < k" by simp
  then show ?thesis by simp
qed simp

definition byte_length :: "nat \<Rightarrow> nat" where
  "byte_length n = (bit_length n + 7) div 8"

lemma less_byte_length: "n < 256 ^ byte_length n"
proof -
  have "n < 2 ^ bit_length n" by (rule less_bit_length)
  also have "\<dots> \<le> 2 ^ (8 * byte_length n)"
    unfolding byte_length_def by (intro power_increasing) simp_all
  also have "\<dots> = 256 ^ byte_length n" by (simp add: power_mult)
  finally show ?thesis .
qed

lemma byte_length_le: "0 < n \<Longrightarrow> 256 ^ (byte_length n - 1) \<le> n"
proof -
  assume n: "0 < n"
  have "(256 :: nat) ^ (byte_length n - 1) = 2 ^ (8 * (byte_length n - 1))"
    by (simp add: power_mult)
  also have "\<dots> \<le> 2 ^ (bit_length n - 1)"
    unfolding byte_length_def by (intro power_increasing) simp_all
  also have "\<dots> \<le> n" using n by (rule bit_length_le)
  finally show ?thesis .
qed

lemma byte_length_pos: "0 < n \<Longrightarrow> 0 < byte_length n"
  by (simp add: byte_length_def bit_length.simps [of n])

lemma le_val_snoc: "le_val (xs @ [b]) = le_val xs + 256 ^ length xs * unat b"
  by (simp add: le_val_append)

lemma byte_length_le_val:
  assumes "b \<noteq> 0"
  shows "byte_length (le_val (xs @ [b])) = Suc (length xs)"
proof -
  let ?n = "le_val (xs @ [b])"
  have "0 < unat b" using assms by (simp add: unat_gt_0)
  then have "256 ^ length xs * 1 \<le> 256 ^ length xs * unat b" by (intro mult_le_mono2) simp
  then have lo: "256 ^ length xs \<le> ?n" unfolding le_val_snoc by linarith
  have hi: "?n < 256 ^ Suc (length xs)" using le_val_bound [of "xs @ [b]"] by simp
  have "(256 :: nat) ^ length xs < 256 ^ byte_length ?n"
    using lo less_byte_length [of ?n] by linarith
  moreover have "0 < ?n" using lo zero_less_power [of "256 :: nat" "length xs"] by linarith
  then have "(256 :: nat) ^ (byte_length ?n - 1) < 256 ^ Suc (length xs)"
    using hi byte_length_le [of ?n] by linarith
  then have "byte_length ?n - 1 < Suc (length xs)"
    by (rule power_less_imp_less_exp [rotated]) simp
  ultimately show ?thesis by simp
qed

section \<open>Encodings\<close>

text \<open>The bytes of the absolute value, with a last byte that is not zero.\<close>

lemma abs_bytes:
  assumes "0 < n"
  obtains xs b where "le_bytes (byte_length n) n = xs @ [b]" "b \<noteq> 0" "le_val (xs @ [b]) = n"
    "byte_length n = Suc (length xs)"
proof -
  let ?e = "le_bytes (byte_length n) n"
  have "?e \<noteq> []" using byte_length_pos [OF assms] length_le_bytes [of "byte_length n" n] by force
  then obtain xs b where e: "?e = xs @ [b]" by (metis append_butlast_last_id)
  have len: "byte_length n = Suc (length xs)"
    using arg_cong [OF e, of length] by simp
  have val: "le_val (xs @ [b]) = n"
    using le_val_le_bytes [OF less_byte_length [of n]] e by simp
  have "b \<noteq> 0"
  proof
    assume "b = 0"
    then have "n < 256 ^ length xs" using val le_val_bound [of xs] by (simp add: le_val_snoc)
    then show False using byte_length_le [OF assms] len by simp
  qed
  then show ?thesis using e val len that by blast
qed

lemma encode_num_0 [simp]: "encode_num 0 = []"
  by (simp add: encode_num_def)

lemma encode_num_nonzero:
  assumes "num \<noteq> 0" "le_bytes (byte_length (nat \<bar>num\<bar>)) (nat \<bar>num\<bar>) = xs @ [b]"
  shows "encode_num num =
    (if 128 \<le> unat b then xs @ [b, if num < 0 then 0x80 else 0]
     else if num < 0 then xs @ [b + 0x80] else xs @ [b])"
  unfolding encode_num_def byte_length_def [symmetric] Let_def assms(2)
  using assms(1) by (simp add: and_80 not_less)

lemma decode_num_snoc:
  "decode_num (xs @ [b]) =
    (let num = int (le_val xs + 256 ^ length xs * (unat b mod 128))
     in if 128 \<le> unat b then - num else num)"
  by (simp add: decode_num_def Let_def le_val_snoc and_7f and_80 not_less)

lemma decode_num_encode_num: "decode_num (encode_num num) = num"
proof (cases "num = 0")
  case True
  then show ?thesis by (simp add: decode_num_def)
next
  case False
  then have n: "0 < nat \<bar>num\<bar>" by simp
  from abs_bytes [OF n] obtain xs b where
    e: "le_bytes (byte_length (nat \<bar>num\<bar>)) (nat \<bar>num\<bar>) = xs @ [b]" "le_val (xs @ [b]) = nat \<bar>num\<bar>"
    by blast
  show ?thesis
  proof (cases "128 \<le> unat b")
    case True
    then have "encode_num num = (xs @ [b]) @ [if num < 0 then 0x80 else 0]"
      using encode_num_nonzero [OF False e(1)] by simp
    then show ?thesis unfolding \<open>encode_num num = _\<close> decode_num_snoc using e(2) by simp
  next
    case small: False
    then have "encode_num num = xs @ [if num < 0 then b + 0x80 else b]"
      using encode_num_nonzero [OF False e(1)] by simp
    moreover have "unat (if num < 0 then b + 0x80 else b) mod 128 = unat b"
      "128 \<le> unat (if num < 0 then b + 0x80 else b) \<longleftrightarrow> num < 0"
      using small by (simp_all add: plus_80)
    moreover have "le_val xs + 256 ^ length xs * unat b = nat \<bar>num\<bar>"
      using e(2) by (simp only: le_val_snoc)
    ultimately show ?thesis
      by (simp only: decode_num_snoc Let_def) simp
  qed
qed

text \<open>The minimal encodings: no superfluous last byte.\<close>

definition minimal_num :: "bytes \<Rightarrow> bool" where
  "minimal_num b \<longleftrightarrow> b = [] \<or> unat (last b) mod 128 \<noteq> 0 \<or>
     (butlast b \<noteq> [] \<and> 128 \<le> unat (last (butlast b)))"

lemma minimal_num_snoc:
  "minimal_num (xs @ [b]) \<longleftrightarrow> unat b mod 128 \<noteq> 0 \<or> (xs \<noteq> [] \<and> 128 \<le> unat (last xs))"
  by (simp add: minimal_num_def)

lemma minimal_num_encode_num: "minimal_num (encode_num num)"
proof (cases "num = 0")
  case False
  then have n: "0 < nat \<bar>num\<bar>" by simp
  from abs_bytes [OF n] obtain xs b where
    e: "le_bytes (byte_length (nat \<bar>num\<bar>)) (nat \<bar>num\<bar>) = xs @ [b]" "b \<noteq> 0" by blast
  have b: "unat b \<noteq> 0" using e(2) by (simp add: unat_eq_0)
  show ?thesis
  proof (cases "128 \<le> unat b")
    case True
    then have "encode_num num = (xs @ [b]) @ [if num < 0 then 0x80 else 0]"
      using encode_num_nonzero [OF False e(1)] by simp
    then show ?thesis using True by (simp only: minimal_num_snoc) simp
  next
    case small: False
    then have "encode_num num = xs @ [if num < 0 then b + 0x80 else b]"
      using encode_num_nonzero [OF False e(1)] by simp
    then show ?thesis using small b by (simp add: minimal_num_snoc plus_80)
  qed
qed (simp add: minimal_num_def)

lemma encode_num_abs:
  assumes "le_val (xs @ [b]) = nat \<bar>num\<bar>" "b \<noteq> 0"
  shows "encode_num num =
    (if 128 \<le> unat b then xs @ [b, if num < 0 then 0x80 else 0]
     else if num < 0 then xs @ [b + 0x80] else xs @ [b])"
proof (rule encode_num_nonzero)
  have "byte_length (nat \<bar>num\<bar>) = length (xs @ [b])"
    using byte_length_le_val [OF assms(2), of xs] assms(1) by simp
  then show "le_bytes (byte_length (nat \<bar>num\<bar>)) (nat \<bar>num\<bar>) = xs @ [b]"
    using le_bytes_le_val [of "xs @ [b]"] assms(1) by simp
  show "num \<noteq> 0"
  proof
    assume "num = 0"
    then have "unat b = 0" using assms(1) by (simp add: le_val_snoc)
    then show False using assms(2) by (simp add: unat_eq_0)
  qed
qed

lemma mod_128: "128 \<le> n \<Longrightarrow> n < 256 \<Longrightarrow> n mod 128 = n - (128 :: nat)"
  by (simp add: le_mod_geq)

lemma mod_128_0: "n mod 128 = 0 \<Longrightarrow> n < 256 \<Longrightarrow> n = 0 \<or> n = (128 :: nat)"
  by presburger

lemma low_bits_byte: "\<exists>c. unat (c :: byte) = unat (b :: byte) mod 128"
  using and_7f [of b] by blast

lemma encode_num_decode_num:
  assumes "minimal_num x"
  shows "encode_num (decode_num x) = x"
proof (cases x rule: rev_cases)
  case Nil
  then show ?thesis by (simp add: decode_num_def)
next
  case (snoc xs b)
  show ?thesis
  proof (cases "unat b mod 128 = 0")
    case False
    obtain c :: byte where c: "unat c = unat b mod 128" using low_bits_byte by blast
    then have c0: "c \<noteq> 0" using False by auto
    let ?n = "int (le_val (xs @ [c]))"
    have dec: "decode_num x = (if 128 \<le> unat b then - ?n else ?n)"
      unfolding snoc decode_num_snoc le_val_snoc by (simp add: c Let_def)
    have "0 < 256 ^ length xs * unat c" using False c by simp
    then have pos: "0 < le_val (xs @ [c])" unfolding le_val_snoc by linarith
    have small: "\<not> 128 \<le> unat c" by (simp add: c)
    have "encode_num (decode_num x) = xs @ [if 128 \<le> unat b then c + 0x80 else c]"
      using encode_num_abs [of xs c "decode_num x", OF _ c0] pos small unfolding dec by auto
    moreover have "(if 128 \<le> unat b then c + 0x80 else c) = b"
    proof (rule word_unat_eq_iff [THEN iffD2])
      show "unat (if 128 \<le> unat b then c + 0x80 else c) = unat b"
      proof (cases "128 \<le> unat b")
        case True
        then have "unat b mod 128 = unat b - 128"
          using mod_128 unat_byte_lt by blast
        then show ?thesis using True small plus_80 [of c] c by simp
      qed (simp add: c)
    qed
    ultimately show ?thesis using snoc by simp
  next
    case True
    then have "xs \<noteq> []" and l: "128 \<le> unat (last xs)"
      using assms unfolding snoc minimal_num_snoc by simp_all
    then obtain ys c where xs: "xs = ys @ [c]" by (metis append_butlast_last_id)
    then have c: "128 \<le> unat c" using l by simp
    have c0: "c \<noteq> 0" using c by auto
    let ?n = "int (le_val (ys @ [c]))"
    have dec: "decode_num x = (if 128 \<le> unat b then - ?n else ?n)"
      unfolding snoc decode_num_snoc by (simp add: xs True Let_def)
    have "0 < 256 ^ length ys * unat c" using c by simp
    then have pos: "0 < le_val (ys @ [c])" unfolding le_val_snoc by linarith
    have "encode_num (decode_num x) = ys @ [c, if 128 \<le> unat b then 0x80 else 0]"
      using encode_num_abs [of ys c "decode_num x", OF _ c0] pos c unfolding dec by auto
    moreover have "(if 128 \<le> unat b then 0x80 else 0) = b"
    proof (rule word_unat_eq_iff [THEN iffD2])
      show "unat (if 128 \<le> unat b then 0x80 else 0 :: byte) = unat b"
        using mod_128_0 [OF True unat_byte_lt] by auto
    qed
    ultimately show ?thesis using snoc xs by simp
  qed
qed

lemma length_encode_num:
  assumes "\<bar>num\<bar> < 2 ^ (8 * n - 1)" "0 < n"
  shows "length (encode_num num) \<le> n"
proof (cases "num = 0")
  case False
  then have pos: "0 < nat \<bar>num\<bar>" by simp
  obtain m where m: "8 * n - 1 = 8 * m + 7" "n = Suc m" using assms(2) by (cases n) auto
  from abs_bytes [OF pos] obtain xs b where
    e: "le_bytes (byte_length (nat \<bar>num\<bar>)) (nat \<bar>num\<bar>) = xs @ [b]" "b \<noteq> 0"
      "le_val (xs @ [b]) = nat \<bar>num\<bar>" "byte_length (nat \<bar>num\<bar>) = Suc (length xs)" by blast
  have "nat \<bar>num\<bar> < 2 ^ (8 * m + 7)" using assms(1) m by (simp add: nat_less_iff add.commute)
  then have lt: "le_val xs + 256 ^ length xs * unat b < 256 ^ m * 128"
    using e(3) by (simp add: le_val_snoc power_add power_mult)
  have len: "length xs \<le> m"
  proof (rule ccontr)
    assume "\<not> length xs \<le> m"
    then have "(256 :: nat) ^ Suc m \<le> 256 ^ length xs" by (intro power_increasing) simp_all
    moreover have "0 < unat b" using e(2) by (simp add: unat_gt_0)
    then have "256 ^ length xs * 1 \<le> 256 ^ length xs * unat b" by (intro mult_le_mono2) simp
    ultimately show False using lt by simp
  qed
  have "128 \<le> unat b \<Longrightarrow> length xs < m"
  proof (rule ccontr)
    assume b: "128 \<le> unat b" and "\<not> length xs < m"
    then have l: "length xs = m" using len by simp
    have "256 ^ m * 128 \<le> 256 ^ m * unat b" using b by (intro mult_le_mono2)
    then show False using lt unfolding l by linarith
  qed
  then show ?thesis using encode_num_nonzero [OF False e(1)] len m(2) by auto
qed simp

lemma abs_decode_num: "\<bar>decode_num b\<bar> < 2 ^ (8 * length b - 1) \<or> b = []"
proof (cases b rule: rev_cases)
  case (snoc xs c)
  have "le_val xs + 256 ^ length xs * (unat c mod 128) < 256 ^ length xs * 128"
  proof -
    have "256 ^ length xs * (unat c mod 128) \<le> 256 ^ length xs * 127"
      by (intro mult_le_mono2) simp
    then show ?thesis using le_val_bound [of xs] by linarith
  qed
  moreover have "(256 :: nat) ^ length xs * 128 = 2 ^ (8 * length b - 1)"
    using snoc by (simp add: power_add power_mult)
  ultimately have "le_val xs + 256 ^ length xs * (unat c mod 128) < 2 ^ (8 * length b - 1)"
    by simp
  then have "int (le_val xs + 256 ^ length xs * (unat c mod 128)) < int (2 ^ (8 * length b - 1))"
    by (rule of_nat_less_iff [THEN iffD2])
  moreover have "\<bar>decode_num b\<bar> = int (le_val xs + 256 ^ length xs * (unat c mod 128))"
    unfolding snoc decode_num_snoc Let_def by (simp only: abs_minus_cancel abs_of_nat simp_thms split: if_split)
  ultimately show ?thesis by simp
qed simp

lemma encode_num_4_bytes: "length (encode_num n) \<le> 4 \<longleftrightarrow> \<bar>n\<bar> < 2 ^ 31"
proof
  assume len: "length (encode_num n) \<le> 4"
  show "\<bar>n\<bar> < 2 ^ 31"
  proof (cases "encode_num n = []")
    case True
    then have "n = 0" using decode_num_encode_num [of n] by (simp add: decode_num_def)
    then show ?thesis by simp
  next
    case False
    then have "\<bar>n\<bar> < 2 ^ (8 * length (encode_num n) - 1)"
      using abs_decode_num [of "encode_num n"] by (simp add: decode_num_encode_num)
    also have "\<dots> \<le> (2 :: int) ^ 31" using len by (intro power_increasing) simp_all
    finally show ?thesis .
  qed
next
  assume "\<bar>n\<bar> < 2 ^ 31"
  then show "length (encode_num n) \<le> 4" by (intro length_encode_num) simp_all
qed

lemma minimal_num_iff: "minimal_num b \<longleftrightarrow> encode_num (decode_num b) = b"
  using encode_num_decode_num minimal_num_encode_num by metis

section \<open>Properties\<close>

text \<open>C39: \<^verbatim>\<open>decode_num\<close> inverts \<^verbatim>\<open>encode_num\<close> on every integer; the byte strings that
  \<^verbatim>\<open>encode_num\<close> gives back after \<^verbatim>\<open>decode_num\<close> are exactly the minimal ones, those with no
  superfluous last byte; and an integer takes at most the 4 bytes of an arithmetic operand if and
  only if its absolute value is below \<open>2 ^ 31\<close>.\<close>

theorem script_num_roundtrip:
  "decode_num (encode_num n) = n \<and>
   (minimal_num b \<longleftrightarrow> encode_num (decode_num b) = b) \<and>
   (length (encode_num n) \<le> 4 \<longleftrightarrow> \<bar>n\<bar> < 2 ^ 31)"
  by (intro conjI decode_num_encode_num minimal_num_iff encode_num_4_bytes)

end
