(* ===== verification/Codec.thy ===== *)
theory Codec
  imports BL_Prelude
begin

text \<open>
  The interface of the wire formats: a serialiser into bytes and a parser on a
  \<^verbatim>\<open>BytesIO\<close> stream that reads back what the serialiser wrote and stops right behind it.
  The lemmas of the locale are what the transaction and block parsers use of their parts:
  a counted sequence of items is read back item by item, and the format is unambiguous.
\<close>

definition adv :: "nat \<Rightarrow> stream \<Rightarrow> stream" where
  "adv n s = s\<lparr>spos := spos s + n\<rparr>"

lemma adv_adv [simp]: "adv m (adv n s) = adv (n + m) s"
  by (simp add: adv_def add.assoc)

lemma adv_0 [simp]: "adv 0 s = s"
  by (simp add: adv_def)

lemma rest_adv [simp]: "rest (adv n s) = drop n (rest s)"
  by (simp add: adv_def rest_seek)

lemma sbuf_adv [simp]: "sbuf (adv n s) = sbuf s"
  by (simp add: adv_def)

lemma spos_adv [simp]: "spos (adv n s) = spos s + n"
  by (simp add: adv_def)

lemma sread_adv: "rest s = d @ r \<Longrightarrow> length d = n \<Longrightarrow> sread n s = (d, adv n s)"
  by (simp add: sread_exact adv_def)

lemma sseek_adv: "sseek (spos s + n) s = adv n s"
  by (simp add: sseek_def adv_def)

text \<open>The loop \<^verbatim>\<open>for n in range(i, i + k): items.append(parse(stream, n))\<close>.\<close>

fun read_list :: "(nat \<Rightarrow> stream \<Rightarrow> ('a \<times> stream) res) \<Rightarrow> nat \<Rightarrow> nat \<Rightarrow> stream
    \<Rightarrow> ('a list \<times> stream) res" where
  "read_list d i 0 s = Inr ([], s)"
| "read_list d i (Suc k) s =
     bindE (d i s) (\<lambda>(x, s1). bindE (read_list d (Suc i) k s1) (\<lambda>(xs, s2). Inr (x # xs, s2)))"

text \<open>Serialising a list, item after item, with the first error of an item.\<close>

fun write_list :: "('a \<Rightarrow> bytes res) \<Rightarrow> 'a list \<Rightarrow> bytes res" where
  "write_list e [] = Inr []"
| "write_list e (x # xs) = bindE (e x) (\<lambda>b. bindE (write_list e xs) (\<lambda>bs. Inr (b @ bs)))"

fun views :: "(nat \<Rightarrow> 'a \<Rightarrow> 'b) \<Rightarrow> nat \<Rightarrow> 'a list \<Rightarrow> 'b list" where
  "views v i [] = []"
| "views v i (x # xs) = v i x # views v (Suc i) xs"

lemma length_views [simp]: "length (views v i xs) = length xs"
  by (induction xs arbitrary: i) simp_all

lemma views_const [simp]: "views (\<lambda>_ x. f x) i xs = map f xs"
  by (induction xs arbitrary: i) simp_all

lemma read_list_length: "read_list d i k s = Inr (xs, s') \<Longrightarrow> length xs = k"
  by (induction d i k s arbitrary: xs s' rule: read_list.induct)
    (auto simp: bindE_Inr_iff split: prod.splits)

locale wire_format =
  fixes enc :: "'a \<Rightarrow> bytes res"
    and dec :: "nat \<Rightarrow> stream \<Rightarrow> ('b \<times> stream) res"
    and view :: "nat \<Rightarrow> 'a \<Rightarrow> 'b"
    and valid :: "'a \<Rightarrow> bool"
  assumes enc_total: "valid x \<Longrightarrow> is_ok (enc x)"
    and dec_enc: "valid x \<Longrightarrow> enc x = Inr w \<Longrightarrow> rest s = w @ r \<Longrightarrow>
      dec i s = Inr (view i x, adv (length w) s)"
begin

lemma encE:
  assumes "valid x"
  obtains w where "enc x = Inr w"
  using enc_total [OF assms] by (cases "enc x") simp_all

text \<open>Reading a counted list back.\<close>

lemma read_list_write_list:
  "\<forall>x \<in> set xs. valid x \<Longrightarrow> write_list enc xs = Inr w \<Longrightarrow> rest s = w @ r \<Longrightarrow>
   read_list dec i (length xs) s = Inr (views view i xs, adv (length w) s)"
proof (induction xs arbitrary: w s i)
  case Nil
  then show ?case by simp
next
  case (Cons x xs)
  from Cons.prems(2) obtain w1 w2 where w: "enc x = Inr w1" "write_list enc xs = Inr w2"
    "w = w1 @ w2" by (auto simp: bindE_Inr_iff)
  from Cons.prems(1,3) w have "dec i s = Inr (view i x, adv (length w1) s)"
    by (intro dec_enc [where r = "w2 @ r"]) simp_all
  moreover have "rest (adv (length w1) s) = w2 @ r" using Cons.prems(3) w by simp
  then have "read_list dec (Suc i) (length xs) (adv (length w1) s) =
      Inr (views view (Suc i) xs, adv (length w2) (adv (length w1) s))"
    using Cons.prems(1) w by (intro Cons.IH) simp_all
  ultimately show ?case using w by simp
qed

lemma write_list_total: "\<forall>x \<in> set xs. valid x \<Longrightarrow> is_ok (write_list enc xs)"
proof (induction xs)
  case (Cons x xs)
  then obtain w1 where "enc x = Inr w1" using encE by (metis list.set_intros(1))
  moreover obtain w2 where "write_list enc xs = Inr w2"
    using Cons by (cases "write_list enc xs") simp_all
  ultimately show ?case by simp
qed simp

text \<open>No encoding is a proper prefix of another one with a different view.\<close>

lemma prefix_free:
  assumes "valid x" "valid y" "enc x = Inr v" "enc y = Inr w" "v @ r = w @ r'"
  shows "view i x = view i y \<and> v = w \<and> r = r'"
proof -
  have "dec i (mk_stream (v @ r)) = Inr (view i x, adv (length v) (mk_stream (v @ r)))"
    using assms by (intro dec_enc [where r = r]) simp_all
  moreover have "dec i (mk_stream (v @ r)) = Inr (view i y, adv (length w) (mk_stream (v @ r)))"
    using assms by (intro dec_enc [where r = r']) simp_all
  ultimately have "view i x = view i y" "length v = length w"
    by (auto simp: adv_def mk_stream_def)
  with assms(5) show ?thesis by simp
qed

end

end
