(* ===== verification/Varint.thy ===== *)
theory Varint
  imports Codec
begin

text \<open>
  CompactSize integers and length-prefixed strings: \<^verbatim>\<open>int_to_varbyteint\<close>,
  \<^verbatim>\<open>varbyteint_to_int\<close>, \<^verbatim>\<open>read_varbyteint\<close>, \<^verbatim>\<open>read_varbyteint_return\<close> and \<^verbatim>\<open>varstr\<close> of
  \<^verbatim>\<open>bitcoinlib/encoding.py\<close>. The argument types are the ones every caller uses (an
  \<^verbatim>\<open>int\<close>, a \<^verbatim>\<open>bytes\<close> object), so the type checks of the source never fire.
\<close>

section \<open>Definitions\<close>

definition int_to_varbyteint :: "int \<Rightarrow> bytes res" where
  "int_to_varbyteint inp =
    (if inp < 0xfd then int_to_le 1 inp
     else if inp < 0xffff then bindE (int_to_le 2 inp) (\<lambda>b. Inr (0xfd # b))
     else if inp < 0xffffffff then bindE (int_to_le 4 inp) (\<lambda>b. Inr (0xfe # b))
     else bindE (int_to_le 8 inp) (\<lambda>b. Inr (0xff # b)))"

text \<open>The size of the payload announced by the first byte.\<close>

definition varint_size :: "byte \<Rightarrow> nat" where
  "varint_size ni = (if ni = 253 then 2 else if ni = 254 then 4 else 8)"

definition varbyteint_to_int :: "bytes \<Rightarrow> nat \<times> nat" where
  "varbyteint_to_int byteint =
    (case byteint of
       [] \<Rightarrow> (0, 0)
     | ni # _ \<Rightarrow>
         if ni < 253 then (unat ni, 1)
         else (let size = varint_size ni
               in (be_val (rev (slice 1 (1 + size) byteint)), size + 1)))"

definition read_varbyteint :: "stream \<Rightarrow> nat \<times> stream" where
  "read_varbyteint s =
    (let pos = spos s;
         (b, s1) = sread 9 s;
         (value, size) = varbyteint_to_int b
     in (value, sseek (pos + size) s1))"

definition read_varbyteint_return :: "stream \<Rightarrow> (nat \<times> bytes) \<times> stream" where
  "read_varbyteint_return s =
    (let pos = spos s;
         (byteint, s1) = sread 9 s
     in case byteint of
          [] \<Rightarrow> ((0, []), s1)
        | ni # _ \<Rightarrow>
            if ni < 253 then ((unat ni, slice 0 1 byteint), sseek (pos + 1) s1)
            else (let size = varint_size ni;
                      varbytes = slice 1 (1 + size) byteint
                  in ((be_val (rev varbytes), slice 0 1 byteint @ varbytes),
                      sseek (pos + size + 1) s1)))"

text \<open>\<^verbatim>\<open>varstr\<close> on a byte string: a single zero byte is passed through unprefixed.\<close>

definition varstr :: "bytes \<Rightarrow> bytes res" where
  "varstr s = (if s = [0] then Inr s
               else bindE (int_to_varbyteint (int (length s))) (\<lambda>l. Inr (l @ s)))"

text \<open>
  The pair of statements \<^verbatim>\<open>size = read_varbyteint(raw); data = raw.read(size)\<close> with which
  the parsers read a length-prefixed string.
\<close>

definition read_varstr :: "stream \<Rightarrow> bytes \<times> stream" where
  "read_varstr s = (let (size, s1) = read_varbyteint s in sread size s1)"

section \<open>The encoder\<close>

lemma int_to_varbyteint_cases:
  assumes "int_to_varbyteint n = Inr w"
  obtains "0 \<le> n" "n < 0xfd" "w = le_bytes 1 (nat n)"
  | "0xfd \<le> n" "n < 0xffff" "w = 0xfd # le_bytes 2 (nat n)"
  | "0xffff \<le> n" "n < 0xffffffff" "w = 0xfe # le_bytes 4 (nat n)"
  | "0xffffffff \<le> n" "n < 2 ^ 64" "w = 0xff # le_bytes 8 (nat n)"
  using assms
  by (auto simp: int_to_varbyteint_def int_to_le_Inr_iff bindE_Inr_iff simp del: le_bytes.simps
      split: if_splits)

lemma int_to_varbyteint_ok:
  "is_ok (int_to_varbyteint n) \<longleftrightarrow> 0 \<le> n \<and> n < 2 ^ 64"
  by (auto simp: int_to_varbyteint_def int_to_le_def)

lemma int_to_varbyteint_nonempty: "int_to_varbyteint n = Inr w \<Longrightarrow> w \<noteq> []"
  by (erule int_to_varbyteint_cases) auto

lemma int_to_varbyteint_length_le: "int_to_varbyteint n = Inr w \<Longrightarrow> length w \<le> 9"
  by (erule int_to_varbyteint_cases) auto

lemma of_nat_mod_byte: "n < 256 \<Longrightarrow> byte_of (n mod 256) = byte_of n"
  by simp

section \<open>The decoder reads back what the encoder wrote\<close>

lemma slice_Suc_0 [simp]: "slice (Suc 0) (Suc n) (x # xs) = take n xs"
  by (simp add: slice_def)

lemma take_le_bytes_append [simp]: "take n (le_bytes n v @ r) = le_bytes n v"
  by simp

lemma be_val_rev_le: "v < 256 ^ n \<Longrightarrow> be_val (rev (le_bytes n v)) = v"
  by (simp add: be_val_def le_val_le_bytes)

lemma varbyteint_to_int_encoded:
  assumes "int_to_varbyteint n = Inr w"
  shows "varbyteint_to_int (take 9 (w @ r)) = (nat n, length w)"
  using assms
proof (cases rule: int_to_varbyteint_cases)
  case 1
  then have u: "unat (byte_of (nat n)) = nat n" by (intro unat_byte_of) simp
  then have lt: "byte_of (nat n) < 253" using 1 by (simp add: word_less_nat_alt del: of_nat_nat)
  have "w = [byte_of (nat n)]" using 1 by (simp add: of_nat_mod_byte nat_mod_distrib del: of_nat_nat)
  with u lt show ?thesis by (simp add: varbyteint_to_int_def del: of_nat_nat)
next
  case 2
  then show ?thesis
    by (simp add: varbyteint_to_int_def varint_size_def be_val_rev_le nat_less_iff)
next
  case 3
  then show ?thesis
    by (simp add: varbyteint_to_int_def varint_size_def be_val_rev_le nat_less_iff)
next
  case 4
  then show ?thesis
    by (simp add: varbyteint_to_int_def varint_size_def be_val_rev_le nat_less_iff)
qed

lemma read_varbyteint_alt:
  "read_varbyteint s = (fst (varbyteint_to_int (take 9 (rest s))),
     s\<lparr>spos := spos s + snd (varbyteint_to_int (take 9 (rest s)))\<rparr>)"
  by (simp add: read_varbyteint_def sread_def sseek_def Let_def split: prod.splits)

lemma read_varbyteint_encoded:
  assumes "int_to_varbyteint n = Inr w" "rest s = w @ r"
  shows "read_varbyteint s = (nat n, adv (length w) s)"
  using varbyteint_to_int_encoded [OF assms(1), of r] assms(2)
  by (simp add: read_varbyteint_alt adv_def)

interpretation varint: wire_format int_to_varbyteint "\<lambda>_ s. Inr (read_varbyteint s)"
  "\<lambda>_. nat" "\<lambda>n. 0 \<le> n \<and> n < 2 ^ 64"
  by unfold_locales (simp_all add: int_to_varbyteint_ok read_varbyteint_encoded)

lemma read_varbyteint_return_alt:
  "read_varbyteint_return s =
     (let (v, s') = read_varbyteint s in ((v, take (spos s' - spos s) (take 9 (rest s))), s'))"
proof (cases "take 9 (rest s)")
  case Nil
  then show ?thesis
    by (simp add: read_varbyteint_return_def read_varbyteint_def varbyteint_to_int_def sread_def
        sseek_def)
next
  case (Cons ni bs)
  then show ?thesis
    by (simp add: read_varbyteint_return_def read_varbyteint_def varbyteint_to_int_def sread_def
        sseek_def Let_def slice_def)
qed

section \<open>Length-prefixed strings\<close>

lemma read_varstr_varstr:
  assumes "d \<noteq> [0]" "varstr d = Inr w" "rest s = w @ r"
  shows "read_varstr s = (d, adv (length w) s)"
proof -
  from assms obtain l where l: "int_to_varbyteint (int (length d)) = Inr l" "w = l @ d"
    by (auto simp: varstr_def bindE_Inr_iff split: if_splits)
  with assms(3) have "read_varbyteint s = (length d, adv (length l) s)"
    using read_varbyteint_encoded [of "int (length d)" l s "d @ r"] by simp
  moreover have "rest (adv (length l) s) = d @ r" using assms(3) l by simp
  then have "sread (length d) (adv (length l) s) = (d, adv (length d) (adv (length l) s))"
    by (rule sread_adv) simp
  ultimately show ?thesis using l by (simp add: read_varstr_def add.commute)
qed

lemma varstr_ok: "is_ok (varstr d) \<longleftrightarrow> length d < 2 ^ 64"
proof (cases "d = [0]")
  case False
  have "is_ok (varstr d) = is_ok (int_to_varbyteint (int (length d)))"
    using False by (cases "int_to_varbyteint (int (length d))") (simp_all add: varstr_def)
  also have "\<dots> \<longleftrightarrow> length d < 2 ^ 64"
    unfolding int_to_varbyteint_ok
    by (simp only: of_nat_less_numeral_power_cancel_iff of_nat_0_le_iff simp_thms)
  finally show ?thesis .
qed (simp add: varstr_def)

interpretation varstr: wire_format varstr "\<lambda>_ s. Inr (read_varstr s)" "\<lambda>_ d. d"
  "\<lambda>d. d \<noteq> [0] \<and> length d < 2 ^ 64"
  by unfold_locales (simp_all add: varstr_ok read_varstr_varstr)

section \<open>Properties\<close>

text \<open>Every integer that fits 64 bits is encoded by \<^verbatim>\<open>int_to_varbyteint\<close>, and
  \<^verbatim>\<open>read_varbyteint\<close> on any stream that continues with the encoding returns the integer and
  leaves the stream right behind it.\<close>

theorem varint_roundtrip:
  assumes "0 \<le> n" "n < 2 ^ 64"
  shows "\<exists>w. int_to_varbyteint n = Inr w \<and>
    (\<forall>s r. rest s = w @ r \<longrightarrow> read_varbyteint s = (nat n, adv (length w) s))"
proof -
  obtain w where "int_to_varbyteint n = Inr w"
    using varint.encE [of n] assms by blast
  then show ?thesis by (blast intro: read_varbyteint_encoded)
qed

theorem varint_roundtrip_witness:
  "\<exists>w. int_to_varbyteint 70000 = Inr w \<and>
    (\<forall>s r. rest s = w @ r \<longrightarrow> read_varbyteint s = (nat 70000, adv (length w) s))"
  by (rule varint_roundtrip) simp_all

text \<open>The thresholds of \<^verbatim>\<open>int_to_varbyteint\<close> are strict, so the encodings of 0xffff and
  0xffffffff are not the shortest ones: they take 5 and 9 bytes, although the 3 and 5 byte
  forms exist and decode to the same numbers.\<close>

theorem varint_not_minimal:
  "int_to_varbyteint 0xffff = Inr [0xfe, 0xff, 0xff, 0, 0] \<and>
   varbyteint_to_int [0xfd, 0xff, 0xff] = (0xffff, 3) \<and>
   int_to_varbyteint 0xffffffff = Inr [0xff, 0xff, 0xff, 0xff, 0xff, 0, 0, 0, 0] \<and>
   varbyteint_to_int [0xfe, 0xff, 0xff, 0xff, 0xff] = (0xffffffff, 5)"
  by (simp add: int_to_varbyteint_def int_to_le_def varbyteint_to_int_def varint_size_def
      slice_def be_val_def eval_bytes)

text \<open>\<^verbatim>\<open>read_varbyteint_return\<close> and \<^verbatim>\<open>read_varbyteint\<close> agree on every stream, truncated
  ones included: the same value, the same position behind, and the extra result is exactly the
  bytes of the stream that were consumed.\<close>

theorem read_varbyteint_return_equiv:
  "read_varbyteint_return s =
     (let (v, s') = read_varbyteint s in ((v, take (spos s' - spos s) (take 9 (rest s))), s'))"
  by (rule read_varbyteint_return_alt)

end
