(* ===== verification/Der.thy ===== *)
theory Der
  imports Varint
begin

text \<open>
  DER signatures: \<^verbatim>\<open>signature_der_encode\<close>, \<^verbatim>\<open>signature_der_decode\<close> and
  \<^verbatim>\<open>signature_der_decode_bytes\<close> of \<^verbatim>\<open>bitcoinlib/encoding.py\<close>. Indexing an empty byte
  string raises \<^verbatim>\<open>IndexError\<close>.
\<close>

section \<open>Definitions\<close>

definition lstrip0 :: "bytes \<Rightarrow> bytes" where
  "lstrip0 bs = dropWhile (\<lambda>b. b = 0) bs"

text \<open>The integer part: strip leading zeros, add one if the sign bit would be set.\<close>

definition der_int :: "int \<Rightarrow> bytes res" where
  "der_int r =
    bindE (int_to_be 32 r) (\<lambda>full.
      case lstrip0 full of
        [] \<Rightarrow> Inl IndexError
      | b # bs \<Rightarrow> Inr (if b AND 0x80 \<noteq> 0 then 0 # b # bs else b # bs))"

definition signature_der_encode :: "int \<Rightarrow> int \<Rightarrow> bytes res" where
  "signature_der_encode r s =
    bindE (der_int r) (\<lambda>rb. bindE (der_int s) (\<lambda>sb.
    bindE (varstr rb) (\<lambda>vr. bindE (varstr sb) (\<lambda>vs.
    bindE (varstr (0x02 # vr @ 0x02 # vs)) (\<lambda>body. Inr (0x30 # body))))))"

definition unpack_int :: "bytes \<Rightarrow> (nat \<times> bytes) res" where
  "unpack_int sigbytes =
    (case sigbytes of
       [] \<Rightarrow> Inl IndexError
     | marker # tl1 \<Rightarrow>
         if marker \<noteq> 0x02 then Inl EncodingError
         else (let (vlen, vsize) = varbyteint_to_int tl1
               in if length (take (vsize + vlen + 1) sigbytes) \<noteq> 1 + vsize + vlen
                  then Inl EncodingError
                  else Inr (be_val (slice (1 + vsize) (1 + vsize + vlen) sigbytes),
                            drop (vsize + vlen + 1) sigbytes)))"

definition signature_der_decode :: "bytes \<Rightarrow> (nat \<times> nat) res" where
  "signature_der_decode signature0 =
    (case signature0 of
       [] \<Rightarrow> Inl IndexError
     | start # tl0 \<Rightarrow>
         if start \<noteq> 0x30 then Inl EncodingError
         else (let (siglen, size) = varbyteint_to_int tl0;
                   signature = (if length signature0 = siglen + 1 + size + 1
                                then but_last_n 1 signature0 else signature0)
               in if length signature \<noteq> siglen + 1 + size then Inl EncodingError
                  else bindE (unpack_int (drop (1 + size) signature)) (\<lambda>(r, rest1).
                       bindE (unpack_int rest1) (\<lambda>(s, rest2).
                         if rest2 \<noteq> [] then Inl EncodingError else Inr (r, s)))))"

definition signature_der_decode_bytes :: "bytes \<Rightarrow> bytes res" where
  "signature_der_decode_bytes signature =
    bindE (signature_der_decode signature) (\<lambda>(r, s).
    bindE (int_to_be 32 (int r)) (\<lambda>rb. bindE (int_to_be 32 (int s)) (\<lambda>sb. Inr (rb @ sb))))"

section \<open>Integers\<close>

lemma lstrip0_split: "\<exists>n. bs = replicate n 0 @ lstrip0 bs"
proof (induction bs)
  case (Cons b bs)
  then obtain n where "bs = replicate n 0 @ lstrip0 bs" by blast
  then show ?case
    by (cases "b = 0") (auto simp: lstrip0_def intro: exI [of _ "Suc n"] exI [of _ 0])
qed (simp add: lstrip0_def)

lemma be_val_lstrip0 [simp]: "be_val (lstrip0 bs) = be_val bs"
proof -
  obtain n where "bs = replicate n 0 @ lstrip0 bs" using lstrip0_split by blast
  then have "be_val bs = be_val (replicate n 0 @ lstrip0 bs)" by (rule arg_cong)
  then show ?thesis by (simp add: be_val_append)
qed

lemma length_lstrip0_le: "length (lstrip0 bs) \<le> length bs"
  by (simp add: lstrip0_def length_dropWhile_le)

lemma hd_lstrip0: "lstrip0 bs = b # cs \<Longrightarrow> b \<noteq> 0"
  using hd_dropWhile [of "\<lambda>b. b = 0" bs] by (simp add: lstrip0_def)

lemma be_val_zero_Cons [simp]: "be_val (0 # bs) = be_val bs"
  by (simp add: be_val_Cons)

text \<open>The DER integer of an \<open>r\<close> in range: its value, its length, and no zero byte alone.\<close>

lemma der_int_ok:
  assumes "0 < r" "r < 2 ^ 256"
  obtains rb where "der_int r = Inr rb" "int (be_val rb) = r" "0 < length rb" "length rb \<le> 33"
    "rb \<noteq> [0]"
proof -
  let ?full = "be_bytes 32 (nat r)"
  have lt: "r < 256 ^ 32" using assms by simp
  then have v: "be_val ?full = nat r"
    by (intro be_val_be_bytes) (simp add: nat_less_iff assms)
  have ne: "lstrip0 ?full \<noteq> []"
  proof
    assume "lstrip0 ?full = []"
    then have "be_val ?full = 0" by (metis be_val_lstrip0 be_val_Nil)
    with v assms show False by simp
  qed
  then obtain b bs where b: "lstrip0 ?full = b # bs" by (cases "lstrip0 ?full") auto
  then have val: "be_val (b # bs) = nat r" using v be_val_lstrip0 by metis
  have len: "length (b # bs) \<le> 32" using b length_lstrip0_le [of ?full] by simp
  have "der_int r = Inr (if b AND 0x80 \<noteq> 0 then 0 # b # bs else b # bs)"
    using b lt assms by (simp add: der_int_def int_to_be_Inr)
  then show ?thesis
    using val len hd_lstrip0 [OF b] assms
    by (intro that [of "if b AND 0x80 \<noteq> 0 then 0 # b # bs else b # bs"]) auto
qed

lemma varstr_short:
  assumes "length s < 253" "s \<noteq> [0]"
  shows "varstr s = Inr (byte_of (length s) # s)"
  using assms by (simp add: varstr_def int_to_varbyteint_def int_to_le_Inr)

lemma varbyteint_to_int_short:
  "n < 253 \<Longrightarrow> varbyteint_to_int (byte_of n # bs) = (n, 1)"
  by (simp add: varbyteint_to_int_def word_less_nat_alt unat_byte_of)

lemma unpack_int_encoded:
  assumes "length rb < 253"
  shows "unpack_int (0x02 # byte_of (length rb) # rb @ ys) = Inr (be_val rb, ys)"
  using assms by (simp add: unpack_int_def varbyteint_to_int_short slice_def)

text \<open>The frame around the two integers.\<close>

definition der_frame :: "bytes \<Rightarrow> bytes \<Rightarrow> bytes" where
  "der_frame rb sb = 0x30 # byte_of (4 + length rb + length sb) #
     0x02 # byte_of (length rb) # rb @ 0x02 # byte_of (length sb) # sb"

lemma length_der_frame [simp]: "length (der_frame rb sb) = 6 + length rb + length sb"
  by (simp add: der_frame_def)

lemma signature_der_encode_form:
  assumes "0 < r" "r < 2 ^ 256" "0 < s" "s < 2 ^ 256"
  shows "\<exists>rb sb. signature_der_encode r s = Inr (der_frame rb sb) \<and>
    int (be_val rb) = r \<and> int (be_val sb) = s \<and> length rb \<le> 33 \<and> length sb \<le> 33 \<and>
    0 < length rb \<and> 0 < length sb"
proof -
  obtain rb where rb: "der_int r = Inr rb" "int (be_val rb) = r" "0 < length rb"
    "length rb \<le> 33" "rb \<noteq> [0]" using der_int_ok [OF assms(1,2)] by blast
  obtain sb where sb: "der_int s = Inr sb" "int (be_val sb) = s" "0 < length sb"
    "length sb \<le> 33" "sb \<noteq> [0]" using der_int_ok [OF assms(3,4)] by blast
  have "signature_der_encode r s = Inr (der_frame rb sb)"
    using rb(1,4,5) sb(1,4,5) by (simp add: signature_der_encode_def varstr_short der_frame_def)
  with rb(2-4) sb(2-4) show ?thesis by blast
qed

lemma signature_der_decode_frame:
  assumes "length rb \<le> 33" "length sb \<le> 33" "length extra \<le> 1"
  shows "signature_der_decode (der_frame rb sb @ extra) = Inr (be_val rb, be_val sb)"
proof -
  let ?sig = "der_frame rb sb" and ?n = "4 + length rb + length sb"
  have n: "?n < 253" using assms by simp
  have vi: "varbyteint_to_int (byte_of ?n # ys) = (?n, 1)" for ys
    using n by (rule varbyteint_to_int_short)
  have cons: "?sig @ extra = 0x30 # byte_of ?n # (drop 2 ?sig @ extra)"
    by (simp add: der_frame_def)
  have strip: "(if length (?sig @ extra) = ?n + 1 + 1 + 1 then but_last_n 1 (?sig @ extra)
      else ?sig @ extra) = ?sig"
    using assms(3) by (cases extra) auto
  have dr: "drop (1 + 1) ?sig = 0x02 # byte_of (length rb) # rb @ 0x02 # byte_of (length sb) # sb"
    by (simp add: der_frame_def)
  have u1: "unpack_int (drop (1 + 1) ?sig) = Inr (be_val rb, 0x02 # byte_of (length sb) # sb)"
    unfolding dr using assms by (intro unpack_int_encoded) simp
  have u2: "unpack_int (0x02 # byte_of (length sb) # sb) = Inr (be_val sb, [])"
    using unpack_int_encoded [of sb "[]"] assms by simp
  have "signature_der_decode (?sig @ extra) =
      (let signature = (if length (?sig @ extra) = ?n + 1 + 1 + 1
                        then but_last_n 1 (?sig @ extra) else ?sig @ extra)
       in if length signature \<noteq> ?n + 1 + 1 then Inl EncodingError
          else bindE (unpack_int (drop (1 + 1) signature)) (\<lambda>(r, rest1).
               bindE (unpack_int rest1) (\<lambda>(s, rest2).
                 if rest2 \<noteq> [] then Inl EncodingError else Inr (r, s))))"
    unfolding signature_der_decode_def
    by (subst cons) (simp only: list.case vi prod.case Let_def cons simp_thms if_False)
  then show ?thesis unfolding strip by (simp only: Let_def u1 u2 bindE_simps prod.case) simp
qed

lemma signature_der_decode_encoded:
  assumes "signature_der_encode r s = Inr sig" "0 < r" "r < 2 ^ 256" "0 < s" "s < 2 ^ 256"
    and "length extra \<le> 1"
  shows "signature_der_decode (sig @ extra) = Inr (nat r, nat s)"
  using signature_der_encode_form [OF assms(2-5)] assms(1,6)
  by (auto simp: signature_der_decode_frame)

section \<open>Properties\<close>

text \<open>For every \<open>r\<close> and \<open>s\<close> of up to 256 bits \<^verbatim>\<open>signature_der_encode\<close> succeeds,
  and \<^verbatim>\<open>signature_der_decode\<close> reads the pair back, with and without a sighash byte behind.\<close>

theorem signature_der_roundtrip:
  assumes "0 < r" "r < 2 ^ 256" "0 < s" "s < 2 ^ 256"
  shows "\<exists>sig. signature_der_encode r s = Inr sig \<and>
    signature_der_decode sig = Inr (nat r, nat s) \<and>
    (\<forall>sighash. signature_der_decode (sig @ [sighash]) = Inr (nat r, nat s))"
proof -
  obtain sig where sig: "signature_der_encode r s = Inr sig"
    using signature_der_encode_form [OF assms] by blast
  then show ?thesis
    using signature_der_decode_encoded [OF sig assms, of "[]"]
      signature_der_decode_encoded [OF sig assms] by simp
qed

theorem signature_der_roundtrip_witness:
  "\<exists>sig. signature_der_encode 128 7 = Inr sig \<and>
    signature_der_decode sig = Inr (nat 128, nat 7) \<and>
    (\<forall>sighash. signature_der_decode (sig @ [sighash]) = Inr (nat 128, nat 7))"
  by (rule signature_der_roundtrip) simp_all

end
