(* ===== verification/Signature.thy ===== *)
theory Signature
  imports Der Py_Text
begin

text \<open>
  \<^verbatim>\<open>Signature\<close> objects of \<^verbatim>\<open>bitcoinlib/keys.py\<close>: construction, \<^verbatim>\<open>parse_bytes\<close>,
  \<^verbatim>\<open>as_der_encoded\<close> and \<^verbatim>\<open>verify\<close>. The elliptic curve operations of \<^verbatim>\<open>fastecdsa\<close> or
  \<^verbatim>\<open>ecdsa\<close> are arguments: \<open>key_point\<close> gives the public point of a public key as the
  \<^verbatim>\<open>HDKey\<close> class derives it from bytes, \<open>ecdsa_verify\<close> is the library's verification,
  \<open>ecdsa_sign\<close> its deterministic signature of a message with a private key.
\<close>

definition secp256k1_n :: nat where
  "secp256k1_n = 0xFFFFFFFFFFFFFFFFFFFFFFFFFFFFFFFEBAAEDCE6AF48A03BBFD25E8CD0364141"

definition SIGHASH_ALL :: nat where "SIGHASH_ALL = 1"

type_synonym point = "int \<times> int"

record crypto =
  c_sha256 :: "bytes \<Rightarrow> bytes"
  c_ripemd160 :: "bytes \<Rightarrow> bytes"
  c_sha1 :: "bytes \<Rightarrow> bytes"
  key_point :: "bytes \<Rightarrow> point res"
  ecdsa_verify :: "nat \<Rightarrow> nat \<Rightarrow> string \<Rightarrow> point \<Rightarrow> bool"
  ecdsa_sign :: "string \<Rightarrow> bytes \<Rightarrow> nat \<times> nat"

record signature =
  sig_r :: nat
  sig_s :: nat
  sig_hash_type :: nat
  sig_bytes :: bytes
  sig_der :: bytes
  sig_der_encoded :: bytes
  sig_public_key :: "bytes option"
  sig_point :: "point option"

text \<open>
  \<^verbatim>\<open>Signature.__init__\<close> for a signature given as bytes: the range checks of \<open>r\<close> and \<open>s\<close>, the
  length check, the public key (whose point is computed), the hash type byte (an
  \<^verbatim>\<open>OverflowError\<close> above 255) and the DER form, which is computed when none is given; without
  one \<^verbatim>\<open>_der_encoded\<close> is only the hash type byte.
\<close>

definition signature_init ::
  "crypto \<Rightarrow> nat \<Rightarrow> nat \<Rightarrow> bytes \<Rightarrow> bytes option \<Rightarrow> bytes option \<Rightarrow> nat \<Rightarrow> signature res" where
  "signature_init C r s signature der_signature public_key hash_type =
    (if r < 1 \<or> secp256k1_n \<le> r then Inl BKeyError
     else if s < 1 \<or> secp256k1_n \<le> s then Inl BKeyError
     else if signature \<noteq> [] \<and> length (hex_of signature) \<noteq> 128 then Inl BKeyError
     else
       bindE (case public_key of
                None \<Rightarrow> Inr None
              | Some k \<Rightarrow> bindE (key_point C k) (\<lambda>p. Inr (Some p))) (\<lambda>pt.
       bindE (int_to_be 1 (int hash_type)) (\<lambda>hash_type_byte.
       bindE (case der_signature of
                None \<Rightarrow> signature_der_encode (int r) (int s)
              | Some d \<Rightarrow> if d = [] then signature_der_encode (int r) (int s) else Inr d) (\<lambda>der.
       bindE (case der_signature of None \<Rightarrow> Inr [] | Some d \<Rightarrow> to_bytes (PBytes d) True) (\<lambda>der0.
         Inr \<lparr>sig_r = r, sig_s = s, sig_hash_type = hash_type, sig_bytes = signature,
              sig_der = der, sig_der_encoded = der0 @ hash_type_byte,
              sig_public_key = public_key, sig_point = pt\<rparr>)))))"

definition signature_parse_bytes :: "crypto \<Rightarrow> bytes \<Rightarrow> bytes option \<Rightarrow> signature res" where
  "signature_parse_bytes C signature public_key =
    bindE (if length signature > 64 \<and> startswith [0x30] signature
           then bindE (signature_der_decode_bytes (but_last_n 1 signature)) (\<lambda>rs.
                  Inr (rs, Some (but_last_n 1 signature), be_val (last_n 1 signature)))
           else Inr (signature, None, SIGHASH_ALL))
    (\<lambda>(sig, der_signature, hash_type).
       if length sig \<noteq> 64 then Inl BKeyError
       else signature_init C (be_val (take 32 sig)) (be_val (drop 32 sig)) sig der_signature
              public_key hash_type)"

definition as_der_encoded :: "signature \<Rightarrow> bool \<Rightarrow> bytes res" where
  "as_der_encoded s include_hash_type =
    bindE (if length (sig_der_encoded s) < 2
           then bindE (signature_der_encode (int (sig_r s)) (int (sig_s s))) (\<lambda>d.
                bindE (int_to_be 1 (int (sig_hash_type s))) (\<lambda>h. Inr (d @ h)))
           else Inr (sig_der_encoded s)) (\<lambda>enc.
      if include_hash_type then Inr enc
      else signature_der_encode (int (sig_r s)) (int (sig_s s)))"

text \<open>
  \<^verbatim>\<open>verify(message, public_key)\<close>, for a signature whose own message is not set: the message
  must not be empty and a public key must be known.
\<close>

definition signature_verify :: "crypto \<Rightarrow> signature \<Rightarrow> bytes option \<Rightarrow> bytes option \<Rightarrow> bool res" where
  "signature_verify C s message public_key =
    bindE (case public_key of
             None \<Rightarrow> Inr (sig_point s)
           | Some k \<Rightarrow> bindE (key_point C k) (\<lambda>p. Inr (Some p))) (\<lambda>pt.
      case (message, pt) of
        (Some m, Some p) \<Rightarrow>
          if m = [] then Inl BKeyError
          else Inr (ecdsa_verify C (sig_r s) (sig_s s) (hex_of m) p)
      | _ \<Rightarrow> Inl BKeyError)"

text \<open>What \<^verbatim>\<open>verify\<close> leaves in the signature: the public key and its point.\<close>

definition set_public_key :: "crypto \<Rightarrow> bytes \<Rightarrow> signature \<Rightarrow> signature res" where
  "set_public_key C k s =
    bindE (key_point C k) (\<lambda>p. Inr (s\<lparr>sig_public_key := Some k, sig_point := Some p\<rparr>))"

text \<open>
  \<^verbatim>\<open>Signature.create\<close> with a deterministic nonce, as \<^verbatim>\<open>sign\<close> calls it. The comparison with
  \<^verbatim>\<open>secp256k1_n / 2\<close> is one with a floating point number, which is \<open>2 ^ 255\<close>.
\<close>

definition signature_create ::
  "crypto \<Rightarrow> bytes \<Rightarrow> bytes \<Rightarrow> bytes \<Rightarrow> nat \<Rightarrow> bool \<Rightarrow> bool \<Rightarrow> signature res" where
  "signature_create C message secret pub_key hash_type prehashed force_canonical =
    (let message_bytes = (if \<not> prehashed \<or> length message \<noteq> 32
                          then c_sha256 C (c_sha256 C message) else message);
         (r, s0) = ecdsa_sign C (hex_of message_bytes) secret;
         s = (if s0 > 2 ^ 255 \<and> force_canonical then secp256k1_n - s0 else s0)
     in signature_init C r s [] None (Some pub_key) hash_type)"

section \<open>Lemmas\<close>

lemma secp256k1_n_lt: "secp256k1_n < 2 ^ 256"
  by (simp add: secp256k1_n_def)

lemma startswith_der_frame: "startswith [0x30] (der_frame rb sb @ ys)"
  by (simp add: startswith_def der_frame_def)

text \<open>The DER encoding of a signature in range is never taken for hexadecimal text.\<close>

lemma to_bytes_der_frame: "to_bytes (PBytes (der_frame rb sb)) True = Inr (der_frame rb sb)"
proof (rule to_bytes_bytes_id)
  show "0x02 \<in> set (der_frame rb sb)" by (simp add: der_frame_def)
qed (simp_all add: digit_val_def ascii_space_def)

lemma signature_der_decode_bytes_encoded:
  assumes "signature_der_encode (int r) (int s) = Inr der"
    and "0 < r" "r < secp256k1_n" "0 < s" "s < secp256k1_n"
  shows "signature_der_decode_bytes der = Inr (be_bytes 32 r @ be_bytes 32 s)"
proof -
  have b: "r < 2 ^ 256" "s < 2 ^ 256" using assms secp256k1_n_lt by linarith+
  have "signature_der_decode der = Inr (nat (int r), nat (int s))"
    using signature_der_decode_encoded [OF assms(1), of "[]"] assms b by simp
  then show ?thesis
    using b by (simp add: signature_der_decode_bytes_def int_to_be_def)
qed

lemma signature_parse_bytes_der:
  assumes "0 < r" "r < secp256k1_n" "0 < s" "s < secp256k1_n" "h < 256"
    and der: "signature_der_encode (int r) (int s) = Inr der" "64 \<le> length der"
  shows "signature_parse_bytes C (der @ [byte_of h]) None =
    Inr \<lparr>sig_r = r, sig_s = s, sig_hash_type = h,
         sig_bytes = be_bytes 32 r @ be_bytes 32 s,
         sig_der = der, sig_der_encoded = der @ [byte_of h],
         sig_public_key = None, sig_point = None\<rparr>"
proof -
  have b: "r < 256 ^ 32" "s < 256 ^ 32" using assms secp256k1_n_lt by (simp_all add: secp256k1_n_def)
  obtain rb sb where f: "der = der_frame rb sb"
    using signature_der_encode_form [of "int r" "int s"] assms b by auto
  have h: "be_val [byte_of h] = h" using assms(5) by (simp add: be_val_def unat_byte_of)
  have hb: "int_to_be 1 (int h) = Inr [byte_of h]"
    using assms(5) by (simp add: int_to_be_Inr be_bytes_def)
  have ne: "der \<noteq> []" using der(2) by auto
  have "signature_der_decode_bytes der = Inr (be_bytes 32 r @ be_bytes 32 s)"
    using der(1) assms(1-4) by (rule signature_der_decode_bytes_encoded)
  moreover have "signature_init C r s (be_bytes 32 r @ be_bytes 32 s) (Some der) None h =
    Inr \<lparr>sig_r = r, sig_s = s, sig_hash_type = h,
         sig_bytes = be_bytes 32 r @ be_bytes 32 s,
         sig_der = der, sig_der_encoded = der @ [byte_of h],
         sig_public_key = None, sig_point = None\<rparr>"
    using assms(1-4) ne
    by (simp add: signature_init_def hb [simplified] f to_bytes_der_frame not_le)
  ultimately show ?thesis
    using der(2) b h startswith_der_frame [of rb sb "[byte_of h]"]
    by (simp add: signature_parse_bytes_def f be_val_be_bytes)
qed

text \<open>A concrete instance of the external functions, for evaluating examples.\<close>

definition example_crypto :: crypto where
  "example_crypto = \<lparr>c_sha256 = (\<lambda>b. replicate 32 (last (0 # b))), c_ripemd160 = take 20,
     c_sha1 = take 20, key_point = (\<lambda>k. if k = [] then Inl BKeyError else Inr (uint (hd k), 0)),
     ecdsa_verify = (\<lambda>r s m p. int r = fst p), ecdsa_sign = (\<lambda>m d. (unat (hd d), 1))\<rparr>"

lemma der_int_example: "der_int (2 ^ 230) = Inr (0x40 # replicate 28 0)"
proof -
  let ?b = "replicate 3 0 @ [0x40] @ replicate 28 0 :: bytes"
  have "be_val ?b = 64 * 256 ^ 28"
    unfolding be_val_append by (simp add: be_val_def)
  then have v: "be_val ?b = nat (2 ^ 230)" by simp
  have "length ?b = 32" by simp
  then have "be_bytes 32 (nat (2 ^ 230)) = ?b"
    using be_bytes_be_val [of ?b 32] unfolding v by blast
  then show ?thesis by (simp add: der_int_def int_to_be_def lstrip0_def numeral_3_eq_3)
qed

lemma der_example:
  "signature_der_encode (int (2 ^ 230)) (int (2 ^ 230)) =
     Inr (der_frame (0x40 # replicate 28 0) (0x40 # replicate 28 0))"
  using der_int_example by (simp add: signature_der_encode_def varstr_short der_frame_def)

definition example_signature :: bytes where
  "example_signature = der_frame (0x40 # replicate 28 0) (0x40 # replicate 28 0) @ [byte_of 1]"

lemma example_signature_ok: "is_ok (signature_parse_bytes C example_signature None)"
  unfolding example_signature_def
  by (subst signature_parse_bytes_der [OF _ _ _ _ _ der_example]) (simp_all add: secp256k1_n_def)

section \<open>Properties\<close>

text \<open>A signature in range, DER encoded with any sighash byte behind, is parsed back by
  \<^verbatim>\<open>Signature.parse_bytes\<close> to its \<open>r\<close>, \<open>s\<close> and hash type, and \<^verbatim>\<open>as_der_encoded\<close> of the parsed
  object returns the bytes that were parsed; a script's signature is reproduced exactly. The 64
  bytes that the DER form must have are what \<^verbatim>\<open>parse_bytes\<close> needs to tell it from a raw one.\<close>

theorem signature_parse_roundtrip:
  assumes "0 < r" "r < secp256k1_n" "0 < s" "s < secp256k1_n" "h < 256"
    and "signature_der_encode (int r) (int s) = Inr der" "64 \<le> length der"
  shows "\<exists>sg. signature_parse_bytes C (der @ [byte_of h]) None = Inr sg \<and>
    sig_r sg = r \<and> sig_s sg = s \<and> sig_hash_type sg = h \<and>
    as_der_encoded sg True = Inr (der @ [byte_of h]) \<and> as_der_encoded sg False = Inr der"
proof -
  note p = signature_parse_bytes_der [OF assms, of C]
  have ne: "der \<noteq> []" using assms(7) by auto
  show ?thesis
    unfolding p by (rule exI, rule conjI [OF refl]) (use assms(6) ne in \<open>simp add: as_der_encoded_def Suc_le_eq\<close>)
qed

theorem signature_parse_roundtrip_witness:
  "\<exists>sg. signature_parse_bytes example_crypto (der_frame (0x40 # replicate 28 0) (0x40 # replicate 28 0) @ [byte_of 1])
      None = Inr sg \<and>
    sig_r sg = 2 ^ 230 \<and> sig_s sg = 2 ^ 230 \<and> sig_hash_type sg = 1 \<and>
    as_der_encoded sg True =
      Inr (der_frame (0x40 # replicate 28 0) (0x40 # replicate 28 0) @ [byte_of 1]) \<and>
    as_der_encoded sg False = Inr (der_frame (0x40 # replicate 28 0) (0x40 # replicate 28 0))"
  using signature_parse_roundtrip [OF _ _ _ _ _ der_example, of 1 example_crypto]
  by (simp add: secp256k1_n_def)

end
