(* ===== verification/Script_Stack.thy ===== *)
theory Script_Stack
  imports Script_Num Signature
begin

text \<open>
  The \<^verbatim>\<open>Stack\<close> class of \<^verbatim>\<open>bitcoinlib/scripts.py\<close>. A stack is a list of byte strings with its
  top first: the element \<^verbatim>\<open>self[-k]\<close> of the source is the element number \<open>k - 1\<close> of the model.
  An operation returns its Boolean result with the new stack, or the exception it raises; the
  evaluator treats an exception and \<^verbatim>\<open>False\<close> alike and never looks at the stack again.
\<close>

type_synonym stack = "bytes list"
type_synonym outcome = "(bool \<times> stack) res"

section \<open>Access to the list\<close>

definition pop :: "stack \<Rightarrow> (bytes \<times> stack) res" where
  "pop st = (case st of [] \<Rightarrow> Inl IndexError | x # xs \<Rightarrow> Inr (x, xs))"

text \<open>The distance from the top of the Python index \<open>i\<close>, negative or not.\<close>

definition from_top :: "nat \<Rightarrow> int \<Rightarrow> nat option" where
  "from_top n i = (if 0 \<le> i then (if i < int n then Some (n - 1 - nat i) else None)
                   else if - i \<le> int n then Some (nat (- i) - 1) else None)"

definition get_at :: "int \<Rightarrow> stack \<Rightarrow> bytes res" where
  "get_at i st = (case from_top (length st) i of None \<Rightarrow> Inl IndexError | Some k \<Rightarrow> Inr (st ! k))"

definition pop_at :: "int \<Rightarrow> stack \<Rightarrow> (bytes \<times> stack) res" where
  "pop_at i st = (case from_top (length st) i of
                    None \<Rightarrow> Inl IndexError
                  | Some k \<Rightarrow> Inr (st ! k, take k st @ drop (Suc k) st))"

definition pop_as_number :: "stack \<Rightarrow> (int \<times> stack) res" where
  "pop_as_number st = bindE (pop st) (\<lambda>(x, st1). Inr (decode_num x, st1))"

definition is_arithmetic :: "nat \<Rightarrow> stack \<Rightarrow> bool res" where
  "is_arithmetic items st =
    (if length st < items then Inl IndexError
     else Inr (list_all (\<lambda>i. length i \<le> 4) (take items st)))"

definition from_ints :: "int list \<Rightarrow> stack" where
  "from_ints list_ints = rev (map encode_num list_ints)"

definition as_ints :: "stack \<Rightarrow> int list" where
  "as_ints st = rev (map decode_num st)"

text \<open>The check \<^verbatim>\<open>if not self.is_arithmetic(n): return False\<close> in front of an operation.\<close>

definition arithmetic :: "nat \<Rightarrow> (stack \<Rightarrow> outcome) \<Rightarrow> stack \<Rightarrow> outcome" where
  "arithmetic n f st = bindE (is_arithmetic n st) (\<lambda>ok. if \<not> ok then Inr (False, st) else f st)"

definition true_item :: bytes where "true_item = [1]"

definition bool_item :: "bool \<Rightarrow> bytes" where
  "bool_item b = (if b then true_item else [])"

section \<open>Flow\<close>

definition op_nop :: "stack \<Rightarrow> outcome" where "op_nop st = Inr (True, st)"

definition op_verify :: "stack \<Rightarrow> outcome" where
  "op_verify st = bindE (pop st) (\<lambda>(x, st1). Inr (x \<noteq> [], st1))"

definition op_return :: "stack \<Rightarrow> outcome" where "op_return st = Inr (False, st)"

section \<open>Stack operations\<close>

definition op_2drop :: "stack \<Rightarrow> outcome" where
  "op_2drop st = bindE (pop st) (\<lambda>(_, st1). bindE (pop st1) (\<lambda>(_, st2). Inr (True, st2)))"

definition op_2dup :: "stack \<Rightarrow> outcome" where
  "op_2dup st = (if length st < 2 then Inl ValueError else Inr (True, take 2 st @ st))"

definition op_3dup :: "stack \<Rightarrow> outcome" where
  "op_3dup st = (if length st < 3 then Inl ValueError else Inr (True, take 3 st @ st))"

definition op_2over :: "stack \<Rightarrow> outcome" where
  "op_2over st = (if length st < 4 then Inl ValueError else Inr (True, take 2 (drop 2 st) @ st))"

definition op_2rot :: "stack \<Rightarrow> outcome" where
  "op_2rot st = bindE (pop_at (-6) st) (\<lambda>(a, st1). bindE (pop_at (-5) st1) (\<lambda>(b, st2).
     Inr (True, b # a # st2)))"

text \<open>\<^verbatim>\<open>self[-2:-2] = [self.pop(), self.pop()]\<close>: the two popped items, the former top first in
  Python's order, are inserted below the next two.\<close>

definition op_2swap :: "stack \<Rightarrow> outcome" where
  "op_2swap st = bindE (pop st) (\<lambda>(a, st1). bindE (pop st1) (\<lambda>(b, st2).
     Inr (True, take 2 st2 @ [b, a] @ drop 2 st2)))"

definition op_ifdup :: "stack \<Rightarrow> outcome" where
  "op_ifdup st = (case st of [] \<Rightarrow> Inl ValueError
                  | x # xs \<Rightarrow> Inr (True, if x \<noteq> [] then x # x # xs else x # xs))"

definition op_depth :: "stack \<Rightarrow> outcome" where
  "op_depth st = Inr (True, encode_num (int (length st)) # st)"

definition op_drop :: "stack \<Rightarrow> outcome" where
  "op_drop st = bindE (pop st) (\<lambda>(_, st1). Inr (True, st1))"

definition op_dup :: "stack \<Rightarrow> outcome" where
  "op_dup st = (case st of [] \<Rightarrow> Inr (False, st) | x # xs \<Rightarrow> Inr (True, x # x # xs))"

definition op_nip :: "stack \<Rightarrow> outcome" where
  "op_nip st = bindE (pop_at (-2) st) (\<lambda>(_, st1). Inr (True, st1))"

definition op_over :: "stack \<Rightarrow> outcome" where
  "op_over st = (if length st < 2 then Inl ValueError else Inr (True, st ! 1 # st))"

definition op_pick :: "stack \<Rightarrow> outcome" where
  "op_pick st = bindE (pop_as_number st) (\<lambda>(n, st1). bindE (get_at (- n) st1) (\<lambda>x.
     Inr (True, x # st1)))"

definition op_roll :: "stack \<Rightarrow> outcome" where
  "op_roll st = bindE (pop_as_number st) (\<lambda>(n, st1). bindE (pop_at (- n) st1) (\<lambda>(x, st2).
     Inr (True, x # st2)))"

definition op_rot :: "stack \<Rightarrow> outcome" where
  "op_rot st = bindE (pop_at (-3) st) (\<lambda>(x, st1). Inr (True, x # st1))"

definition op_swap :: "stack \<Rightarrow> outcome" where
  "op_swap st = bindE (pop_at (-2) st) (\<lambda>(x, st1). Inr (True, x # st1))"

definition op_tuck :: "stack \<Rightarrow> outcome" where
  "op_tuck st = bindE (get_at (-2) st) (\<lambda>x. Inr (True, x # st))"

definition op_size :: "stack \<Rightarrow> outcome" where
  "op_size st = bindE (get_at (-1) st) (\<lambda>x. Inr (True, encode_num (int (length x)) # st))"

definition op_equal :: "stack \<Rightarrow> outcome" where
  "op_equal st = bindE (pop st) (\<lambda>(a, st1). bindE (pop st1) (\<lambda>(b, st2).
     Inr (True, bool_item (a = b) # st2)))"

definition op_equalverify :: "stack \<Rightarrow> outcome" where
  "op_equalverify st = bindE (op_equal st) (\<lambda>(_, st1). op_verify st1)"

section \<open>Arithmetic\<close>

definition unary :: "(int \<Rightarrow> int) \<Rightarrow> stack \<Rightarrow> outcome" where
  "unary f = arithmetic 1 (\<lambda>st. bindE (pop_as_number st) (\<lambda>(a, st1).
     Inr (True, encode_num (f a) # st1)))"

text \<open>The first argument is the first number popped, the top of the stack.\<close>

definition binary :: "(int \<Rightarrow> int \<Rightarrow> bytes) \<Rightarrow> stack \<Rightarrow> outcome" where
  "binary f = arithmetic 2 (\<lambda>st. bindE (pop_as_number st) (\<lambda>(a, st1).
     bindE (pop_as_number st1) (\<lambda>(b, st2). Inr (True, f a b # st2))))"

definition op_1add :: "stack \<Rightarrow> outcome" where "op_1add = unary (\<lambda>a. a + 1)"
definition op_1sub :: "stack \<Rightarrow> outcome" where "op_1sub = unary (\<lambda>a. a - 1)"
definition op_negate :: "stack \<Rightarrow> outcome" where "op_negate = unary (\<lambda>a. - a)"
definition op_abs :: "stack \<Rightarrow> outcome" where "op_abs = unary abs"

definition op_not :: "stack \<Rightarrow> outcome" where
  "op_not = arithmetic 1 (\<lambda>st. bindE (pop st) (\<lambda>(a, st1). Inr (True, bool_item (a = []) # st1)))"

definition op_0notequal :: "stack \<Rightarrow> outcome" where
  "op_0notequal = arithmetic 1 (\<lambda>st. bindE (pop st) (\<lambda>(a, st1).
     Inr (True, bool_item (a \<noteq> []) # st1)))"

definition op_add :: "stack \<Rightarrow> outcome" where "op_add = binary (\<lambda>a b. encode_num (a + b))"
definition op_sub :: "stack \<Rightarrow> outcome" where "op_sub = binary (\<lambda>a b. encode_num (a - b))"

text \<open>The operations on two raw items.\<close>

definition raw_binary :: "(bytes \<Rightarrow> bytes \<Rightarrow> bool) \<Rightarrow> stack \<Rightarrow> outcome" where
  "raw_binary f = arithmetic 2 (\<lambda>st. bindE (pop st) (\<lambda>(a, st1). bindE (pop st1) (\<lambda>(b, st2).
     Inr (True, bool_item (f a b) # st2))))"

definition op_booland :: "stack \<Rightarrow> outcome" where
  "op_booland = raw_binary (\<lambda>a b. a \<noteq> [] \<and> b \<noteq> [])"
definition op_boolor :: "stack \<Rightarrow> outcome" where
  "op_boolor = raw_binary (\<lambda>a b. a \<noteq> [] \<or> b \<noteq> [])"
definition op_numequal :: "stack \<Rightarrow> outcome" where "op_numequal = raw_binary (\<lambda>a b. a = b)"
definition op_numequalverify :: "stack \<Rightarrow> outcome" where
  "op_numequalverify st = bindE (op_numequal st) (\<lambda>(_, st1). op_verify st1)"
definition op_numnotequal :: "stack \<Rightarrow> outcome" where
  "op_numnotequal = raw_binary (\<lambda>a b. a \<noteq> b)"

definition op_numlessthan :: "stack \<Rightarrow> outcome" where
  "op_numlessthan = binary (\<lambda>a b. bool_item (a < b))"
definition op_numgreaterthan :: "stack \<Rightarrow> outcome" where
  "op_numgreaterthan = binary (\<lambda>a b. bool_item (a > b))"
definition op_numlessthanorequal :: "stack \<Rightarrow> outcome" where
  "op_numlessthanorequal = binary (\<lambda>a b. bool_item (a \<le> b))"
definition op_numgreaterthanorequal :: "stack \<Rightarrow> outcome" where
  "op_numgreaterthanorequal = binary (\<lambda>a b. bool_item (a \<ge> b))"

definition op_min :: "stack \<Rightarrow> outcome" where
  "op_min = binary (\<lambda>a b. if a < b then encode_num a else encode_num b)"
definition op_max :: "stack \<Rightarrow> outcome" where
  "op_max = binary (\<lambda>a b. if a > b then encode_num a else encode_num b)"

definition op_within :: "stack \<Rightarrow> outcome" where
  "op_within = arithmetic 3 (\<lambda>st. bindE (pop_as_number st) (\<lambda>(x, st1).
     bindE (pop_as_number st1) (\<lambda>(vmin, st2). bindE (pop_as_number st2) (\<lambda>(vmax, st3).
       Inr (True, bool_item (vmin \<le> x \<and> x < vmax) # st3)))))"

section \<open>Hashes and signatures\<close>

definition hash_op :: "(bytes \<Rightarrow> bytes) \<Rightarrow> stack \<Rightarrow> outcome" where
  "hash_op h st = bindE (pop st) (\<lambda>(x, st1). Inr (True, h x # st1))"

definition op_ripemd160 :: "crypto \<Rightarrow> stack \<Rightarrow> outcome" where
  "op_ripemd160 C = hash_op (c_ripemd160 C)"
definition op_sha1 :: "crypto \<Rightarrow> stack \<Rightarrow> outcome" where "op_sha1 C = hash_op (c_sha1 C)"
definition op_sha256 :: "crypto \<Rightarrow> stack \<Rightarrow> outcome" where "op_sha256 C = hash_op (c_sha256 C)"
definition op_hash160 :: "crypto \<Rightarrow> stack \<Rightarrow> outcome" where
  "op_hash160 C = hash_op (\<lambda>x. c_ripemd160 C (c_sha256 C x))"
definition op_hash256 :: "crypto \<Rightarrow> stack \<Rightarrow> outcome" where
  "op_hash256 C st = bindE (op_sha256 C st) (\<lambda>(_, st1). bindE (op_sha256 C st1) (\<lambda>(_, st2).
     Inr (True, st2)))"

definition op_checksig :: "crypto \<Rightarrow> bytes option \<Rightarrow> stack \<Rightarrow> outcome" where
  "op_checksig C message st =
    bindE (pop st) (\<lambda>(public_key, st1). bindE (pop st1) (\<lambda>(signature, st2).
    bindE (signature_parse_bytes C signature (Some public_key)) (\<lambda>sg.
    bindE (signature_verify C sg message (Some public_key)) (\<lambda>ok.
      Inr (True, bool_item ok # st2)))))"

definition op_checksigverify :: "crypto \<Rightarrow> bytes option \<Rightarrow> stack \<Rightarrow> outcome" where
  "op_checksigverify C message st =
    bindE (op_checksig C message st) (\<lambda>(ok, st1). if ok then op_verify st1 else Inr (ok, st1))"

text \<open>\<^verbatim>\<open>for _ in range(n): items.append(self.pop())\<close>\<close>

fun pop_n :: "nat \<Rightarrow> stack \<Rightarrow> (bytes list \<times> stack) res" where
  "pop_n 0 st = Inr ([], st)"
| "pop_n (Suc n) st = bindE (pop st) (\<lambda>(x, st1). bindE (pop_n n st1) (\<lambda>(xs, st2).
     Inr (x # xs, st2)))"

text \<open>
  The loop over the public keys: the signature at \<open>sigcount\<close> is parsed for every key, the count
  goes up when it verifies, and the loop ends when all signatures have been matched.
\<close>

fun multisig_loop ::
  "crypto \<Rightarrow> bytes option \<Rightarrow> bytes list \<Rightarrow> bytes list \<Rightarrow> nat \<Rightarrow> nat res" where
  "multisig_loop C message signatures [] sigcount = Inr sigcount"
| "multisig_loop C message signatures (pubkey # pubkeys) sigcount =
     (if length signatures \<le> sigcount then Inl IndexError
      else bindE (signature_parse_bytes C (signatures ! sigcount) None) (\<lambda>s.
           bindE (signature_verify C s message (Some pubkey)) (\<lambda>ok.
             if ok then (if length signatures \<le> sigcount + 1 then Inr (sigcount + 1)
                         else multisig_loop C message signatures pubkeys (sigcount + 1))
             else multisig_loop C message signatures pubkeys sigcount)))"

definition op_checkmultisig :: "crypto \<Rightarrow> bytes option \<Rightarrow> stack \<Rightarrow> outcome" where
  "op_checkmultisig C message st =
    bindE (pop st) (\<lambda>(n, st1). bindE (pop_n (nat (decode_num n)) st1) (\<lambda>(pubkeys, st2).
    bindE (pop st2) (\<lambda>(m, st3). bindE (pop_n (nat (decode_num m)) st3) (\<lambda>(signatures, st4).
    let st5 = drop 1 st4 in
    bindE (multisig_loop C message signatures pubkeys 0) (\<lambda>sigcount.
      Inr (True, bool_item (sigcount = length signatures) # st5))))))"

definition op_checkmultisigverify :: "crypto \<Rightarrow> bytes option \<Rightarrow> stack \<Rightarrow> outcome" where
  "op_checkmultisigverify C message st =
    bindE (op_checkmultisig C message st) (\<lambda>(ok, st1). if ok then op_verify st1 else Inr (ok, st1))"

section \<open>Time locks\<close>

definition op_checklocktimeverify :: "int \<Rightarrow> int option \<Rightarrow> stack \<Rightarrow> outcome" where
  "op_checklocktimeverify sequence tx_locktime st =
    (case tx_locktime of
       None \<Rightarrow> Inr (False, st)
     | Some tl1 \<Rightarrow>
         if tl1 = 0 then Inr (False, st)
         else if sequence = 0xffffffff then Inr (False, st)
         else bindE (get_at (-1) st) (\<lambda>x. let locktime = decode_num x in
           Inr (\<not> (locktime < 0 \<or>
                 (locktime < 50000000 \<and> 50000000 < tl1 \<or> locktime > 50000000 \<and> 50000000 > tl1) \<or>
                 tl1 < locktime), st)))"

text \<open>\<^verbatim>\<open>op_checksequenceverify\<close> returns the class \<^verbatim>\<open>NotImplementedError\<close>, which is not \<^verbatim>\<open>False\<close>.\<close>

definition op_checksequenceverify :: "int \<Rightarrow> int \<Rightarrow> stack \<Rightarrow> outcome" where
  "op_checksequenceverify sequence version st = Inr (True, st)"

end
