(* ===== verification/Opcodes.thy ===== *)
theory Opcodes
  imports Main
begin

text \<open>
  The opcode table of \<^verbatim>\<open>bitcoinlib/config/opcodes.py\<close>: the list of names, where a pair gives
  the code of the name and of the names that follow it, and the dictionaries \<^verbatim>\<open>opcodenames\<close>
  and \<^verbatim>\<open>op\<close> that \<^verbatim>\<open>_set_opcodes\<close> builds from it.
\<close>

definition opcodes :: "(string \<times> nat option) list" where
  "opcodes =
    [(''OP_0'', Some 0), (''OP_PUSHDATA1'', Some 76), (''OP_PUSHDATA2'', None),
    (''OP_PUSHDATA4'', None), (''OP_1NEGATE'', None), (''OP_RESERVED'', None), (''OP_1'', None),
    (''OP_2'', None), (''OP_3'', None), (''OP_4'', None), (''OP_5'', None), (''OP_6'', None),
    (''OP_7'', None), (''OP_8'', None), (''OP_9'', None), (''OP_10'', None), (''OP_11'', None),
    (''OP_12'', None), (''OP_13'', None), (''OP_14'', None), (''OP_15'', None), (''OP_16'', None),
    (''OP_NOP'', None), (''OP_VER'', None), (''OP_IF'', None), (''OP_NOTIF'', None),
    (''OP_VERIF'', None), (''OP_VERNOTIF'', None), (''OP_ELSE'', None), (''OP_ENDIF'', None),
    (''OP_VERIFY'', None), (''OP_RETURN'', None), (''OP_TOALTSTACK'', None),
    (''OP_FROMALTSTACK'', None), (''OP_2DROP'', None), (''OP_2DUP'', None), (''OP_3DUP'', None),
    (''OP_2OVER'', None), (''OP_2ROT'', None), (''OP_2SWAP'', None), (''OP_IFDUP'', None),
    (''OP_DEPTH'', None), (''OP_DROP'', None), (''OP_DUP'', None), (''OP_NIP'', None),
    (''OP_OVER'', None), (''OP_PICK'', None), (''OP_ROLL'', None), (''OP_ROT'', None),
    (''OP_SWAP'', None), (''OP_TUCK'', None), (''OP_CAT'', None), (''OP_SUBSTR'', None),
    (''OP_LEFT'', None), (''OP_RIGHT'', None), (''OP_SIZE'', None), (''OP_INVERT'', None),
    (''OP_AND'', None), (''OP_OR'', None), (''OP_XOR'', None), (''OP_EQUAL'', None),
    (''OP_EQUALVERIFY'', None), (''OP_RESERVED1'', None), (''OP_RESERVED2'', None),
    (''OP_1ADD'', None), (''OP_1SUB'', None), (''OP_2MUL'', None), (''OP_2DIV'', None),
    (''OP_NEGATE'', None), (''OP_ABS'', None), (''OP_NOT'', None), (''OP_0NOTEQUAL'', None),
    (''OP_ADD'', None), (''OP_SUB'', None), (''OP_MUL'', None), (''OP_DIV'', None),
    (''OP_MOD'', None), (''OP_LSHIFT'', None), (''OP_RSHIFT'', None), (''OP_BOOLAND'', None),
    (''OP_BOOLOR'', None), (''OP_NUMEQUAL'', None), (''OP_NUMEQUALVERIFY'', None),
    (''OP_NUMNOTEQUAL'', None), (''OP_LESSTHAN'', None), (''OP_GREATERTHAN'', None),
    (''OP_LESSTHANOREQUAL'', None), (''OP_GREATERTHANOREQUAL'', None), (''OP_MIN'', None),
    (''OP_MAX'', None), (''OP_WITHIN'', None), (''OP_RIPEMD160'', None), (''OP_SHA1'', None),
    (''OP_SHA256'', None), (''OP_HASH160'', None), (''OP_HASH256'', None),
    (''OP_CODESEPARATOR'', None), (''OP_CHECKSIG'', None), (''OP_CHECKSIGVERIFY'', None),
    (''OP_CHECKMULTISIG'', None), (''OP_CHECKMULTISIGVERIFY'', None), (''OP_NOP1'', None),
    (''OP_CHECKLOCKTIMEVERIFY'', None), (''OP_CHECKSEQUENCEVERIFY'', None), (''OP_NOP4'', None),
    (''OP_NOP5'', None), (''OP_NOP6'', None), (''OP_NOP7'', None), (''OP_NOP8'', None),
    (''OP_NOP9'', None), (''OP_NOP10'', None), (''OP_INVALIDOPCODE'', Some 255)]"

fun set_opcodes :: "nat \<Rightarrow> (string \<times> nat option) list \<Rightarrow> (nat \<times> string) list" where
  "set_opcodes idx [] = []"
| "set_opcodes idx ((var, code) # ops) =
     (let i = (case code of Some c \<Rightarrow> c | None \<Rightarrow> idx) in (i, var) # set_opcodes (Suc i) ops)"

definition opcode_items :: "(nat \<times> string) list" where
  "opcode_items = set_opcodes 0 opcodes"

text \<open>\<^verbatim>\<open>opcodenames[code]\<close>; \<open>None\<close> is the \<^verbatim>\<open>KeyError\<close>.\<close>

definition opcodenames :: "nat \<Rightarrow> string option" where
  "opcodenames code = map_of opcode_items code"

definition lower_str :: "string \<Rightarrow> string" where
  "lower_str s = map (\<lambda>c. let n = of_char c :: nat
                          in if 65 \<le> n \<and> n \<le> 90 then char_of (n + 32) else c) s"

text \<open>\<^verbatim>\<open>op.<name>\<close>, the attributes that \<^verbatim>\<open>_set_opcodes\<close> sets.\<close>

definition op_attributes :: "(string \<times> nat) list" where
  "op_attributes = map (\<lambda>(i, var). (lower_str var, i)) opcode_items"

definition op :: "string \<Rightarrow> nat" where
  "op name = (case map_of op_attributes name of Some i \<Rightarrow> i | None \<Rightarrow> 0)"

section \<open>The tables, evaluated\<close>

lemma opcode_items_eq:
  "opcode_items =
     [(0, ''OP_0''), (76, ''OP_PUSHDATA1''), (77, ''OP_PUSHDATA2''), (78, ''OP_PUSHDATA4''),
     (79, ''OP_1NEGATE''), (80, ''OP_RESERVED''), (81, ''OP_1''), (82, ''OP_2''), (83, ''OP_3''),
     (84, ''OP_4''), (85, ''OP_5''), (86, ''OP_6''), (87, ''OP_7''), (88, ''OP_8''),
     (89, ''OP_9''), (90, ''OP_10''), (91, ''OP_11''), (92, ''OP_12''), (93, ''OP_13''),
     (94, ''OP_14''), (95, ''OP_15''), (96, ''OP_16''), (97, ''OP_NOP''), (98, ''OP_VER''),
     (99, ''OP_IF''), (100, ''OP_NOTIF''), (101, ''OP_VERIF''), (102, ''OP_VERNOTIF''),
     (103, ''OP_ELSE''), (104, ''OP_ENDIF''), (105, ''OP_VERIFY''), (106, ''OP_RETURN''),
     (107, ''OP_TOALTSTACK''), (108, ''OP_FROMALTSTACK''), (109, ''OP_2DROP''),
     (110, ''OP_2DUP''), (111, ''OP_3DUP''), (112, ''OP_2OVER''), (113, ''OP_2ROT''),
     (114, ''OP_2SWAP''), (115, ''OP_IFDUP''), (116, ''OP_DEPTH''), (117, ''OP_DROP''),
     (118, ''OP_DUP''), (119, ''OP_NIP''), (120, ''OP_OVER''), (121, ''OP_PICK''),
     (122, ''OP_ROLL''), (123, ''OP_ROT''), (124, ''OP_SWAP''), (125, ''OP_TUCK''),
     (126, ''OP_CAT''), (127, ''OP_SUBSTR''), (128, ''OP_LEFT''), (129, ''OP_RIGHT''),
     (130, ''OP_SIZE''), (131, ''OP_INVERT''), (132, ''OP_AND''), (133, ''OP_OR''),
     (134, ''OP_XOR''), (135, ''OP_EQUAL''), (136, ''OP_EQUALVERIFY''), (137, ''OP_RESERVED1''),
     (138, ''OP_RESERVED2''), (139, ''OP_1ADD''), (140, ''OP_1SUB''), (141, ''OP_2MUL''),
     (142, ''OP_2DIV''), (143, ''OP_NEGATE''), (144, ''OP_ABS''), (145, ''OP_NOT''),
     (146, ''OP_0NOTEQUAL''), (147, ''OP_ADD''), (148, ''OP_SUB''), (149, ''OP_MUL''),
     (150, ''OP_DIV''), (151, ''OP_MOD''), (152, ''OP_LSHIFT''), (153, ''OP_RSHIFT''),
     (154, ''OP_BOOLAND''), (155, ''OP_BOOLOR''), (156, ''OP_NUMEQUAL''),
     (157, ''OP_NUMEQUALVERIFY''), (158, ''OP_NUMNOTEQUAL''), (159, ''OP_LESSTHAN''),
     (160, ''OP_GREATERTHAN''), (161, ''OP_LESSTHANOREQUAL''), (162, ''OP_GREATERTHANOREQUAL''),
     (163, ''OP_MIN''), (164, ''OP_MAX''), (165, ''OP_WITHIN''), (166, ''OP_RIPEMD160''),
     (167, ''OP_SHA1''), (168, ''OP_SHA256''), (169, ''OP_HASH160''), (170, ''OP_HASH256''),
     (171, ''OP_CODESEPARATOR''), (172, ''OP_CHECKSIG''), (173, ''OP_CHECKSIGVERIFY''),
     (174, ''OP_CHECKMULTISIG''), (175, ''OP_CHECKMULTISIGVERIFY''), (176, ''OP_NOP1''),
     (177, ''OP_CHECKLOCKTIMEVERIFY''), (178, ''OP_CHECKSEQUENCEVERIFY''), (179, ''OP_NOP4''),
     (180, ''OP_NOP5''), (181, ''OP_NOP6''), (182, ''OP_NOP7''), (183, ''OP_NOP8''),
     (184, ''OP_NOP9''), (185, ''OP_NOP10''), (255, ''OP_INVALIDOPCODE'')]"
  by (simp add: opcode_items_def opcodes_def)

lemma op_attributes_eq:
  "op_attributes =
     [(''op_0'', 0), (''op_pushdata1'', 76), (''op_pushdata2'', 77), (''op_pushdata4'', 78),
     (''op_1negate'', 79), (''op_reserved'', 80), (''op_1'', 81), (''op_2'', 82), (''op_3'', 83),
     (''op_4'', 84), (''op_5'', 85), (''op_6'', 86), (''op_7'', 87), (''op_8'', 88),
     (''op_9'', 89), (''op_10'', 90), (''op_11'', 91), (''op_12'', 92), (''op_13'', 93),
     (''op_14'', 94), (''op_15'', 95), (''op_16'', 96), (''op_nop'', 97), (''op_ver'', 98),
     (''op_if'', 99), (''op_notif'', 100), (''op_verif'', 101), (''op_vernotif'', 102),
     (''op_else'', 103), (''op_endif'', 104), (''op_verify'', 105), (''op_return'', 106),
     (''op_toaltstack'', 107), (''op_fromaltstack'', 108), (''op_2drop'', 109),
     (''op_2dup'', 110), (''op_3dup'', 111), (''op_2over'', 112), (''op_2rot'', 113),
     (''op_2swap'', 114), (''op_ifdup'', 115), (''op_depth'', 116), (''op_drop'', 117),
     (''op_dup'', 118), (''op_nip'', 119), (''op_over'', 120), (''op_pick'', 121),
     (''op_roll'', 122), (''op_rot'', 123), (''op_swap'', 124), (''op_tuck'', 125),
     (''op_cat'', 126), (''op_substr'', 127), (''op_left'', 128), (''op_right'', 129),
     (''op_size'', 130), (''op_invert'', 131), (''op_and'', 132), (''op_or'', 133),
     (''op_xor'', 134), (''op_equal'', 135), (''op_equalverify'', 136), (''op_reserved1'', 137),
     (''op_reserved2'', 138), (''op_1add'', 139), (''op_1sub'', 140), (''op_2mul'', 141),
     (''op_2div'', 142), (''op_negate'', 143), (''op_abs'', 144), (''op_not'', 145),
     (''op_0notequal'', 146), (''op_add'', 147), (''op_sub'', 148), (''op_mul'', 149),
     (''op_div'', 150), (''op_mod'', 151), (''op_lshift'', 152), (''op_rshift'', 153),
     (''op_booland'', 154), (''op_boolor'', 155), (''op_numequal'', 156),
     (''op_numequalverify'', 157), (''op_numnotequal'', 158), (''op_lessthan'', 159),
     (''op_greaterthan'', 160), (''op_lessthanorequal'', 161), (''op_greaterthanorequal'', 162),
     (''op_min'', 163), (''op_max'', 164), (''op_within'', 165), (''op_ripemd160'', 166),
     (''op_sha1'', 167), (''op_sha256'', 168), (''op_hash160'', 169), (''op_hash256'', 170),
     (''op_codeseparator'', 171), (''op_checksig'', 172), (''op_checksigverify'', 173),
     (''op_checkmultisig'', 174), (''op_checkmultisigverify'', 175), (''op_nop1'', 176),
     (''op_checklocktimeverify'', 177), (''op_checksequenceverify'', 178), (''op_nop4'', 179),
     (''op_nop5'', 180), (''op_nop6'', 181), (''op_nop7'', 182), (''op_nop8'', 183),
     (''op_nop9'', 184), (''op_nop10'', 185), (''op_invalidopcode'', 255)]"
  by (simp add: op_attributes_def opcode_items_eq lower_str_def char_of_def bit_simps)

lemma op_codes [simp]:
  "op ''op_0'' = 0"
  "op ''op_pushdata1'' = 76"
  "op ''op_pushdata2'' = 77"
  "op ''op_pushdata4'' = 78"
  "op ''op_1negate'' = 79"
  "op ''op_1'' = 81"
  "op ''op_16'' = 96"
  "op ''op_if'' = 99"
  "op ''op_notif'' = 100"
  "op ''op_else'' = 103"
  "op ''op_endif'' = 104"
  "op ''op_verify'' = 105"
  "op ''op_return'' = 106"
  "op ''op_drop'' = 117"
  "op ''op_dup'' = 118"
  "op ''op_equal'' = 135"
  "op ''op_equalverify'' = 136"
  "op ''op_1add'' = 139"
  "op ''op_hash160'' = 169"
  "op ''op_checksig'' = 172"
  "op ''op_checkmultisig'' = 174"
  "op ''op_checklocktimeverify'' = 177"
  "op ''op_checksequenceverify'' = 178"
  by (simp_all add: op_def op_attributes_eq)

text \<open>No code has two names.\<close>

lemma distinct_opcodes: "distinct (map fst opcode_items)"
  by (simp add: opcode_items_eq)

end
