(* ===== verification/Script_Eval.thy ===== *)
theory Script_Eval
  imports Script_Stack Opcodes
begin

text \<open>
  Evaluation of scripts: \<^verbatim>\<open>Stack.op_if\<close>, \<^verbatim>\<open>Stack.op_notif\<close> and \<^verbatim>\<open>Script.evaluate\<close> of
  \<^verbatim>\<open>bitcoinlib/scripts.py\<close>. A command is an opcode or data; a list among the commands is a
  parsed redeem script.
\<close>

datatype cmd = Op nat | Data bytes

datatype item = Cmd cmd | Sub "cmd list"

text \<open>The parts of the dictionary \<^verbatim>\<open>env_data\<close> that the evaluator reads; a missing key is \<open>None\<close>.\<close>

record env =
  env_redeemscript :: "bytes option"
  env_sequence :: "int option"
  env_locktime :: "int option"
  env_version :: "int option"

section \<open>Conditionals\<close>

text \<open>
  The scan of \<^verbatim>\<open>op_if\<close>: the commands up to the matching \<^verbatim>\<open>OP_ENDIF\<close>, split at the
  \<^verbatim>\<open>OP_ELSE\<close>s of the same level, and the commands behind. The Boolean says whether
  \<^verbatim>\<open>current_array\<close> is \<^verbatim>\<open>false_items\<close>.
\<close>

fun if_scan :: "cmd list \<Rightarrow> cmd list \<Rightarrow> cmd list \<Rightarrow> bool \<Rightarrow> nat
    \<Rightarrow> (cmd list \<times> cmd list \<times> cmd list) option" where
  "if_scan [] true_items false_items in_false n = None"
| "if_scan (item # commands) true_items false_items in_false n =
     (let t = (if in_false then true_items else true_items @ [item]);
          f = (if in_false then false_items @ [item] else false_items)
      in if item = Op 99 \<or> item = Op 100 then if_scan commands t f in_false (n + 1)
         else if n = 1 \<and> item = Op 103 then if_scan commands true_items false_items True n
         else if item = Op 104
              then (if n = 1 then Some (true_items, false_items, commands)
                    else if_scan commands t f in_false (n - 1))
         else if_scan commands t f in_false n)"

definition op_if :: "cmd list \<Rightarrow> stack \<Rightarrow> (bool \<times> cmd list \<times> stack) res" where
  "op_if commands st =
    (case if_scan commands [] [] False 1 of
       None \<Rightarrow> Inr (False, [], st)
     | Some (true_items, false_items, commands1) \<Rightarrow>
         bindE (pop st) (\<lambda>(element, st1).
           Inr (True, (if decode_num element = 0 then false_items else true_items) @ commands1, st1)))"

definition op_notif :: "cmd list \<Rightarrow> stack \<Rightarrow> (bool \<times> cmd list \<times> stack) res" where
  "op_notif commands st =
    bindE (pop st) (\<lambda>(element, st1).
      op_if commands ((if decode_num element = 0 then [1] else [0]) # st1))"

section \<open>The methods by name\<close>

text \<open>
  What \<^verbatim>\<open>evaluate\<close> calls for a method name that \<^verbatim>\<open>dir(self.stack)\<close> has; \<open>None\<close> for a name it
  does not have. The names of the comparison methods do not occur in the opcode table.
\<close>

definition plain_methods :: "crypto \<Rightarrow> (string \<times> (stack \<Rightarrow> outcome)) list" where
  "plain_methods C =
    [(''op_nop'', op_nop), (''op_verify'', op_verify), (''op_return'', op_return),
     (''op_2drop'', op_2drop), (''op_2dup'', op_2dup), (''op_3dup'', op_3dup),
     (''op_2over'', op_2over), (''op_2rot'', op_2rot), (''op_2swap'', op_2swap),
     (''op_ifdup'', op_ifdup), (''op_depth'', op_depth), (''op_drop'', op_drop),
     (''op_dup'', op_dup), (''op_nip'', op_nip), (''op_over'', op_over), (''op_pick'', op_pick),
     (''op_roll'', op_roll), (''op_rot'', op_rot), (''op_swap'', op_swap), (''op_tuck'', op_tuck),
     (''op_size'', op_size), (''op_equal'', op_equal), (''op_equalverify'', op_equalverify),
     (''op_1add'', op_1add), (''op_1sub'', op_1sub), (''op_negate'', op_negate),
     (''op_abs'', op_abs), (''op_not'', op_not), (''op_0notequal'', op_0notequal),
     (''op_add'', op_add), (''op_sub'', op_sub), (''op_booland'', op_booland),
     (''op_boolor'', op_boolor), (''op_numequal'', op_numequal),
     (''op_numequalverify'', op_numequalverify), (''op_numnotequal'', op_numnotequal),
     (''op_numlessthan'', op_numlessthan), (''op_numgreaterthan'', op_numgreaterthan),
     (''op_numlessthanorequal'', op_numlessthanorequal),
     (''op_numgreaterthanorequal'', op_numgreaterthanorequal), (''op_min'', op_min),
     (''op_max'', op_max), (''op_within'', op_within), (''op_ripemd160'', op_ripemd160 C),
     (''op_sha1'', op_sha1 C), (''op_sha256'', op_sha256 C), (''op_hash160'', op_hash160 C),
     (''op_hash256'', op_hash256 C), (''op_nop1'', op_nop), (''op_nop4'', op_nop),
     (''op_nop5'', op_nop), (''op_nop6'', op_nop), (''op_nop7'', op_nop), (''op_nop8'', op_nop),
     (''op_nop9'', op_nop), (''op_nop10'', op_nop)]"

definition need :: "'a option \<Rightarrow> 'a res" where
  "need x = (case x of None \<Rightarrow> Inl KeyError | Some v \<Rightarrow> Inr v)"

definition env_methods ::
  "crypto \<Rightarrow> bytes option \<Rightarrow> env \<Rightarrow> (string \<times> (stack \<Rightarrow> outcome)) list" where
  "env_methods C message e =
    [(''op_checksig'', op_checksig C message),
     (''op_checksigverify'', op_checksigverify C message),
     (''op_checkmultisig'', \<lambda>st. bindE (op_checkmultisig C message st) (\<lambda>(_, st1).
        bindE (op_verify st1) (\<lambda>(r, st2). bindE (need (env_redeemscript e)) (\<lambda>rs.
          Inr (r, rs # st2))))),
     (''op_checkmultisigverify'', \<lambda>st. bindE (op_checkmultisigverify C message st) (\<lambda>(r, st1).
        bindE (need (env_redeemscript e)) (\<lambda>rs. Inr (r, rs # st1)))),
     (''op_checklocktimeverify'', \<lambda>st. bindE (need (env_sequence e)) (\<lambda>s.
        op_checklocktimeverify s (env_locktime e) st)),
     (''op_checksequenceverify'', \<lambda>st. bindE (need (env_sequence e)) (\<lambda>s.
        bindE (need (env_version e)) (\<lambda>v. op_checksequenceverify s v st)))]"

definition stack_method ::
  "crypto \<Rightarrow> bytes option \<Rightarrow> env \<Rightarrow> string \<Rightarrow> (stack \<Rightarrow> outcome) option" where
  "stack_method C message e name = map_of (plain_methods C @ env_methods C message e) name"

section \<open>The evaluator\<close>

text \<open>
  One turn of the loop. \<open>Inr None\<close> is \<^verbatim>\<open>return False\<close>, which includes every exception of a stack
  method; an exception outside the \<^verbatim>\<open>try\<close> block leaves \<^verbatim>\<open>evaluate\<close>.
\<close>

definition eval_step ::
  "crypto \<Rightarrow> bytes option \<Rightarrow> env \<Rightarrow> cmd \<Rightarrow> cmd list \<Rightarrow> stack \<Rightarrow> (cmd list \<times> stack) option res" where
  "eval_step C message e command commands st =
    (case command of
       Data d \<Rightarrow> Inr (Some (commands, d # st))
     | Op c \<Rightarrow>
         if c = op ''op_0'' then Inr (Some (commands, encode_num 0 # st))
         else if c = op ''op_1negate'' then Inr (Some (commands, encode_num (-1) # st))
         else if op ''op_1'' \<le> c \<and> c \<le> op ''op_16''
         then Inr (Some (commands, encode_num (int c - 80) # st))
         else if c = op ''op_if'' \<or> c = op ''op_notif''
         then bindE (if c = op ''op_if'' then op_if commands st else op_notif commands st)
                (\<lambda>(ok, commands1, st1). Inr (if ok then Some (commands1, st1) else None))
         else (case opcodenames c of
                 None \<Rightarrow> Inl KeyError
               | Some name \<Rightarrow>
                   (case stack_method C message e (lower_str name) of
                      None \<Rightarrow> Inl ScriptError
                    | Some m \<Rightarrow> (case m st of
                                   Inr (True, st1) \<Rightarrow> Inr (Some (commands, st1))
                                 | _ \<Rightarrow> Inr None))))"

lemma if_scan_length:
  "if_scan cs t f b n = Some (t', f', r) \<Longrightarrow>
   length t' + length f' + length r < length cs + length t + length f"
  by (induction cs t f b n rule: if_scan.induct)
    (fastforce simp: Let_def split: if_splits)+

lemma op_if_length: "op_if cs st = Inr (True, cs', st') \<Longrightarrow> length cs' < length cs"
  by (auto simp: op_if_def bindE_Inr_iff dest!: if_scan_length split: option.splits if_splits)

lemma op_notif_length: "op_notif cs st = Inr (True, cs', st') \<Longrightarrow> length cs' < length cs"
  by (auto simp: op_notif_def bindE_Inr_iff dest: op_if_length)

lemma eval_step_length:
  "eval_step C m e c cs st = Inr (Some (cs', st')) \<Longrightarrow> length cs' \<le> length cs"
  by (auto simp: eval_step_def bindE_Inr_iff dest: op_if_length op_notif_length
      split: cmd.splits if_splits option.splits sum.splits prod.splits bool.splits)

function eval_loop :: "crypto \<Rightarrow> bytes option \<Rightarrow> env \<Rightarrow> cmd list \<Rightarrow> stack \<Rightarrow> stack option res" where
  "eval_loop C m e [] st = Inr (Some st)"
| "eval_loop C m e (c # cs) st =
     (case eval_step C m e c cs st of
        Inl err \<Rightarrow> Inl err
      | Inr None \<Rightarrow> Inr None
      | Inr (Some (cs1, st1)) \<Rightarrow> eval_loop C m e cs1 st1)"
  by pat_completeness auto
termination
  by (relation "measure (\<lambda>(C, m, e, cs, st). length cs)")
    (auto dest: eval_step_length simp: le_imp_less_Suc)

definition flatten_commands :: "item list \<Rightarrow> cmd list" where
  "flatten_commands commands = concat (map (\<lambda>c. case c of Cmd d \<Rightarrow> [d] | Sub l \<Rightarrow> l) commands)"

definition evaluate :: "crypto \<Rightarrow> item list \<Rightarrow> bytes option \<Rightarrow> env \<Rightarrow> bool res" where
  "evaluate C commands message e =
    bindE (eval_loop C message e (flatten_commands commands) []) (\<lambda>r.
      Inr (case r of
             None \<Rightarrow> False
           | Some [] \<Rightarrow> False
           | Some (x # _) \<Rightarrow> x \<noteq> []))"

end
