(* ===== verification/Script_Rules.thy ===== *)
theory Script_Rules
  imports Script_Eval "HOL-Library.Sublist"
begin

text \<open>
  What evaluation does on the scripts the library signs and verifies: the conditionals, a
  payment to a public key hash and a bare multisignature script; and the comparison opcodes,
  which the evaluator cannot run.
\<close>

section \<open>Single steps\<close>

lemmas method_tables = stack_method_def plain_methods_def env_methods_def

lemma methods [simp]:
  "stack_method C m e ''op_dup'' = Some op_dup"
  "stack_method C m e ''op_hash160'' = Some (op_hash160 C)"
  "stack_method C m e ''op_equalverify'' = Some op_equalverify"
  "stack_method C m e ''op_checksig'' = Some (op_checksig C m)"
  by (simp_all add: method_tables)

lemma method_checkmultisig [simp]:
  "stack_method C m e ''op_checkmultisig'' = Some (\<lambda>st.
     bindE (op_checkmultisig C m st) (\<lambda>(_, st1).
       bindE (op_verify st1) (\<lambda>(r, st2). bindE (need (env_redeemscript e)) (\<lambda>rs.
         Inr (r, rs # st2)))))"
  by (simp add: method_tables)

lemma names [simp]:
  "opcodenames 118 = Some ''OP_DUP''" "opcodenames 169 = Some ''OP_HASH160''"
  "opcodenames 136 = Some ''OP_EQUALVERIFY''" "opcodenames 172 = Some ''OP_CHECKSIG''"
  "opcodenames 174 = Some ''OP_CHECKMULTISIG''"
  "opcodenames 159 = Some ''OP_LESSTHAN''" "opcodenames 160 = Some ''OP_GREATERTHAN''"
  "opcodenames 161 = Some ''OP_LESSTHANOREQUAL''" "opcodenames 162 = Some ''OP_GREATERTHANOREQUAL''"
  by (simp_all add: opcodenames_def opcode_items_eq)

lemma lower_names [simp]:
  "lower_str ''OP_DUP'' = ''op_dup''" "lower_str ''OP_HASH160'' = ''op_hash160''"
  "lower_str ''OP_EQUALVERIFY'' = ''op_equalverify''" "lower_str ''OP_CHECKSIG'' = ''op_checksig''"
  "lower_str ''OP_CHECKMULTISIG'' = ''op_checkmultisig''"
  "lower_str ''OP_LESSTHAN'' = ''op_lessthan''" "lower_str ''OP_GREATERTHAN'' = ''op_greaterthan''"
  "lower_str ''OP_LESSTHANOREQUAL'' = ''op_lessthanorequal''"
  "lower_str ''OP_GREATERTHANOREQUAL'' = ''op_greaterthanorequal''"
  by (simp_all add: lower_str_def char_of_def bit_simps)

lemma eval_step_data [simp]: "eval_step C m e (Data d) cs st = Inr (Some (cs, d # st))"
  by (simp add: eval_step_def)

lemma eval_step_number:
  "81 \<le> n \<Longrightarrow> n \<le> 96 \<Longrightarrow>
   eval_step C m e (Op n) cs st = Inr (Some (cs, encode_num (int n - 80) # st))"
  by (simp add: eval_step_def)

lemma eval_loop_data:
  "eval_loop C m e (map Data ds @ cs) st = eval_loop C m e cs (rev ds @ st)"
  by (induction ds arbitrary: st) simp_all

section \<open>Conditionals\<close>

text \<open>The nesting of a block: every \<^verbatim>\<open>OP_IF\<close> is closed and no \<^verbatim>\<open>OP_ELSE\<close> stands outside.\<close>

fun level_ok :: "nat \<Rightarrow> cmd list \<Rightarrow> bool" where
  "level_ok n [] = (n = 0)"
| "level_ok n (c # cs) =
     (if c = Op 99 \<or> c = Op 100 then level_ok (Suc n) cs
      else if c = Op 104 then n \<noteq> 0 \<and> level_ok (n - 1) cs
      else if c = Op 103 then n \<noteq> 0 \<and> level_ok n cs
      else level_ok n cs)"

lemma if_scan_block:
  "level_ok k cs \<Longrightarrow> if_scan (cs @ r) t f b (Suc k) =
     if_scan r (if b then t else t @ cs) (if b then f @ cs else f) b 1"
  by (induction k cs arbitrary: t f rule: level_ok.induct)
    (auto simp: Let_def split: if_splits)

lemma if_scan_branches:
  assumes "level_ok 0 t" "level_ok 0 f"
  shows "if_scan (t @ Op 103 # f @ Op 104 # r) [] [] False 1 = Some (t, f, r)"
  using if_scan_block [OF assms(1), of "Op 103 # f @ Op 104 # r" "[]" "[]" False]
    if_scan_block [OF assms(2), of "Op 104 # r" t "[]" True]
  by (simp add: Let_def)

lemma op_if_branches:
  assumes "level_ok 0 t" "level_ok 0 f"
  shows "op_if (t @ Op 103 # f @ Op 104 # r) (x # st) =
    Inr (True, (if decode_num x = 0 then f else t) @ r, st)"
  using if_scan_branches [OF assms] by (simp add: op_if_def pop_def)

lemma decode_num_flag: "decode_num [1] \<noteq> 0" "decode_num [0] = 0"
  by (simp_all add: decode_num_def)

lemma eval_step_if:
  "eval_step C m e (Op 99) cs st =
     bindE (op_if cs st) (\<lambda>(ok, cs1, st1). Inr (if ok then Some (cs1, st1) else None))"
  "eval_step C m e (Op 100) cs st =
     bindE (op_notif cs st) (\<lambda>(ok, cs1, st1). Inr (if ok then Some (cs1, st1) else None))"
  by (simp_all add: eval_step_def)

section \<open>Signatures\<close>

text \<open>What the multisignature check does for one signature and one key.\<close>

definition sig_check :: "crypto \<Rightarrow> bytes option \<Rightarrow> bytes \<Rightarrow> bytes \<Rightarrow> bool res" where
  "sig_check C message signature pubkey =
    bindE (signature_parse_bytes C signature None) (\<lambda>s.
      signature_verify C s message (Some pubkey))"

definition signs :: "crypto \<Rightarrow> bytes option \<Rightarrow> bytes \<Rightarrow> bytes \<Rightarrow> bool" where
  "signs C message signature pubkey \<longleftrightarrow> sig_check C message signature pubkey = Inr True"

text \<open>
  The abstract specification of the multisignature check: the signatures embed into the keys,
  in order, each signature verifying under its key.
\<close>

definition multisig_spec :: "crypto \<Rightarrow> bytes option \<Rightarrow> bytes list \<Rightarrow> bytes list \<Rightarrow> bool" where
  "multisig_spec C message sigs keys \<longleftrightarrow> list_emb (signs C message) sigs keys"

lemma multisig_loop_spec:
  assumes "\<forall>s \<in> set sigs. \<forall>k \<in> set keys. is_ok (sig_check C m s k)" "i < length sigs"
  shows "\<exists>n. multisig_loop C m sigs keys i = Inr n \<and> n \<le> length sigs \<and>
    (n = length sigs \<longleftrightarrow> list_emb (signs C m) (drop i sigs) keys)"
  using assms
proof (induction keys arbitrary: i)
  case Nil
  then show ?case by (auto dest: list_emb_Nil2)
next
  case (Cons k keys)
  let ?s = "sigs ! i"
  have "is_ok (sig_check C m ?s k)" using Cons.prems by simp
  then obtain ok where ok: "sig_check C m ?s k = Inr ok" by (cases "sig_check C m ?s k") simp_all
  then have step: "multisig_loop C m sigs (k # keys) i =
      (if ok then (if length sigs \<le> i + 1 then Inr (i + 1)
                   else multisig_loop C m sigs keys (i + 1))
       else multisig_loop C m sigs keys i)"
    using Cons.prems(2) ok by (simp flip: bindE_assoc sig_check_def)
  have d: "drop i sigs = ?s # drop (Suc i) sigs" using Cons.prems(2) by (rule Cons_nth_drop_Suc [symmetric])
  have IH: "j < length sigs \<Longrightarrow> \<exists>n. multisig_loop C m sigs keys j = Inr n \<and> n \<le> length sigs \<and>
      (n = length sigs \<longleftrightarrow> list_emb (signs C m) (drop j sigs) keys)" for j
    using Cons.prems(1) by (intro Cons.IH) auto
  show ?case
  proof (cases ok)
    case True
    then have emb: "list_emb (signs C m) (drop i sigs) (k # keys) =
        list_emb (signs C m) (drop (Suc i) sigs) keys"
      unfolding d using ok by (intro list_emb_Cons_iff1) (simp add: signs_def)
    show ?thesis
    proof (cases "length sigs \<le> Suc i")
      case True
      then have "i + 1 = length sigs" "drop (Suc i) sigs = []" using Cons.prems(2) by simp_all
      then show ?thesis using step \<open>ok\<close> emb by simp
    next
      case False
      then show ?thesis using step \<open>ok\<close> emb IH [of "Suc i"] by simp
    qed
  next
    case False
    then have "list_emb (signs C m) (drop i sigs) (k # keys) =
        list_emb (signs C m) (drop i sigs) keys"
      unfolding d using ok by (intro list_emb_Cons_iff2) (simp add: signs_def)
    then show ?thesis using step False IH [OF Cons.prems(2)] by simp
  qed
qed

lemma list_emb_revI: "list_emb P xs ys \<Longrightarrow> list_emb P (rev xs) (rev ys)"
proof (induction rule: list_emb.induct)
  case (list_emb_Cons xs ys y)
  then show ?case using list_emb_append_mono [of P "rev xs" "rev ys" "[]" "[y]"] by simp
next
  case (list_emb_Cons2 x y xs ys)
  then have "list_emb P [x] [y]" by auto
  with list_emb_Cons2 show ?case by (simp add: list_emb_append_mono)
qed simp

lemma list_emb_rev: "list_emb P (rev xs) (rev ys) = list_emb P xs ys"
  using list_emb_revI [of P xs ys] list_emb_revI [of P "rev xs" "rev ys"] by auto

lemma pop_n_append: "length xs = n \<Longrightarrow> pop_n n (xs @ st) = Inr (xs, st)"
  by (induction n arbitrary: xs) (auto simp: length_Suc_conv pop_def)

lemma op_checkmultisig_stack:
  assumes "\<forall>s \<in> set sigs. \<forall>k \<in> set keys. is_ok (sig_check C m s k)" "sigs \<noteq> []"
  shows "op_checkmultisig C m (encode_num (int (length keys)) # rev keys @
      encode_num (int (length sigs)) # rev sigs @ dummy # st) =
    Inr (True, bool_item (multisig_spec C m sigs keys) # st)"
proof -
  have "\<forall>s \<in> set (rev sigs). \<forall>k \<in> set (rev keys). is_ok (sig_check C m s k)" "0 < length (rev sigs)"
    using assms by simp_all
  from multisig_loop_spec [OF this] obtain n where
    n: "multisig_loop C m (rev sigs) (rev keys) 0 = Inr n"
      "n = length (rev sigs) \<longleftrightarrow> list_emb (signs C m) (rev sigs) (rev keys)" by auto
  then show ?thesis
    by (simp add: op_checkmultisig_def pop_def decode_num_encode_num pop_n_append Let_def
        multisig_spec_def list_emb_rev)
qed

section \<open>Properties\<close>

text \<open>C28: with both blocks well nested, \<^verbatim>\<open>OP_IF\<close> continues with the block the popped element
  selects and then with what follows \<^verbatim>\<open>OP_ENDIF\<close>, and \<^verbatim>\<open>OP_NOTIF\<close> with the other block,
  whatever conditionals the blocks contain.\<close>

theorem conditionals_select_branch:
  assumes "level_ok 0 t" "level_ok 0 f"
  shows "eval_loop C m e (Op 99 # t @ Op 103 # f @ Op 104 # r) (x # st) =
      eval_loop C m e ((if decode_num x \<noteq> 0 then t else f) @ r) st \<and>
    eval_loop C m e (Op 100 # t @ Op 103 # f @ Op 104 # r) (x # st) =
      eval_loop C m e ((if decode_num x \<noteq> 0 then f else t) @ r) st"
  using op_if_branches [OF assms]
  by (simp add: eval_step_if op_notif_def pop_def decode_num_flag)

theorem conditionals_select_branch_witness:
  "eval_loop example_crypto None \<lparr>env_redeemscript = None, env_sequence = None,
      env_locktime = None, env_version = None\<rparr>
      (Op 99 # [Op 81, Op 99, Op 82, Op 104] @ Op 103 # [Op 83] @ Op 104 # [Op 84]) ([] # []) =
    eval_loop example_crypto None \<lparr>env_redeemscript = None, env_sequence = None,
      env_locktime = None, env_version = None\<rparr> ([Op 83] @ [Op 84]) []"
  using conditionals_select_branch [of "[Op 81, Op 99, Op 82, Op 104]" "[Op 83]" example_crypto None
      "\<lparr>env_redeemscript = None, env_sequence = None, env_locktime = None, env_version = None\<rparr>"
      "[Op 84]" "[]" "[]"]
  by (simp add: decode_num_def)

text \<open>C4: the unlocking and locking commands of a payment to a public key hash evaluate to true
  exactly if the public key hashes to the committed hash and the signature parses and verifies
  under it; no error of either check escapes.\<close>

theorem p2pkh_evaluates_iff_signed:
  "evaluate C [Cmd (Data sig), Cmd (Data pubkey), Cmd (Op 118), Cmd (Op 169), Cmd (Data pkh),
      Cmd (Op 136), Cmd (Op 172)] m e =
    Inr (c_ripemd160 C (c_sha256 C pubkey) = pkh \<and>
         bindE (signature_parse_bytes C sig (Some pubkey)) (\<lambda>s.
           signature_verify C s m (Some pubkey)) = Inr True)"
proof -
  let ?r = "bindE (signature_parse_bytes C sig (Some pubkey)) (\<lambda>s.
      signature_verify C s m (Some pubkey))"
  have c: "op_checksig C m [pubkey, sig] = bindE ?r (\<lambda>ok. Inr (True, [bool_item ok]))"
    by (cases "signature_parse_bytes C sig (Some pubkey)") (simp_all add: op_checksig_def pop_def)
  show ?thesis
  proof (cases ?r)
    case (Inl err)
    then show ?thesis
      by (simp add: evaluate_def flatten_commands_def eval_step_def op_dup_def op_hash160_def
          hash_op_def pop_def op_equalverify_def op_equal_def op_verify_def bool_item_def
          true_item_def c)
  next
    case (Inr ok)
    then show ?thesis
      by (cases ok) (simp_all add: evaluate_def flatten_commands_def eval_step_def op_dup_def
          op_hash160_def hash_op_def pop_def op_equalverify_def op_equal_def op_verify_def
          bool_item_def true_item_def c)
  qed
qed

text \<open>C2: a bare multisignature script, with its signatures in front, evaluates to true exactly
  if the signatures can be assigned to distinct keys in the order of the script such that each
  verifies: the greedy loop over the keys finds an assignment whenever there is one.\<close>

theorem multisig_evaluates_iff_assignable:
  assumes "\<forall>s \<in> set sigs. \<forall>k \<in> set keys. is_ok (sig_check C m s k)"
    and "sigs \<noteq> []" "length sigs \<le> 16" "keys \<noteq> []" "length keys \<le> 16"
    and "env_redeemscript e = Some rs" "rs \<noteq> []"
  shows "evaluate C (map Cmd (Op 0 # map Data sigs @ Op (80 + length sigs) # map Data keys @
      [Op (80 + length keys), Op 174])) m e = Inr (multisig_spec C m sigs keys)"
proof -
  let ?cs = "Op 0 # map Data sigs @ Op (80 + length sigs) # map Data keys @
      [Op (80 + length keys), Op 174]"
  have flat: "flatten_commands (map Cmd cs) = cs" for cs
    by (induction cs) (simp_all add: flatten_commands_def)
  have s: "eval_step C m e (Op (80 + length sigs)) cs st =
      Inr (Some (cs, encode_num (int (length sigs)) # st))" for cs st
    using assms(2,3) by (cases sigs) (simp_all add: eval_step_number)
  have k: "eval_step C m e (Op (80 + length keys)) cs st =
      Inr (Some (cs, encode_num (int (length keys)) # st))" for cs st
    using assms(4,5) by (cases keys) (simp_all add: eval_step_number)
  have z: "eval_step C m e (Op 0) cs st = Inr (Some (cs, [] # st))" for cs st
    by (simp add: eval_step_def)
  have "eval_loop C m e ?cs [] = eval_loop C m e [Op 174]
      (encode_num (int (length keys)) # rev keys @ encode_num (int (length sigs)) # rev sigs @ [[]])"
    by (simp add: z s k eval_loop_data)
  also have "\<dots> = Inr (if multisig_spec C m sigs keys then Some [rs] else None)"
    using op_checkmultisig_stack [OF assms(1,2), of "[]" "[]"] assms(6)
    by (simp add: eval_step_def op_verify_def pop_def need_def bool_item_def true_item_def)
  finally show ?thesis
    unfolding evaluate_def flat using assms(7) by simp
qed

theorem multisig_evaluates_iff_assignable_witness:
  "evaluate example_crypto (map Cmd (Op 0 # map Data [example_signature] @ Op (80 + length [example_signature]) #
      map Data [[2], [3]] @ [Op (80 + length [[2 :: byte], [3]]), Op 174])) (Some [7])
      \<lparr>env_redeemscript = Some [1], env_sequence = None, env_locktime = None, env_version = None\<rparr> =
    Inr (multisig_spec example_crypto (Some [7]) [example_signature] [[2], [3]])"
proof (rule multisig_evaluates_iff_assignable [where rs = "[1]"])
  have "is_ok (signature_parse_bytes example_crypto example_signature None)"
    by (rule example_signature_ok)
  then show "\<forall>s \<in> set [example_signature]. \<forall>k \<in> set [[2], [3]]. is_ok (sig_check example_crypto (Some [7]) s k)"
    by (cases "signature_parse_bytes example_crypto example_signature None")
      (simp_all add: sig_check_def signature_verify_def example_crypto_def)
qed simp_all

text \<open>The names of the four numeric comparison opcodes are not names of \<^verbatim>\<open>Stack\<close> methods
  (which are called \<^verbatim>\<open>op_numlessthan\<close> and so on), so a script that reaches one of them ends
  with a \<^verbatim>\<open>ScriptError\<close>, for every stack.\<close>

theorem comparison_opcodes_unavailable:
  "eval_loop C m e (Op 159 # cs) st = Inl ScriptError \<and>
   eval_loop C m e (Op 160 # cs) st = Inl ScriptError \<and>
   eval_loop C m e (Op 161 # cs) st = Inl ScriptError \<and>
   eval_loop C m e (Op 162 # cs) st = Inl ScriptError"
  by (simp add: eval_step_def method_tables)

text \<open>Six stack operations differ from those of the script language: \<^verbatim>\<open>op_2swap\<close> also swaps
  the two items it moves down, \<^verbatim>\<open>op_tuck\<close> copies the second item to the top instead of the top
  item below the second, \<^verbatim>\<open>op_pick\<close> and \<^verbatim>\<open>op_roll\<close> count from one (and from the bottom for
  zero), \<^verbatim>\<open>op_sub\<close> subtracts the second number from the top one, and \<^verbatim>\<open>op_within\<close> takes the
  value from the top instead of the third place.\<close>

theorem stack_operations_diverge:
  "op_2swap [x4, x3, x2, x1] = Inr (True, [x2, x1, x3, x4]) \<and>
   op_tuck [x2, x1] = Inr (True, [x1, x2, x1]) \<and>
   op_pick [encode_num 0, x3, x2, x1] = Inr (True, [x1, x3, x2, x1]) \<and>
   op_pick [encode_num 1, x3, x2, x1] = Inr (True, [x3, x3, x2, x1]) \<and>
   op_roll [encode_num 1, x3, x2, x1] = Inr (True, [x3, x2, x1]) \<and>
   op_sub (from_ints [5, 2]) = Inr (True, [encode_num (-3)]) \<and>
   op_within (from_ints [3, 1, 5]) = Inr (True, [bool_item False])"
proof -
  have n: "decode_num (encode_num k) = k" for k by (rule decode_num_encode_num)
  have a: "length (encode_num 1) \<le> 4" "length (encode_num 2) \<le> 4" "length (encode_num 3) \<le> 4"
    "length (encode_num 5) \<le> 4"
    unfolding encode_num_4_bytes by simp_all
  have z: "decode_num [] = 0" using n [of 0] by simp
  show ?thesis
    using a by (simp add: op_2swap_def op_tuck_def op_pick_def op_roll_def op_sub_def op_within_def
        pop_def get_at_def pop_at_def from_top_def pop_as_number_def binary_def arithmetic_def
        is_arithmetic_def from_ints_def n z)
qed

end
