(* ===== verification/Script_Types.thy ===== *)
theory Script_Types
  imports Script_Eval
begin

text \<open>
  Recognition of script types: \<^verbatim>\<open>SCRIPT_TYPES\<close> of \<^verbatim>\<open>bitcoinlib/config/config.py\<close> and
  \<^verbatim>\<open>_get_script_types\<close>, \<^verbatim>\<open>data_pack\<close> and \<^verbatim>\<open>get_data_type\<close> of \<^verbatim>\<open>bitcoinlib/scripts.py\<close>.

  An item of a blueprint is an opcode, a text or a list. The texts \<^verbatim>\<open>'data-<n>'\<close> are \<open>BData n\<close>,
  the others \<open>BTag\<close>. The generic blueprints of the table have opcodes and texts only.
\<close>

datatype bp = BOp nat | BData nat | BTag string | BSub "bp list"

datatype gen = GOp nat | GTag string

definition script_templates :: "(string \<times> string \<times> gen list \<times> nat list) list" where
  "script_templates =
    [(''p2pkh'', ''locking'',
      [GOp (op ''op_dup''), GOp (op ''op_hash160''), GTag ''data'', GOp (op ''op_equalverify''),
       GOp (op ''op_checksig'')], [20]),
     (''p2pkh_drop'', ''locking'',
      [GTag ''data'', GOp (op ''op_drop''), GOp (op ''op_dup''), GOp (op ''op_hash160''),
       GTag ''data'', GOp (op ''op_equalverify''), GOp (op ''op_checksig'')], [32, 20]),
     (''p2sh'', ''locking'', [GOp (op ''op_hash160''), GTag ''data'', GOp (op ''op_equal'')], [20]),
     (''p2wpkh'', ''locking'', [GOp (op ''op_0''), GTag ''data''], [20]),
     (''p2wsh'', ''locking'', [GOp (op ''op_0''), GTag ''data''], [32]),
     (''p2tr'', ''locking'', [GTag ''op_n'', GTag ''data''], [32]),
     (''multisig'', ''locking'',
      [GTag ''op_n'', GTag ''key'', GTag ''op_n'', GOp (op ''op_checkmultisig'')], []),
     (''p2pk'', ''locking'', [GTag ''key'', GOp (op ''op_checksig'')], []),
     (''locktime_cltv_script'', ''locking'',
      [GTag ''locktime_cltv'', GOp (op ''op_checklocktimeverify''), GOp (op ''op_drop''),
       GOp (op ''op_dup''), GOp (op ''op_hash160''), GTag ''data'', GOp (op ''op_equalverify''),
       GOp (op ''op_checksig'')], [20]),
     (''nulldata'', ''locking'', [GOp (op ''op_return''), GTag ''data''], [0]),
     (''nulldata_1'', ''locking'', [GOp (op ''op_return''), GOp (op ''op_0'')], []),
     (''nulldata_2'', ''locking'', [GOp (op ''op_return'')], []),
     (''sig_pubkey'', ''unlocking'', [GTag ''signature'', GTag ''key''], []),
     (''p2sh_multisig'', ''unlocking'',
      [GOp (op ''op_0''), GTag ''signature'', GTag ''redeemscript''], []),
     (''multisig_redeemscript'', ''unlocking'',
      [GTag ''op_n'', GTag ''key'', GTag ''op_n'', GOp (op ''op_checkmultisig'')], []),
     (''p2tr_unlock'', ''unlocking'', [GTag ''data''], [64]),
     (''p2sh_multisig_2?'', ''unlocking'',
      [GOp (op ''op_0''), GTag ''signature'', GOp (op ''op_verify''), GTag ''redeemscript''], []),
     (''p2sh_multisig_3?'', ''unlocking'',
      [GOp (op ''op_0''), GTag ''signature'', GOp (op ''op_1add''), GTag ''redeemscript''], []),
     (''p2sh_p2wpkh'', ''unlocking'', [GOp (op ''op_0''), GTag ''data''], [20]),
     (''p2sh_p2wsh'', ''unlocking'', [GOp (op ''op_0''), GTag ''data''], [32]),
     (''signature'', ''unlocking'', [GTag ''signature''], []),
     (''signature_multisig'', ''unlocking'', [GOp (op ''op_0''), GTag ''signature''], []),
     (''locktime_cltv'', ''unlocking'',
      [GTag ''locktime_cltv'', GOp (op ''op_checklocktimeverify''), GOp (op ''op_drop'')], []),
     (''locktime_csv'', ''unlocking'',
      [GTag ''locktime_csv'', GOp (op ''op_checksequenceverify''), GOp (op ''op_drop'')], []),
     (''nonstandard_0001'', ''unlocking'', [GOp (op ''op_0'')], [])]"

section \<open>Generic blueprints\<close>

text \<open>The first loop of \<^verbatim>\<open>_get_script_types\<close>; \<open>acc\<close> is the list \<^verbatim>\<open>bp\<close> so far.\<close>

definition last_is :: "gen \<Rightarrow> gen list \<Rightarrow> bool" where
  "last_is g acc \<longleftrightarrow> acc \<noteq> [] \<and> last acc = g"

fun generic :: "bp list \<Rightarrow> gen list \<Rightarrow> gen list" where
  "generic [] acc = acc"
| "generic (BData n # items) acc = generic items (acc @ [GTag ''data''])"
| "generic (BOp n # items) acc =
     generic items (acc @ [if op ''op_1'' \<le> n \<and> n \<le> op ''op_16'' then GTag ''op_n'' else GOp n])"
| "generic (BTag s # items) acc =
     (if take 4 s = ''data'' then generic items (acc @ [GTag ''data''])
      else if s = ''key'' \<and> last_is (GTag ''key'') acc then generic items acc
      else if s = ''signature'' \<and> last_is (GTag ''signature'') acc then generic items acc
      else generic items (acc @ [GTag s]))"
| "generic (BSub l # items) acc = generic items (acc @ [GTag ''redeemscript''])"

text \<open>\<^verbatim>\<open>int(c.split('-')[1])\<close> of the data items.\<close>

fun data_lengths :: "bp list \<Rightarrow> nat list res" where
  "data_lengths [] = Inr []"
| "data_lengths (BData n # items) = bindE (data_lengths items) (\<lambda>ls. Inr (n # ls))"
| "data_lengths (BTag s # items) =
     (if take 4 s = ''data'' then Inl IndexError else data_lengths items)"
| "data_lengths (BOp n # items) = data_lengths items"
| "data_lengths (BSub l # items) = data_lengths items"

section \<open>Matching\<close>

type_synonym template = "string \<times> nat \<times> nat list"

definition locktypes :: "bool option \<Rightarrow> string list" where
  "locktypes is_locking = (case is_locking of
     None \<Rightarrow> [''locking'', ''unlocking''] | Some True \<Rightarrow> [''locking''] | Some False \<Rightarrow> [''unlocking''])"

definition exact_matches :: "gen list \<Rightarrow> string list \<Rightarrow> string list" where
  "exact_matches bp lt =
    [key. (key, kind, cmds, lens) \<leftarrow> script_templates, cmds = bp \<and> kind \<in> set lt]"

definition prefix_matches :: "gen list \<Rightarrow> string list \<Rightarrow> template list" where
  "prefix_matches bp lt =
    [(key, length cmds, lens). (key, kind, cmds, lens) \<leftarrow> script_templates,
       cmds = take (length cmds) bp \<and> kind \<in> set lt]"

fun lengths_fit :: "nat list \<Rightarrow> nat \<Rightarrow> nat list \<Rightarrow> bool res" where
  "lengths_fit bp_len i [] = Inr False"
| "lengths_fit bp_len i (d # ds) =
     (if length bp_len \<le> i then Inl IndexError
      else if d = bp_len ! i \<or> d = 0 then Inr True else lengths_fit bp_len (Suc i) ds)"

text \<open>The loop over the matches: the last one with a fitting length wins, or the first of all.\<close>

fun select_match :: "nat list \<Rightarrow> template \<Rightarrow> template list \<Rightarrow> template res" where
  "select_match bp_len m [] = Inr m"
| "select_match bp_len m ((key, n, lens) # ms) =
     bindE (lengths_fit bp_len 0 lens) (\<lambda>fit.
       select_match bp_len (if fit then (key, n, lens) else m) ms)"

text \<open>A redeem script behind the signatures of a multisig makes the pair a \<^verbatim>\<open>p2sh_multisig\<close>.\<close>

definition add_type :: "string list \<Rightarrow> string \<Rightarrow> string list" where
  "add_type types t =
    (if (t = ''multisig'' \<or> t = ''multisig_redeemscript'') \<and> types \<noteq> [] \<and>
        last types = ''signature_multisig''
     then butlast types @ [''p2sh_multisig''] else types @ [t])"

lemma templates_nonempty: "(key, kind, cmds, lens) \<in> set script_templates \<Longrightarrow> cmds \<noteq> []"
proof -
  have "list_all (\<lambda>(key, kind, cmds, lens). cmds \<noteq> []) script_templates"
    by (simp add: script_templates_def)
  then show "(key, kind, cmds, lens) \<in> set script_templates \<Longrightarrow> cmds \<noteq> []"
    by (auto simp: list_all_iff)
qed

lemma prefix_matches_pos: "(key, n, lens) \<in> set (prefix_matches bp lt) \<Longrightarrow> 0 < n"
  by (auto simp: prefix_matches_def dest: templates_nonempty)

lemma select_match_in: "select_match bl m ms = Inr r \<Longrightarrow> r = m \<or> r \<in> set ms"
proof (induction bl m ms rule: select_match.induct)
  case (2 bl m key n lens ms)
  then obtain fit where "lengths_fit bl 0 lens = Inr fit"
    "select_match bl (if fit then (key, n, lens) else m) ms = Inr r"
    by (auto simp: bindE_Inr_iff)
  then show ?case using "2.IH" [of fit] by (cases fit) auto
qed simp

function segment :: "string list \<Rightarrow> nat list \<Rightarrow> gen list \<Rightarrow> string list \<Rightarrow> string list res" where
  "segment lt bp_len bp types =
    (if bp = [] then Inr types
     else case prefix_matches bp lt of
            [] \<Rightarrow> Inr (types @ [''unknown''])
          | m # ms \<Rightarrow> bindE (select_match bp_len m (m # ms)) (\<lambda>(key, n, lens).
              segment lt bp_len (drop n bp) (add_type types key)))"
  by pat_completeness auto
termination
proof (relation "measure (\<lambda>(lt, bl, bp, types). length bp)", goal_cases)
  case (2 lt bl bp types m ms x key y n lens)
  then have "(key, n, lens) \<in> set (prefix_matches bp lt)"
    by (auto dest: select_match_in)
  then have "0 < n" by (rule prefix_matches_pos)
  with 2 show ?case by simp
qed simp

declare segment.simps [simp del]

definition get_script_types :: "bp list \<Rightarrow> bool option \<Rightarrow> string list res" where
  "get_script_types blueprint is_locking =
    (let bp = generic blueprint [];
         lt = locktypes is_locking;
         exact = exact_matches bp lt
     in if length exact = 1 then Inr exact
        else bindE (data_lengths blueprint) (\<lambda>bp_len. segment lt bp_len bp []))"

section \<open>Data\<close>

definition data_pack :: "bytes \<Rightarrow> bytes res" where
  "data_pack data =
    (if length data \<le> 75 then bindE (int_to_be 1 (int (length data))) (\<lambda>l. Inr (l @ data))
     else if length data \<le> 255
     then bindE (int_to_le 1 (int (length data))) (\<lambda>l. Inr (0x4c # l @ data))
     else bindE (int_to_le 2 (int (length data))) (\<lambda>l. Inr (0x4d # l @ data)))"

datatype data_type = DSignature | DKey | DData nat | DOther

definition get_data_type :: "bytes \<Rightarrow> data_type" where
  "get_data_type data =
    (let n = length data
     in if startswith [0x30] data \<and> 69 \<le> n \<and> n \<le> 74 then DSignature
        else if ((startswith [0x02] data \<or> startswith [0x03] data) \<and> n = 33) \<or>
                (startswith [0x04] data \<and> n = 65) then DKey
        else if n = 20 \<or> n = 32 \<or> n = 64 \<or> (1 \<le> n \<and> n \<le> 4) then DData n
        else DOther)"

end
