(* ===== verification/Script_Parse.thy ===== *)
theory Script_Parse
  imports Script_Types
begin

text \<open>
  \<^verbatim>\<open>Script\<close> objects of \<^verbatim>\<open>bitcoinlib/scripts.py\<close>: construction from commands,
  \<^verbatim>\<open>parse_bytesio\<close> with its wrappers \<^verbatim>\<open>parse\<close>, \<^verbatim>\<open>parse_hex\<close> and \<^verbatim>\<open>parse_bytes\<close>,
  \<^verbatim>\<open>serialize\<close>, \<^verbatim>\<open>serialize_list\<close>, \<^verbatim>\<open>as_bytes\<close> and \<^verbatim>\<open>__add__\<close>. A key is the byte string
  it was parsed from. A sub-script is parsed one level deep only, by \<^verbatim>\<open>_level\<close>.
\<close>

record script =
  s_commands :: "item list"
  s_raw :: bytes
  s_message :: "bytes option"
  s_script_types :: "string list"
  s_is_locking :: "bool option"
  s_keys :: "bytes list"
  s_signatures :: "signature list"
  s_blueprint :: "bp list"
  s_redeemscript :: bytes
  s_env_redeemscript :: "bytes option"
  s_sigs_required :: int
  s_public_hash :: item
  s_hash_type :: "nat option"

section \<open>Script.\_\_init\_\_\<close>

definition blueprint_item :: "item \<Rightarrow> bp" where
  "blueprint_item c =
    (case c of
       Cmd (Op n) \<Rightarrow> BOp n
     | Cmd (Data d) \<Rightarrow> (case get_data_type d of DKey \<Rightarrow> BTag ''key'' | DSignature \<Rightarrow> BTag ''signature''
                        | _ \<Rightarrow> BData (length d))
     | Sub l \<Rightarrow> BData (length l))"

definition script_init ::
  "item list \<Rightarrow> bytes option \<Rightarrow> bytes list \<Rightarrow> signature list \<Rightarrow> bp list \<Rightarrow> bytes option
    \<Rightarrow> nat option \<Rightarrow> script" where
  "script_init commands message keys signatures blueprint env_rs hash_type =
    \<lparr>s_commands = commands, s_raw = [], s_message = message, s_script_types = [],
     s_is_locking = Some True, s_keys = keys, s_signatures = signatures,
     s_blueprint = (if keys \<noteq> [] \<and> signatures \<noteq> [] \<and> blueprint \<noteq> [] then blueprint
                    else map blueprint_item commands),
     s_redeemscript = [], s_env_redeemscript = env_rs,
     s_sigs_required = (if keys \<noteq> [] then int (length keys) else 1),
     s_public_hash = Cmd (Data []), s_hash_type = hash_type\<rparr>"

section \<open>The parser\<close>

text \<open>The local variables of \<^verbatim>\<open>parse_bytesio\<close>.\<close>

record pstate =
  p_commands :: "item list"
  p_keys :: "bytes list"
  p_signatures :: "signature list"
  p_blueprint :: "bp list"
  p_redeemscript :: bytes
  p_sigs_required :: "int option"
  p_hash_type :: "nat option"

definition pstate0 :: pstate where
  "pstate0 = \<lparr>p_commands = [], p_keys = [], p_signatures = [], p_blueprint = [],
     p_redeemscript = [], p_sigs_required = None, p_hash_type = None\<rparr>"

definition add_blueprint :: "bp \<Rightarrow> pstate \<Rightarrow> pstate" where
  "add_blueprint b p = p\<lparr>p_blueprint := p_blueprint p @ [b]\<rparr>"

text \<open>
  The branch \<^verbatim>\<open>if data\<close> of the loop. \<open>nested\<close> parses a sub-script; it is \<open>None\<close> below the first
  level.
\<close>

definition handle_data ::
  "crypto \<Rightarrow> bool \<Rightarrow> (bytes \<Rightarrow> script res) option \<Rightarrow> bytes \<Rightarrow> pstate \<Rightarrow> pstate res" where
  "handle_data C strict nested data p0 =
    (let p = p0\<lparr>p_commands := p_commands p0 @ [Cmd (Data data)]\<rparr>
     in case get_data_type data of
          DSignature \<Rightarrow>
            (case signature_parse_bytes C data None of
               Inr sig \<Rightarrow> Inr (add_blueprint (BTag ''signature'')
                 (p\<lparr>p_signatures := p_signatures p @ [sig], p_hash_type := Some (sig_hash_type sig)\<rparr>))
             | Inl _ \<Rightarrow> if strict then Inl ScriptError else Inr p)
        | DKey \<Rightarrow> Inr (add_blueprint (BTag ''key'') (p\<lparr>p_keys := p_keys p @ [data]\<rparr>))
        | DData n \<Rightarrow> Inr (add_blueprint (BData (length data)) p)
        | DOther \<Rightarrow>
            if p_commands p0 \<noteq> [] \<and> last (p_commands p0) = Cmd (Op (op ''op_return''))
            then Inr (add_blueprint (BData (length data)) p)
            else (case nested of
                    None \<Rightarrow> Inr (add_blueprint (BData (length data)) p)
                  | Some parse_sub \<Rightarrow>
                      (case parse_sub data of
                         Inr s2 \<Rightarrow> Inr (p0\<lparr>
                           p_commands := p_commands p0 @ [Sub (flatten_commands (s_commands s2))],
                           p_blueprint := p_blueprint p0 @ [BSub (s_blueprint s2)],
                           p_keys := p_keys p0 @ s_keys s2,
                           p_signatures := p_signatures p0 @ s_signatures s2,
                           p_redeemscript := s_raw s2,
                           p_sigs_required := Some (s_sigs_required s2)\<rparr>)
                       | Inl e \<Rightarrow>
                           if e = ScriptError \<or> e = IndexError
                           then Inr (add_blueprint (BData (length data)) p) else Inl e)))"

text \<open>The length of the data that the opcode \<open>ch\<close> announces, and the rest of the script.\<close>

definition push_length :: "byte \<Rightarrow> bytes \<Rightarrow> nat \<times> bytes" where
  "push_length ch bs =
    (if 1 \<le> unat ch \<and> unat ch \<le> 75 then (unat ch, bs)
     else if unat ch = op ''op_pushdata1'' then (le_val (take 1 bs), drop 1 bs)
     else if unat ch = op ''op_pushdata2'' then (le_val (take 2 bs), drop 2 bs)
     else (0, bs))"

lemma length_push_length: "push_length ch bs = (n, bs') \<Longrightarrow> length bs' \<le> length bs"
  by (auto simp: push_length_def split: if_splits)

text \<open>The loop, on the bytes not yet read.\<close>

function parse_loop ::
  "crypto \<Rightarrow> bool \<Rightarrow> (bytes \<Rightarrow> script res) option \<Rightarrow> bytes \<Rightarrow> pstate \<Rightarrow> pstate res" where
  "parse_loop C strict nested [] p = Inr p"
| "parse_loop C strict nested (ch # bs) p =
     (case push_length ch bs of (data_length, bs1) \<Rightarrow>
       if data_length = 0
       then parse_loop C strict nested bs1 (add_blueprint (BOp (unat ch))
              (p\<lparr>p_commands := p_commands p @ [Cmd (Op (unat ch))]\<rparr>))
       else if length (take data_length bs1) \<noteq> data_length
       then (if strict then Inl ScriptError else Inr p)
       else bindE (handle_data C strict nested (take data_length bs1) p) (\<lambda>p1.
              parse_loop C strict nested (drop data_length bs1) p1))"
  by pat_completeness auto
termination
  by (relation "measure (\<lambda>(C, strict, nested, bs, p). length bs)")
    (auto dest: length_push_length [OF sym] simp: less_Suc_eq_le diff_le_self le_diff_conv)

text \<open>Data at the very start: a signature, a key or 64 bytes, by the length of the script.\<close>

definition starts_with_data :: "byte \<Rightarrow> nat \<Rightarrow> bool" where
  "starts_with_data ch data_length \<longleftrightarrow>
    (ch = 0x30 \<and> 69 \<le> data_length \<and> data_length \<le> 74) \<or>
    ((ch = 0x02 \<or> ch = 0x03) \<and> data_length = 33) \<or> (ch = 0x04 \<and> data_length = 65) \<or>
    data_length = 64"

definition parse_commands ::
  "crypto \<Rightarrow> bool \<Rightarrow> (bytes \<Rightarrow> script res) option \<Rightarrow> bytes \<Rightarrow> nat \<Rightarrow> pstate res" where
  "parse_commands C strict nested bs data_length =
    (case bs of
       [] \<Rightarrow> Inr pstate0
     | ch # tl1 \<Rightarrow>
         if starts_with_data ch data_length
         then bindE (handle_data C strict nested (ch # take (data_length - 1) tl1) pstate0)
                (parse_loop C strict nested (drop (data_length - 1) tl1))
         else parse_loop C strict nested bs pstate0)"

text \<open>\<^verbatim>\<open>command - 80\<close>: a \<^verbatim>\<open>TypeError\<close> when the command is not a number.\<close>

definition minus_80 :: "item \<Rightarrow> int res" where
  "minus_80 c = (case c of Cmd (Op n) \<Rightarrow> Inr (int n - 80) | _ \<Rightarrow> Inl TypeError)"

definition item_at :: "nat \<Rightarrow> item list \<Rightarrow> item res" where
  "item_at i xs = (if i < length xs then Inr (xs ! i) else Inl IndexError)"

text \<open>The extra information of the first script type.\<close>

definition extract_info :: "script \<Rightarrow> script res" where
  "extract_info s =
    (case s_script_types s of
       [] \<Rightarrow> Inr s
     | st # _ \<Rightarrow>
         if st = ''multisig'' then
           bindE (item_at 0 (s_commands s)) (\<lambda>c0. bindE (minus_80 c0) (\<lambda>m.
             if m > int (length (s_keys s)) then Inl ScriptError
             else bindE (if length (s_commands s) < 2 then Inl IndexError
                         else minus_80 (s_commands s ! (length (s_commands s) - 2))) (\<lambda>n.
               if int (length (s_keys s)) \<noteq> n then Inl ScriptError
               else Inr (s\<lparr>s_redeemscript := s_raw s, s_sigs_required := m\<rparr>))))
         else if st \<in> {''p2wpkh'', ''p2wsh'', ''p2sh'', ''p2tr'', ''p2sh_p2wpkh'', ''p2sh_p2wsh''} \<and>
                 1 < length (s_commands s)
         then Inr (s\<lparr>s_public_hash := s_commands s ! 1\<rparr>)
         else if st = ''p2tr_unlock''
         then bindE (item_at 0 (s_commands s)) (\<lambda>c. Inr (s\<lparr>s_public_hash := c\<rparr>))
         else if st = ''p2pkh'' \<and> 2 < length (s_commands s)
         then Inr (s\<lparr>s_public_hash := s_commands s ! 2\<rparr>)
         else Inr s)"

definition parse_finish ::
  "bytes \<Rightarrow> bytes option \<Rightarrow> bytes option \<Rightarrow> bool option \<Rightarrow> pstate \<Rightarrow> script res" where
  "parse_finish raw message env_rs is_locking p =
    (let commands = (case p_commands p of [Sub l] \<Rightarrow> map Cmd l | cs \<Rightarrow> cs);
         blueprint = (case p_blueprint p of [BSub l] \<Rightarrow> l | b \<Rightarrow> b);
         s0 = script_init commands message (p_keys p) (p_signatures p) blueprint env_rs (p_hash_type p)
     in bindE (get_script_types blueprint is_locking) (\<lambda>types.
        bindE (extract_info (s0\<lparr>s_raw := raw,
                 s_script_types := (if ''unknown'' \<in> set types then [''unknown''] else types)\<rparr>)) (\<lambda>s1.
          let s2 = s1\<lparr>s_redeemscript := (if p_redeemscript p \<noteq> [] then p_redeemscript p
                                         else s_redeemscript s1)\<rparr>;
              s3 = (if s_redeemscript s2 \<noteq> [] \<and> s_env_redeemscript s2 = None
                    then s2\<lparr>s_env_redeemscript := Some (s_redeemscript s2)\<rparr> else s2)
          in Inr (s3\<lparr>s_sigs_required := (case p_sigs_required p of
                                            Some k \<Rightarrow> if k \<noteq> 0 then k else s_sigs_required s3
                                          | None \<Rightarrow> s_sigs_required s3)\<rparr>))))"

definition parse_sub :: "crypto \<Rightarrow> bool \<Rightarrow> bytes \<Rightarrow> script res" where
  "parse_sub C strict bs =
    bindE (parse_commands C strict None bs (length bs)) (parse_finish bs None None None)"

definition parse_bytesio ::
  "crypto \<Rightarrow> bytes \<Rightarrow> bytes option \<Rightarrow> bytes option \<Rightarrow> nat \<Rightarrow> bool option \<Rightarrow> bool \<Rightarrow> script res" where
  "parse_bytesio C script message env_rs data_length is_locking strict =
    bindE (parse_commands C strict (Some (parse_sub C strict)) script data_length)
      (parse_finish script message env_rs is_locking)"

definition parse_bytes ::
  "crypto \<Rightarrow> bytes \<Rightarrow> bytes option \<Rightarrow> bytes option \<Rightarrow> bool option \<Rightarrow> bool \<Rightarrow> script res" where
  "parse_bytes C script message env_rs is_locking strict =
    parse_bytesio C script message env_rs (length script) is_locking strict"

definition parse_hex ::
  "crypto \<Rightarrow> string \<Rightarrow> bytes option \<Rightarrow> bytes option \<Rightarrow> bool option \<Rightarrow> bool \<Rightarrow> script res" where
  "parse_hex C script message env_rs is_locking strict =
    (case fromhex (codes script) of
       None \<Rightarrow> Inl ValueError
     | Some b \<Rightarrow> parse_bytesio C b message env_rs (length script div 2) is_locking strict)"

text \<open>\<^verbatim>\<open>Script.parse\<close>, which accepts both kinds of input.\<close>

definition parse ::
  "crypto \<Rightarrow> pyval \<Rightarrow> bytes option \<Rightarrow> bytes option \<Rightarrow> bool option \<Rightarrow> bool \<Rightarrow> script res" where
  "parse C script message env_rs is_locking strict =
    (case script of
       PBytes b \<Rightarrow> parse_bytesio C b message env_rs (length b div 2) is_locking strict
     | PStr s \<Rightarrow> (case fromhex (codes s) of
                    None \<Rightarrow> Inl ValueError
                  | Some b \<Rightarrow> parse_bytesio C b message env_rs (length s) is_locking strict)
     | _ \<Rightarrow> Inl AttributeError)"

section \<open>Serialisation\<close>

text \<open>\<^verbatim>\<open>bytes(cmd)\<close> of a list is defined for numbers below 256 only.\<close>

fun bytes_of_cmds :: "cmd list \<Rightarrow> bytes res" where
  "bytes_of_cmds [] = Inr []"
| "bytes_of_cmds (c # cs) =
     (case c of
        Op n \<Rightarrow> if n < 256 then bindE (bytes_of_cmds cs) (\<lambda>bs. Inr (byte_of n # bs))
                else Inl ValueError
      | Data d \<Rightarrow> Inl TypeError)"

definition serialize_item :: "item \<Rightarrow> bytes res" where
  "serialize_item c =
    (case c of
       Cmd (Op n) \<Rightarrow> if n < 256 then Inr [byte_of n] else Inl ValueError
     | Cmd (Data d) \<Rightarrow> data_pack d
     | Sub l \<Rightarrow> bindE (bytes_of_cmds l) data_pack)"

fun serialize :: "item list \<Rightarrow> bytes res" where
  "serialize [] = Inr []"
| "serialize (c # cs) = bindE (serialize_item c) (\<lambda>b. bindE (serialize cs) (\<lambda>bs. Inr (b @ bs)))"

fun serialize_list :: "item list \<Rightarrow> bytes list res" where
  "serialize_list [] = Inr []"
| "serialize_list (c # cs) =
     bindE (case c of
              Cmd (Op n) \<Rightarrow> if n < 256 then Inr [byte_of n] else Inl ValueError
            | Cmd (Data d) \<Rightarrow> Inr d
            | Sub l \<Rightarrow> bytes_of_cmds l) (\<lambda>b. bindE (serialize_list cs) (\<lambda>bs. Inr (b # bs)))"

definition as_bytes :: "script \<Rightarrow> bytes res" where
  "as_bytes s = (if s_raw s = [] then serialize (s_commands s) else Inr (s_raw s))"

text \<open>\<^verbatim>\<open>self + other\<close>; the script types of the concatenated blueprints.\<close>

definition script_add :: "script \<Rightarrow> script \<Rightarrow> script res" where
  "script_add a b =
    bindE (as_bytes b) (\<lambda>raw_b.
    bindE (get_script_types (s_blueprint a @ s_blueprint b) None) (\<lambda>types.
      Inr (a\<lparr>s_commands := s_commands a @ s_commands b,
             s_raw := s_raw a @ raw_b,
             s_message := (if s_message a = None \<or> s_message a = Some []
                           then (case s_message b of Some m \<Rightarrow> if m \<noteq> [] then Some m else s_message a
                                 | None \<Rightarrow> s_message a)
                           else s_message a),
             s_is_locking := None,
             s_keys := s_keys a @ s_keys b,
             s_signatures := s_signatures a @ s_signatures b,
             s_blueprint := s_blueprint a @ s_blueprint b,
             s_script_types := types,
             s_env_redeemscript := (if s_env_redeemscript a = None then s_env_redeemscript b
                                    else s_env_redeemscript a),
             s_redeemscript := (if s_redeemscript a = [] then s_redeemscript b
                                else s_redeemscript a)\<rparr>)))"

end
