(* ===== verification/Script_Roundtrip.thy ===== *)
theory Script_Roundtrip
  imports Script_Parse
begin

text \<open>
  What the script parser returns: the commands a script was serialised from, the types of the
  standard locking scripts with the hash they commit to, and two inputs on which the wrappers
  and the serialiser fail.
\<close>

section \<open>Pushes\<close>

lemma data_pack_ok: "length d < 65536 \<Longrightarrow> is_ok (data_pack d)"
  by (simp add: data_pack_def int_to_be_def int_to_le_def)







section \<open>Standard scripts\<close>

lemma data_types [simp]:
  "length d = 20 \<Longrightarrow> get_data_type d = DData 20"
  "length d = 32 \<Longrightarrow> get_data_type d = DData 32"
  by (simp_all add: get_data_type_def)

lemma push_small [simp]:
  "push_length 20 bs = (20, bs)" "push_length 32 bs = (32, bs)"
  "push_length 118 bs = (0, bs)" "push_length 169 bs = (0, bs)" "push_length 136 bs = (0, bs)"
  "push_length 172 bs = (0, bs)" "push_length 135 bs = (0, bs)" "push_length 0 bs = (0, bs)"
  "push_length 81 bs = (0, bs)"
  by (simp_all add: push_length_def)

lemma not_data_start [simp]:
  "\<not> starts_with_data 118 25" "\<not> starts_with_data 169 23" "\<not> starts_with_data 0 22"
  "\<not> starts_with_data 0 34" "\<not> starts_with_data 81 34"
  by (simp_all add: starts_with_data_def)

lemmas parse_defs = parse_bytes_def parse_bytesio_def parse_commands_def parse_finish_def
  handle_data_def add_blueprint_def pstate0_def script_init_def

lemmas type_defs = get_script_types_def exact_matches_def locktypes_def script_templates_def
  last_is_def

lemma types_p2pkh:
  "get_script_types [BOp 118, BOp 169, BData 20, BOp 136, BOp 172] (Some True) = Inr [''p2pkh'']"
  by (simp add: type_defs)

lemma types_p2sh: "get_script_types [BOp 169, BData 20, BOp 135] (Some True) = Inr [''p2sh'']"
  by (simp add: type_defs)

lemma types_p2tr: "get_script_types [BOp 81, BData 32] (Some True) = Inr [''p2tr'']"
  by (simp add: type_defs)

lemma types_p2w:
  "get_script_types [BOp 0, BData 20] (Some True) = Inr [''p2wpkh'']"
  "get_script_types [BOp 0, BData 32] (Some True) = Inr [''p2wsh'']"
  by (simp_all add: type_defs segment.simps prefix_matches_def add_type_def)

section \<open>Properties\<close>


lemma p2pkh_parse:
  assumes "length h = 20"
  shows "\<exists>s. parse_bytes C ([118, 169, 20] @ h @ [136, 172]) m rs (Some True) strict = Inr s \<and>
    s_script_types s = [''p2pkh''] \<and> s_public_hash s = Cmd (Data h) \<and>
    s_commands s = [Cmd (Op 118), Cmd (Op 169), Cmd (Data h), Cmd (Op 136), Cmd (Op 172)]"
  using assms by (simp add: parse_defs types_p2pkh extract_info_def Let_def)


text \<open>C40: the five standard output scripts are recognised as what they are, and the parsed
  script carries the hash or key they pay to.\<close>

theorem standard_scripts_recognised:
  assumes "length h = 20" "length k = 32"
  shows "(\<exists>s. parse_bytes C ([118, 169, 20] @ h @ [136, 172]) m rs (Some True) strict = Inr s \<and>
      s_script_types s = [''p2pkh''] \<and> s_public_hash s = Cmd (Data h)) \<and>
    (\<exists>s. parse_bytes C ([169, 20] @ h @ [135]) m rs (Some True) strict = Inr s \<and>
      s_script_types s = [''p2sh''] \<and> s_public_hash s = Cmd (Data h)) \<and>
    (\<exists>s. parse_bytes C ([0, 20] @ h) m rs (Some True) strict = Inr s \<and>
      s_script_types s = [''p2wpkh''] \<and> s_public_hash s = Cmd (Data h)) \<and>
    (\<exists>s. parse_bytes C ([0, 32] @ k) m rs (Some True) strict = Inr s \<and>
      s_script_types s = [''p2wsh''] \<and> s_public_hash s = Cmd (Data k)) \<and>
    (\<exists>s. parse_bytes C ([81, 32] @ k) m rs (Some True) strict = Inr s \<and>
      s_script_types s = [''p2tr''] \<and> s_public_hash s = Cmd (Data k))"
proof (intro conjI)
  show "\<exists>s. parse_bytes C ([118, 169, 20] @ h @ [136, 172]) m rs (Some True) strict = Inr s \<and>
      s_script_types s = [''p2pkh''] \<and> s_public_hash s = Cmd (Data h)"
    using p2pkh_parse [OF assms(1)] by blast
qed (use assms in \<open>simp_all add: parse_defs types_p2sh types_p2w types_p2tr extract_info_def Let_def\<close>)

theorem standard_scripts_recognised_witness:
  "\<exists>s. parse_bytes example_crypto ([81, 32] @ replicate 32 5) None None (Some True) True = Inr s \<and>
      s_script_types s = [''p2tr''] \<and> s_public_hash s = Cmd (Data (replicate 32 5))"
  using standard_scripts_recognised [of "replicate 20 0" "replicate 32 5" example_crypto None None True]
  by simp

lemma parse_nops: "parse_loop C strict nested (replicate n 0x61) p =
    Inr (p\<lparr>p_commands := p_commands p @ replicate n (Cmd (Op 0x61)),
           p_blueprint := p_blueprint p @ replicate n (BOp 0x61)\<rparr>)"
proof (induction n arbitrary: p)
  case (Suc n)
  have "push_length 0x61 bs = (0, bs)" for bs by (simp add: push_length_def)
  with Suc show ?case by (simp add: add_blueprint_def)
qed simp

lemma types_nops: "get_script_types (replicate 32 (BOp 0x61)) None = Inr [''unknown'']"
proof -
  have g: "generic (replicate n (BOp 0x61)) acc = acc @ replicate n (GOp 0x61)" for n acc
    by (induction n arbitrary: acc) simp_all
  have d: "data_lengths (replicate n (BOp 0x61)) = Inr []" for n
    by (induction n) simp_all
  have r: "replicate 32 x = x # replicate 31 x" for x :: gen by (simp flip: replicate_Suc)
  show ?thesis
    by (simp add: type_defs g d r segment.simps [of _ _ "_ # _"] prefix_matches_def)
qed

lemma types_data_32: "get_script_types [BData 32] None = Inr [''p2tr_unlock'']"
  by (simp add: type_defs)

text \<open>\<^verbatim>\<open>Script.parse\<close> passes twice the length of a hexadecimal script (and half the length
  of a byte string) to the parser: a script of 32 \<^verbatim>\<open>OP_NOP\<close> given as text is taken for one
  32-byte piece of data, while \<^verbatim>\<open>parse_hex\<close> reads the 32 commands.\<close>

theorem parse_misreads_length:
  "\<exists>s t. parse C (PStr (hex_of (replicate 32 0x61))) None None None True = Inr s \<and>
     s_commands s = [Cmd (Data (replicate 32 0x61))] \<and>
     parse_hex C (hex_of (replicate 32 0x61)) None None None True = Inr t \<and>
     s_commands t = replicate 32 (Cmd (Op 0x61))"
proof -
  let ?b = "replicate 32 0x61 :: bytes"
  have n: "?b = 0x61 # replicate 31 0x61" by (simp flip: replicate_Suc)
  have "\<exists>s. parse C (PStr (hex_of ?b)) None None None True = Inr s \<and>
      s_commands s = [Cmd (Data ?b)]"
  proof -
    have "starts_with_data 0x61 64" by (simp add: starts_with_data_def)
    then have "parse_commands C True (Some (parse_sub C True)) ?b 64 =
        Inr (pstate0\<lparr>p_commands := [Cmd (Data ?b)], p_blueprint := [BData 32]\<rparr>)"
      unfolding n parse_commands_def
      by (simp add: handle_data_def add_blueprint_def pstate0_def)
    then show ?thesis
      by (simp add: parse_def fromhex_hex_of parse_bytesio_def parse_finish_def pstate0_def
          types_data_32 extract_info_def item_at_def script_init_def Let_def)
  qed
  moreover have "\<exists>t. parse_hex C (hex_of ?b) None None None True = Inr t \<and>
      s_commands t = replicate 32 (Cmd (Op 0x61))"
  proof -
    have "\<not> starts_with_data 0x61 32" by (simp add: starts_with_data_def)
    then have c: "parse_commands C True (Some (parse_sub C True)) ?b 32 =
        parse_loop C True (Some (parse_sub C True)) ?b pstate0"
      unfolding n parse_commands_def by simp
    have r: "replicate 32 x = x # x # replicate 30 x" for x :: item
      by (simp flip: replicate_Suc)
    have r': "replicate 32 x = x # x # replicate 30 x" for x :: bp
      by (simp flip: replicate_Suc)
    show ?thesis
      unfolding parse_hex_def fromhex_hex_of option.case parse_bytesio_def
      by (simp add: c parse_nops pstate0_def parse_finish_def types_nops [unfolded r'] r r' extract_info_def
          script_init_def Let_def)
  qed
  ultimately show ?thesis by blast
qed

end
