(* ===== verification/Tx_Input.thy ===== *)
theory Tx_Input
  imports Script_Parse Varint
begin

text \<open>
  Transaction inputs: the class \<^verbatim>\<open>Input\<close> of \<^verbatim>\<open>bitcoinlib/transactions.py\<close> as \<^verbatim>\<open>Input.parse\<close>
  uses it. The attributes that only serve display (address, encoding, key path, network) are
  left out: no serialisation, signing or verification reads them.
\<close>

record tx_input =
  i_prev_txid :: bytes
  i_output_n :: bytes
  i_unlocking_script :: bytes
  i_locking_script :: bytes
  i_redeemscript :: bytes
  i_sequence :: nat
  i_compressed :: bool
  i_index_n :: nat
  i_value :: int
  i_keys :: "bytes list"
  i_signatures :: "signature list"
  i_sigs_required :: int
  i_hash_type :: nat
  i_public_hash :: bytes
  i_script_type :: string
  i_witness_type :: string
  i_witnesses :: "bytes list"
  i_script :: "script option"
  i_strict :: bool

section \<open>update\_scripts\<close>

text \<open>\<^verbatim>\<open>l[:n]\<close> for a possibly negative \<open>n\<close>.\<close>

definition py_take :: "int \<Rightarrow> 'a list \<Rightarrow> 'a list" where
  "py_take n xs = take (if n < 0 then nat (int (length xs) + n) else nat n) xs"

fun map_res :: "('a \<Rightarrow> 'b res) \<Rightarrow> 'a list \<Rightarrow> 'b list res" where
  "map_res f [] = Inr []"
| "map_res f (x # xs) = bindE (f x) (\<lambda>y. bindE (map_res f xs) (\<lambda>ys. Inr (y # ys)))"

text \<open>\<^verbatim>\<open>Script(script_types=['multisig'], keys=keys, sigs_required=m).serialize()\<close>\<close>

definition multisig_script :: "bytes list \<Rightarrow> int \<Rightarrow> bytes res" where
  "multisig_script keys m =
    (if keys = [] then Inl ScriptError
     else if m + 80 < 0 then Inl ValueError
     else serialize (Cmd (Op (nat (m + 80))) # map (\<lambda>k. Cmd (Data k)) keys @
            [Cmd (Op (length keys + 80)), Cmd (Op (op ''op_checkmultisig''))]))"

text \<open>The commands of \<^verbatim>\<open>Script(script_types=['p2sh_multisig'], ...)\<close>.\<close>

definition p2sh_multisig_commands :: "bytes list \<Rightarrow> bytes \<Rightarrow> item list" where
  "p2sh_multisig_commands sigs redeemscript =
     Cmd (Op (op ''op_0'')) # map (\<lambda>s. Cmd (Data s)) sigs @ [Cmd (Data redeemscript)]"

text \<open>The branch for \<^verbatim>\<open>sig_pubkey\<close> and \<^verbatim>\<open>p2sh_p2wpkh\<close>.\<close>

definition update_sig_pubkey :: "crypto \<Rightarrow> nat \<Rightarrow> tx_input \<Rightarrow> tx_input res" where
  "update_sig_pubkey C hash_type i0 =
    (let i1 = (if i_public_hash i0 = [] \<and> i_keys i0 \<noteq> []
               then i0\<lparr>i_public_hash := c_ripemd160 C (c_sha256 C (hd (i_keys i0)))\<rparr> else i0)
     in if i_keys i1 = [] \<and> i_public_hash i1 = [] then Inr i1
        else (let i2 = i1\<lparr>i_locking_script := [0x76, 0xa9, 0x14] @ i_public_hash i1 @ [0x88, 0xac]\<rparr>
          in bindE (if i_signatures i2 \<noteq> [] \<and> i_keys i2 \<noteq> []
                    then bindE (if hash_type \<noteq> 0 then as_der_encoded (hd (i_signatures i2)) True
                                else Inr []) (\<lambda>der.
                         let w = [der, hd (i_keys i2)]
                         in bindE (map_res varstr w) (\<lambda>vs. Inr (i2\<lparr>i_witnesses := w\<rparr>, concat vs)))
                    else Inr (i2, []))
             (\<lambda>(i3, unlock_script).
               if i_unlocking_script i3 = [] \<or> i_strict i3
               then (if i_witness_type i3 = ''p2sh-segwit''
                     then bindE (varstr (i_public_hash i3)) (\<lambda>v. bindE (varstr (0 # v)) (\<lambda>u.
                            Inr (i3\<lparr>i_unlocking_script := u\<rparr>)))
                     else if i_witness_type i3 = ''segwit'' then Inr (i3\<lparr>i_unlocking_script := []\<rparr>)
                     else if unlock_script \<noteq> [] then Inr (i3\<lparr>i_unlocking_script := unlock_script\<rparr>)
                     else Inr i3)
               else Inr i3)))"

text \<open>
  The branch for \<^verbatim>\<open>p2sh_multisig\<close> and \<^verbatim>\<open>p2sh_p2wsh\<close>. \<open>unlock\<close> is what \<^verbatim>\<open>unlock_script\<close>
  holds: nothing, a list of witnesses or a script.
\<close>

definition multisig_locking :: "bytes list \<Rightarrow> bytes res" where
  "multisig_locking keys =
    bindE (map_res (\<lambda>k. bindE (varstr k) (\<lambda>v. Inr (v @ [0xad, 0xab]))) keys) (\<lambda>vs.
      let ls = concat vs in Inr (if length ls > 3 then but_last_n 2 ls @ [0xac] else ls))"

datatype unlock = NoUnlock | WitnessUnlock "bytes list" | ScriptUnlock bytes

definition multisig_unlock :: "tx_input \<Rightarrow> bytes list \<Rightarrow> unlock res" where
  "multisig_unlock i ders =
    (if ders \<noteq> [] \<and> int (length ders) \<ge> i_sigs_required i
     then (let cmds = p2sh_multisig_commands ders (i_redeemscript i)
           in if i_witness_type i = ''segwit'' \<or> i_witness_type i = ''p2sh-segwit''
              then bindE (serialize_list cmds) (\<lambda>w. Inr (WitnessUnlock w))
              else bindE (serialize cmds) (\<lambda>u. Inr (ScriptUnlock u)))
     else Inr NoUnlock)"

text \<open>The part of the branch behind the redeem script and the public hash.\<close>

definition multisig_tail :: "tx_input \<Rightarrow> tx_input res" where
  "multisig_tail i2 =
    (if i_redeemscript i2 = [] \<or> i_keys i2 = [] then Inr i2
     else (let i3 = i2\<lparr>i_sigs_required := int (unat (hd (i_redeemscript i2))) - 80\<rparr>
       in bindE (map_res (\<lambda>s. as_der_encoded s True)
                  (py_take (i_sigs_required i3) (i_signatures i3))) (\<lambda>ders.
          if [] \<in> set ders then Inl TransactionError
          else bindE (multisig_unlock i3 ders) (\<lambda>unlock.
            if i_witness_type i3 = ''segwit''
            then bindE (multisig_locking (i_keys i3)) (\<lambda>ls.
                   Inr ((i3\<lparr>i_locking_script := ls\<rparr>)\<lparr>i_witnesses :=
                     (if ders \<noteq> [] then (case unlock of WitnessUnlock w \<Rightarrow> w | _ \<Rightarrow> [])
                      else i_witnesses i3)\<rparr>))
            else if i_witness_type i3 = ''p2sh-segwit''
            then bindE (varstr (i_public_hash i3)) (\<lambda>v. bindE (varstr (0 # v)) (\<lambda>u.
                   Inr ((i3\<lparr>i_unlocking_script := u\<rparr>)\<lparr>i_witnesses :=
                     (if ders \<noteq> [] then (case unlock of WitnessUnlock w \<Rightarrow> w | _ \<Rightarrow> [])
                      else i_witnesses i3)\<rparr>)))
            else (case unlock of
                    ScriptUnlock u \<Rightarrow> Inr (if u \<noteq> [] then i3\<lparr>i_unlocking_script := u\<rparr> else i3)
                  | _ \<Rightarrow> Inr i3)))))"

definition update_multisig :: "crypto \<Rightarrow> tx_input \<Rightarrow> tx_input res" where
  "update_multisig C i0 =
    bindE (if i_redeemscript i0 = [] \<and> i_keys i0 \<noteq> []
           then bindE (multisig_script (i_keys i0) (i_sigs_required i0)) (\<lambda>rs.
                  Inr (i0\<lparr>i_redeemscript := rs\<rparr>))
           else Inr i0) (\<lambda>i1.
    let i2 = (if i_redeemscript i1 \<noteq> [] \<and> i_public_hash i1 = []
              then i1\<lparr>i_public_hash :=
                (if i_witness_type i1 = ''segwit'' \<or> i_witness_type i1 = ''p2sh-segwit''
                 then c_sha256 C (i_redeemscript i1)
                 else c_ripemd160 C (c_sha256 C (i_redeemscript i1)))\<rparr>
              else i1)
    in multisig_tail i2)"

definition update_signature :: "tx_input \<Rightarrow> tx_input res" where
  "update_signature i0 =
    bindE (if i_keys i0 \<noteq> []
           then bindE (varstr (hd (i_keys i0))) (\<lambda>v. Inr (i0\<lparr>i_locking_script := v @ [0xac]\<rparr>))
           else Inr i0) (\<lambda>i1.
      if i_signatures i1 \<noteq> [] \<and> i_unlocking_script i1 = []
      then bindE (as_der_encoded (hd (i_signatures i1)) True) (\<lambda>d. bindE (varstr d) (\<lambda>u.
             Inr (i1\<lparr>i_unlocking_script := u\<rparr>)))
      else Inr i1)"

definition update_scripts :: "crypto \<Rightarrow> nat \<Rightarrow> tx_input \<Rightarrow> tx_input res" where
  "update_scripts C hash_type i =
    (let st = i_script_type i
     in if st \<in> {''sig_pubkey'', ''p2sh_p2wpkh''} then update_sig_pubkey C hash_type i
        else if st \<in> {''p2sh_multisig'', ''p2sh_p2wsh''} then update_multisig C i
        else if st = ''signature'' then update_signature i
        else if st = ''p2tr''
        then (case i_witnesses i of [] \<Rightarrow> Inl IndexError | w # _ \<Rightarrow> Inr (i\<lparr>i_redeemscript := w\<rparr>))
        else if take 11 st \<notin> {''coinbase'', ''unknown'', ''nonstandard''} \<and> i_strict i
        then Inl TransactionError
        else Inr i)"

section \<open>Construction and parsing\<close>

text \<open>
  \<^verbatim>\<open>Input.__init__\<close> for the arguments \<^verbatim>\<open>Input.parse\<close> passes: no keys, signatures, witnesses,
  redeem script or address, and a witness type that is given.
\<close>

definition input_init ::
  "crypto \<Rightarrow> bytes \<Rightarrow> bytes \<Rightarrow> bytes \<Rightarrow> string \<Rightarrow> bytes \<Rightarrow> nat \<Rightarrow> bool \<Rightarrow> string option
    \<Rightarrow> tx_input res" where
  "input_init C prev_txid0 output_n unlocking_script0 witness_type sequence index_n strict script_type0 =
    bindE (to_bytes (PBytes prev_txid0) True) (\<lambda>prev_txid.
    bindE (to_bytes (PBytes unlocking_script0) True) (\<lambda>unlocking_script.
    let script_type1 = (if prev_txid = replicate 32 0 then Some ''coinbase'' else script_type0)
    in bindE (if unlocking_script \<noteq> [] \<and> script_type1 \<noteq> Some ''coinbase''
              then bindE (parse_bytes C unlocking_script None None (Some False) strict) (\<lambda>s. Inr (Some s))
              else Inr None) (\<lambda>script.
       let keys = (case script of None \<Rightarrow> [] | Some s \<Rightarrow> s_keys s);
           signatures = (case script of None \<Rightarrow> [] | Some s \<Rightarrow> s_signatures s);
           hash_type = (case signatures of [] \<Rightarrow> SIGHASH_ALL | s # _ \<Rightarrow> sig_hash_type s);
           sigs_required = (case script of None \<Rightarrow> 1
                            | Some s \<Rightarrow> if s_sigs_required s \<noteq> 0 then s_sigs_required s else 1);
           script_type2 = (case script of
                             Some s \<Rightarrow> (if length (s_script_types s) = 1 \<and> script_type1 = None
                                        then Some (hd (s_script_types s)) else script_type1)
                           | None \<Rightarrow> script_type1);
           wt = (if witness_type = ''legacy'' \<and>
                    (script_type2 = Some ''p2sh_p2wpkh'' \<or> script_type2 = Some ''p2sh_p2wsh'')
                 then ''p2sh-segwit'' else witness_type)
       in update_scripts C hash_type
            \<lparr>i_prev_txid = prev_txid, i_output_n = output_n, i_unlocking_script = unlocking_script,
             i_locking_script = [], i_redeemscript = [], i_sequence = le_val sequence,
             i_compressed = True,
             i_index_n = index_n, i_value = 0, i_keys = keys, i_signatures = signatures,
             i_sigs_required = sigs_required, i_hash_type = hash_type, i_public_hash = [],
             i_script_type = (case script_type2 of None \<Rightarrow> ''sig_pubkey'' | Some t \<Rightarrow> t),
             i_witness_type = wt, i_witnesses = [], i_script = script, i_strict = strict\<rparr>)))"

definition input_parse ::
  "crypto \<Rightarrow> string \<Rightarrow> bool \<Rightarrow> nat \<Rightarrow> stream \<Rightarrow> (tx_input \<times> stream) res" where
  "input_parse C witness_type strict index_n s0 =
    (let (h, s1) = sread 32 s0;
         prev_hash = rev h
     in if length prev_hash \<noteq> 32 then Inl TransactionError
        else (let (o4, s2) = sread 4 s1;
                  output_n = rev o4;
                  (size, s3) = read_varbyteint s2;
                  (unlocking_script, s4) = sread size s3;
                  script_type = (if size = 1 \<and> unlocking_script = [0]
                                 then Some ''nonstandard_0001'' else None);
                  inp_type = (if witness_type = ''segwit'' \<and> size = 0 then ''segwit'' else ''legacy'');
                  (sequence_number, s5) = sread 4 s4
              in bindE (input_init C prev_hash output_n unlocking_script inp_type sequence_number
                          index_n strict script_type) (\<lambda>i. Inr (i, s5))))"

end
