(* ===== verification/Tx.thy ===== *)
theory Tx
  imports Tx_Input
begin

text \<open>
  Transactions: \<^verbatim>\<open>Output.parse\<close>, \<^verbatim>\<open>Transaction.parse_bytesio\<close> and its wrappers,
  \<^verbatim>\<open>raw\<close>, \<^verbatim>\<open>witness_data\<close>, \<^verbatim>\<open>signature_segwit\<close>, \<^verbatim>\<open>signature\<close>, \<^verbatim>\<open>signature_hash\<close>,
  \<^verbatim>\<open>calc_weight_units\<close> and \<^verbatim>\<open>update_totals\<close> of \<^verbatim>\<open>bitcoinlib/transactions.py\<close>. Attributes
  that only serve display or accounting outside the library's own logic (dates, confirmations,
  \<^verbatim>\<open>fee_per_kb\<close>, network) are left out.
\<close>

section \<open>Outputs\<close>

record tx_output =
  o_value :: int
  o_lock_script :: bytes
  o_output_n :: nat
  o_script_type :: "string option"
  o_script :: script
  o_public_hash :: item
  o_public_key :: bytes
  o_witver :: int
  o_change :: bool

text \<open>\<^verbatim>\<open>Output.__init__\<close> for a value and a locking script.\<close>

definition output_init :: "crypto \<Rightarrow> int \<Rightarrow> bytes \<Rightarrow> nat \<Rightarrow> bool \<Rightarrow> tx_output res" where
  "output_init C value lock_script0 output_n strict =
    (if strict \<and> lock_script0 = [] then Inl TransactionError
     else bindE (to_bytes (PBytes lock_script0) True) (\<lambda>lock_script.
          bindE (parse_bytes C lock_script None None (Some True) strict) (\<lambda>script.
          let nonempty = (s_commands script \<noteq> []);
              script_type1 = (if nonempty \<and> s_script_types script \<noteq> []
                              then Some (hd (s_script_types script)) else None);
              public_key = (if nonempty \<and> s_keys script \<noteq> [] then hd (s_keys script) else []);
              public_hash1 = (if nonempty then s_public_hash script else Cmd (Data []));
              public_hash = (if public_key \<noteq> [] \<and> public_hash1 = Cmd (Data [])
                             then Cmd (Data (c_ripemd160 C (c_sha256 C public_key)))
                             else public_hash1);
              bech32 = (script_type1 \<notin> {Some ''p2pkh'', Some ''p2sh'', Some ''p2pk''})
          in bindE (if nonempty \<and> script_type1 = Some ''p2tr''
                    then minus_80 (hd (s_commands script)) else Inr 0) (\<lambda>witver.
             Inr \<lparr>o_value = value, o_lock_script = lock_script, o_output_n = output_n,
                  o_script_type = (case script_type1 of
                                     None \<Rightarrow> Some (if bech32 then ''p2wpkh'' else ''p2pkh'')
                                   | t \<Rightarrow> t),
                  o_script = script, o_public_hash = public_hash, o_public_key = public_key,
                  o_witver = witver, o_change = False\<rparr>))))"

definition output_parse :: "crypto \<Rightarrow> bool \<Rightarrow> nat \<Rightarrow> stream \<Rightarrow> (tx_output \<times> stream) res" where
  "output_parse C strict output_n s0 =
    (let (v, s1) = sread 8 s0;
         (lock_script, s2) = read_varstr s1
     in bindE (output_init C (int (be_val (rev v))) lock_script output_n strict) (\<lambda>o1.
          Inr (o1, s2)))"

section \<open>Transactions\<close>

record transaction =
  t_version :: bytes
  t_version_int :: nat
  t_inputs :: "tx_input list"
  t_outputs :: "tx_output list"
  t_locktime :: nat
  t_witness_type :: string
  t_coinbase :: bool
  t_flag :: "bytes option"
  t_rawtx :: bytes
  t_size :: nat
  t_vsize :: nat
  t_txid :: string
  t_fee :: "int option"
  t_input_total :: int
  t_output_total :: int
  t_verified :: bool

subsection \<open>Serialisation\<close>

definition raw_input :: "nat option \<Rightarrow> tx_input \<Rightarrow> bytes res" where
  "raw_input sign_id i =
    bindE (case sign_id of
             None \<Rightarrow> bindE (varstr (i_unlocking_script i)) (\<lambda>v.
                       Inr ((if i_script_type i = ''nonstandard_0001'' then [1] else []) @ v))
           | Some n \<Rightarrow>
               if n = i_index_n i
               then varstr (if i_script_type i = ''p2sh_multisig'' then i_redeemscript i
                            else i_locking_script i)
               else Inr [0]) (\<lambda>script.
    bindE (int_to_le 4 (int (i_sequence i))) (\<lambda>sq.
      Inr (rev (i_prev_txid i) @ rev (i_output_n i) @ script @ sq)))"

definition raw_output :: "tx_output \<Rightarrow> bytes res" where
  "raw_output o1 =
    (if o_value o1 < 0 then Inl TransactionError
     else bindE (int_to_le 8 (o_value o1)) (\<lambda>v. bindE (varstr (o_lock_script o1)) (\<lambda>l. Inr (v @ l))))"

definition raw_witness_items :: "bytes list \<Rightarrow> bytes res" where
  "raw_witness_items ws =
    bindE (int_to_varbyteint (int (length ws))) (\<lambda>n. bindE (write_list varstr ws) (\<lambda>vs. Inr (n @ vs)))"

definition raw_witness :: "tx_input \<Rightarrow> bytes res" where
  "raw_witness i =
    (if i_witnesses i \<noteq> [] \<and> i_witness_type i \<noteq> ''legacy''
     then raw_witness_items (i_witnesses i) else Inr [0])"

definition tx_raw :: "transaction \<Rightarrow> nat option \<Rightarrow> nat \<Rightarrow> string option \<Rightarrow> bytes res" where
  "tx_raw t sign_id hash_type witness_type0 =
    (let witness_type = (case witness_type0 of None \<Rightarrow> t_witness_type t | Some w \<Rightarrow> w);
         marked = (sign_id = None \<and> witness_type = ''segwit'')
     in bindE (int_to_varbyteint (int (length (t_inputs t)))) (\<lambda>n_in.
        bindE (write_list (raw_input sign_id) (t_inputs t)) (\<lambda>ins.
        bindE (write_list raw_witness (t_inputs t)) (\<lambda>r_witness.
        bindE (int_to_varbyteint (int (length (t_outputs t)))) (\<lambda>n_out.
        bindE (write_list raw_output (t_outputs t)) (\<lambda>outs.
        bindE (int_to_le 4 (int (t_locktime t))) (\<lambda>lt.
        bindE (case sign_id of None \<Rightarrow> Inr [] | Some _ \<Rightarrow> int_to_le 4 (int hash_type)) (\<lambda>ht.
          Inr (rev (t_version t) @ (if marked then [0, 1] else []) @ n_in @ ins @ n_out @ outs @
               (if marked then r_witness else []) @ lt @ ht)))))))))"

definition witness_data :: "transaction \<Rightarrow> bytes res" where
  "witness_data t = write_list (\<lambda>i. raw_witness_items (i_witnesses i)) (t_inputs t)"

text \<open>\<^verbatim>\<open>math.ceil(wu / 4)\<close>, in integers; \<open>None\<close> for a transaction without a size.\<close>

definition calc_weight_units :: "transaction \<Rightarrow> (int option \<times> transaction) res" where
  "calc_weight_units t =
    (if t_size t = 0 then Inr (None, t)
     else bindE (witness_data t) (\<lambda>w.
       let n = length w;
           wu = (if t_witness_type t = ''segwit'' \<and> n > 1 then int (t_size t) * 4 - 6 - int n * 3
                 else int (t_size t) * 4)
       in Inr (Some wu, t\<lparr>t_vsize := nat ((wu + 3) div 4)\<rparr>)))"

text \<open>\<^verbatim>\<open>raw\<close> with its effect on the object: an unknown size is set when every input is signed.\<close>

definition tx_raw_update ::
  "transaction \<Rightarrow> nat option \<Rightarrow> nat \<Rightarrow> string option \<Rightarrow> (bytes \<times> transaction) res" where
  "tx_raw_update t sign_id hash_type witness_type =
    bindE (tx_raw t sign_id hash_type witness_type) (\<lambda>r.
      if sign_id = None \<and> t_size t = 0 \<and> list_all (\<lambda>i. i_unlocking_script i \<noteq> []) (t_inputs t)
      then bindE (calc_weight_units (t\<lparr>t_size := length r\<rparr>)) (\<lambda>(_, t1). Inr (r, t1))
      else Inr (r, t))"

subsection \<open>Signature hashes\<close>

definition SIGHASH_NONE :: nat where "SIGHASH_NONE = 2"
definition SIGHASH_SINGLE :: nat where "SIGHASH_SINGLE = 3"
definition SIGHASH_ANYONECANPAY :: nat where "SIGHASH_ANYONECANPAY = 0x80"

definition dsha :: "crypto \<Rightarrow> bytes \<Rightarrow> bytes" where
  "dsha C b = c_sha256 C (c_sha256 C b)"

definition hash_outputs_segwit :: "crypto \<Rightarrow> transaction \<Rightarrow> nat \<Rightarrow> nat \<Rightarrow> bytes res" where
  "hash_outputs_segwit C t sign_id hash_type =
    (let base = hash_type AND 0x1f;
         ser = (\<lambda>o1. bindE (int_to_le 8 (o_value o1)) (\<lambda>v. bindE (varstr (o_lock_script o1)) (\<lambda>l.
                  Inr (v @ l))))
     in if base \<noteq> SIGHASH_SINGLE \<and> base \<noteq> SIGHASH_NONE
        then bindE (write_list ser (t_outputs t)) (\<lambda>outs. Inr (dsha C outs))
        else if base \<noteq> SIGHASH_SINGLE \<and> sign_id < length (t_outputs t)
        then bindE (ser (t_outputs t ! sign_id)) (\<lambda>o1. Inr (dsha C o1))
        else Inr (replicate 32 0))"

text \<open>
  \<^verbatim>\<open>signature_segwit\<close> and its effect: an input without a redeem script gets its locking script
  for one.
\<close>

definition signature_segwit ::
  "crypto \<Rightarrow> transaction \<Rightarrow> nat \<Rightarrow> nat \<Rightarrow> (bytes \<times> transaction) res" where
  "signature_segwit C t sign_id hash_type =
    (if t_witness_type t \<noteq> ''segwit'' then Inl AssertionError
     else
      let base = hash_type AND 0x1f;
          anyone = (hash_type AND SIGHASH_ANYONECANPAY \<noteq> 0);
          prevouts = concat (map (\<lambda>i. rev (i_prev_txid i) @ rev (i_output_n i)) (t_inputs t))
      in bindE (write_list (\<lambda>i. int_to_le 4 (int (i_sequence i))) (t_inputs t)) (\<lambda>sequences.
         let hash_prevouts = (if anyone then replicate 32 0 else dsha C prevouts);
             hash_sequence = (if anyone \<or> base = SIGHASH_SINGLE \<or> base = SIGHASH_NONE
                              then replicate 32 0 else dsha C sequences)
         in bindE (hash_outputs_segwit C t sign_id hash_type) (\<lambda>hash_outputs.
         if length (t_inputs t) \<le> sign_id then Inl IndexError
         else (let i = t_inputs t ! sign_id;
                   is_coinbase = (i_script_type i = ''coinbase'')
               in if i_value i = 0 \<and> \<not> is_coinbase then Inl TransactionError
                  else (let i1 = (if i_redeemscript i = []
                                  then i\<lparr>i_redeemscript := i_locking_script i\<rparr> else i);
                            t1 = t\<lparr>t_inputs := (t_inputs t)[sign_id := i1]\<rparr>
                        in if (i_redeemscript i1 = [] \<or> i_redeemscript i1 = [0]) \<and> \<not> is_coinbase
                           then Inl TransactionError
                           else
                             bindE (varstr (i_redeemscript i1)) (\<lambda>rs.
                             bindE (int_to_le 8 (i_value i1)) (\<lambda>v.
                             bindE (int_to_le 4 (int (i_sequence i1))) (\<lambda>sq.
                             bindE (int_to_le 4 (int (t_locktime t))) (\<lambda>lt.
                             bindE (int_to_le 4 (int hash_type)) (\<lambda>ht.
                               Inr (rev (t_version t) @ hash_prevouts @ hash_sequence @
                                    rev (i_prev_txid i1) @ rev (i_output_n i1) @ rs @ v @ sq @
                                    hash_outputs @ lt @ ht, t1)))))))))))"

definition signature ::
  "crypto \<Rightarrow> transaction \<Rightarrow> nat option \<Rightarrow> nat \<Rightarrow> string option \<Rightarrow> (bytes \<times> transaction) res" where
  "signature C t sign_id hash_type witness_type0 =
    (let witness_type = (case witness_type0 of None \<Rightarrow> t_witness_type t | Some w \<Rightarrow> w)
     in if witness_type = ''legacy'' \<or> sign_id = None
        then tx_raw_update t sign_id hash_type (Some ''legacy'')
        else if witness_type = ''segwit'' \<or> witness_type = ''p2sh-segwit''
        then signature_segwit C t (the sign_id) hash_type
        else Inl TransactionError)"

definition signature_hash ::
  "crypto \<Rightarrow> transaction \<Rightarrow> nat option \<Rightarrow> nat \<Rightarrow> string option \<Rightarrow> (bytes \<times> transaction) res" where
  "signature_hash C t sign_id hash_type witness_type =
    bindE (signature C t sign_id hash_type witness_type) (\<lambda>(b, t1). Inr (dsha C b, t1))"

subsection \<open>Totals\<close>

definition update_totals :: "transaction \<Rightarrow> transaction" where
  "update_totals t =
    (let output_total = sum_list (map o_value (t_outputs t));
         input_total = (if t_coinbase t then output_total else sum_list (map i_value (t_inputs t)))
     in t\<lparr>t_input_total := input_total, t_output_total := output_total,
          t_fee := (if input_total \<noteq> 0 then Some (input_total - output_total) else t_fee t)\<rparr>)"

end
