(* ===== verification/Tx_Verify.thy ===== *)
theory Tx_Verify
  imports Tx
begin

text \<open>
  Verification of signatures: \<^verbatim>\<open>Input.verify\<close> and \<^verbatim>\<open>Transaction.verify\<close> of
  \<^verbatim>\<open>bitcoinlib/transactions.py\<close>. The function \<^verbatim>\<open>verify\<close> of \<^verbatim>\<open>keys.py\<close> that they call is
  \<open>signature_verify\<close>; it stores the key it was given in the signature object, which signing
  reads later.
\<close>

section \<open>Input.verify\<close>

text \<open>
  The loop, on the keys from \<^verbatim>\<open>key_n\<close> on. Verification of the previous signature works on a
  copy of it, so that only the current signature is changed.
\<close>

fun verify_loop ::
  "crypto \<Rightarrow> bytes \<Rightarrow> int \<Rightarrow> bytes list \<Rightarrow> signature list \<Rightarrow> nat \<Rightarrow> int
    \<Rightarrow> (bool \<times> signature list) res" where
  "verify_loop C h sigs_required [] sigs sig_n sigs_verified =
     Inr (sigs_required \<le> sigs_verified, sigs)"
| "verify_loop C h sigs_required (key # keys) sigs sig_n sigs_verified =
     (if sigs_required \<le> sigs_verified then Inr (True, sigs)
      else if length sigs \<le> sig_n then Inr (False, sigs)
      else bindE (signature_verify C (sigs ! sig_n) (Some h) (Some key)) (\<lambda>ok.
           bindE (set_public_key C key (sigs ! sig_n)) (\<lambda>s1.
           let sigs1 = sigs[sig_n := s1]
           in if ok then verify_loop C h sigs_required keys sigs1 (sig_n + 1) (sigs_verified + 1)
              else if sig_n > 0
              then bindE (signature_verify C (sigs1 ! (sig_n - 1)) (Some h) (Some key)) (\<lambda>prev.
                     verify_loop C h sigs_required keys sigs1 sig_n
                       (if prev then sigs_verified + 1 else sigs_verified))
              else verify_loop C h sigs_required keys sigs1 sig_n sigs_verified)))"

text \<open>
  \<^verbatim>\<open>Input.verify\<close>: the result and the input with what verification stored in its signatures;
  the attribute \<^verbatim>\<open>valid\<close>, which is set to \<^verbatim>\<open>True\<close> with the result, is not kept.
\<close>

definition input_verify :: "crypto \<Rightarrow> bytes \<Rightarrow> tx_input \<Rightarrow> (bool \<times> tx_input) res" where
  "input_verify C transaction_hash i =
    (if i_script_type i = ''coinbase'' then Inr (True, i)
     else if i_signatures i = [] then Inr (False, i)
     else bindE (verify_loop C transaction_hash (i_sigs_required i) (i_keys i) (i_signatures i) 0 0)
            (\<lambda>(ok, sigs). Inr (ok, i\<lparr>i_signatures := sigs\<rparr>)))"

section \<open>Transaction.verify\<close>

text \<open>
  The loop over the inputs, by position. A \<^verbatim>\<open>TransactionError\<close> of the hash ends it with
  \<^verbatim>\<open>False\<close>; every other exception leaves the method.
\<close>

fun tx_verify_loop :: "crypto \<Rightarrow> nat list \<Rightarrow> transaction \<Rightarrow> (bool \<times> transaction) res" where
  "tx_verify_loop C [] t = Inr (True, t\<lparr>t_verified := True\<rparr>)"
| "tx_verify_loop C (j # js) t =
     (let inp = t_inputs t ! j
      in case signature_hash C t (Some (i_index_n inp)) (i_hash_type inp) (Some (i_witness_type inp)) of
           Inl e \<Rightarrow> if e = TransactionError then Inr (False, t) else Inl e
         | Inr (transaction_hash, t1) \<Rightarrow>
             if transaction_hash = [] then Inr (False, t1)
             else bindE (input_verify C transaction_hash (t_inputs t1 ! j)) (\<lambda>(ok, inp1).
                  let t2 = t1\<lparr>t_inputs := (t_inputs t1)[j := inp1], t_verified := ok\<rparr>
                  in if ok then tx_verify_loop C js t2 else Inr (False, t2)))"

definition tx_verify :: "crypto \<Rightarrow> transaction \<Rightarrow> (bool \<times> transaction) res" where
  "tx_verify C t = tx_verify_loop C [0..<length (t_inputs t)] (t\<lparr>t_verified := False\<rparr>)"

section \<open>What an input's signatures have to satisfy\<close>

text \<open>The signature verifies the hash under the key.\<close>

definition sig_signs :: "crypto \<Rightarrow> bytes \<Rightarrow> signature \<Rightarrow> bytes \<Rightarrow> bool" where
  "sig_signs C h s k \<longleftrightarrow> signature_verify C s (Some h) (Some k) = Inr True"

text \<open>The same numbers: all that verification under a given key looks at.\<close>

abbreviation numbers :: "signature \<Rightarrow> nat \<times> nat" where
  "numbers s \<equiv> (sig_r s, sig_s s)"

lemma signature_verify_numbers: "numbers s = numbers s' \<Longrightarrow>
    signature_verify C s m (Some k) = signature_verify C s' m (Some k)"
  by (cases m; cases "key_point C k") (simp_all add: signature_verify_def)

lemma sig_signs_numbers: "numbers s = numbers s' \<Longrightarrow> sig_signs C h s k = sig_signs C h s' k"
  using signature_verify_numbers [of s s' C "Some h" k] by (simp add: sig_signs_def)

lemma nth_map_eq: "j < length ys \<Longrightarrow> map f xs = map f ys \<Longrightarrow> f (xs ! j) = f (ys ! j)"
  by (metis map_eq_imp_length_eq nth_map)

lemma map_update_same: "f y = f (xs ! n) \<Longrightarrow> map f (xs[n := y]) = map f xs"
  by (induction xs arbitrary: n) (simp_all split: nat.split)

lemma set_public_key_ok:
  assumes "is_ok (signature_verify C s m (Some k))"
  shows "\<exists>s1. set_public_key C k s = Inr s1 \<and> numbers s1 = numbers s"
  using assms by (cases "key_point C k") (simp_all add: set_public_key_def signature_verify_def)

text \<open>
  The loop with the verifications as a predicate on the index of the signature and the key:
  nothing of the stored keys is left.
\<close>

fun count_loop :: "(nat \<Rightarrow> 'k \<Rightarrow> bool) \<Rightarrow> nat \<Rightarrow> int \<Rightarrow> 'k list \<Rightarrow> nat \<Rightarrow> int \<Rightarrow> bool" where
  "count_loop ok len m [] n v = (m \<le> v)"
| "count_loop ok len m (k # ks) n v =
     (if m \<le> v then True
      else if len \<le> n then False
      else if ok n k then count_loop ok len m ks (n + 1) (v + 1)
      else count_loop ok len m ks n (if n > 0 \<and> ok (n - 1) k then v + 1 else v))"

lemma verify_loop_count:
  assumes "map numbers sigs = map numbers sigs0"
    and "\<forall>s \<in> set sigs0. \<forall>k \<in> set keys. is_ok (signature_verify C s (Some h) (Some k))"
  shows "\<exists>sigs'. verify_loop C h m keys sigs n v =
      Inr (count_loop (\<lambda>j k. sig_signs C h (sigs0 ! j) k) (length sigs0) m keys n v, sigs') \<and>
    map numbers sigs' = map numbers sigs0"
  using assms
proof (induction keys arbitrary: sigs n v)
  case (Cons k keys)
  have len: "length sigs = length sigs0" using Cons.prems(1) by (rule map_eq_imp_length_eq)
  show ?case
  proof (cases "m \<le> v \<or> length sigs0 \<le> n")
    case True
    then show ?thesis using len Cons.prems(1) by auto
  next
    case False
    then have n: "n < length sigs0" and v: "\<not> m \<le> v" by simp_all
    have num: "j < length sigs0 \<Longrightarrow> map numbers ss = map numbers sigs0 \<Longrightarrow>
        numbers (ss ! j) = numbers (sigs0 ! j)" for ss :: "signature list" and j
      by (rule nth_map_eq)
    have ver: "\<exists>b. signature_verify C (ss ! j) (Some h) (Some k) = Inr b \<and>
        b = sig_signs C h (sigs0 ! j) k"
      if "j < length sigs0" "map numbers ss = map numbers sigs0" for ss j
    proof -
      have "is_ok (signature_verify C (sigs0 ! j) (Some h) (Some k))"
        using Cons.prems(2) that(1) by simp
      then show ?thesis
        unfolding signature_verify_numbers [OF num [OF that]] sig_signs_def
        by (cases "signature_verify C (sigs0 ! j) (Some h) (Some k)") simp_all
    qed
    obtain b where b: "signature_verify C (sigs ! n) (Some h) (Some k) = Inr b"
      "b = sig_signs C h (sigs0 ! n) k" using ver [OF n Cons.prems(1)] by blast
    obtain s1 where s1: "set_public_key C k (sigs ! n) = Inr s1" "numbers s1 = numbers (sigs ! n)"
      using set_public_key_ok [of C "sigs ! n" "Some h" k] b(1) by auto
    define sigs1 where "sigs1 = sigs[n := s1]"
    have m1: "map numbers sigs1 = map numbers sigs0"
      unfolding sigs1_def map_update_same [of numbers, OF s1(2)] by (rule Cons.prems(1))
    have IH: "\<exists>sigs'. verify_loop C h m keys sigs1 n' v' =
        Inr (count_loop (\<lambda>j k. sig_signs C h (sigs0 ! j) k) (length sigs0) m keys n' v', sigs') \<and>
      map numbers sigs' = map numbers sigs0" for n' v'
      using m1 Cons.prems(2) by (intro Cons.IH) simp_all
    obtain p where p: "0 < n \<longrightarrow> signature_verify C (sigs1 ! (n - 1)) (Some h) (Some k) = Inr p \<and>
        p = sig_signs C h (sigs0 ! (n - 1)) k"
      using ver [of "n - 1" sigs1] n m1 by fastforce
    have step: "verify_loop C h m (k # keys) sigs n v =
        (if b then verify_loop C h m keys sigs1 (n + 1) (v + 1)
         else if n > 0 then verify_loop C h m keys sigs1 n (if p then v + 1 else v)
         else verify_loop C h m keys sigs1 n v)"
      using n v len b(1) s1(1) p by (simp add: sigs1_def Let_def)
    have count: "count_loop (\<lambda>j k. sig_signs C h (sigs0 ! j) k) (length sigs0) m (k # keys) n v =
        (if b then count_loop (\<lambda>j k. sig_signs C h (sigs0 ! j) k) (length sigs0) m keys (n + 1) (v + 1)
         else count_loop (\<lambda>j k. sig_signs C h (sigs0 ! j) k) (length sigs0) m keys n
           (if n > 0 \<and> p then v + 1 else v))"
      using n v b(2) p by (cases "0 < n") simp_all
    show ?thesis
      unfolding step count using IH by (cases b; cases "0 < n"; cases p) simp_all
  qed
qed (use assms in auto)

section \<open>The specification\<close>

text \<open>The elements of a list can be assigned, in order, to different elements of another.\<close>

fun embeds :: "('a \<Rightarrow> 'b \<Rightarrow> bool) \<Rightarrow> 'a list \<Rightarrow> 'b list \<Rightarrow> bool" where
  "embeds P [] ks = True"
| "embeds P (x # xs) [] = False"
| "embeds P (x # xs) (k # ks) = (P x k \<and> embeds P xs ks \<or> embeds P (x # xs) ks)"


lemma embeds_Nil2 [simp]: "embeds P xs [] \<longleftrightarrow> xs = []"
  by (cases xs) simp_all


text \<open>The first required signatures are assigned to keys that verify them.\<close>

definition enough_signatures :: "crypto \<Rightarrow> bytes \<Rightarrow> int \<Rightarrow> bytes list \<Rightarrow> signature list \<Rightarrow> bool" where
  "enough_signatures C h m keys sigs \<longleftrightarrow>
     m \<le> int (length sigs) \<and> embeds (sig_signs C h) (take (nat m) sigs) keys"





text \<open>What the loop guarantees without any assumption on the keys.\<close>

lemma count_loop_sound:
  assumes "count_loop ok len m keys n v" "\<not> m \<le> v" "n \<le> len"
  shows "m \<le> v + int (length (filter (\<lambda>k. \<exists>j < len. ok j k) keys))"
  using assms
proof (induction ok len m keys n v rule: count_loop.induct)
  case (2 ok len m k ks n v)
  let ?f = "\<lambda>k. \<exists>j < len. ok j k"
  have n: "n < len" and m: "\<not> m \<le> v" using 2 by (auto split: if_splits)
  have v: "m \<le> v + int (length (filter ?f (k # ks)))"
    if "count_loop ok len m ks n' (v + 1)" "n' \<le> len" "?f k"
      "\<not> m \<le> v + 1 \<Longrightarrow> m \<le> v + 1 + int (length (filter ?f ks))" for n'
    using that by (cases "m \<le> v + 1") simp_all
  show ?case
  proof (cases "ok n k")
    case True
    then show ?thesis using 2 n m by (intro v [of "n + 1"]) (auto split: if_splits)
  next
    case no: False
    show ?thesis
    proof (cases "0 < n \<and> ok (n - 1) k")
      case True
      then have "?f k" using n by (intro exI [of _ "n - 1"]) simp
      then show ?thesis using 2 n m no True by (intro v [of n]) (auto split: if_splits)
    next
      case False
      then have "m \<le> v + int (length (filter ?f ks))" using 2 n m no by (auto split: if_splits)
      then show ?thesis by simp
    qed
  qed
qed simp

lemma input_verify_count:
  assumes "i_script_type i \<noteq> ''coinbase''" "i_signatures i \<noteq> []"
    and "\<forall>s \<in> set (i_signatures i). \<forall>k \<in> set (i_keys i). is_ok (signature_verify C s (Some h) (Some k))"
  shows "\<exists>i'. input_verify C h i = Inr (count_loop (\<lambda>j k. sig_signs C h (i_signatures i ! j) k)
      (length (i_signatures i)) (i_sigs_required i) (i_keys i) 0 0, i')"
  using verify_loop_count [OF refl assms(3), of "i_sigs_required i" 0 0] assms(1,2)
  by (auto simp: input_verify_def)

section \<open>The inputs of a transaction\<close>

text \<open>Verification changes nothing that the hash of a legacy input reads.\<close>

abbreviation unsigned :: "tx_input \<Rightarrow> tx_input" where
  "unsigned i \<equiv> i\<lparr>i_signatures := []\<rparr>"

lemma write_list_map: "(\<And>x. f x = f (g x)) \<Longrightarrow> write_list f xs = write_list f (map g xs)"
  by (induction xs) simp_all

lemma tx_raw_unsigned:
  assumes "map unsigned ins = map unsigned (t_inputs t)"
  shows "tx_raw (t\<lparr>t_inputs := ins, t_verified := b\<rparr>) sid ht w = tx_raw t sid ht w"
proof -
  have f: "write_list (raw_input sid) xs = write_list (raw_input sid) (map unsigned xs)" for xs
    by (rule write_list_map) (simp add: raw_input_def split: option.split)
  have g: "write_list raw_witness xs = write_list raw_witness (map unsigned xs)" for xs
    by (rule write_list_map) (simp add: raw_witness_def)
  have "length ins = length (t_inputs t)" using assms by (rule map_eq_imp_length_eq)
  then show ?thesis
    unfolding tx_raw_def Let_def using assms f [of ins] f [of "t_inputs t"] g [of ins] g [of "t_inputs t"]
    by (cases w) simp_all
qed

text \<open>The hash that input \<open>i\<close> of the transaction signs.\<close>

definition input_hash :: "crypto \<Rightarrow> transaction \<Rightarrow> tx_input \<Rightarrow> bytes res" where
  "input_hash C t i =
    bindE (signature_hash C t (Some (i_index_n i)) (i_hash_type i) (Some (i_witness_type i)))
      (\<lambda>(h, _). Inr h)"

lemma signature_hash_legacy:
  "signature_hash C t (Some n) ht (Some ''legacy'') =
    bindE (tx_raw t (Some n) ht (Some ''legacy'')) (\<lambda>r. Inr (dsha C r, t))"
  by (simp add: signature_hash_def signature_def tx_raw_update_def bindE_assoc)

lemma input_verify_unsigned: "input_verify C h i = Inr (ok, i') \<Longrightarrow> unsigned i' = unsigned i"
  by (auto simp: input_verify_def bindE_Inr_iff split: if_splits)

definition input_accepted :: "crypto \<Rightarrow> transaction \<Rightarrow> tx_input \<Rightarrow> bool" where
  "input_accepted C t i \<longleftrightarrow> (\<exists>h i'. input_hash C t i = Inr h \<and> h \<noteq> [] \<and> input_verify C h i = Inr (True, i'))"

lemma tx_verify_loop_legacy:
  assumes "map unsigned ins = map unsigned (t_inputs t)" "distinct js"
    and "\<forall>j \<in> set js. j < length ins \<and> ins ! j = t_inputs t ! j"
    and "\<forall>i \<in> set (t_inputs t). i_witness_type i = ''legacy''"
  shows "(\<exists>t'. tx_verify_loop C js (t\<lparr>t_inputs := ins, t_verified := b\<rparr>) = Inr (True, t')) \<longleftrightarrow>
    (\<forall>j \<in> set js. input_accepted C t (t_inputs t ! j))"
  using assms
proof (induction js arbitrary: ins b)
  case (Cons j js)
  let ?t = "t\<lparr>t_inputs := ins, t_verified := b\<rparr>" and ?i = "t_inputs t ! j"
  have len: "length ins = length (t_inputs t)" using Cons.prems(1) by (rule map_eq_imp_length_eq)
  have j: "j < length ins" "ins ! j = ?i" "i_witness_type ?i = ''legacy''"
    using Cons.prems(3,4) len by simp_all
  let ?raw = "tx_raw t (Some (i_index_n ?i)) (i_hash_type ?i) (Some ''legacy'')"
  have hash: "signature_hash C ?t (Some (i_index_n ?i)) (i_hash_type ?i) (Some (i_witness_type ?i)) =
      bindE ?raw (\<lambda>r. Inr (dsha C r, ?t))"
    unfolding j(3) signature_hash_legacy tx_raw_unsigned [OF Cons.prems(1)] ..
  have ih: "input_hash C t ?i = bindE ?raw (\<lambda>r. Inr (dsha C r))"
    unfolding input_hash_def j(3) signature_hash_legacy by (simp add: bindE_assoc)
  show ?case
  proof (cases ?raw)
    case (Inl e)
    then have "\<not> input_accepted C t ?i" by (simp add: input_accepted_def ih)
    then show ?thesis using hash j(2) Inl by auto
  next
    case (Inr r)
    show ?thesis
    proof (cases "\<exists>i'. dsha C r \<noteq> [] \<and> input_verify C (dsha C r) ?i = Inr (True, i')")
      case True
      then obtain i' where i': "dsha C r \<noteq> []" "input_verify C (dsha C r) ?i = Inr (True, i')" by blast
      have "map unsigned (ins[j := i']) = map unsigned (t_inputs t)"
        using map_update_same [of unsigned, OF input_verify_unsigned [OF i'(2)]] Cons.prems(1) j(2)
        by (metis map_update_same input_verify_unsigned [OF i'(2)])
      then have "(\<exists>t'. tx_verify_loop C js (t\<lparr>t_inputs := ins[j := i'], t_verified := True\<rparr>) =
          Inr (True, t')) \<longleftrightarrow> (\<forall>j \<in> set js. input_accepted C t (t_inputs t ! j))"
        using Cons.prems(2-4) by (intro Cons.IH) (auto simp: nth_list_update)
      moreover have "input_accepted C t ?i" using i' Inr by (auto simp: input_accepted_def ih)
      ultimately show ?thesis using hash j(1,2) Inr i' by simp
    next
      case False
      then have "\<not> input_accepted C t ?i" using Inr by (auto simp: input_accepted_def ih)
      moreover have "tx_verify_loop C (j # js) ?t \<noteq> Inr (True, t')" for t'
        using False hash j Inr
        by (cases "input_verify C (dsha C r) ?i") (auto split: if_splits)
      ultimately show ?thesis by auto
    qed
  qed
qed simp

section \<open>Properties\<close>


text \<open>Without any assumption on the keys, an accepted input that is not a coinbase has at
  least the required number of key positions under which one of its signatures verifies.\<close>

theorem input_verify_sound:
  assumes "i_script_type i \<noteq> ''coinbase''"
    and "\<forall>s \<in> set (i_signatures i). \<forall>k \<in> set (i_keys i). is_ok (signature_verify C s (Some h) (Some k))"
    and "input_verify C h i = Inr (True, i')"
  shows "i_sigs_required i \<le>
    int (length (filter (\<lambda>k. \<exists>s \<in> set (i_signatures i). sig_signs C h s k) (i_keys i)))"
proof -
  have ne: "i_signatures i \<noteq> []" using assms(1,3) by (auto simp: input_verify_def)
  have c: "count_loop (\<lambda>j k. sig_signs C h (i_signatures i ! j) k) (length (i_signatures i))
      (i_sigs_required i) (i_keys i) 0 0"
    using input_verify_count [OF assms(1) ne assms(2)] assms(3) by simp
  have "(\<exists>j < length (i_signatures i). sig_signs C h (i_signatures i ! j) k) \<longleftrightarrow>
      (\<exists>s \<in> set (i_signatures i). sig_signs C h s k)" for k
    by (metis in_set_conv_nth)
  then show ?thesis using count_loop_sound [OF c] by (cases "i_sigs_required i \<le> 0") simp_all
qed

text \<open>The retry with the previous signature counts one signature twice when its key occurs
  twice: a two-of-two input with the key list \<open>[k, k]\<close> is accepted with a single signature for
  \<open>k\<close> followed by one that verifies under no key, although it does not carry enough
  signatures.\<close>

theorem input_verify_counts_twice:
  assumes "i_script_type i \<noteq> ''coinbase''" "i_sigs_required i = 2"
    and "i_keys i = [k, k]" "i_signatures i = [s, s']"
    and "signature_verify C s (Some h) (Some k) = Inr True"
    and "signature_verify C s' (Some h) (Some k) = Inr False"
  shows "(\<exists>i'. input_verify C h i = Inr (True, i')) \<and>
    \<not> enough_signatures C h (i_sigs_required i) (i_keys i) (i_signatures i)"
proof -
  have "\<exists>i'. input_verify C h i = Inr (count_loop (\<lambda>j k. sig_signs C h (i_signatures i ! j) k)
      (length (i_signatures i)) (i_sigs_required i) (i_keys i) 0 0, i')"
    using assms by (intro input_verify_count) simp_all
  moreover have "sig_signs C h s k" "\<not> sig_signs C h s' k" using assms(5,6) by (simp_all add: sig_signs_def)
  ultimately show ?thesis using assms(2-4) by (simp add: enough_signatures_def numeral_2_eq_2)
qed

text \<open>C29: \<^verbatim>\<open>Transaction.verify\<close> of a transaction with legacy inputs returns \<^verbatim>\<open>True\<close> exactly
  when every input is accepted for the hash that it signs in the transaction as it was before:
  what verification stores on the way does not matter.\<close>

theorem tx_verify_legacy:
  assumes "\<forall>i \<in> set (t_inputs t). i_witness_type i = ''legacy''"
  shows "(\<exists>t'. tx_verify C t = Inr (True, t')) \<longleftrightarrow> (\<forall>i \<in> set (t_inputs t). input_accepted C t i)"
proof -
  have t: "t\<lparr>t_verified := False\<rparr> = t\<lparr>t_inputs := t_inputs t, t_verified := False\<rparr>" by simp
  have "(\<exists>t'. tx_verify C t = Inr (True, t')) \<longleftrightarrow>
      (\<forall>j \<in> set [0..<length (t_inputs t)]. input_accepted C t (t_inputs t ! j))"
    unfolding tx_verify_def t using assms by (intro tx_verify_loop_legacy) auto
  then show ?thesis by (auto simp: all_set_conv_all_nth)
qed

section \<open>Witnesses\<close>

definition example_sig :: "nat \<Rightarrow> signature" where
  "example_sig r = \<lparr>sig_r = r, sig_s = 1, sig_hash_type = 1, sig_bytes = [], sig_der = [],
     sig_der_encoded = [], sig_public_key = None, sig_point = None\<rparr>"

definition example_multisig_input :: "bytes list \<Rightarrow> signature list \<Rightarrow> int \<Rightarrow> tx_input" where
  "example_multisig_input keys sigs m = \<lparr>i_prev_txid = replicate 32 1, i_output_n = [0, 0, 0, 0],
     i_unlocking_script = [], i_locking_script = [], i_redeemscript = [], i_sequence = 5,
     i_compressed = True, i_index_n = 0, i_value = 0, i_keys = keys, i_signatures = sigs,
     i_sigs_required = m, i_hash_type = 1, i_public_hash = [], i_script_type = ''p2sh_multisig'',
     i_witness_type = ''legacy'', i_witnesses = [], i_script = None, i_strict = False\<rparr>"

lemma verify_example [simp]: "signature_verify example_crypto (example_sig r) (Some (a # m)) (Some (b # k)) =
    Inr (r = unat b)"
  using of_nat_eq_iff [of r "unat b", where 'a = int]
  by (simp add: signature_verify_def example_crypto_def example_sig_def)


theorem input_verify_sound_witness:
  "2 \<le> int (length (filter (\<lambda>k. \<exists>s \<in> {example_sig 5, example_sig 7}. sig_signs example_crypto [1] s k)
      [[5], [6], [7]]))"
proof -
  let ?i = "example_multisig_input [[5], [6], [7]] [example_sig 5, example_sig 7] 2"
  have "\<exists>i'. input_verify example_crypto [1] ?i = Inr (True, i')"
    using input_verify_count [of ?i example_crypto "[1]"]
    by (simp add: example_multisig_input_def sig_signs_def)
  then obtain i' where "input_verify example_crypto [1] ?i = Inr (True, i')" by blast
  from input_verify_sound [OF _ _ this] show ?thesis by (simp add: example_multisig_input_def)
qed

theorem input_verify_counts_twice_witness:
  "\<exists>i'. input_verify example_crypto [1]
      (example_multisig_input [[5], [5]] [example_sig 5, example_sig 9] 2) = Inr (True, i')"
  using input_verify_counts_twice
    [of "example_multisig_input [[5], [5]] [example_sig 5, example_sig 9] 2" "[5]" "example_sig 5"
      "example_sig 9" example_crypto "[1]"]
  by (simp add: example_multisig_input_def)

definition example_signed_tx :: "tx_input list \<Rightarrow> transaction" where
  "example_signed_tx is = \<lparr>t_version = [0, 0, 0, 1], t_version_int = 1, t_inputs = is,
     t_outputs = [], t_locktime = 0, t_witness_type = ''legacy'', t_coinbase = False, t_flag = None,
     t_rawtx = [], t_size = 0, t_vsize = 0, t_txid = [], t_fee = None, t_input_total = 0,
     t_output_total = 0, t_verified = False\<rparr>"

theorem tx_verify_legacy_witness:
  "\<exists>t'. tx_verify example_crypto
      (example_signed_tx [example_multisig_input [[5], [6]] [example_sig 6] 1]) = Inr (True, t')"
proof -
  let ?i = "example_multisig_input [[5], [6]] [example_sig 6] 1"
  have "is_ok (tx_raw (example_signed_tx [?i]) (Some 0) 1 (Some ''legacy''))"
    by (simp add: tx_raw_def example_signed_tx_def example_multisig_input_def raw_input_def
      raw_witness_def varstr_def int_to_varbyteint_def int_to_le_def)
  then obtain r where "tx_raw (example_signed_tx [?i]) (Some 0) 1 (Some ''legacy'') = Inr r"
    by (cases "tx_raw (example_signed_tx [?i]) (Some 0) 1 (Some ''legacy'')") simp_all
  then have "input_hash example_crypto (example_signed_tx [?i]) ?i = Inr (dsha example_crypto r)"
    by (simp add: input_hash_def example_multisig_input_def signature_hash_legacy)
  moreover have "dsha example_crypto r = last (0 # r) # replicate 31 (last (0 # r))"
    by (simp add: dsha_def example_crypto_def numeral_eq_Suc)
  moreover have "\<exists>i'. input_verify example_crypto (a # m) ?i = Inr (True, i')" for a m
    using input_verify_count [of ?i example_crypto "a # m"]
    by (simp add: example_multisig_input_def sig_signs_def)
  ultimately have "input_accepted example_crypto (example_signed_tx [?i]) ?i"
    unfolding input_accepted_def by (metis list.distinct(1))
  then show ?thesis
    using tx_verify_legacy [of "example_signed_tx [?i]" example_crypto]
    by (simp add: example_signed_tx_def example_multisig_input_def)
qed

end
