(* ===== verification/Tx_Sign.thy ===== *)
theory Tx_Sign
  imports Tx_Verify
begin

text \<open>
  Signing: \<^verbatim>\<open>Transaction.sign\<close>, \<^verbatim>\<open>sign_and_update\<close> and the \<^verbatim>\<open>set_locktime\<close> methods of
  \<^verbatim>\<open>bitcoinlib/transactions.py\<close>. A \<^verbatim>\<open>Key\<close> object is its public and its private bytes, the
  latter empty for a public key; \<open>held\<close> gives the objects in the key list of every input, whose
  public bytes are \<open>i_keys\<close>.
\<close>

record key_obj =
  pk_public :: bytes
  pk_private :: bytes

text \<open>\<^verbatim>\<open>Key.__eq__\<close>\<close>

definition key_eq :: "key_obj \<Rightarrow> key_obj \<Rightarrow> bool" where
  "key_eq a b =
    (if pk_private a \<noteq> [] \<and> pk_private b \<noteq> [] then pk_private a = pk_private b
     else pk_public a = pk_public b)"

text \<open>The keys that sign an input: the given ones and the private ones it has.\<close>

definition signing_keys :: "key_obj list \<Rightarrow> key_obj list \<Rightarrow> key_obj list" where
  "signing_keys keys held =
    foldl (\<lambda>acc k. if pk_private k \<noteq> [] \<and> \<not> list_ex (key_eq k) acc then acc @ [k] else acc) keys held"

fun index_in :: "'a \<Rightarrow> 'a list \<Rightarrow> nat option" where
  "index_in x [] = None"
| "index_in x (y # ys) = (if x = y then Some 0 else map_option Suc (index_in x ys))"

text \<open>
  The loop over these keys: the positions of \<^verbatim>\<open>sig_domain\<close> with a signature and \<^verbatim>\<open>n_signs\<close>.
  The signatures know public keys only, so that \<^verbatim>\<open>in\<close> compares public bytes.
\<close>

fun sign_keys ::
  "crypto \<Rightarrow> bytes \<Rightarrow> nat \<Rightarrow> bool \<Rightarrow> bool \<Rightarrow> bytes list \<Rightarrow> signature list \<Rightarrow> key_obj list
    \<Rightarrow> signature option list \<Rightarrow> nat \<Rightarrow> (signature option list \<times> nat) res" where
  "sign_keys C txid hash_type fail replace pubs sigs [] sig_domain n_signs = Inr (sig_domain, n_signs)"
| "sign_keys C txid hash_type fail replace pubs sigs (key # keys) sig_domain n_signs =
     (case index_in (pk_public key) pubs of
        None \<Rightarrow> if fail then Inl TransactionError
                else sign_keys C txid hash_type fail replace pubs sigs keys sig_domain n_signs
      | Some newsig_pos \<Rightarrow>
          if \<not> replace \<and> list_ex (\<lambda>s. sig_public_key s = Some (pk_public key)) sigs
          then Inr (sig_domain, n_signs)
          else if pk_private key = [] then Inl TransactionError
          else bindE (signature_create C txid (pk_private key) (pk_public key) hash_type True True) (\<lambda>sig.
                 sign_keys C txid hash_type fail replace pubs sigs keys
                   (sig_domain[newsig_pos := Some sig]) (n_signs + 1)))"

text \<open>
  The known signatures on the position of their keys, up to the first without a key, and the
  number of signatures still to insert.
\<close>

fun place_known ::
  "bytes list \<Rightarrow> signature list \<Rightarrow> signature option list \<Rightarrow> int
    \<Rightarrow> (signature option list \<times> int) res" where
  "place_known pubs [] sig_domain n = Inr (sig_domain, n)"
| "place_known pubs (sig # sigs) sig_domain n =
     (case sig_public_key sig of
        None \<Rightarrow> Inr (sig_domain, n)
      | Some k \<Rightarrow>
          (case index_in k pubs of
             None \<Rightarrow> Inl ValueError
           | Some pos \<Rightarrow>
               if sig_domain ! pos = None
               then place_known pubs sigs (sig_domain[pos := Some sig]) (n - 1)
               else place_known pubs sigs sig_domain n))"

text \<open>Every signature, placed before or not, on the first position that is still free.\<close>

fun fill_free :: "signature list \<Rightarrow> signature option list \<Rightarrow> signature option list" where
  "fill_free [] sig_domain = sig_domain"
| "fill_free (sig # sigs) sig_domain =
     fill_free sigs (case index_in None sig_domain of
                       None \<Rightarrow> sig_domain
                     | Some pos \<Rightarrow> sig_domain[pos := Some sig])"

definition present :: "'a option list \<Rightarrow> 'a list" where
  "present xs = concat (map (\<lambda>x. case x of None \<Rightarrow> [] | Some y \<Rightarrow> [y]) xs)"

text \<open>The signatures of an input after signing.\<close>

definition merge_signatures ::
  "bytes list \<Rightarrow> signature list \<Rightarrow> signature option list \<Rightarrow> signature list res" where
  "merge_signatures pubs sigs sig_domain =
    bindE (place_known pubs sigs sig_domain (int (length sigs))) (\<lambda>(dom1, n).
      Inr (present (if n \<noteq> 0 then fill_free sigs dom1 else dom1)))"

text \<open>
  The body of the loop over the inputs. The Boolean says that the loop goes on: it ends when an
  input was not signed.
\<close>

definition adopt_keys ::
  "crypto \<Rightarrow> nat \<Rightarrow> key_obj list \<Rightarrow> nat \<Rightarrow> transaction \<Rightarrow> transaction res" where
  "adopt_keys C hash_type tid_keys tid t =
    (if i_keys (t_inputs t ! tid) = []
     then bindE (update_scripts C hash_type ((t_inputs t ! tid)\<lparr>i_keys := map pk_public tid_keys\<rparr>)) (\<lambda>inp.
            Inr (t\<lparr>t_inputs := (t_inputs t)[tid := inp]\<rparr>))
     else Inr t)"

definition add_signatures ::
  "crypto \<Rightarrow> nat \<Rightarrow> bool \<Rightarrow> bool \<Rightarrow> key_obj list \<Rightarrow> bytes list \<Rightarrow> nat \<Rightarrow> bytes \<Rightarrow> transaction
    \<Rightarrow> (bool \<times> transaction) res" where
  "add_signatures C hash_type fail replace tid_keys pub_key_list tid txid t =
    (let inp = t_inputs t ! tid
     in bindE (sign_keys C txid hash_type fail replace pub_key_list (i_signatures inp)
                 tid_keys (replicate (length pub_key_list) None) 0) (\<lambda>(sig_domain, n_signs).
        if n_signs = 0 then Inr (False, t)
        else bindE (merge_signatures pub_key_list (i_signatures inp) sig_domain) (\<lambda>sigs.
             bindE (update_scripts C hash_type (inp\<lparr>i_signatures := sigs\<rparr>)) (\<lambda>inp1.
               Inr (True, t\<lparr>t_inputs := (t_inputs t)[tid := inp1]\<rparr>)))))"

definition sign_input ::
  "crypto \<Rightarrow> key_obj list \<Rightarrow> (nat \<Rightarrow> key_obj list) \<Rightarrow> nat \<Rightarrow> bool \<Rightarrow> bool \<Rightarrow> nat \<Rightarrow> transaction
    \<Rightarrow> (bool \<times> transaction) res" where
  "sign_input C keys held hash_type fail replace tid t =
    (if length (t_inputs t) \<le> tid then Inl IndexError
     else let tid_keys = signing_keys keys (held tid)
      in bindE (adopt_keys C hash_type tid_keys tid t) (\<lambda>t1.
         let inp = t_inputs t1 ! tid
         in if i_script_type inp = ''coinbase'' then Inl TransactionError
            else bindE (signature_hash C t1 (Some tid) hash_type (Some (i_witness_type inp))) (\<lambda>(txid, t2).
                   add_signatures C hash_type fail replace tid_keys (i_keys inp) tid txid t2)))"

fun sign_loop ::
  "crypto \<Rightarrow> key_obj list \<Rightarrow> (nat \<Rightarrow> key_obj list) \<Rightarrow> nat \<Rightarrow> bool \<Rightarrow> bool \<Rightarrow> nat list \<Rightarrow> transaction
    \<Rightarrow> transaction res" where
  "sign_loop C keys held hash_type fail replace [] t = Inr t"
| "sign_loop C keys held hash_type fail replace (tid # tids) t =
     bindE (sign_input C keys held hash_type fail replace tid t) (\<lambda>(continue, t1).
       if continue then sign_loop C keys held hash_type fail replace tids t1 else Inr t1)"

definition sign ::
  "crypto \<Rightarrow> transaction \<Rightarrow> key_obj list \<Rightarrow> (nat \<Rightarrow> key_obj list) \<Rightarrow> nat option \<Rightarrow> nat \<Rightarrow> bool \<Rightarrow> bool
    \<Rightarrow> transaction res" where
  "sign C t keys held index_n hash_type fail_on_unknown_key replace_signatures =
    (if hash_type \<noteq> SIGHASH_ALL then Inl TransactionError
     else sign_loop C keys held hash_type fail_on_unknown_key replace_signatures
            (case index_n of None \<Rightarrow> [0..<length (t_inputs t)] | Some n \<Rightarrow> [n]) t)"

text \<open>\<^verbatim>\<open>sign_and_update\<close>; the fee per kilobyte, a floating point quotient, is not kept.\<close>

definition sign_and_update ::
  "crypto \<Rightarrow> (nat \<Rightarrow> key_obj list) \<Rightarrow> transaction \<Rightarrow> nat option \<Rightarrow> transaction res" where
  "sign_and_update C held t index_n =
    bindE (int_to_be 4 (int (t_version_int t))) (\<lambda>version.
    bindE (sign C (t\<lparr>t_version := version\<rparr>) [] held index_n SIGHASH_ALL True True) (\<lambda>t1.
    bindE (signature_hash C t1 None SIGHASH_ALL None) (\<lambda>(h, t2).
    bindE (tx_raw_update (t2\<lparr>t_txid := hex_of (rev h)\<rparr>) None SIGHASH_ALL None) (\<lambda>(r, t3).
    bindE (calc_weight_units (t3\<lparr>t_size := length r\<rparr>)) (\<lambda>(_, t4).
      Inr (update_totals t4))))))"

section \<open>Lock times\<close>

definition SEQUENCE_LOCKTIME_TYPE_FLAG :: nat where "SEQUENCE_LOCKTIME_TYPE_FLAG = 2 ^ 22"
definition SEQUENCE_LOCKTIME_MASK :: nat where "SEQUENCE_LOCKTIME_MASK = 0xffff"
definition SEQUENCE_ENABLE_LOCKTIME :: nat where "SEQUENCE_ENABLE_LOCKTIME = 0xfffffffe"

definition set_sequence :: "nat \<Rightarrow> nat \<Rightarrow> transaction \<Rightarrow> transaction res" where
  "set_sequence n v t =
    (if length (t_inputs t) \<le> n then Inl IndexError
     else Inr (t\<lparr>t_inputs := (t_inputs t)[n := (t_inputs t ! n)\<lparr>i_sequence := v\<rparr>]\<rparr>))"

definition set_relative ::
  "crypto \<Rightarrow> (nat \<Rightarrow> key_obj list) \<Rightarrow> transaction \<Rightarrow> nat \<Rightarrow> nat \<Rightarrow> nat \<Rightarrow> transaction res" where
  "set_relative C held t sq n locktime =
    bindE (set_sequence n sq t) (\<lambda>t1.
      sign_and_update C held (t1\<lparr>t_version_int := max 2 (t_version_int t1),
        t_locktime := (if locktime \<noteq> 0 then locktime else t_locktime t1)\<rparr>) (Some n))"

definition set_locktime_relative_blocks ::
  "crypto \<Rightarrow> (nat \<Rightarrow> key_obj list) \<Rightarrow> transaction \<Rightarrow> nat \<Rightarrow> nat \<Rightarrow> nat \<Rightarrow> transaction res" where
  "set_locktime_relative_blocks C held t blocks input_index_n locktime =
    (if blocks = 0 \<or> blocks = 0xffffffff
     then bindE (set_sequence input_index_n 0xffffffff t) (\<lambda>t1.
            sign C t1 [] held (Some input_index_n) SIGHASH_ALL True True)
     else if blocks > SEQUENCE_LOCKTIME_MASK then Inl TransactionError
     else set_relative C held t blocks input_index_n locktime)"

definition set_locktime_relative_time ::
  "crypto \<Rightarrow> (nat \<Rightarrow> key_obj list) \<Rightarrow> transaction \<Rightarrow> nat \<Rightarrow> nat \<Rightarrow> nat \<Rightarrow> transaction res" where
  "set_locktime_relative_time C held t seconds input_index_n locktime =
    (if seconds = 0 \<or> seconds = 0xffffffff
     then bindE (set_sequence input_index_n 0xffffffff t) (\<lambda>t1.
            sign C t1 [] held (Some input_index_n) SIGHASH_ALL True True)
     else if seconds \<ge> 512 \<and> seconds div 512 > SEQUENCE_LOCKTIME_MASK then Inl TransactionError
     else set_relative C held t (max 512 seconds div 512 + SEQUENCE_LOCKTIME_TYPE_FLAG)
            input_index_n locktime)"

definition enable_locktime :: "transaction \<Rightarrow> transaction" where
  "enable_locktime t =
    t\<lparr>t_inputs := map (\<lambda>i. if i_sequence i = 0xffffffff
                           then i\<lparr>i_sequence := SEQUENCE_ENABLE_LOCKTIME\<rparr> else i) (t_inputs t)\<rparr>"

definition set_locktime ::
  "crypto \<Rightarrow> (nat \<Rightarrow> key_obj list) \<Rightarrow> transaction \<Rightarrow> nat \<Rightarrow> bool \<Rightarrow> transaction res" where
  "set_locktime C held t v allowed =
    (if v = 0 \<or> v = 0xffffffff
     then bindE (sign C (t\<lparr>t_locktime := 0xffffffff\<rparr>) [] held None SIGHASH_ALL True True) (\<lambda>t1.
          bindE (tx_verify C t1) (\<lambda>(_, t2). Inr t2))
     else if \<not> allowed then Inl TransactionError
     else sign_and_update C held (enable_locktime (t\<lparr>t_locktime := v\<rparr>)) None)"

definition set_locktime_blocks ::
  "crypto \<Rightarrow> (nat \<Rightarrow> key_obj list) \<Rightarrow> transaction \<Rightarrow> nat \<Rightarrow> transaction res" where
  "set_locktime_blocks C held t blocks = set_locktime C held t blocks (blocks \<le> 500000000)"

definition set_locktime_time ::
  "crypto \<Rightarrow> (nat \<Rightarrow> key_obj list) \<Rightarrow> transaction \<Rightarrow> nat \<Rightarrow> transaction res" where
  "set_locktime_time C held t timestamp =
    set_locktime C held t timestamp (500000000 < timestamp \<and> timestamp \<le> 0xfffffffe)"

end
