(* ===== verification/Tx_Parse.thy ===== *)
theory Tx_Parse
  imports Tx
begin

text \<open>
  \<^verbatim>\<open>Transaction.parse_bytesio\<close> of \<^verbatim>\<open>bitcoinlib/transactions.py\<close> with the wrappers
  \<^verbatim>\<open>parse\<close>, \<^verbatim>\<open>parse_hex\<close> and \<^verbatim>\<open>parse_bytes\<close>.
\<close>

section \<open>Witnesses\<close>

text \<open>One witness item; an empty one is represented by a zero byte.\<close>

definition read_witness :: "stream \<Rightarrow> bytes \<times> stream" where
  "read_witness s = (let (item_size, s1) = read_varbyteint s
                     in if item_size = 0 then ([0], s1) else sread item_size s1)"

text \<open>\<^verbatim>\<open>Script()\<close>\<close>

definition empty_script :: script where
  "empty_script = script_init [] None [] [] [] None (Some SIGHASH_ALL)"

text \<open>The loop over the items of one input: the witnesses, the combined script.\<close>

fun witness_loop ::
  "crypto \<Rightarrow> bool \<Rightarrow> nat \<Rightarrow> bytes list \<Rightarrow> script \<Rightarrow> bool \<Rightarrow> stream
    \<Rightarrow> (bytes list \<times> script \<times> stream) res" where
  "witness_loop C strict 0 ws script is_taproot s = Inr (ws, script, s)"
| "witness_loop C strict (Suc n) ws script is_taproot s =
     (let (witness, s1) = read_witness s;
          ws1 = ws @ [witness]
      in if is_taproot then witness_loop C strict n ws1 script True s1
         else bindE (parse_bytes C witness None None (Some False) strict) (\<lambda>sc.
              bindE (script_add script sc) (\<lambda>script1.
                witness_loop C strict n ws1 script1 (s_script_types sc = [''p2tr_unlock'']) s1)))"

definition starts :: "string \<Rightarrow> string \<Rightarrow> bool" where
  "starts p s = (take (length p) s = p)"

text \<open>What the witness script makes of the input, and the final \<^verbatim>\<open>update_scripts\<close>.\<close>

definition apply_witness :: "crypto \<Rightarrow> bool \<Rightarrow> script \<Rightarrow> tx_input \<Rightarrow> tx_input res" where
  "apply_witness C coinbase script i0 =
    bindE (case i_script i0 of
             Some s \<Rightarrow> if s_commands s = [] then Inr script else script_add s script
           | None \<Rightarrow> Inr script) (\<lambda>sc.
    let i = i0\<lparr>i_script := Some sc, i_keys := s_keys script, i_signatures := s_signatures script\<rparr>
    in update_scripts C SIGHASH_ALL
      (case s_script_types script of
         [] \<Rightarrow> i\<lparr>i_script_type := ''unknown''\<rparr>
       | st # _ \<Rightarrow>
           if starts ''p2sh_multisig'' st \<or> st = ''signature_multisig''
           then i\<lparr>i_script_type := ''p2sh_multisig'', i_redeemscript := last (i_witnesses i)\<rparr>
           else if st = ''p2tr_unlock''
           then i\<lparr>i_script_type := ''p2tr'', i_witness_type := ''segwit''\<rparr>
           else if i_script_type i = ''p2wpkh''
           then i\<lparr>i_script_type := ''p2sh_p2wpkh'', i_witness_type := ''p2sh-segwit''\<rparr>
           else if i_script_type i = ''p2wsh''
           then i\<lparr>i_script_type := ''p2sh_p2wsh'', i_witness_type := ''p2sh-segwit''\<rparr>
           else if ''unknown'' \<in> set (s_script_types script) \<and> \<not> coinbase
           then i\<lparr>i_script_type := ''unknown''\<rparr>
           else i))"

definition read_input_witness ::
  "crypto \<Rightarrow> bool \<Rightarrow> bool \<Rightarrow> tx_input \<Rightarrow> stream \<Rightarrow> (tx_input \<times> stream) res" where
  "read_input_witness C strict coinbase i s0 =
    (let (n_items, s1) = read_varbyteint s0
     in if n_items = 0 then Inr (i, s1)
        else bindE (witness_loop C strict n_items (i_witnesses i) empty_script False s1)
               (\<lambda>(ws, script, s2).
                 bindE (apply_witness C coinbase script (i\<lparr>i_witnesses := ws\<rparr>)) (\<lambda>i1.
                   Inr (i1, s2))))"

fun read_witnesses ::
  "crypto \<Rightarrow> bool \<Rightarrow> bool \<Rightarrow> tx_input list \<Rightarrow> stream \<Rightarrow> (tx_input list \<times> stream) res" where
  "read_witnesses C strict coinbase [] s = Inr ([], s)"
| "read_witnesses C strict coinbase (i # is) s =
     bindE (read_input_witness C strict coinbase i s) (\<lambda>(i1, s1).
     bindE (read_witnesses C strict coinbase is s1) (\<lambda>(is1, s2). Inr (i1 # is1, s2)))"

section \<open>The transaction\<close>

text \<open>
  \<^verbatim>\<open>Transaction.__init__\<close> for the arguments of the parser: the totals and the fee, the weight,
  and the transaction id when it is not given.
\<close>

definition transaction_init ::
  "crypto \<Rightarrow> tx_input list \<Rightarrow> tx_output list \<Rightarrow> nat \<Rightarrow> bytes \<Rightarrow> nat \<Rightarrow> bool \<Rightarrow> bytes option
    \<Rightarrow> string \<Rightarrow> bytes \<Rightarrow> string \<Rightarrow> transaction res" where
  "transaction_init C inputs outputs locktime version0 sz coinbase flag witness_type rawtx txid =
    (let input_total = sum_list (map i_value inputs);
         output_total = sum_list (map o_value outputs);
         fee = (if output_total \<noteq> 0 \<and> input_total \<noteq> 0 then Some (input_total - output_total)
                else None);
         version = (if version0 = [] then [0, 0, 0, 1] else version0)
     in if (case fee of None \<Rightarrow> False | Some f \<Rightarrow> f < 0 \<or> f = 0 \<and> \<not> coinbase)
        then Inl TransactionError
        else bindE (calc_weight_units \<lparr>t_version = version, t_version_int = be_val version,
                  t_inputs = inputs, t_outputs = outputs, t_locktime = locktime,
                  t_witness_type = witness_type, t_coinbase = coinbase, t_flag = flag,
                  t_rawtx = rawtx, t_size = sz, t_vsize = sz, t_txid = txid, t_fee = fee,
                  t_input_total = input_total, t_output_total = output_total,
                  t_verified = False\<rparr>) (\<lambda>(_, t).
             if witness_type \<noteq> ''legacy'' \<and> witness_type \<noteq> ''segwit'' then Inl TransactionError
             else if t_txid t = []
             then bindE (signature_hash C t None SIGHASH_ALL None) (\<lambda>(h, t1).
                    Inr (t1\<lparr>t_txid := hex_of (rev h)\<rparr>))
             else Inr t))"

text \<open>The marker byte of a segwit transaction, and the flag behind it.\<close>

definition read_marker :: "stream \<Rightarrow> bytes option \<times> string \<times> stream" where
  "read_marker s0 =
    (let (m, s1) = sread 1 s0
     in if m = [0] then (let (flag, s2) = sread 1 s1
                         in (Some flag, if flag = [1] then ''segwit'' else ''legacy'', s2))
        else (None, ''legacy'', sseek_back s1))"

definition parse_tx :: "crypto \<Rightarrow> stream \<Rightarrow> bool \<Rightarrow> bytes \<Rightarrow> (transaction \<times> stream) res" where
  "parse_tx C s0 strict raw_bytes0 =
    (let pos_start = spos s0;
         (v, s1) = sread 4 s0;
         version = rev v;
         (flag, witness_type, s2) = read_marker s1;
         (n_inputs, s3) = read_varbyteint s2
     in bindE (read_list (\<lambda>n s. input_parse C witness_type strict n s) 0 n_inputs s3)
          (\<lambda>(inputs, s4).
        let coinbase = list_ex (\<lambda>i. i_prev_txid i = replicate 32 0) inputs;
            (n_outputs, s5) = read_varbyteint s4
        in bindE (read_list (\<lambda>n s. output_parse C strict n s) 0 n_outputs s5) (\<lambda>(outputs, s6).
           if outputs = [] then Inl TransactionError
           else bindE (if witness_type = ''segwit'' then read_witnesses C strict coinbase inputs s6
                       else Inr (inputs, s6)) (\<lambda>(inputs1, s7).
                let (l, s8) = sread 4 s7;
                    locktime_bytes = rev l
                in if length locktime_bytes \<noteq> 4 \<and> strict then Inl TransactionError
                   else (let locktime = be_val locktime_bytes;
                             raw_len = (if raw_bytes0 = [] then spos s8 - pos_start
                                        else length raw_bytes0);
                             (raw_bytes, s9) = (if raw_bytes0 = []
                                                then sread raw_len (sseek pos_start s8)
                                                else (raw_bytes0, s8));
                             txid = (if witness_type = ''segwit'' then []
                                     else hex_of (rev (dsha C raw_bytes)))
                         in bindE (transaction_init C inputs1 outputs locktime version raw_len
                                     coinbase flag witness_type raw_bytes txid) (\<lambda>t. Inr (t, s9)))))))"

definition parse_tx_bytes :: "crypto \<Rightarrow> bytes \<Rightarrow> bool \<Rightarrow> transaction res" where
  "parse_tx_bytes C rawtx strict =
    bindE (parse_tx C (mk_stream rawtx) strict rawtx) (\<lambda>(t, _). Inr t)"

definition parse_tx_hex :: "crypto \<Rightarrow> string \<Rightarrow> bool \<Rightarrow> transaction res" where
  "parse_tx_hex C rawtx strict =
    (case fromhex (codes rawtx) of
       None \<Rightarrow> Inl ValueError
     | Some raw_bytes \<Rightarrow> parse_tx_bytes C raw_bytes strict)"

end
