(* ===== verification/Tx_Roundtrip.thy ===== *)
theory Tx_Roundtrip
  imports Tx_Parse
begin

text \<open>
  Serialised transactions read back: inputs and outputs as wire formats, and the parser on the
  bytes \<^verbatim>\<open>raw\<close> returns for a transaction without witnesses.
\<close>

section \<open>What update\_scripts leaves alone\<close>

definition outpoint :: "tx_input \<Rightarrow> bytes \<times> bytes \<times> nat \<times> nat \<times> int" where
  "outpoint i = (i_prev_txid i, i_output_n i, i_sequence i, i_index_n i, i_value i)"

lemma outpoint_update [simp]:
  "outpoint (i\<lparr>i_unlocking_script := a\<rparr>) = outpoint i"
  "outpoint (i\<lparr>i_locking_script := a\<rparr>) = outpoint i"
  "outpoint (i\<lparr>i_redeemscript := a\<rparr>) = outpoint i"
  "outpoint (i\<lparr>i_public_hash := a\<rparr>) = outpoint i"
  "outpoint (i\<lparr>i_witnesses := ws\<rparr>) = outpoint i"
  "outpoint (i\<lparr>i_sigs_required := k\<rparr>) = outpoint i"
  by (simp_all add: outpoint_def)

lemma update_sig_pubkey_outpoint:
  assumes "update_sig_pubkey C h i = Inr j"
  shows "outpoint j = outpoint i"
proof -
  define i1 where "i1 = (if i_public_hash i = [] \<and> i_keys i \<noteq> []
      then i\<lparr>i_public_hash := c_ripemd160 C (c_sha256 C (hd (i_keys i)))\<rparr> else i)"
  define i2 where "i2 = i1\<lparr>i_locking_script := [0x76, 0xa9, 0x14] @ i_public_hash i1 @ [0x88, 0xac]\<rparr>"
  have o1: "outpoint i1 = outpoint i" "outpoint i2 = outpoint i"
    by (simp_all add: i1_def i2_def)
  show ?thesis
  proof (cases "i_keys i1 = [] \<and> i_public_hash i1 = []")
    case True
    then show ?thesis
      using assms o1(1) unfolding update_sig_pubkey_def Let_def i1_def [symmetric] by simp
  next
    case False
    then show ?thesis
      using assms o1(2)
      unfolding update_sig_pubkey_def Let_def i1_def [symmetric] i2_def [symmetric]
      by (auto simp: bindE_Inr_iff split: if_split_asm)
  qed
qed

lemma multisig_tail_outpoint:
  assumes "multisig_tail i = Inr j"
  shows "outpoint j = outpoint i"
proof (cases "i_redeemscript i = [] \<or> i_keys i = []")
  case True
  then show ?thesis using assms unfolding multisig_tail_def by simp
next
  case False
  define i3 where "i3 = i\<lparr>i_sigs_required := int (unat (hd (i_redeemscript i))) - 80\<rparr>"
  have "outpoint i3 = outpoint i" by (simp add: i3_def)
  then show ?thesis
    using assms False unfolding multisig_tail_def Let_def i3_def [symmetric]
    by (auto simp: bindE_Inr_iff split: if_split_asm unlock.splits)
qed

lemma update_multisig_outpoint:
  assumes "update_multisig C i = Inr j"
  shows "outpoint j = outpoint i"
proof -
  obtain i1 where i1: "(if i_redeemscript i = [] \<and> i_keys i \<noteq> []
           then bindE (multisig_script (i_keys i) (i_sigs_required i)) (\<lambda>rs.
                  Inr (i\<lparr>i_redeemscript := rs\<rparr>))
           else Inr i) = Inr i1" and u: "(let i2 = (if i_redeemscript i1 \<noteq> [] \<and> i_public_hash i1 = []
              then i1\<lparr>i_public_hash :=
                (if i_witness_type i1 = ''segwit'' \<or> i_witness_type i1 = ''p2sh-segwit''
                 then c_sha256 C (i_redeemscript i1)
                 else c_ripemd160 C (c_sha256 C (i_redeemscript i1)))\<rparr>
              else i1)
    in multisig_tail i2) = Inr j"
    using assms [unfolded update_multisig_def, THEN bindE_Inr_iff [THEN iffD1]] by blast
  have o1: "outpoint i1 = outpoint i"
    using i1 by (auto simp: bindE_Inr_iff split: if_split_asm)
  define i2 where "i2 = (if i_redeemscript i1 \<noteq> [] \<and> i_public_hash i1 = []
              then i1\<lparr>i_public_hash :=
                (if i_witness_type i1 = ''segwit'' \<or> i_witness_type i1 = ''p2sh-segwit''
                 then c_sha256 C (i_redeemscript i1)
                 else c_ripemd160 C (c_sha256 C (i_redeemscript i1)))\<rparr>
              else i1)"
  have "multisig_tail i2 = Inr j" using u by (simp only: Let_def i2_def)
  then have "outpoint j = outpoint i2" by (rule multisig_tail_outpoint)
  also have "outpoint i2 = outpoint i" using o1 by (simp add: i2_def)
  finally show ?thesis .
qed

lemma update_signature_outpoint: "update_signature i = Inr j \<Longrightarrow> outpoint j = outpoint i"
  by (auto simp: update_signature_def bindE_Inr_iff split: if_splits)

lemma update_scripts_outpoint: "update_scripts C h i = Inr j \<Longrightarrow> outpoint j = outpoint i"
  by (auto simp: update_scripts_def Let_def update_sig_pubkey_outpoint update_multisig_outpoint
      update_signature_outpoint split: if_splits list.splits)

lemma input_init_outpoint:
  assumes "input_init C p out u wt sq n strict st = Inr j"
  shows "outpoint j = (projr (to_bytes (PBytes p) True), out, le_val sq, n, 0)"
proof -
  obtain p' where "to_bytes (PBytes p) True = Inr p'" by (simp add: to_bytes_def)
  with assms show ?thesis
    by (auto simp: input_init_def Let_def bindE_Inr_iff outpoint_def [of "\<lparr>i_prev_txid = _, i_output_n = _,
        i_unlocking_script = _, i_locking_script = _, i_redeemscript = _, i_sequence = _, i_compressed = _, i_index_n = _,
        i_value = _, i_keys = _, i_signatures = _, i_sigs_required = _, i_hash_type = _,
        i_public_hash = _, i_script_type = _, i_witness_type = _, i_witnesses = _, i_script = _,
        i_strict = _\<rparr>"] dest!: update_scripts_outpoint)
qed

section \<open>Inputs and outputs on the wire\<close>

text \<open>The constructor call that parsing the serialised input makes.\<close>

definition input_of :: "crypto \<Rightarrow> string \<Rightarrow> bool \<Rightarrow> nat \<Rightarrow> tx_input \<Rightarrow> tx_input res" where
  "input_of C witness_type strict n i =
    input_init C (i_prev_txid i) (i_output_n i) (i_unlocking_script i)
      (if witness_type = ''segwit'' \<and> i_unlocking_script i = [] then ''segwit'' else ''legacy'')
      (le_bytes 4 (i_sequence i)) n strict
      (if i_unlocking_script i = [0] then Some ''nonstandard_0001'' else None)"

definition parsed_input :: "crypto \<Rightarrow> string \<Rightarrow> bool \<Rightarrow> nat \<Rightarrow> tx_input \<Rightarrow> tx_input" where
  "parsed_input C witness_type strict n i =
    (case input_of C witness_type strict n i of Inr j \<Rightarrow> j | Inl _ \<Rightarrow> i)"

text \<open>
  Inputs that can be written and read: fields of their sizes, the marker type exactly for the
  script that needs it, and a constructor call that succeeds.
\<close>

definition wire_input :: "tx_input \<Rightarrow> bool" where
  "wire_input i \<longleftrightarrow> length (i_prev_txid i) = 32 \<and> length (i_output_n i) = 4 \<and>
     i_sequence i < 2 ^ 32 \<and> length (i_unlocking_script i) < 2 ^ 64 \<and>
     (i_script_type i = ''nonstandard_0001'' \<longleftrightarrow> i_unlocking_script i = [0])"

definition input_ok :: "crypto \<Rightarrow> string \<Rightarrow> bool \<Rightarrow> tx_input \<Rightarrow> bool" where
  "input_ok C witness_type strict i \<longleftrightarrow> wire_input i \<and>
     (\<forall>n. is_ok (bindE (input_of C witness_type strict n i) (\<lambda>j.
        raw_witness_items (i_witnesses j))))"

lemma is_ok_bindE: "is_ok (bindE m f) \<longleftrightarrow> (\<exists>x. m = Inr x \<and> is_ok (f x))"
  by (cases m) simp_all

lemma input_okE:
  assumes "input_ok C wt strict i"
  obtains j where "input_of C wt strict n i = Inr j" "parsed_input C wt strict n i = j"
    "is_ok (raw_witness_items (i_witnesses j))"
  using assms that by (auto simp: input_ok_def is_ok_bindE parsed_input_def split: sum.splits)

lemma raw_script:
  assumes "wire_input i"
  obtains v where
    "bindE (varstr (i_unlocking_script i)) (\<lambda>v.
       Inr ((if i_script_type i = ''nonstandard_0001'' then [1] else []) @ v)) = Inr v"
    "\<And>s r. rest s = v @ r \<Longrightarrow> read_varbyteint s = (length (i_unlocking_script i),
        adv (length v - length (i_unlocking_script i)) s) \<and>
      sread (length (i_unlocking_script i)) (adv (length v - length (i_unlocking_script i)) s) =
        (i_unlocking_script i, adv (length v) s)"
proof (cases "i_unlocking_script i = [0]")
  case True
  then have st: "i_script_type i = ''nonstandard_0001''" using assms by (simp add: wire_input_def)
  have "rest s = [1, 0] @ r \<Longrightarrow> read_varbyteint s = (1, adv 1 s) \<and>
      sread 1 (adv 1 s) = ([0], adv 2 s)" for s r
  proof -
    assume r: "rest s = [1, 0] @ r"
    have "int_to_varbyteint 1 = Inr [1]" by (simp add: int_to_varbyteint_def int_to_le_def)
    then have "read_varbyteint s = (1, adv 1 s)"
      using read_varbyteint_encoded [of 1 "[1]" s "0 # r"] r by simp
    moreover have "sread 1 (adv 1 s) = ([0], adv 1 (adv 1 s))"
      using r by (intro sread_adv [where r = r]) simp_all
    ultimately show ?thesis by (simp add: numeral_2_eq_2)
  qed
  then show ?thesis using True st by (intro that [of "[1, 0]"]) (simp_all add: varstr_def)
next
  case False
  then have st: "i_script_type i \<noteq> ''nonstandard_0001''" using assms by (simp add: wire_input_def)
  let ?u = "i_unlocking_script i"
  have "is_ok (varstr ?u)" using assms by (simp add: varstr_ok wire_input_def)
  then obtain v where v: "varstr ?u = Inr v" by (cases "varstr ?u") simp_all
  then obtain l where l: "int_to_varbyteint (int (length ?u)) = Inr l" "v = l @ ?u"
    using False by (auto simp: varstr_def bindE_Inr_iff)
  have "rest s = v @ r \<Longrightarrow> read_varbyteint s = (length ?u, adv (length l) s) \<and>
      sread (length ?u) (adv (length l) s) = (?u, adv (length v) s)" for s r
  proof -
    assume r: "rest s = v @ r"
    then have "read_varbyteint s = (length ?u, adv (length l) s)"
      using read_varbyteint_encoded [OF l(1), of s "?u @ r"] l(2) by simp
    moreover have "sread (length ?u) (adv (length l) s) = (?u, adv (length ?u) (adv (length l) s))"
      using r l(2) by (intro sread_adv [where r = r]) simp_all
    ultimately show ?thesis using l(2) by simp
  qed
  then show ?thesis using st v l by (intro that [of v]) simp_all
qed

lemma input_parse_raw:
  assumes "input_ok C wt strict i" "raw_input None i = Inr w" "rest s = w @ r"
  shows "input_parse C wt strict n s = Inr (parsed_input C wt strict n i, adv (length w) s)"
proof -
  have wi: "wire_input i" using assms(1) by (simp add: input_ok_def)
  then have len: "length (i_prev_txid i) = 32" "length (i_output_n i) = 4" "i_sequence i < 2 ^ 32"
    by (simp_all add: wire_input_def)
  let ?p = "rev (i_prev_txid i)" and ?o = "rev (i_output_n i)" and ?u = "i_unlocking_script i"
  obtain v where v: "bindE (varstr ?u) (\<lambda>v.
       Inr ((if i_script_type i = ''nonstandard_0001'' then [1] else []) @ v)) = Inr v"
    and rd: "\<And>s r. rest s = v @ r \<Longrightarrow> read_varbyteint s = (length ?u, adv (length v - length ?u) s) \<and>
      sread (length ?u) (adv (length v - length ?u) s) = (?u, adv (length v) s)"
    using raw_script [OF wi] by blast
  let ?q = "le_bytes 4 (i_sequence i)"
  have q: "int_to_le 4 (int (i_sequence i)) = Inr ?q"
    using len(3) by (simp add: int_to_le_def)
  have w: "w = ?p @ ?o @ v @ ?q"
    using assms(2) q v by (simp add: raw_input_def)
  define s1 where "s1 = adv 32 s"
  define s2 where "s2 = adv 4 s1"
  define s4 where "s4 = adv (length v) s2"
  have r0: "rest s = ?p @ ?o @ v @ ?q @ r" using assms(3) w by simp
  then have a1: "sread 32 s = (?p, s1)" unfolding s1_def
    by (intro sread_adv [where r = "?o @ v @ ?q @ r"]) (simp_all add: len)
  have r1: "rest s1 = ?o @ v @ ?q @ r" using r0 by (simp add: s1_def len)
  then have a2: "sread 4 s1 = (?o, s2)" unfolding s2_def
    by (intro sread_adv [where r = "v @ ?q @ r"]) (simp_all add: len)
  have r2: "rest s2 = v @ ?q @ r" using r1 by (simp add: s2_def len)
  note a3 = rd [OF r2]
  have r4: "rest s4 = ?q @ r" using r2 by (simp add: s4_def)
  then have a5: "sread 4 s4 = (?q, adv 4 s4)" by (intro sread_adv) simp_all
  have adv4: "adv 4 s4 = adv (length w) s"
    by (simp add: w s4_def s2_def s1_def len ac_simps)
  obtain j where j: "input_of C wt strict n i = Inr j"
    using assms(1) by (rule input_okE)
  have st: "(if length ?u = 1 \<and> ?u = [0] then Some ''nonstandard_0001'' else None) =
      (if ?u = [0] then Some ''nonstandard_0001'' else None)" by simp
  have it: "(wt = ''segwit'' \<and> length ?u = 0) = (wt = ''segwit'' \<and> ?u = [])" by simp
  have "input_parse C wt strict n s = bindE (input_of C wt strict n i) (\<lambda>i. Inr (i, adv 4 s4))"
    unfolding input_parse_def a1 a2 a3 [THEN conjunct1] a3 [THEN conjunct2] s4_def [symmetric] a5
      Let_def prod.case st it input_of_def
    by (simp add: len)
  then show ?thesis using j by (simp add: parsed_input_def adv4)
qed

lemma raw_input_ok: "wire_input i \<Longrightarrow> is_ok (raw_input None i)"
proof -
  assume i: "wire_input i"
  obtain v where v: "bindE (varstr (i_unlocking_script i)) (\<lambda>v.
      Inr ((if i_script_type i = ''nonstandard_0001'' then [1] else []) @ v)) = Inr v"
    using raw_script [OF i] by blast
  have "int_to_le 4 (int (i_sequence i)) = Inr (le_bytes 4 (i_sequence i))"
    using i by (simp add: int_to_le_def wire_input_def)
  with v show ?thesis by (simp add: raw_input_def)
qed

interpretation tx_in: wire_format "raw_input None" "input_parse C wt strict"
  "parsed_input C wt strict" "input_ok C wt strict" for C wt strict
  by unfold_locales (simp_all add: input_parse_raw raw_input_ok input_ok_def)

definition output_of :: "crypto \<Rightarrow> bool \<Rightarrow> nat \<Rightarrow> tx_output \<Rightarrow> tx_output res" where
  "output_of C strict n o1 = output_init C (o_value o1) (o_lock_script o1) n strict"

definition parsed_output :: "crypto \<Rightarrow> bool \<Rightarrow> nat \<Rightarrow> tx_output \<Rightarrow> tx_output" where
  "parsed_output C strict n o1 = (case output_of C strict n o1 of Inr p \<Rightarrow> p | Inl _ \<Rightarrow> o1)"

definition output_ok :: "crypto \<Rightarrow> bool \<Rightarrow> tx_output \<Rightarrow> bool" where
  "output_ok C strict o1 \<longleftrightarrow> 0 \<le> o_value o1 \<and> o_value o1 < 2 ^ 64 \<and> o_lock_script o1 \<noteq> [0] \<and>
     length (o_lock_script o1) < 2 ^ 64 \<and> (\<forall>n. is_ok (output_of C strict n o1))"

lemma raw_output_form:
  assumes "output_ok C strict o1"
  obtains l where "varstr (o_lock_script o1) = Inr l"
    "raw_output o1 = Inr (le_bytes 8 (nat (o_value o1)) @ l)"
proof -
  have "is_ok (varstr (o_lock_script o1))" using assms by (simp add: varstr_ok output_ok_def)
  then obtain l where "varstr (o_lock_script o1) = Inr l" by (cases "varstr (o_lock_script o1)") simp_all
  moreover have "int_to_le 8 (o_value o1) = Inr (le_bytes 8 (nat (o_value o1)))"
    using assms by (simp add: int_to_le_def output_ok_def)
  ultimately show ?thesis using assms that by (simp add: raw_output_def output_ok_def)
qed

lemma output_parse_raw:
  assumes "output_ok C strict o1" "raw_output o1 = Inr w" "rest s = w @ r"
  shows "output_parse C strict n s = Inr (parsed_output C strict n o1, adv (length w) s)"
proof -
  obtain l where l: "varstr (o_lock_script o1) = Inr l"
    "w = le_bytes 8 (nat (o_value o1)) @ l"
    using raw_output_form [OF assms(1)] assms(2) by auto
  let ?v = "le_bytes 8 (nat (o_value o1))"
  have v: "int (be_val (rev ?v)) = o_value o1"
  proof -
    have "nat (o_value o1) < 256 ^ 8" using assms(1) by (simp add: output_ok_def nat_less_iff)
    then show ?thesis using assms(1) by (simp add: be_val_def le_val_le_bytes output_ok_def)
  qed
  have r0: "rest s = ?v @ l @ r" using assms(3) l(2) by simp
  then have a1: "sread 8 s = (?v, adv 8 s)" by (intro sread_adv) simp_all
  have "rest (adv 8 s) = l @ r" using r0 by simp
  then have a2: "read_varstr (adv 8 s) = (o_lock_script o1, adv (length l) (adv 8 s))"
    using assms(1) l(1) by (intro read_varstr_varstr) (simp_all add: output_ok_def)
  obtain j where j: "output_of C strict n o1 = Inr j"
    using assms(1) by (cases "output_of C strict n o1") (auto simp: output_ok_def is_ok_def split: sum.splits)
  show ?thesis
    unfolding output_parse_def a1 a2 Let_def prod.case v
    using j by (simp add: output_of_def [symmetric] parsed_output_def l(2))
qed

interpretation tx_out: wire_format raw_output "output_parse C strict" "parsed_output C strict"
  "output_ok C strict" for C strict
proof unfold_locales
  fix o1
  assume "output_ok C strict o1"
  then show "is_ok (raw_output o1)" by (rule raw_output_form) simp
qed (rule output_parse_raw)


section \<open>The whole transaction\<close>

lemma varint_nonzero:
  assumes "int_to_varbyteint (int n) = Inr w" "0 < n"
  obtains b bs where "w = b # bs" "b \<noteq> 0"
  using assms(1)
proof (cases rule: int_to_varbyteint_cases)
  case 1
  then have "w = [byte_of n]" "n < 253" by simp_all
  moreover have "byte_of n \<noteq> 0"
  proof
    assume "byte_of n = 0"
    then have "unat (byte_of n) = 0" by simp
    then show False using \<open>n < 253\<close> assms(2) by (simp add: unat_byte_of)
  qed
  ultimately show ?thesis using that by simp
qed (use that in auto)

lemma read_marker_none:
  assumes "rest s = b # r" "b \<noteq> 0"
  shows "read_marker s = (None, ''legacy'', s)"
proof -
  have "sread 1 s = ([b], adv 1 s)" using assms(1) by (intro sread_adv [where r = r]) simp_all
  then show ?thesis using assms(2) by (simp add: read_marker_def sseek_back_def adv_def)
qed

lemma views_in: "y \<in> set (views v n xs) \<Longrightarrow> \<exists>x m. x \<in> set xs \<and> y = v m x"
  by (induction xs arbitrary: n) (simp, fastforce)

lemma parsed_input_outpoint:
  assumes "input_ok C wt strict i" "c \<in> set (i_prev_txid i)" "digit_val (unat c) = None"
    "\<not> ascii_space (unat c)"
  shows "outpoint (parsed_input C wt strict n i) =
    (i_prev_txid i, i_output_n i, i_sequence i, n, 0)"
proof -
  obtain j where j: "input_of C wt strict n i = Inr j" "parsed_input C wt strict n i = j"
    using assms(1) by (rule input_okE)
  have "i_sequence i < 256 ^ 4" using assms(1) by (simp add: input_ok_def wire_input_def)
  then have sq: "le_val (le_bytes 4 (i_sequence i)) = i_sequence i" by (rule le_val_le_bytes)
  have tb: "to_bytes (PBytes (i_prev_txid i)) True = Inr (i_prev_txid i)"
    using assms(2-4) by (rule to_bytes_bytes_id)
  show ?thesis
    using input_init_outpoint [OF j(1) [unfolded input_of_def]] j(2) sq tb by simp
qed

text \<open>A byte that is not hexadecimal text, so that the constructors take a string as it is.\<close>

definition not_hex :: "bytes \<Rightarrow> bool" where
  "not_hex b \<longleftrightarrow> list_ex (\<lambda>c. digit_val (unat c) = None \<and> \<not> ascii_space (unat c)) b"

lemma to_bytes_not_hex: "not_hex b \<Longrightarrow> to_bytes (PBytes b) u = Inr b"
  by (auto simp: not_hex_def list_ex_iff intro: to_bytes_bytes_id)

lemma parsed_output_fields:
  assumes "output_ok C strict o1" "not_hex (o_lock_script o1)"
  shows "o_value (parsed_output C strict n o1) = o_value o1 \<and>
    o_lock_script (parsed_output C strict n o1) = o_lock_script o1"
proof -
  have "is_ok (output_of C strict n o1)" using assms(1) by (simp add: output_ok_def)
  then obtain p where "output_of C strict n o1 = Inr p" by (cases "output_of C strict n o1") simp_all
  then show ?thesis
    using to_bytes_not_hex [OF assms(2)]
    by (auto simp: parsed_output_def output_of_def output_init_def bindE_Inr_iff Let_def
        split: if_split_asm)
qed

lemma witness_data_ok:
  assumes "\<forall>i \<in> set ins. input_ok C wt strict i"
  shows "is_ok (write_list (\<lambda>i. raw_witness_items (i_witnesses i)) (views (parsed_input C wt strict) n ins))"
  using assms
proof (induction ins arbitrary: n)
  case (Cons i ins)
  then have "input_ok C wt strict i" by simp
  then obtain j where "parsed_input C wt strict n i = j" "is_ok (raw_witness_items (i_witnesses j))"
    by (rule input_okE)
  moreover have "is_ok (write_list (\<lambda>i. raw_witness_items (i_witnesses i))
      (views (parsed_input C wt strict) (Suc n) ins))"
    using Cons by simp
  ultimately show ?case by (auto simp: is_ok_def split: sum.splits)
qed simp

end
