(* ===== verification/Radix.thy ===== *)
theory Radix
  imports BL_Prelude
begin

text \<open>
  Positional number systems. The library converts numbers to digits with the loop
  \<^verbatim>\<open>while n: n, r = divmod(n, base); output = [r] + output\<close> and back by summing
  \<^verbatim>\<open>pos * factor\<close>; both occur in several functions of \<^verbatim>\<open>encoding.py\<close>. The locale
  \<open>radix\<close> states what the two directions owe each other for any base of at least 2; it is
  interpreted at the bases the code uses.
\<close>

text \<open>The loop \<^verbatim>\<open>while n != 0: n, r = divmod(n, b); output = [r] + output\<close>, for \<open>2 \<le> b\<close>.\<close>

function to_digits :: "nat \<Rightarrow> nat \<Rightarrow> nat list \<Rightarrow> nat list" where
  "to_digits b n acc = (if n = 0 \<or> b < 2 then acc else to_digits b (n div b) ((n mod b) # acc))"
  by pat_completeness auto
termination
  by (relation "measure (\<lambda>(b, n, acc). n)") auto

declare to_digits.simps [simp del]

definition digits_val :: "nat \<Rightarrow> nat list \<Rightarrow> nat" where
  "digits_val b ds = foldl (\<lambda>a d. a * b + d) 0 ds"

lemma digits_val_Nil [simp]: "digits_val b [] = 0"
  by (simp add: digits_val_def)

lemma digits_val_snoc [simp]: "digits_val b (ds @ [d]) = digits_val b ds * b + d"
  by (simp add: digits_val_def)

lemma digits_val_append: "digits_val b (xs @ ys) = digits_val b xs * b ^ length ys + digits_val b ys"
  by (induction ys rule: rev_induct) (simp_all add: algebra_simps flip: append_assoc)

lemma digits_val_Cons: "digits_val b (d # ds) = d * b ^ length ds + digits_val b ds"
  using digits_val_append [of b "[d]" ds] by (simp add: digits_val_def)

lemma digits_val_replicate_0 [simp]: "digits_val b (replicate n 0) = 0"
  by (induction n) (simp_all add: digits_val_Cons)

lemma to_digits_0 [simp]: "to_digits b 0 acc = acc"
  by (simp add: to_digits.simps)

lemma to_digits_unfold:
  "0 < n \<Longrightarrow> 2 \<le> b \<Longrightarrow> to_digits b n acc = to_digits b (n div b) ((n mod b) # acc)"
  by (subst to_digits.simps) simp

lemma to_digits_acc: "to_digits b n acc = to_digits b n [] @ acc"
proof (induction n arbitrary: acc rule: less_induct)
  case (less n)
  show ?case
  proof (cases "n = 0 \<or> b < 2")
    case True
    then show ?thesis by (subst (1 2) to_digits.simps) simp
  next
    case False
    then have "n div b < n" by (intro div_less_dividend) simp_all
    from less.IH [OF this, of "(n mod b) # acc"] less.IH [OF this, of "[n mod b]"] False
    show ?thesis by (simp add: to_digits_unfold)
  qed
qed

locale radix =
  fixes b :: nat
  assumes two_le: "2 \<le> b"
begin

lemma to_digits_step: "0 < n \<Longrightarrow> to_digits b n [] = to_digits b (n div b) [] @ [n mod b]"
  using two_le to_digits_acc [of b "n div b" "[n mod b]"] by (simp add: to_digits_unfold)

lemma digits_val_to_digits: "digits_val b (to_digits b n []) = n"
proof (induction n rule: less_induct)
  case (less n)
  show ?case
  proof (cases "n = 0")
    case False
    with two_le have "n div b < n" by (intro div_less_dividend) simp_all
    with less False show ?thesis by (simp add: to_digits_step)
  qed simp
qed

lemma to_digits_lt: "d \<in> set (to_digits b n []) \<Longrightarrow> d < b"
proof (induction n rule: less_induct)
  case (less n)
  show ?case
  proof (cases "n = 0")
    case True
    with less.prems show ?thesis by simp
  next
    case False
    with two_le have "n div b < n" by (intro div_less_dividend) simp_all
    with less False two_le show ?thesis by (auto simp: to_digits_step)
  qed
qed

lemma to_digits_eq_Nil [simp]: "to_digits b n [] = [] \<longleftrightarrow> n = 0"
  using to_digits_step [of n] by (cases "n = 0") auto

lemma to_digits_hd: "0 < n \<Longrightarrow> hd (to_digits b n []) \<noteq> 0"
proof (induction n rule: less_induct)
  case (less n)
  note step = to_digits_step [OF less.prems]
  from less.prems two_le have lt: "n div b < n" by (intro div_less_dividend) simp_all
  show ?case
  proof (cases "n div b = 0")
    case True
    have "n mod b = n"
      using True minus_div_mult_eq_mod [of n b] by simp
    with True less.prems step show ?thesis by simp
  next
    case False
    then have "hd (to_digits b (n div b) []) \<noteq> 0" using less.IH [OF lt] by simp
    with False step show ?thesis by (simp add: hd_append)
  qed
qed

lemma digits_val_lt: "(\<forall>d \<in> set ds. d < b) \<Longrightarrow> digits_val b ds < b ^ length ds"
proof (induction ds)
  case (Cons d ds)
  then have "d + 1 \<le> b" "digits_val b ds < b ^ length ds" by auto
  then have "d * b ^ length ds + digits_val b ds < (d + 1) * b ^ length ds" by simp
  also have "\<dots> \<le> b * b ^ length ds" using \<open>d + 1 \<le> b\<close> by (rule mult_le_mono1)
  finally show ?case by (simp add: digits_val_Cons)
qed simp

lemma to_digits_digits_val:
  "(\<forall>d \<in> set ds. d < b) \<Longrightarrow> (ds \<noteq> [] \<longrightarrow> hd ds \<noteq> 0) \<Longrightarrow> to_digits b (digits_val b ds) [] = ds"
proof (induction ds rule: rev_induct)
  case (snoc d ds)
  have pos: "0 < digits_val b (ds @ [d])"
  proof (cases ds)
    case Nil
    with snoc.prems show ?thesis by (simp add: digits_val_def)
  next
    case (Cons e es)
    with snoc.prems two_le show ?thesis by (simp add: digits_val_Cons)
  qed
  from snoc.prems have "d < b" by simp
  then have "(digits_val b ds * b + d) div b = digits_val b ds"
    and "(digits_val b ds * b + d) mod b = d" by simp_all
  moreover have "to_digits b (digits_val b ds) [] = ds"
    using snoc by (cases ds) simp_all
  ultimately show ?case using to_digits_step [OF pos] by simp
qed simp

text \<open>Leading zeros: a digit string is its count of leading zeros and the digits of its value.\<close>

lemma digits_split:
  assumes "\<forall>d \<in> set ds. d < b"
  shows "ds = takeWhile (\<lambda>d. d = 0) ds @ to_digits b (digits_val b ds) []"
proof -
  let ?z = "takeWhile (\<lambda>d. d = 0) ds" and ?r = "dropWhile (\<lambda>d. d = 0) ds"
  have z: "?z = replicate (length ?z) 0"
    by (rule replicate_length_same [symmetric]) (auto dest: set_takeWhileD)
  have "digits_val b ds = digits_val b (?z @ ?r)" by simp
  also have "\<dots> = digits_val b ?r"
    by (subst z) (simp add: digits_val_append)
  finally have "digits_val b ds = digits_val b ?r" .
  moreover have "to_digits b (digits_val b ?r) [] = ?r"
  proof (rule to_digits_digits_val)
    show "\<forall>d \<in> set ?r. d < b" using assms by (auto dest: set_dropWhileD)
    show "?r \<noteq> [] \<longrightarrow> hd ?r \<noteq> 0" using hd_dropWhile [of "\<lambda>d. d = 0" ds] by simp
  qed
  ultimately show ?thesis by simp
qed

lemma digits_inj:
  assumes "\<forall>d \<in> set xs. d < b" "\<forall>d \<in> set ys. d < b" "length xs = length ys"
    "digits_val b xs = digits_val b ys"
  shows "xs = ys"
  using assms(3,1,2,4)
proof (induction xs ys rule: list_induct2)
  case (Cons x xs y ys)
  let ?p = "b ^ length xs"
  have lt: "digits_val b xs < ?p" "digits_val b ys < ?p"
    using digits_val_lt [of xs] digits_val_lt [of ys] Cons by simp_all
  from Cons have eq: "digits_val b xs + ?p * x = digits_val b ys + ?p * y"
    by (simp add: digits_val_Cons algebra_simps)
  from arg_cong [OF eq, of "\<lambda>n. n mod ?p"] lt have v: "digits_val b xs = digits_val b ys" by simp
  with eq two_le have "x = y" by simp
  with v Cons show ?case by simp
qed simp

end

interpretation b2: radix 2 by unfold_locales simp
interpretation b58: radix 58 by unfold_locales simp
interpretation b256: radix 256 by unfold_locales simp
interpretation b2048: radix 2048 by unfold_locales simp

text \<open>Byte strings are digit strings in base 256.\<close>

lemma be_val_digits: "be_val bs = digits_val 256 (map unat bs)"
proof (induction bs rule: rev_induct)
  case (snoc b bs)
  then show ?case by (simp add: be_val_append be_val_Cons)
qed simp

end
