(* ===== verification/Base_Conv.thy ===== *)
theory Base_Conv
  imports Py_Text Radix
begin

text \<open>
  Number base conversion: \<^verbatim>\<open>code_strings\<close>, \<^verbatim>\<open>_get_code_string\<close>, \<^verbatim>\<open>change_base\<close> and
  \<^verbatim>\<open>base58encode\<close> of \<^verbatim>\<open>bitcoinlib/encoding.py\<close>.

  \<^verbatim>\<open>change_base\<close> uses two floating point results, both derived from
  \<^verbatim>\<open>pos_fact = math.log(base_to, base_from)\<close>: the comparison of
  \<^verbatim>\<open>expected_length = len(str(chars)) / pos_fact\<close> with the number of output digits, and
  \<^verbatim>\<open>zeros = int(addzeros / pos_fact)\<close>. The model computes both exactly: the quotient equals
  \<open>k\<close> iff \<open>base_from ^ len = base_to ^ k\<close>, and its integer part is the greatest \<open>z\<close> with
  \<open>base_to ^ z \<le> base_from ^ addzeros\<close>. For the pairs of bases the library converts between
  and inputs of up to 600 digits the doubles give the same decisions.
\<close>

section \<open>Code strings\<close>

definition base58_alphabet :: string where
  "base58_alphabet = ''123456789ABCDEFGHJKLMNPQRSTUVWXYZabcdefghijkmnopqrstuvwxyz''"

definition code_strings :: "nat \<Rightarrow> nat list option" where
  "code_strings base =
    (if base = 2 then Some (codes ''01'')
     else if base = 3 then Some (codes '' ,.'')
     else if base = 10 then Some (codes ''0123456789'')
     else if base = 16 then Some (codes ''0123456789abcdef'')
     else if base = 32 then Some (codes ''abcdefghijklmnopqrstuvwxyz234567'')
     else if base = 58 then Some (codes base58_alphabet)
     else if base = 256 then Some [0..<256]
     else None)"

definition get_code_string :: "nat \<Rightarrow> nat list" where
  "get_code_string base = (case code_strings base of Some c \<Rightarrow> c | None \<Rightarrow> [0..<base])"

fun index_of :: "'a \<Rightarrow> 'a list \<Rightarrow> nat option" where
  "index_of x [] = None"
| "index_of x (y # ys) = (if x = y then Some 0 else map_option Suc (index_of x ys))"

definition lower :: "nat \<Rightarrow> nat" where
  "lower c = (if 65 \<le> c \<and> c \<le> 90 then c + 32 else c)"

text \<open>
  \<^verbatim>\<open>code_str_from.index(item)\<close>, and again with \<^verbatim>\<open>item.lower()\<close> when that fails. A one-byte
  slice is never an element of a list of numbers.
\<close>

definition byte_index :: "nat \<Rightarrow> byte \<Rightarrow> nat option" where
  "byte_index base item =
    (case code_strings base of
       None \<Rightarrow> None
     | Some cs \<Rightarrow> (case index_of (unat item) cs of
                     Some i \<Rightarrow> Some i
                   | None \<Rightarrow> index_of (lower (unat item)) cs))"

section \<open>base58encode\<close>

definition base58_char :: "nat \<Rightarrow> char" where
  "base58_char d = base58_alphabet ! d"

definition base58encode :: "bytes \<Rightarrow> string" where
  "base58encode inp =
    (let stripped = dropWhile (\<lambda>b. b = 0) inp;
         padding_zeros = length inp - length stripped
     in replicate padding_zeros (CHR ''1'') @
        map base58_char (to_digits 58 (be_val stripped) []))"

section \<open>change\_base\<close>

text \<open>
  The digit loop over a byte string, from its end: the position of the character, its
  contribution, and the count of the zero digits in front of which nothing but zero
  characters is left. \<open>inp\<close> is the remaining input, last character first.
\<close>

fun digit_loop :: "nat \<Rightarrow> nat \<Rightarrow> byte list \<Rightarrow> nat \<Rightarrow> nat \<Rightarrow> nat \<Rightarrow> (nat \<times> nat) res" where
  "digit_loop base firstchar [] factor input_dec addzeros = Inr (input_dec, addzeros)"
| "digit_loop base firstchar (item # inp) factor input_dec addzeros =
     (case byte_index base item of
        None \<Rightarrow> Inl EncodingError
      | Some pos \<Rightarrow>
          digit_loop base firstchar inp (factor * base) (input_dec + pos * factor)
            (if pos * factor = 0 \<and> list_all (\<lambda>x. unat x = firstchar) inp
             then addzeros + 1 else addzeros))"

text \<open>
  The same loop over a list of numbers. A number that is no digit raises \<^verbatim>\<open>AttributeError\<close>
  (an \<^verbatim>\<open>int\<close> has no \<^verbatim>\<open>lower\<close>); the zero count compares numbers with a byte string and so only
  sees the first digit.
\<close>

fun digit_loop_list :: "nat \<Rightarrow> int list \<Rightarrow> nat \<Rightarrow> nat \<Rightarrow> nat \<Rightarrow> (nat \<times> nat) res" where
  "digit_loop_list base [] factor input_dec addzeros = Inr (input_dec, addzeros)"
| "digit_loop_list base (item # inp) factor input_dec addzeros =
     (case index_of item (map int (get_code_string base)) of
        None \<Rightarrow> Inl AttributeError
      | Some pos \<Rightarrow>
          digit_loop_list base inp (factor * base) (input_dec + pos * factor)
            (if pos * factor = 0 \<and> inp = [] then addzeros + 1 else addzeros))"

text \<open>\<^verbatim>\<open>len(str(chars))\<close> for each kind of input.\<close>

definition repr_byte_len :: "bool \<Rightarrow> byte \<Rightarrow> nat" where
  "repr_byte_len dquote b =
    (let c = unat b
     in if c = 92 then 2
        else if c = 39 then (if dquote then 1 else 2)
        else if c = 9 \<or> c = 10 \<or> c = 13 then 2
        else if 32 \<le> c \<and> c < 127 then 1 else 4)"

definition int_str_len :: "int \<Rightarrow> nat" where
  "int_str_len i = (if i = 0 then 1 else length (to_digits 10 (nat \<bar>i\<bar>) [])) + (if i < 0 then 1 else 0)"

definition py_str_len :: "pyval \<Rightarrow> nat" where
  "py_str_len x =
    (case x of
       PStr s \<Rightarrow> length s
     | PInt i \<Rightarrow> int_str_len i
     | PBytes b \<Rightarrow>
         (let dquote = (39 \<in> set (map unat b) \<and> 34 \<notin> set (map unat b))
          in 3 + sum_list (map (repr_byte_len dquote) b))
     | PList l \<Rightarrow> 2 + sum_list (map int_str_len l) + 2 * (length l - 1))"

text \<open>The integer part of the logarithm of \<open>n\<close> to the base \<open>b\<close>.\<close>

fun ilog :: "nat \<Rightarrow> nat \<Rightarrow> nat" where
  "ilog b n = (if b < 2 \<or> n < b then 0 else Suc (ilog b (n div b)))"

declare ilog.simps [simp del]

definition zeros_to_add :: "nat \<Rightarrow> nat \<Rightarrow> nat \<Rightarrow> nat" where
  "zeros_to_add base_from base_to addzeros =
    (if (base_from = 256 \<and> base_to = 58) \<or> (base_from = 58 \<and> base_to = 256) then addzeros
     else if base_from = 16 \<and> base_to = 58 then (addzeros + 1) div 2
     else if base_from = 58 \<and> base_to = 16 then addzeros * 2
     else if addzeros = 1 then 1
     else ilog base_to (base_from ^ addzeros))"

text \<open>The loop that prepends the zeros, unless the output has exactly the expected length.\<close>

fun add_zeros :: "nat \<Rightarrow> (nat \<Rightarrow> bool) \<Rightarrow> nat \<Rightarrow> nat list \<Rightarrow> nat list" where
  "add_zeros z expected 0 out = out"
| "add_zeros z expected (Suc k) out =
     add_zeros z expected k (if expected (length out) then out else z # out)"

text \<open>
  From the number to the output: its digits in the output code, the zeros, the padding to an
  even length and to the minimal length, and the conversion to the output type.
\<close>

definition output_digits :: "nat \<Rightarrow> nat \<Rightarrow> nat \<Rightarrow> bool \<Rightarrow> nat \<Rightarrow> nat \<Rightarrow> nat \<Rightarrow> nat list" where
  "output_digits base_from base_to min_length output_even addzeros str_len input_dec =
    (let code_str = get_code_string base_to;
         output = map (\<lambda>d. code_str ! d) (to_digits base_to input_dec [])
     in if base_to = 10 then output
        else (let z = hd code_str;
                  out1 = add_zeros z (\<lambda>n. base_from ^ str_len = base_to ^ n)
                           (zeros_to_add base_from base_to addzeros) output;
                  out2 = (if output_even \<and> odd (length out1) then z # out1 else out1)
              in replicate (min_length - length out2) z @ out2))"

definition convert_output :: "nat \<Rightarrow> bool \<Rightarrow> nat list \<Rightarrow> pyval res" where
  "convert_output base_to output_as_list output =
    (if base_to = 10
     then (if output_as_list then Inl TypeError
           else Inr (PInt (int (digits_val 10 (map (\<lambda>c. c - 48) output)))))
     else if output_as_list then Inr (PList (map int output))
     else if output = [] then (if base_to = 256 then Inr (PInt 0) else Inl AttributeError)
     else if base_to = 256 then Inr (PBytes (map byte_of output))
     else Inr (PStr (map char_of output)))"

text \<open>\<^verbatim>\<open>hex(n)[2:]\<close>, where the sign of a negative number shifts the slice.\<close>

definition hex_tail :: "int \<Rightarrow> string" where
  "hex_tail n =
    (let h = (if n = 0 then ''0'' else map hex_char (to_digits 16 (nat \<bar>n\<bar>) []))
     in if n < 0 then CHR ''x'' # h else h)"

definition zfill :: "nat \<Rightarrow> string \<Rightarrow> string" where
  "zfill n s = replicate (n - length s) (CHR ''0'') @ s"

text \<open>The conversions done with the methods of \<^verbatim>\<open>bytes\<close> and \<^verbatim>\<open>int\<close>; \<open>None\<close>: none applies.\<close>

definition fast_path :: "pyval \<Rightarrow> pyval \<Rightarrow> nat \<Rightarrow> nat \<Rightarrow> nat \<Rightarrow> pyval res option" where
  "fast_path chars inp base_from base_to min_length =
    (let unhex = (case chars of
                    PStr s \<Rightarrow> (case fromhex (codes s) of Some b \<Rightarrow> Inr b | None \<Rightarrow> Inl ValueError)
                  | _ \<Rightarrow> Inl TypeError)
     in if min_length = 0 \<and> base_from = 256 \<and> base_to = 16 then
          Some (case inp of PBytes b \<Rightarrow> Inr (PStr (hex_of b)) | _ \<Rightarrow> Inl AttributeError)
        else if min_length = 0 \<and> base_from = 16 \<and> base_to = 256 then
          Some (bindE unhex (\<lambda>b. Inr (PBytes b)))
        else if base_from = 16 \<and> base_to = 10 then
          Some (case inp of
                  PBytes b \<Rightarrow> (case py_int 16 b of Some i \<Rightarrow> Inr (PInt i) | None \<Rightarrow> Inl ValueError)
                | _ \<Rightarrow> Inl TypeError)
        else if base_from = 10 \<and> base_to = 16 then
          Some (case inp of
                  PInt i \<Rightarrow> Inr (PStr (if min_length = 0 then hex_tail i
                                          else zfill min_length (hex_tail i)))
                | _ \<Rightarrow> Inl TypeError)
        else if base_from = 256 \<and> base_to = 10 then
          Some (case inp of
                  PBytes b \<Rightarrow> Inr (PInt (int (be_val b)))
                | PList l \<Rightarrow> (if list_all (\<lambda>i. 0 \<le> i \<and> i < 256) l
                                then Inr (PInt (int (digits_val 256 (map nat l))))
                                else Inl ValueError)
                | _ \<Rightarrow> Inl TypeError)
        else if base_from = 10 \<and> base_to = 256 then
          Some (case inp of
                  PInt i \<Rightarrow> bindE (int_to_be min_length i) (\<lambda>b. Inr (PBytes b))
                | _ \<Rightarrow> Inl TypeError)
        else if base_from = 256 \<and> base_to = 58 then
          Some (case inp of
                  PBytes b \<Rightarrow> Inr (PStr (base58encode b))
                | PInt _ \<Rightarrow> Inl TypeError
                | _ \<Rightarrow> Inl AttributeError)
        else if base_from = 16 \<and> base_to = 58 then
          Some (bindE unhex (\<lambda>b. Inr (PStr (base58encode b))))
        else None)"

definition change_base :: "pyval \<Rightarrow> nat \<Rightarrow> nat \<Rightarrow> nat \<Rightarrow> bool option \<Rightarrow> bool option \<Rightarrow> pyval res" where
  "change_base chars base_from base_to min_length output_even output_as_list =
    (if base_from = 10 \<and> min_length = 0 then Inl EncodingError
     else bindE (normalize_var chars base_from) (\<lambda>inp.
       case fast_path chars inp base_from base_to min_length of
         Some r \<Rightarrow> r
       | None \<Rightarrow>
           (let as_list = (code_strings base_to = None \<or> output_as_list = Some True);
                even_len = (output_even = Some True \<or> (output_even = None \<and> base_to = 16));
                firstchar = hd (get_code_string base_from)
            in bindE (case inp of
                        PInt i \<Rightarrow> (if i < 0 then Inl NonTermination else Inr (nat i, 0))
                      | PBytes b \<Rightarrow>
                          (if base_from = 0 \<and> b \<noteq> [] then Inl EncodingError
                           else digit_loop base_from firstchar (rev b) 1 0 0)
                      | PList l \<Rightarrow> digit_loop_list base_from (rev l) 1 0 0
                      | PStr _ \<Rightarrow> Inl EncodingError)
               (\<lambda>(input_dec, addzeros).
                  if base_to = 0 then Inl (if input_dec \<noteq> 0 then ZeroDivisionError else ValueError)
                  else if base_to = 1 then Inl (if input_dec \<noteq> 0 then NonTermination else ZeroDivisionError)
                  else if base_from = 0 \<and> base_to \<noteq> 10 then Inl ValueError
                  else if base_from = 1 \<and> base_to \<noteq> 10 then Inl ZeroDivisionError
                  else convert_output base_to as_list
                         (output_digits base_from base_to min_length even_len addzeros
                            (py_str_len chars) input_dec)))))"

section \<open>Base 58\<close>

lemma base58_index_table:
  "list_all (\<lambda>d. byte_index 58 (byte_of (of_char (base58_char d))) = Some d \<and>
     of_char (base58_char d) < (128 :: nat) \<and> (d = 0 \<longleftrightarrow> of_char (base58_char d) = (49 :: nat)))
   [0..<58]"
  by code_simp

lemma base58_index:
  assumes "d < 58"
  shows "byte_index 58 (byte_of (of_char (base58_char d))) = Some d"
    and "of_char (base58_char d) < (128 :: nat)"
    and "of_char (base58_char d) = (49 :: nat) \<longleftrightarrow> d = 0"
  using base58_index_table assms by (auto simp: list_all_iff)

lemma takeWhile_zero_snoc:
  "length (takeWhile (\<lambda>d. d = (0::nat)) (ds @ [d])) =
   (if d = 0 \<and> list_all (\<lambda>d. d = 0) ds then 1 else 0) + length (takeWhile (\<lambda>d. d = 0) ds)"
  by (induction ds) auto

text \<open>What the digit loop computes: the number, and the count of leading zero characters.\<close>

lemma digit_loop_digits:
  assumes "list_all2 (\<lambda>b d. byte_index base b = Some d \<and> (unat b = fc \<longleftrightarrow> d = 0)) bs ds" "0 < f"
  shows "digit_loop base fc (rev bs) f n z =
    Inr (n + f * digits_val base ds, z + length (takeWhile (\<lambda>d. d = 0) ds))"
  using assms
proof (induction ds arbitrary: bs f n z rule: rev_induct)
  case Nil
  then show ?case by simp
next
  case (snoc d ds)
  from snoc.prems(1) obtain bs' b where bs: "bs = bs' @ [b]"
    and l2: "list_all2 (\<lambda>b d. byte_index base b = Some d \<and> (unat b = fc \<longleftrightarrow> d = 0)) bs' ds"
    and b: "byte_index base b = Some d"
    by (auto simp: list_all2_append2 list_all2_Cons2)
  have z: "list_all (\<lambda>x. unat x = fc) bs' \<longleftrightarrow> list_all (\<lambda>d. d = 0) ds"
    using l2 by (induction bs' ds rule: list_all2_induct) auto
  show ?case
  proof (cases "base = 0")
    case False
    then have "0 < f * base" using snoc.prems(2) by simp
    from snoc.IH [OF l2 this] b show ?thesis
      using snoc.prems(2)
      by (simp add: bs z takeWhile_zero_snoc algebra_simps)
  next
    case True
    have "byte_index 0 b = None" by (simp add: byte_index_def code_strings_def)
    with b True show ?thesis by simp
  qed
qed

lemma pow58_not_pow256: "0 < k \<Longrightarrow> (58::nat) ^ k \<noteq> 256 ^ n"
proof
  assume "0 < k" and eq: "(58::nat) ^ k = 256 ^ n"
  have "coprime (29::nat) 256"
    by (simp add: coprime_iff_gcd_eq_1 gcd_non_0_nat)
  then have "coprime 29 ((256::nat) ^ n)" by simp
  moreover have "(29::nat) dvd 58" by simp
  then have "(29::nat) dvd 58 ^ k" using \<open>0 < k\<close> by (meson dvd_power dvd_trans)
  ultimately show False using eq coprime_common_divisor [of 29 "256 ^ n" "29::nat"] by simp
qed

lemma add_zeros_unexpected:
  "(\<And>n. \<not> e n) \<Longrightarrow> add_zeros z e k out = replicate k z @ out"
  by (induction k arbitrary: out) (simp_all add: replicate_app_Cons_same)

definition base58_digits :: "bytes \<Rightarrow> nat list" where
  "base58_digits b = replicate (length (takeWhile (\<lambda>x. x = 0) b)) 0 @ to_digits 58 (be_val b) []"

lemma be_val_dropWhile_zero: "be_val (dropWhile (\<lambda>b. b = 0) bs) = be_val bs"
  by (induction bs) (simp_all add: be_val_Cons)

lemma base58encode_digits: "base58encode b = map base58_char (base58_digits b)"
proof -
  have "length b - length (dropWhile (\<lambda>x. x = 0) b) = length (takeWhile (\<lambda>x. x = 0) b)"
    by (metis add_diff_cancel_right' length_append takeWhile_dropWhile_id)
  moreover have "base58_char 0 = CHR ''1''" by (simp add: base58_char_def base58_alphabet_def)
  ultimately show ?thesis
    by (simp add: base58encode_def base58_digits_def Let_def be_val_dropWhile_zero)
qed

lemma base58_digits_lt: "d \<in> set (base58_digits b) \<Longrightarrow> d < 58"
  by (auto simp: base58_digits_def dest: b58.to_digits_lt)

lemma base58_digits_val: "digits_val 58 (base58_digits b) = be_val b"
  by (simp add: base58_digits_def digits_val_append b58.digits_val_to_digits)

lemma base58_digits_zeros:
  "length (takeWhile (\<lambda>d. d = 0) (base58_digits b)) = length (takeWhile (\<lambda>x. x = 0) b)"
proof -
  have "takeWhile (\<lambda>d. d = 0) (to_digits 58 n []) = []" for n
    using b58.to_digits_hd [of n] by (cases "to_digits 58 n []"; cases "n = 0") auto
  then show ?thesis by (simp add: base58_digits_def takeWhile_append)
qed

lemma base58_digits_Nil [simp]: "base58_digits b = [] \<longleftrightarrow> b = []"
proof
  assume "base58_digits b = []"
  then have "takeWhile (\<lambda>x. x = 0) b = []" "be_val b = 0" by (simp_all add: base58_digits_def)
  then show "b = []" by (cases b) (auto simp: be_val_Cons unat_eq_zero split: if_splits)
qed (simp add: base58_digits_def)

text \<open>A byte string is its leading zeros and the base 256 digits of its number.\<close>

lemma bytes_of_digits:
  "replicate (length (takeWhile (\<lambda>x. x = 0) b)) 0 @ map byte_of (to_digits 256 (be_val b) []) = b"
proof -
  have tw: "takeWhile (\<lambda>d. d = 0) (map unat b) = replicate (length (takeWhile (\<lambda>x. x = 0) b)) 0"
    by (induction b) (auto simp: unat_eq_zero)
  have "map unat b = replicate (length (takeWhile (\<lambda>x. x = 0) b)) 0 @ to_digits 256 (be_val b) []"
    using b256.digits_split [of "map unat b"] by (simp add: be_val_digits tw)
  then have "map byte_of (map unat b) =
      map byte_of (replicate (length (takeWhile (\<lambda>x. x = 0) b)) 0 @ to_digits 256 (be_val b) [])"
    by (rule arg_cong)
  then show ?thesis by (simp add: comp_def)
qed

lemma utf8_encode_base58:
  "(\<forall>d \<in> set ds. d < 58) \<Longrightarrow>
   utf8_encode (map base58_char ds) = map (\<lambda>d. byte_of (of_char (base58_char d))) ds"
  by (induction ds) (simp_all add: utf8_encode_def utf8_char_def base58_index)

lemma code_strings_58: "hd (get_code_string 58) = 49"
  by code_simp

lemma code_strings_256: "get_code_string 256 = [0..<256]"
  by (simp add: get_code_string_def code_strings_def)

lemma fast_path_58_256: "fast_path chars inp 58 256 m = None"
  by (simp add: fast_path_def Let_def)

lemma change_base_58_256:
  "change_base (PStr cs) 58 256 m None None =
   bindE (digit_loop 58 49 (rev (utf8_encode cs)) 1 0 0) (\<lambda>(n, z).
     convert_output 256 False (output_digits 58 256 m False z (length cs) n))"
  by (simp add: change_base_def normalize_var_def fast_path_58_256 code_strings_58
      code_strings_def Let_def py_str_len_def)

lemma output_digits_58_256:
  assumes "0 < len"
  shows "output_digits 58 256 m False z len n =
    (let out = replicate z 0 @ to_digits 256 n [] in replicate (m - length out) 0 @ out)"
proof -
  have "map ((!) [0..<256]) (to_digits 256 n []) = to_digits 256 n []"
    by (rule map_idI) (simp add: b256.to_digits_lt)
  moreover have "add_zeros 0 (\<lambda>k. 58 ^ len = (256::nat) ^ k) z out = replicate z 0 @ out" for out
    using pow58_not_pow256 [OF assms] by (intro add_zeros_unexpected) auto
  ultimately show ?thesis
    by (simp add: output_digits_def code_strings_256 zeros_to_add_def Let_def)
qed

lemma digit_loop_base58encode:
  "digit_loop 58 49 (rev (utf8_encode (base58encode b))) 1 0 0 =
     Inr (be_val b, length (takeWhile (\<lambda>x. x = 0) b))"
proof -
  have l2: "list_all2 (\<lambda>b d. byte_index 58 b = Some d \<and> (unat b = 49 \<longleftrightarrow> d = 0))
      (map (\<lambda>d. byte_of (of_char (base58_char d))) ds) ds"
    if "\<forall>d \<in> set ds. d < 58" for ds
    using that
  proof (induction ds)
    case (Cons d ds)
    then have d: "d < 58" by simp
    have "unat (byte_of (of_char (base58_char d))) = of_char (base58_char d)"
      using base58_index(2) [OF d] by (intro unat_byte_of) simp
    with Cons base58_index(1,3) [OF d] show ?case by simp
  qed simp
  have lt: "\<forall>d \<in> set (base58_digits b). d < 58" by (simp add: base58_digits_lt)
  show ?thesis
    unfolding base58encode_digits utf8_encode_base58 [OF lt]
    using digit_loop_digits [OF l2 [OF lt], of 1 0 0]
    by (simp add: base58_digits_val base58_digits_zeros)
qed

lemma base58_decode_encode:
  assumes "b \<noteq> []" "m \<le> length b"
  shows "change_base (PStr (base58encode b)) 58 256 m None None = Inr (PBytes b)"
proof -
  let ?out = "replicate (length (takeWhile (\<lambda>x. x = 0) b)) 0 @ to_digits 256 (be_val b) []"
  have out: "map byte_of ?out = b" using bytes_of_digits [of b] by simp
  then have len: "length ?out = length b" by (metis length_map)
  have "0 < length (base58encode b)" using assms(1) by (simp add: base58encode_digits)
  then have "output_digits 58 256 m False (length (takeWhile (\<lambda>x. x = 0) b))
      (length (base58encode b)) (be_val b) = ?out"
    using len assms(2) by (simp add: output_digits_58_256 Let_def)
  moreover have "?out \<noteq> []" using len assms(1) by (metis length_0_conv)
  ultimately show ?thesis
    unfolding change_base_58_256 digit_loop_base58encode
    using out by (simp add: convert_output_def)
qed

section \<open>Properties\<close>

text \<open>\<^verbatim>\<open>change_base(_, 58, 256, m)\<close> decodes what \<^verbatim>\<open>base58encode\<close> encoded: every
  non-empty byte string is read back exactly, leading zero bytes included, as long as the
  requested minimal length is not longer than the string.\<close>

theorem base58_roundtrip:
  assumes "b \<noteq> []" "m \<le> length b"
  shows "change_base (PStr (base58encode b)) 58 256 m None None = Inr (PBytes b)"
  using assms by (rule base58_decode_encode)

theorem base58_roundtrip_witness:
  "change_base (PStr (base58encode [0, 0, 255])) 58 256 3 None None = Inr (PBytes [0, 0, 255])"
  by (rule base58_roundtrip) simp_all

text \<open>The fallback to \<^verbatim>\<open>item.lower()\<close> makes the base 58 decoder accept characters that are
  not in the base 58 alphabet: a text in which an \<open>o\<close> is written \<open>O\<close>, or an \<open>i\<close> is written
  \<open>I\<close>, decodes to the same bytes as the original, for any context around it.\<close>

theorem base58_accepts_foreign_letters:
  "CHR ''O'' \<notin> set base58_alphabet \<and> CHR ''I'' \<notin> set base58_alphabet \<and>
   change_base (PStr (xs @ CHR ''O'' # ys)) 58 256 m None None =
     change_base (PStr (xs @ CHR ''o'' # ys)) 58 256 m None None \<and>
   change_base (PStr (xs @ CHR ''I'' # ys)) 58 256 m None None =
     change_base (PStr (xs @ CHR ''i'' # ys)) 58 256 m None None"
proof -
  have cong: "digit_loop 58 49 (rev (us @ [x] @ vs)) f n z = digit_loop 58 49 (rev (us @ [y] @ vs)) f n z"
    if "byte_index 58 x = byte_index 58 y" "unat x \<noteq> 49" "unat y \<noteq> 49" for us vs x y f n z
    using that
  proof (induction vs arbitrary: f n z rule: rev_induct)
    case Nil
    then show ?case by (simp split: option.splits)
  next
    case (snoc v vs)
    then show ?case by (simp split: option.splits)
  qed
  have i: "byte_index 58 79 = byte_index 58 111" "byte_index 58 73 = byte_index 58 105"
    by code_simp+
  have u: "utf8_encode (as @ c # bs) = utf8_encode as @ utf8_char c @ utf8_encode bs" for as c bs
    by (simp add: utf8_encode_def)
  have c: "utf8_char CHR ''O'' = [79]" "utf8_char CHR ''o'' = [111]"
    "utf8_char CHR ''I'' = [73]" "utf8_char CHR ''i'' = [105]"
    by (simp_all add: utf8_char_def)
  have a: "CHR ''O'' \<notin> set base58_alphabet" "CHR ''I'' \<notin> set base58_alphabet"
    by (simp_all add: base58_alphabet_def)
  have l: "length (xs @ CHR ''O'' # ys) = length (xs @ CHR ''o'' # ys)"
    "length (xs @ CHR ''I'' # ys) = length (xs @ CHR ''i'' # ys)" by simp_all
  show ?thesis
    unfolding change_base_58_256 u c l
    using a cong [OF i(1)] cong [OF i(2)] by simp
qed

end
