(* ===== verification/Addr.thy ===== *)
theory Addr
  imports Base_Conv Bech32_Addr
begin

text \<open>
  Base58 addresses and the wrappers over both address formats: \<^verbatim>\<open>double_sha256\<close>,
  \<^verbatim>\<open>hash160\<close>, \<^verbatim>\<open>pubkeyhash_to_addr_base58\<close>, \<^verbatim>\<open>addr_base58_to_pubkeyhash\<close>,
  \<^verbatim>\<open>pubkeyhash_to_addr\<close> and \<^verbatim>\<open>addr_to_pubkeyhash\<close> of \<^verbatim>\<open>bitcoinlib/encoding.py\<close>. The hash
  functions of \<^verbatim>\<open>hashlib\<close> and \<^verbatim>\<open>Crypto\<close> are arguments; what the code relies on is the
  length of their digests.
\<close>

type_synonym hash_fun = "bytes \<Rightarrow> bytes"

definition digest_size :: "nat \<Rightarrow> hash_fun \<Rightarrow> bool" where
  "digest_size n h \<longleftrightarrow> (\<forall>x. length (h x) = n)"

definition double_sha256 :: "hash_fun \<Rightarrow> bytes \<Rightarrow> bytes" where
  "double_sha256 sha256 s = sha256 (sha256 s)"

definition hash160 :: "hash_fun \<Rightarrow> hash_fun \<Rightarrow> bytes \<Rightarrow> bytes" where
  "hash160 ripemd160 sha256 s = ripemd160 (sha256 s)"

definition pubkeyhash_to_addr_base58 :: "hash_fun \<Rightarrow> pyval \<Rightarrow> pyval \<Rightarrow> string res" where
  "pubkeyhash_to_addr_base58 sha256 pubkeyhash prefix =
    bindE (to_bytes prefix True) (\<lambda>p. bindE (to_bytes pubkeyhash True) (\<lambda>h.
      let key = p @ h;
          addr256 = key @ take 4 (double_sha256 sha256 key)
      in Inr (base58encode addr256)))"

text \<open>The \<^verbatim>\<open>len\<close> of a number, which \<^verbatim>\<open>change_base\<close> never returns here, is a \<^verbatim>\<open>TypeError\<close>.\<close>

definition addr_base58_to_pubkeyhash :: "hash_fun \<Rightarrow> pyval \<Rightarrow> bool \<Rightarrow> pyval res" where
  "addr_base58_to_pubkeyhash sha256 address0 as_hex =
    bindE (change_base address0 58 256 25 None None) (\<lambda>v.
      case v of
        PBytes address \<Rightarrow>
          if length address \<noteq> 25 then Inl EncodingError
          else (let check = last_n 4 address;
                    pkh = but_last_n 4 address;
                    checksum = take 4 (double_sha256 sha256 pkh)
                in if check \<noteq> checksum then Inl AssertionError
                   else if as_hex then Inr (PStr (drop 2 (hex_of pkh)))
                   else Inr (PBytes (drop 1 pkh)))
      | _ \<Rightarrow> Inl TypeError)"

definition pubkeyhash_to_addr ::
  "hash_fun \<Rightarrow> pyval \<Rightarrow> pyval option \<Rightarrow> string \<Rightarrow> int \<Rightarrow> string res" where
  "pubkeyhash_to_addr sha256 pubkeyhash prefix encoding witver =
    (if encoding = ''base58''
     then pubkeyhash_to_addr_base58 sha256 pubkeyhash
            (case prefix of None \<Rightarrow> PBytes [0] | Some p \<Rightarrow> p)
     else if encoding = ''bech32''
     then (case prefix of
             None \<Rightarrow> pubkeyhash_to_addr_bech32 pubkeyhash ''bc'' witver ''1'' 1
           | Some (PStr p) \<Rightarrow> pubkeyhash_to_addr_bech32 pubkeyhash p witver ''1'' 1
           | Some _ \<Rightarrow> Inl TypeError)
     else Inl EncodingError)"

text \<open>\<open>None\<close> as a result is the function's \<^verbatim>\<open>None\<close>, for an unknown encoding.\<close>

definition addr_to_pubkeyhash ::
  "hash_fun \<Rightarrow> string \<Rightarrow> bool \<Rightarrow> string option \<Rightarrow> pyval option res" where
  "addr_to_pubkeyhash sha256 address as_hex encoding =
    (let bech = (if encoding = Some ''bech32'' \<or> encoding = None
                 then bindE (addr_bech32_to_pubkeyhash address None False as_hex) (\<lambda>p. Inr (Some p))
                 else Inr None)
     in if encoding = Some ''base58'' \<or> encoding = None
        then (case addr_base58_to_pubkeyhash sha256 (PStr address) as_hex of
                Inr p \<Rightarrow> Inr (Some p)
              | Inl EncodingError \<Rightarrow> bech
              | Inl e \<Rightarrow> Inl e)
        else bech)"

section \<open>Lemmas\<close>

lemma length_double_sha256: "digest_size 32 sha256 \<Longrightarrow> length (double_sha256 sha256 x) = 32"
  by (simp add: digest_size_def double_sha256_def)

lemma base58_addr_form:
  assumes "digest_size 32 sha256" "length pkh = 20"
  shows "pubkeyhash_to_addr_base58 sha256 (PStr (hex_of pkh)) (PStr (hex_of [v])) =
      Inr (base58encode ((v # pkh) @ take 4 (double_sha256 sha256 (v # pkh))))"
    and "length ((v # pkh) @ take 4 (double_sha256 sha256 (v # pkh))) = 25"
  using assms length_double_sha256 [OF assms(1)]
  by (simp_all add: pubkeyhash_to_addr_base58_def to_bytes_hex_of Let_def)

lemma addr_base58_decode:
  assumes "length body = 21" "length c = 4"
  shows "addr_base58_to_pubkeyhash sha256 (PStr (base58encode (body @ c))) h =
    (if c \<noteq> take 4 (double_sha256 sha256 body) then Inl AssertionError
     else if h then Inr (PStr (drop 2 (hex_of body))) else Inr (PBytes (drop 1 body)))"
proof -
  have "change_base (PStr (base58encode (body @ c))) 58 256 25 None None = Inr (PBytes (body @ c))"
    using assms by (intro base58_decode_encode) auto
  then show ?thesis
    using assms by (simp add: addr_base58_to_pubkeyhash_def Let_def)
qed

lemma drop_2_hex_of: "drop 2 (hex_of (v # pkh)) = hex_of pkh"
  by (simp add: hex_of_def)

section \<open>Properties\<close>

text \<open>For every 20-byte public key hash and version byte, and every hash function with
  32-byte digests, the base58 address decodes to the hash, through the format's own decoder
  and through the wrapper that guesses the format; an address whose checksum bytes are wrong is
  refused with an \<^verbatim>\<open>AssertionError\<close>, which the wrapper does not turn into another attempt.\<close>

theorem base58_addr_roundtrip:
  assumes "digest_size 32 sha256" "length pkh = 20"
  shows "\<exists>addr. pubkeyhash_to_addr_base58 sha256 (PStr (hex_of pkh)) (PStr (hex_of [v])) = Inr addr \<and>
    addr_base58_to_pubkeyhash sha256 (PStr addr) False = Inr (PBytes pkh) \<and>
    addr_base58_to_pubkeyhash sha256 (PStr addr) True = Inr (PStr (hex_of pkh)) \<and>
    addr_to_pubkeyhash sha256 addr False None = Inr (Some (PBytes pkh)) \<and>
    (\<forall>c. length c = 4 \<and> c \<noteq> take 4 (double_sha256 sha256 (v # pkh)) \<longrightarrow>
       addr_to_pubkeyhash sha256 (base58encode (v # pkh @ c)) False None = Inl AssertionError)"
proof -
  let ?c = "take 4 (double_sha256 sha256 (v # pkh))"
  have l: "length (v # pkh) = 21" "length ?c = 4"
    using assms by (simp_all add: length_double_sha256)
  have d: "addr_base58_to_pubkeyhash sha256 (PStr (base58encode (v # pkh @ c))) h =
    (if c \<noteq> ?c then Inl AssertionError
     else if h then Inr (PStr (hex_of pkh)) else Inr (PBytes pkh))" if "length c = 4" for c h
    using addr_base58_decode [OF l(1) that] by (simp add: drop_2_hex_of)
  show ?thesis
    using base58_addr_form [OF assms, of v] d l(2) by (auto simp: addr_to_pubkeyhash_def)
qed

theorem base58_addr_roundtrip_witness:
  "\<exists>addr. pubkeyhash_to_addr_base58 (\<lambda>_. replicate 32 9) (PStr (hex_of (replicate 20 3)))
      (PStr (hex_of [0])) = Inr addr \<and>
    addr_base58_to_pubkeyhash (\<lambda>_. replicate 32 9) (PStr addr) False = Inr (PBytes (replicate 20 3)) \<and>
    addr_base58_to_pubkeyhash (\<lambda>_. replicate 32 9) (PStr addr) True =
      Inr (PStr (hex_of (replicate 20 3))) \<and>
    addr_to_pubkeyhash (\<lambda>_. replicate 32 9) addr False None = Inr (Some (PBytes (replicate 20 3))) \<and>
    (\<forall>c. length c = 4 \<and> c \<noteq> take 4 (double_sha256 (\<lambda>_. replicate 32 9) (0 # replicate 20 3)) \<longrightarrow>
       addr_to_pubkeyhash (\<lambda>_. replicate 32 9) (base58encode (0 # replicate 20 3 @ c)) False None =
         Inl AssertionError)"
  by (rule base58_addr_roundtrip) (simp_all add: digest_size_def)

end
