(* ===== verification/Tx_Sign_Rules.thy ===== *)
theory Tx_Sign_Rules
  imports Tx_Sign Tx_Roundtrip Addr
begin

text \<open>
  What signing leaves alone, that a signed input verifies, and what the lock time methods set.
\<close>

section \<open>The frame of a transaction\<close>

text \<open>Everything but the scripts, keys and signatures of the inputs, and the sizes and totals.\<close>

definition frame ::
  "transaction \<Rightarrow> bytes \<times> nat \<times> (bytes \<times> bytes \<times> nat \<times> nat \<times> int) list \<times> tx_output list \<times> nat" where
  "frame t = (t_version t, t_version_int t, map outpoint (t_inputs t), t_outputs t, t_locktime t)"

lemma frame_simps [simp]:
  "frame (t\<lparr>t_txid := x\<rparr>) = frame t"
  "frame (t\<lparr>t_size := n\<rparr>) = frame t"
  "frame (t\<lparr>t_vsize := n\<rparr>) = frame t"
  "frame (t\<lparr>t_verified := b\<rparr>) = frame t"
  "frame (update_totals t) = frame t"
  by (simp_all add: frame_def update_totals_def Let_def)

lemma frame_input:
  assumes "outpoint i = outpoint (t_inputs t ! n)"
  shows "frame (t\<lparr>t_inputs := (t_inputs t)[n := i]\<rparr>) = frame t"
  unfolding frame_def using map_update_same [of outpoint, OF assms] by simp

lemma calc_weight_units_frame: "calc_weight_units t = Inr (w, t1) \<Longrightarrow> frame t1 = frame t"
  by (cases "t_size t = 0"; cases "witness_data t") (clarsimp simp: calc_weight_units_def Let_def)+

lemma tx_raw_update_frame:
  assumes "tx_raw_update t sid ht w = Inr (r, t1)"
  shows "frame t1 = frame t"
proof -
  obtain r0 where u: "(if sid = None \<and> t_size t = 0 \<and> list_all (\<lambda>i. i_unlocking_script i \<noteq> []) (t_inputs t)
      then bindE (calc_weight_units (t\<lparr>t_size := length r0\<rparr>)) (\<lambda>(_, t1). Inr (r0, t1))
      else Inr (r0, t)) = Inr (r, t1)"
    using assms unfolding tx_raw_update_def bindE_Inr_iff by blast
  show ?thesis
  proof (cases "t1 = t")
    case False
    then obtain x where "calc_weight_units (t\<lparr>t_size := length r0\<rparr>) = Inr x" "Inr (r0, snd x) = Inr (r, t1)"
      using u by (cases "calc_weight_units (t\<lparr>t_size := length r0\<rparr>)") (auto split: if_split_asm)
    then show ?thesis using calc_weight_units_frame [of "t\<lparr>t_size := length r0\<rparr>" "fst x" t1]
      by (cases x) simp
  qed simp
qed

lemma signature_segwit_frame:
  assumes "signature_segwit C t n ht = Inr (r, t1)"
  shows "frame t1 = frame t"
proof -
  define i where "i = t_inputs t ! n"
  define i1 where "i1 = (if i_redeemscript i = [] then i\<lparr>i_redeemscript := i_locking_script i\<rparr> else i)"
  have "t1 = t\<lparr>t_inputs := (t_inputs t)[n := i1]\<rparr>"
    using assms unfolding signature_segwit_def Let_def i_def [symmetric] i1_def [symmetric]
    by (auto simp: bindE_Inr_iff split: if_split_asm)
  moreover have "outpoint i1 = outpoint i" by (simp add: i1_def outpoint_def)
  ultimately show ?thesis using frame_input [of i1 t n] by (simp add: i_def)
qed

lemma signature_hash_frame: "signature_hash C t sid ht w = Inr (h, t1) \<Longrightarrow> frame t1 = frame t"
  by (auto simp: signature_hash_def signature_def Let_def bindE_Inr_iff
      dest: tx_raw_update_frame signature_segwit_frame split: if_splits)

lemma adopt_keys_frame: "adopt_keys C ht ks n t = Inr t1 \<Longrightarrow> frame t1 = frame t"
  by (auto simp: adopt_keys_def bindE_Inr_iff outpoint_def dest!: update_scripts_outpoint
      intro!: frame_input split: if_splits)

lemma add_signatures_frame:
  "add_signatures C ht fail replace ks pubs n txid t = Inr (go, t1) \<Longrightarrow> frame t1 = frame t"
  by (auto simp: add_signatures_def Let_def bindE_Inr_iff outpoint_def dest!: update_scripts_outpoint
      intro!: frame_input split: if_splits)

lemma sign_input_frame:
  assumes "sign_input C keys held ht fail replace n t = Inr (go, t')"
  shows "frame t' = frame t"
proof -
  let ?ks = "signing_keys keys (held n)"
  have "n < length (t_inputs t)" using assms by (cases "length (t_inputs t) \<le> n") (simp_all add: sign_input_def)
  then obtain t1 where t1: "adopt_keys C ht ?ks n t = Inr t1"
    and t': "(if i_script_type (t_inputs t1 ! n) = ''coinbase'' then Inl TransactionError
      else bindE (signature_hash C t1 (Some n) ht (Some (i_witness_type (t_inputs t1 ! n)))) (\<lambda>(txid, t2).
             add_signatures C ht fail replace ?ks (i_keys (t_inputs t1 ! n)) n txid t2)) = Inr (go, t')"
    using assms by (cases "adopt_keys C ht ?ks n t") (simp_all add: sign_input_def Let_def)
  then obtain x where x: "signature_hash C t1 (Some n) ht (Some (i_witness_type (t_inputs t1 ! n))) = Inr x"
    "add_signatures C ht fail replace ?ks (i_keys (t_inputs t1 ! n)) n (fst x) (snd x) = Inr (go, t')"
    by (cases "signature_hash C t1 (Some n) ht (Some (i_witness_type (t_inputs t1 ! n)))")
      (auto split: if_split_asm)
  show ?thesis
    using adopt_keys_frame [OF t1] signature_hash_frame [of C t1 "Some n" ht _ "fst x" "snd x"] x(1)
      add_signatures_frame [OF x(2)] by simp
qed

lemma sign_loop_frame: "sign_loop C keys held ht fail replace js t = Inr t' \<Longrightarrow> frame t' = frame t"
proof (induction js arbitrary: t)
  case (Cons j js)
  then obtain go t1 where s: "sign_input C keys held ht fail replace j t = Inr (go, t1)"
    by (cases "sign_input C keys held ht fail replace j t") auto
  then show ?case using Cons.prems Cons.IH [of t1] sign_input_frame [OF s] by (cases go) simp_all
qed simp

lemma sign_frame: "sign C t keys held index ht fail replace = Inr t' \<Longrightarrow> frame t' = frame t"
  by (rule sign_loop_frame) (simp add: sign_def split: if_splits)

lemma sign_and_update_frame:
  assumes "sign_and_update C held t index = Inr t'"
  shows "frame t' = frame (t\<lparr>t_version := be_bytes 4 (t_version_int t)\<rparr>) \<and> t_version_int t < 2 ^ 32"
proof -
  obtain v t1 h t2 r t3 w t4 where s: "int_to_be 4 (int (t_version_int t)) = Inr v"
    "sign C (t\<lparr>t_version := v\<rparr>) [] held index SIGHASH_ALL True True = Inr t1"
    "signature_hash C t1 None SIGHASH_ALL None = Inr (h, t2)"
    "tx_raw_update (t2\<lparr>t_txid := hex_of (rev h)\<rparr>) None SIGHASH_ALL None = Inr (r, t3)"
    "calc_weight_units (t3\<lparr>t_size := length r\<rparr>) = Inr (w, t4)" "t' = update_totals t4"
    using assms by (auto simp: sign_and_update_def bindE_Inr_iff)
  have "frame t' = frame (t\<lparr>t_version := v\<rparr>)"
    using sign_frame [OF s(2)] signature_hash_frame [OF s(3)] tx_raw_update_frame [OF s(4)]
      calc_weight_units_frame [OF s(5)] s(6) by simp
  moreover have "v = be_bytes 4 (t_version_int t)" "t_version_int t < 2 ^ 32"
    using s(1) by (auto simp: int_to_be_Inr_iff)
  ultimately show ?thesis by simp
qed

section \<open>A signed input verifies\<close>

text \<open>
  What the code relies on for the elliptic curve packages: the signature of a message with a
  private key is in range and verifies under the public key, and so does the one with \<open>n - s\<close>.
\<close>

definition signs_correctly :: "crypto \<Rightarrow> key_obj \<Rightarrow> bool" where
  "signs_correctly C k \<longleftrightarrow>
    (\<exists>p. key_point C (pk_public k) = Inr p \<and>
      (\<forall>m r s. ecdsa_sign C m (pk_private k) = (r, s) \<longrightarrow>
         0 < r \<and> r < secp256k1_n \<and> 0 < s \<and> s < secp256k1_n \<and>
         ecdsa_verify C r s m p \<and> ecdsa_verify C r (secp256k1_n - s) m p))"

lemma signature_create_verifies:
  assumes "signs_correctly C k" "length h = 32"
  shows "\<exists>sg der. signature_create C h (pk_private k) (pk_public k) SIGHASH_ALL True True = Inr sg \<and>
    sig_public_key sg = Some (pk_public k) \<and> sig_hash_type sg = SIGHASH_ALL \<and>
    signature_verify C sg (Some h) (Some (pk_public k)) = Inr True \<and>
    as_der_encoded sg True = Inr der \<and> length der < 253"
proof -
  obtain r s0 where rs: "ecdsa_sign C (hex_of h) (pk_private k) = (r, s0)" by fastforce
  obtain p where p: "key_point C (pk_public k) = Inr p"
    and range: "0 < r" "r < secp256k1_n" "0 < s0" "s0 < secp256k1_n"
    and ver: "ecdsa_verify C r s0 (hex_of h) p" "ecdsa_verify C r (secp256k1_n - s0) (hex_of h) p"
    using assms(1) rs unfolding signs_correctly_def by blast
  define s where "s = (if s0 > 2 ^ 255 then secp256k1_n - s0 else s0)"
  have s: "0 < s" "s < secp256k1_n" "ecdsa_verify C r s (hex_of h) p"
    using range ver by (simp_all add: s_def)
  have "int r < 2 ^ 256" "int s < 2 ^ 256" using range(2) s(2) secp256k1_n_lt by simp_all
  then obtain rb sb where d: "signature_der_encode (int r) (int s) = Inr (der_frame rb sb)"
    "length rb \<le> 33" "length sb \<le> 33"
    using signature_der_encode_form [of "int r" "int s"] range(1) s(1) by auto
  have h: "h \<noteq> []" using assms(2) by auto
  have one: "int_to_be 1 (int SIGHASH_ALL) = Inr [1]"
    by (simp add: int_to_be_def SIGHASH_ALL_def be_bytes_def)
  have mb: "(if \<not> True \<or> length h \<noteq> 32 then c_sha256 C (c_sha256 C h) else h) = h"
    using assms(2) by simp
  have s': "(if s0 > 2 ^ 255 \<and> True then secp256k1_n - s0 else s0) = s" by (simp add: s_def)
  let ?sg = "\<lparr>sig_r = r, sig_s = s, sig_hash_type = SIGHASH_ALL, sig_bytes = [], sig_der = der_frame rb sb,
      sig_der_encoded = [1], sig_public_key = Some (pk_public k), sig_point = Some p\<rparr>"
  have c: "signature_create C h (pk_private k) (pk_public k) SIGHASH_ALL True True = Inr ?sg"
    unfolding signature_create_def Let_def mb rs prod.case s'
    using range(1,2) s(1,2) d(1) p one by (simp add: signature_init_def)
  show ?thesis
    unfolding c using h p s(3) d one
    by (simp add: signature_verify_def as_der_encoded_def)
qed

text \<open>An input that spends a payment to a public key hash and has not been signed.\<close>

definition p2pkh_input :: "crypto \<Rightarrow> nat \<Rightarrow> bytes \<Rightarrow> tx_input \<Rightarrow> bool" where
  "p2pkh_input C n pub i \<longleftrightarrow>
     i_script_type i = ''sig_pubkey'' \<and> i_witness_type i = ''legacy'' \<and> i_index_n i = n \<and>
     i_keys i = [pub] \<and> i_signatures i = [] \<and> i_sigs_required i = 1 \<and> i_hash_type i = SIGHASH_ALL \<and>
     i_public_hash i \<noteq> [] \<and> i_locking_script i = [0x76, 0xa9, 0x14] @ i_public_hash i @ [0x88, 0xac] \<and>
     length pub < 253"

lemma write_list_update: "f y = f (xs ! n) \<Longrightarrow> write_list f (xs[n := y]) = write_list f xs"
  by (induction xs arbitrary: n) (simp_all split: nat.split)

lemma varstr_total: "length d < 253 \<Longrightarrow> \<exists>v. varstr d = Inr v"
  using varstr_ok [of d] by (cases "varstr d") simp_all

lemma update_scripts_p2pkh:
  assumes "p2pkh_input C n pub i" "as_der_encoded sg True = Inr der" "length der < 253"
  shows "\<exists>u. update_scripts C SIGHASH_ALL (i\<lparr>i_signatures := [sg]\<rparr>) =
    Inr (i\<lparr>i_signatures := [sg], i_witnesses := [der, pub], i_unlocking_script := u\<rparr>)"
proof -
  obtain v1 where v1: "varstr der = Inr v1" using varstr_total [OF assms(3)] by blast
  obtain v2 where v2: "varstr pub = Inr v2"
    using varstr_total assms(1) by (auto simp: p2pkh_input_def)
  define i1 where "i1 = i\<lparr>i_signatures := [sg]\<rparr>"
  have i: "i_script_type i1 = ''sig_pubkey''" "i_witness_type i1 = ''legacy''" "i_keys i1 = [pub]"
    "i_signatures i1 = [sg]" "i_public_hash i1 \<noteq> []"
    "i_locking_script i1 = [0x76, 0xa9, 0x14] @ i_public_hash i1 @ [0x88, 0xac]"
    using assms(1) by (simp_all add: p2pkh_input_def i1_def)
  have same: "i1\<lparr>i_locking_script := [0x76, 0xa9, 0x14] @ i_public_hash i1 @ [0x88, 0xac]\<rparr> = i1"
    unfolding i(6) [symmetric] by simp
  have "\<exists>u. update_sig_pubkey C SIGHASH_ALL i1 = Inr (i1\<lparr>i_witnesses := [der, pub], i_unlocking_script := u\<rparr>)"
  proof (cases "i_unlocking_script i1 = [] \<or> i_strict i1")
    case True
    have "update_sig_pubkey C SIGHASH_ALL i1 =
        Inr (i1\<lparr>i_witnesses := [der, pub], i_unlocking_script := (if v1 @ v2 \<noteq> [] then v1 @ v2
          else i_unlocking_script i1)\<rparr>)"
      unfolding update_sig_pubkey_def
      using i(1-5) assms(2) v1 v2 True
      by (simp add: Let_def same SIGHASH_ALL_def del: append.simps)
    then show ?thesis by blast
  next
    case False
    have "update_sig_pubkey C SIGHASH_ALL i1 = Inr (i1\<lparr>i_witnesses := [der, pub]\<rparr>)"
      unfolding update_sig_pubkey_def
      using i(1-5) assms(2) v1 v2 False
      by (simp add: Let_def same SIGHASH_ALL_def del: append.simps)
    moreover have "i1\<lparr>i_witnesses := [der, pub]\<rparr> =
        i1\<lparr>i_witnesses := [der, pub], i_unlocking_script := i_unlocking_script i1\<rparr>" by simp
    ultimately show ?thesis by metis
  qed
  then show ?thesis using i(1) by (simp add: update_scripts_def i1_def Let_def)
qed

section \<open>Properties\<close>

text \<open>Signing changes only scripts, keys and signatures of the inputs: the version, the
  outpoint, sequence, index and value of every input, the outputs and the lock time are those of
  the transaction that was given to \<^verbatim>\<open>sign\<close>.\<close>

theorem sign_preserves_frame:
  assumes "sign C t keys held index_n hash_type fail replace = Inr t'"
  shows "frame t' = frame t"
  using assms by (rule sign_frame)

text \<open>C30: \<^verbatim>\<open>sign\<close> with the key of an input that spends a payment to its public key hash
  succeeds, and the signed input is accepted by \<^verbatim>\<open>Input.verify\<close> for the hash of the signed
  transaction, whenever the elliptic curve package verifies what it signed and hashes are 32
  bytes long.\<close>

theorem sign_then_verify:
  assumes "n < length (t_inputs t)" "p2pkh_input C n (pk_public k) (t_inputs t ! n)"
    and "pk_private k \<noteq> []" "signs_correctly C k" "signing_keys [k] (held n) = [k]"
    and "digest_size 32 (c_sha256 C)" "is_ok (tx_raw t (Some n) SIGHASH_ALL (Some ''legacy''))"
  shows "\<exists>t'. sign C t [k] held (Some n) SIGHASH_ALL fail replace = Inr t' \<and>
    i_signatures (t_inputs t' ! n) \<noteq> [] \<and> input_accepted C t' (t_inputs t' ! n)"
proof -
  let ?i = "t_inputs t ! n" and ?pub = "pk_public k"
  obtain r where r: "tx_raw t (Some n) SIGHASH_ALL (Some ''legacy'') = Inr r"
    using assms(7) by (cases "tx_raw t (Some n) SIGHASH_ALL (Some ''legacy'')") simp_all
  let ?h = "dsha C r"
  have h: "length ?h = 32" using assms(6) by (simp add: dsha_def digest_size_def)
  obtain sg der where sg: "signature_create C ?h (pk_private k) ?pub SIGHASH_ALL True True = Inr sg"
    "sig_public_key sg = Some ?pub" "sig_hash_type sg = SIGHASH_ALL"
    "signature_verify C sg (Some ?h) (Some ?pub) = Inr True"
    "as_der_encoded sg True = Inr der" "length der < 253"
    using signature_create_verifies [OF assms(4) h] by blast
  have i: "i_script_type ?i = ''sig_pubkey''" "i_witness_type ?i = ''legacy''" "i_keys ?i = [?pub]"
    "i_signatures ?i = []" "i_index_n ?i = n" "i_hash_type ?i = SIGHASH_ALL" "i_sigs_required ?i = 1"
    using assms(2) by (simp_all add: p2pkh_input_def)
  obtain u where u: "update_scripts C SIGHASH_ALL (?i\<lparr>i_signatures := [sg]\<rparr>) =
      Inr (?i\<lparr>i_signatures := [sg], i_witnesses := [der, ?pub], i_unlocking_script := u\<rparr>)"
    using update_scripts_p2pkh [OF assms(2) sg(5,6)] by blast
  define j where "j = ?i\<lparr>i_signatures := [sg], i_witnesses := [der, ?pub], i_unlocking_script := u\<rparr>"
  define t' where "t' = t\<lparr>t_inputs := (t_inputs t)[n := j]\<rparr>"
  have keys: "sign_keys C ?h SIGHASH_ALL fail replace [?pub] [] [k] [None] 0 = Inr ([Some sg], 1)"
    using assms(3) sg(1) by simp
  have "sign_input C [k] held SIGHASH_ALL fail replace n t = Inr (True, t')"
    using assms(1,5) i r keys u
    by (simp add: sign_input_def adopt_keys_def Let_def signature_hash_legacy add_signatures_def
        merge_signatures_def present_def t'_def j_def)
  then have s: "sign C t [k] held (Some n) SIGHASH_ALL fail replace = Inr t'"
    by (simp add: sign_def)
  have j: "t_inputs t' ! n = j" using assms(1) by (simp add: t'_def)
  have raw: "tx_raw t' (Some n) SIGHASH_ALL (Some ''legacy'') = Inr r"
  proof -
    have "raw_input (Some n) j = raw_input (Some n) ?i" "raw_witness j = raw_witness ?i"
      using i(2) by (simp_all add: raw_input_def raw_witness_def j_def)
    then have "write_list (raw_input (Some n)) (t_inputs t') = write_list (raw_input (Some n)) (t_inputs t)"
      "write_list raw_witness (t_inputs t') = write_list raw_witness (t_inputs t)"
      by (simp_all add: t'_def write_list_update)
    then show ?thesis using r by (simp add: tx_raw_def t'_def)
  qed
  have f: "i_script_type j = ''sig_pubkey''" "i_witness_type j = ''legacy''" "i_index_n j = n"
    "i_hash_type j = SIGHASH_ALL" "i_keys j = [?pub]" "i_signatures j = [sg]" "i_sigs_required j = 1"
    using i by (simp_all add: j_def)
  then have "\<exists>i'. input_verify C ?h j = Inr (True, i')"
    using input_verify_count [of j C ?h] sg(4) by (simp add: sig_signs_def)
  moreover have "input_hash C t' j = Inr ?h"
    using f raw by (simp add: input_hash_def signature_hash_legacy)
  moreover have "?h \<noteq> []" using h by auto
  ultimately have "input_accepted C t' j" by (auto simp: input_accepted_def)
  then show ?thesis using s f(6) j by auto
qed

text \<open>A relative lock time in blocks sets the sequence of the one input to that number,
  raises the version to two if it was lower, writes the version into its bytes and leaves the
  other inputs' sequences, all outpoints and the outputs alone; more than 65535 blocks are refused.\<close>

theorem set_locktime_relative_blocks_sets:
  assumes "0 < blocks" "blocks \<noteq> 0xffffffff"
  shows "(blocks > 0xffff \<longrightarrow> set_locktime_relative_blocks C held t blocks n locktime = Inl TransactionError) \<and>
    (\<forall>t'. set_locktime_relative_blocks C held t blocks n locktime = Inr t' \<longrightarrow>
      map i_sequence (t_inputs t') = (map i_sequence (t_inputs t))[n := blocks] \<and>
      map i_prev_txid (t_inputs t') = map i_prev_txid (t_inputs t) \<and>
      t_outputs t' = t_outputs t \<and> t_version_int t' = max 2 (t_version_int t) \<and>
      be_val (t_version t') = t_version_int t' \<and>
      t_locktime t' = (if locktime \<noteq> 0 then locktime else t_locktime t))"
proof (intro conjI allI impI)
  show "set_locktime_relative_blocks C held t blocks n locktime = Inl TransactionError"
    if "blocks > 0xffff"
    using that assms by (simp add: set_locktime_relative_blocks_def SEQUENCE_LOCKTIME_MASK_def)
next
  fix t'
  assume "set_locktime_relative_blocks C held t blocks n locktime = Inr t'"
  then obtain t1 where t1: "set_sequence n blocks t = Inr t1"
    and u: "sign_and_update C held (t1\<lparr>t_version_int := max 2 (t_version_int t1),
        t_locktime := (if locktime \<noteq> 0 then locktime else t_locktime t1)\<rparr>) (Some n) = Inr t'"
    using assms by (auto simp: set_locktime_relative_blocks_def set_relative_def bindE_Inr_iff
        simp del: max_def split: if_split_asm)
  note fr = sign_and_update_frame [OF u]
  have n: "n < length (t_inputs t)" "t1 = t\<lparr>t_inputs := (t_inputs t)[n := (t_inputs t ! n)\<lparr>i_sequence := blocks\<rparr>]\<rparr>"
    using t1 by (auto simp: set_sequence_def split: if_splits)
  have o: "map outpoint (t_inputs t') = map outpoint (t_inputs t1)" using fr by (simp add: frame_def)
  have proj: "i_sequence = fst \<circ> snd \<circ> snd \<circ> outpoint" "i_prev_txid = fst \<circ> outpoint"
    by (simp_all add: outpoint_def fun_eq_iff)
  have sq: "map i_sequence (t_inputs t') = map i_sequence (t_inputs t1)"
    "map i_prev_txid (t_inputs t') = map i_prev_txid (t_inputs t1)"
    unfolding proj map_map [symmetric] o by (rule refl)+
  show "map i_sequence (t_inputs t') = (map i_sequence (t_inputs t))[n := blocks]"
    "map i_prev_txid (t_inputs t') = map i_prev_txid (t_inputs t)"
    unfolding sq using n(2) by (simp add: map_update, simp add: map_update_same)
  show "t_outputs t' = t_outputs t" "t_version_int t' = max 2 (t_version_int t)"
    "t_locktime t' = (if locktime \<noteq> 0 then locktime else t_locktime t)"
    "be_val (t_version t') = t_version_int t'"
    using fr by (simp_all add: frame_def n(2) be_val_be_bytes)
qed

section \<open>Witnesses\<close>

definition example_key :: key_obj where
  "example_key = \<lparr>pk_public = [5], pk_private = [5]\<rparr>"

definition example_p2pkh :: tx_input where
  "example_p2pkh = \<lparr>i_prev_txid = replicate 32 1, i_output_n = [0, 0, 0, 0],
     i_unlocking_script = [], i_locking_script = [0x76, 0xa9, 0x14, 9, 0x88, 0xac],
     i_redeemscript = [], i_sequence = 5, i_compressed = True, i_index_n = 0, i_value = 0,
     i_keys = [[5]], i_signatures = [], i_sigs_required = 1, i_hash_type = 1, i_public_hash = [9],
     i_script_type = ''sig_pubkey'', i_witness_type = ''legacy'', i_witnesses = [], i_script = None,
     i_strict = False\<rparr>"

lemma example_raw: "is_ok (tx_raw (example_signed_tx [example_p2pkh]) (Some 0) SIGHASH_ALL (Some ''legacy''))"
  by (simp add: tx_raw_def example_signed_tx_def example_p2pkh_def raw_input_def SIGHASH_ALL_def
      raw_witness_def varstr_def int_to_varbyteint_def int_to_le_def)

theorem sign_then_verify_witness:
  "\<exists>t'. sign example_crypto (example_signed_tx [example_p2pkh]) [example_key] (\<lambda>_. []) (Some 0)
      SIGHASH_ALL True False = Inr t' \<and>
    i_signatures (t_inputs t' ! 0) \<noteq> [] \<and> input_accepted example_crypto t' (t_inputs t' ! 0)"
proof (rule sign_then_verify)
  show "p2pkh_input example_crypto 0 (pk_public example_key) (t_inputs (example_signed_tx [example_p2pkh]) ! 0)"
    by (simp add: p2pkh_input_def example_p2pkh_def example_signed_tx_def example_key_def SIGHASH_ALL_def)
  show "signs_correctly example_crypto example_key"
    by (simp add: signs_correctly_def example_key_def example_crypto_def secp256k1_n_def)
  show "digest_size 32 (c_sha256 example_crypto)" by (simp add: digest_size_def example_crypto_def)
qed (simp_all add: example_raw signing_keys_def, simp_all add: example_signed_tx_def example_key_def)

theorem sign_preserves_frame_witness:
  "\<exists>t'. sign example_crypto (example_signed_tx [example_p2pkh]) [] (\<lambda>_. []) None SIGHASH_ALL True True =
      Inr t' \<and> frame t' = frame (example_signed_tx [example_p2pkh])"
proof -
  let ?t = "example_signed_tx [example_p2pkh]"
  obtain r where "tx_raw ?t (Some 0) SIGHASH_ALL (Some ''legacy'') = Inr r"
    using example_raw by (cases "tx_raw ?t (Some 0) SIGHASH_ALL (Some ''legacy'')") simp_all
  then have s: "sign example_crypto ?t [] (\<lambda>_. []) None SIGHASH_ALL True True = Inr ?t"
    by (simp add: sign_def sign_input_def adopt_keys_def Let_def add_signatures_def signing_keys_def
        example_signed_tx_def example_p2pkh_def signature_hash_legacy)
  from sign_preserves_frame [OF s] s show ?thesis by blast
qed

theorem set_locktime_relative_blocks_sets_witness:
  "\<exists>t'. set_locktime_relative_blocks example_crypto (\<lambda>_. []) (example_signed_tx [example_p2pkh]) 7 0 0 =
      Inr t' \<and> map i_sequence (t_inputs t') = [7] \<and> t_version_int t' = 2"
proof -
  let ?t = "example_signed_tx [example_p2pkh]"
  have "is_ok (set_locktime_relative_blocks example_crypto (\<lambda>_. []) ?t 7 0 0)"
    by (simp add: set_locktime_relative_blocks_def set_relative_def set_sequence_def sign_and_update_def
        SEQUENCE_LOCKTIME_MASK_def sign_def sign_input_def adopt_keys_def Let_def add_signatures_def
        signing_keys_def example_signed_tx_def example_p2pkh_def signature_hash_def signature_def
        tx_raw_update_def tx_raw_def raw_input_def SIGHASH_ALL_def raw_witness_def varstr_def
        int_to_varbyteint_def int_to_le_def int_to_be_def calc_weight_units_def witness_data_def
        raw_witness_items_def)
  then obtain t' where t': "set_locktime_relative_blocks example_crypto (\<lambda>_. []) ?t 7 0 0 = Inr t'"
    by (cases "set_locktime_relative_blocks example_crypto (\<lambda>_. []) ?t 7 0 0") simp_all
  have "map i_sequence (t_inputs t') = (map i_sequence (t_inputs ?t))[0 := 7] \<and>
      t_version_int t' = max 2 (t_version_int ?t)"
    using set_locktime_relative_blocks_sets [of 7 example_crypto "\<lambda>_. []" ?t 0 0] t' by simp
  then show ?thesis using t' by (simp add: example_signed_tx_def)
qed

end
