(* ===== verification/Tx_Legacy.thy ===== *)
theory Tx_Legacy
  imports Tx_Roundtrip Script_Roundtrip
begin

text \<open>
  The round trip of a transaction without witnesses through \<^verbatim>\<open>raw\<close> and the parser, and the
  scripts on which the constructors' \<^verbatim>\<open>to_bytes\<close> breaks it.
\<close>

text \<open>The hash function returns something.\<close>

definition digest_size_pos :: "crypto \<Rightarrow> bool" where
  "digest_size_pos C \<longleftrightarrow> (\<forall>b. c_sha256 C b \<noteq> [])"

text \<open>
  Transactions that \<^verbatim>\<open>raw\<close> can write and the parser reads: the field sizes, inputs and outputs
  for which the constructors succeed, and no byte string that looks like hexadecimal text.
\<close>

definition legacy_tx :: "crypto \<Rightarrow> bool \<Rightarrow> transaction \<Rightarrow> bool" where
  "legacy_tx C strict t \<longleftrightarrow>
     t_witness_type t = ''legacy'' \<and> length (t_version t) = 4 \<and> t_locktime t < 2 ^ 32 \<and>
     t_inputs t \<noteq> [] \<and> length (t_inputs t) < 2 ^ 64 \<and>
     t_outputs t \<noteq> [] \<and> length (t_outputs t) < 2 ^ 64 \<and>
     (\<forall>i \<in> set (t_inputs t). input_ok C ''legacy'' strict i \<and> not_hex (i_prev_txid i)) \<and>
     (\<forall>o1 \<in> set (t_outputs t). output_ok C strict o1 \<and> not_hex (o_lock_script o1))"

lemma varint_ok: "n < 2 ^ 64 \<Longrightarrow> \<exists>w. int_to_varbyteint (int n) = Inr w"
proof -
  assume "n < 2 ^ 64"
  then have "is_ok (int_to_varbyteint (int n))"
    unfolding int_to_varbyteint_ok by (simp only: of_nat_less_numeral_power_cancel_iff of_nat_0_le_iff simp_thms)
  then show ?thesis by (cases "int_to_varbyteint (int n)") simp_all
qed

lemma write_raw_witness_ok: "\<forall>i \<in> set is. i_witness_type i = ''legacy'' \<or> i_witnesses i = [] \<Longrightarrow>
    write_list raw_witness is = Inr (replicate (length is) 0)"
  by (induction "is") (auto simp: raw_witness_def)

lemma tx_raw_form:
  assumes "tx_raw t None h None = Inr W" "t_witness_type t = ''legacy''"
  obtains n_in ins n_out outs where
    "int_to_varbyteint (int (length (t_inputs t))) = Inr n_in"
    "write_list (raw_input None) (t_inputs t) = Inr ins"
    "int_to_varbyteint (int (length (t_outputs t))) = Inr n_out"
    "write_list raw_output (t_outputs t) = Inr outs"
    "t_locktime t < 2 ^ 32"
    "W = rev (t_version t) @ n_in @ ins @ n_out @ outs @ le_bytes 4 (t_locktime t)"
  using assms by (auto simp: tx_raw_def Let_def bindE_Inr_iff int_to_le_Inr_iff)

lemma parsed_values_0:
  assumes "\<forall>i \<in> set ins. input_ok C wt strict i \<and> not_hex (i_prev_txid i)"
  shows "sum_list (map i_value (views (parsed_input C wt strict) n ins)) = 0"
  using assms
proof (induction ins arbitrary: n)
  case (Cons i ins)
  then obtain c where "c \<in> set (i_prev_txid i)" "digit_val (unat c) = None" "\<not> ascii_space (unat c)"
    by (auto simp: not_hex_def list_ex_iff)
  with Cons have "outpoint (parsed_input C wt strict n i) =
      (i_prev_txid i, i_output_n i, i_sequence i, n, 0)"
    by (intro parsed_input_outpoint) simp_all
  then show ?case using Cons by (simp add: outpoint_def)
qed simp

lemma parsed_outpoints:
  assumes "\<forall>i \<in> set ins. input_ok C wt strict i \<and> not_hex (i_prev_txid i)"
  shows "map outpoint (views (parsed_input C wt strict) n ins) =
    map (\<lambda>(i, k). (i_prev_txid i, i_output_n i, i_sequence i, k, 0)) (zip ins [n..<n + length ins])"
  using assms
proof (induction ins arbitrary: n)
  case (Cons i ins)
  then obtain c where "c \<in> set (i_prev_txid i)" "digit_val (unat c) = None" "\<not> ascii_space (unat c)"
    by (auto simp: not_hex_def list_ex_iff)
  with Cons have "outpoint (parsed_input C wt strict n i) =
      (i_prev_txid i, i_output_n i, i_sequence i, n, 0)"
    by (intro parsed_input_outpoint) simp_all
  moreover have "[n..<n + length (i # ins)] = n # [Suc n..<Suc n + length ins]"
    by (simp add: upt_conv_Cons del: upt_Suc)
  ultimately show ?case using Cons by (simp del: upt_Suc)
qed simp

lemma parsed_payments:
  assumes "\<forall>o1 \<in> set outs. output_ok C strict o1 \<and> not_hex (o_lock_script o1)"
  shows "map (\<lambda>o1. (o_value o1, o_lock_script o1)) (views (parsed_output C strict) n outs) =
    map (\<lambda>o1. (o_value o1, o_lock_script o1)) outs"
  using assms by (induction outs arbitrary: n) (simp_all add: parsed_output_fields)

lemma parse_tx_legacy:
  assumes tx: "legacy_tx C strict t" and raw: "tx_raw t None h None = Inr W"
    and s0: "rest s0 = W @ tl1" and raw0: "raw0 = [] \<or> raw0 = W"
  defines "ins' \<equiv> views (parsed_input C ''legacy'' strict) 0 (t_inputs t)"
    and "outs' \<equiv> views (parsed_output C strict) 0 (t_outputs t)"
  shows "parse_tx C s0 strict raw0 =
    bindE (transaction_init C ins' outs' (t_locktime t) (t_version t) (length W)
      (list_ex (\<lambda>i. i_prev_txid i = replicate 32 0) ins') None ''legacy'' W (hex_of (rev (dsha C W))))
      (\<lambda>t. Inr (t, adv (length W) s0))"
proof -
  have t: "t_witness_type t = ''legacy''" "length (t_version t) = 4" "t_inputs t \<noteq> []"
    "t_outputs t \<noteq> []" "\<forall>i \<in> set (t_inputs t). input_ok C ''legacy'' strict i"
    "\<forall>o1 \<in> set (t_outputs t). output_ok C strict o1"
    using tx by (auto simp: legacy_tx_def)
  obtain n_in ins n_out outs where w: "int_to_varbyteint (int (length (t_inputs t))) = Inr n_in"
    "write_list (raw_input None) (t_inputs t) = Inr ins"
    "int_to_varbyteint (int (length (t_outputs t))) = Inr n_out"
    "write_list raw_output (t_outputs t) = Inr outs" "t_locktime t < 2 ^ 32"
    "W = rev (t_version t) @ n_in @ ins @ n_out @ outs @ le_bytes 4 (t_locktime t)"
    using tx_raw_form [OF raw t(1)] by blast
  let ?lt = "le_bytes 4 (t_locktime t)"
  define s1 where "s1 = adv 4 s0"
  define s3 where "s3 = adv (length n_in) s1"
  define s4 where "s4 = adv (length ins) s3"
  define s5 where "s5 = adv (length n_out) s4"
  define s6 where "s6 = adv (length outs) s5"
  have r0: "rest s0 = rev (t_version t) @ n_in @ ins @ n_out @ outs @ ?lt @ tl1"
    using s0 w(6) by simp
  then have a1: "sread 4 s0 = (rev (t_version t), s1)" unfolding s1_def
    using t(2) by (intro sread_adv) simp_all
  have r1: "rest s1 = n_in @ ins @ n_out @ outs @ ?lt @ tl1" using r0 t(2) by (simp add: s1_def)
  have mk: "read_marker s1 = (None, ''legacy'', s1)"
  proof -
    obtain b bs where "n_in = b # bs" "b \<noteq> 0" using varint_nonzero [OF w(1)] t(3) by auto
    with r1 show ?thesis by (intro read_marker_none [of _ b]) simp_all
  qed
  have a3: "read_varbyteint s1 = (length (t_inputs t), s3)"
    using read_varbyteint_encoded [OF w(1) r1] by (simp add: s3_def)
  have r3: "rest s3 = ins @ n_out @ outs @ ?lt @ tl1" using r1 by (simp add: s3_def)
  have a4: "read_list (\<lambda>n s. input_parse C ''legacy'' strict n s) 0 (length (t_inputs t)) s3 = Inr (ins', s4)"
    unfolding ins'_def s4_def using t(5) w(2) r3 by (rule tx_in.read_list_write_list)
  have r4: "rest s4 = n_out @ outs @ ?lt @ tl1" using r3 by (simp add: s4_def)
  have a5: "read_varbyteint s4 = (length (t_outputs t), s5)"
    using read_varbyteint_encoded [OF w(3) r4] by (simp add: s5_def)
  have r5: "rest s5 = outs @ ?lt @ tl1" using r4 by (simp add: s5_def)
  have a6: "read_list (\<lambda>n s. output_parse C strict n s) 0 (length (t_outputs t)) s5 = Inr (outs', s6)"
    unfolding outs'_def s6_def using t(6) w(4) r5 by (rule tx_out.read_list_write_list)
  have r6: "rest s6 = ?lt @ tl1" using r5 by (simp add: s6_def)
  have a7: "sread 4 s6 = (?lt, adv 4 s6)" using r6 by (rule sread_adv) simp
  have ne: "outs' \<noteq> []" unfolding outs'_def using t(4) by (cases "t_outputs t") simp_all
  have W: "W \<noteq> []" using w(6) t(2) by auto
  have lt: "be_val (rev ?lt) = t_locktime t"
    using w(5) by (simp add: be_val_def le_val_le_bytes)
  have s8: "adv 4 s6 = adv (length W) s0"
    using t(2) w(6) by (simp add: s6_def s5_def s4_def s3_def s1_def)
  have again: "sread (length W) (sseek (spos s0) (adv (length W) s0)) = (W, adv (length W) s0)"
    using sread_adv [OF s0 refl] by (simp add: sseek_def adv_def)
  show ?thesis
    unfolding parse_tx_def Let_def a1 prod.case mk a3 a4 bindE_simps a5 a6 rev_rev_ident
    using ne raw0 W by (cases "raw0 = []") (simp_all add: a7 lt s8 again)
qed

lemma transaction_init_ok:
  assumes "is_ok (write_list (\<lambda>i. raw_witness_items (i_witnesses i)) ins)" "txid \<noteq> []"
    "sum_list (map i_value ins) = 0" "version \<noteq> []"
  shows "\<exists>t. transaction_init C ins outs lt version sz cb fl ''legacy'' W txid = Inr t \<and>
    t_version t = version \<and> t_locktime t = lt \<and> t_inputs t = ins \<and> t_outputs t = outs \<and>
    t_txid t = txid \<and> t_rawtx t = W \<and> t_size t = sz \<and> t_coinbase t = cb \<and>
    t_witness_type t = ''legacy''"
proof -
  obtain w where "write_list (\<lambda>i. raw_witness_items (i_witnesses i)) ins = Inr w"
    using assms(1) by (cases "write_list (\<lambda>i. raw_witness_items (i_witnesses i)) ins") simp_all
  then show ?thesis
    using assms(2-4)
    by (cases "sz = 0") (simp_all add: transaction_init_def calc_weight_units_def witness_data_def Let_def)
qed

text \<open>What the parser keeps of a transaction.\<close>

definition reads_back :: "crypto \<Rightarrow> transaction \<Rightarrow> bytes \<Rightarrow> transaction \<Rightarrow> bool" where
  "reads_back C t W t' \<longleftrightarrow>
    t_version t' = t_version t \<and> t_locktime t' = t_locktime t \<and>
    map outpoint (t_inputs t') =
      map (\<lambda>(i, k). (i_prev_txid i, i_output_n i, i_sequence i, k, 0))
        (zip (t_inputs t) [0..<length (t_inputs t)]) \<and>
    map (\<lambda>o1. (o_value o1, o_lock_script o1)) (t_outputs t') =
      map (\<lambda>o1. (o_value o1, o_lock_script o1)) (t_outputs t) \<and>
    t_txid t' = hex_of (rev (dsha C W)) \<and> t_rawtx t' = W \<and> t_size t' = length W"

lemma parse_tx_stream:
  assumes "legacy_tx C strict t" "tx_raw t None h None = Inr W" "digest_size_pos C"
    and "rest s0 = W @ tl1" "raw0 = [] \<or> raw0 = W"
  shows "\<exists>t'. parse_tx C s0 strict raw0 = Inr (t', adv (length W) s0) \<and> reads_back C t W t'"
proof -
  have i: "\<forall>i \<in> set (t_inputs t). input_ok C ''legacy'' strict i \<and> not_hex (i_prev_txid i)"
    and o: "\<forall>o1 \<in> set (t_outputs t). output_ok C strict o1 \<and> not_hex (o_lock_script o1)"
    and v: "t_version t \<noteq> []"
    using assms(1) by (auto simp: legacy_tx_def)
  note p = parse_tx_legacy [OF assms(1,2,4,5)]
  have "hex_of (rev (dsha C W)) \<noteq> []" using assms(3) by (simp add: digest_size_pos_def dsha_def)
  from transaction_init_ok [OF witness_data_ok this parsed_values_0 [OF i] v]
  obtain t' where t': "transaction_init C (views (parsed_input C ''legacy'' strict) 0 (t_inputs t))
      (views (parsed_output C strict) 0 (t_outputs t)) (t_locktime t) (t_version t) (length W)
      (list_ex (\<lambda>i. i_prev_txid i = replicate 32 0) (views (parsed_input C ''legacy'' strict) 0 (t_inputs t)))
      None ''legacy'' W (hex_of (rev (dsha C W))) = Inr t'"
    "t_version t' = t_version t" "t_locktime t' = t_locktime t"
    "t_inputs t' = views (parsed_input C ''legacy'' strict) 0 (t_inputs t)"
    "t_outputs t' = views (parsed_output C strict) 0 (t_outputs t)"
    "t_txid t' = hex_of (rev (dsha C W))" "t_rawtx t' = W" "t_size t' = length W"
    using i by blast
  have "parse_tx C s0 strict raw0 = Inr (t', adv (length W) s0)" by (simp add: p t'(1))
  then show ?thesis
    using t'(2-) parsed_outpoints [OF i, of 0] parsed_payments [OF o, of 0] by (simp add: reads_back_def)
qed

section \<open>Properties\<close>

text \<open>C1: a transaction without witnesses, serialised by \<^verbatim>\<open>raw\<close>, is parsed back by
  \<^verbatim>\<open>Transaction.parse_bytes\<close>: version, lock time, the outpoint and sequence of every input with
  its index, and the value and locking script of every output are those of the transaction, and
  its id is the reversed double hash of the bytes.\<close>

theorem tx_parse_raw:
  assumes "legacy_tx C strict t" "tx_raw t None h None = Inr W" "digest_size_pos C"
  shows "\<exists>t'. parse_tx_bytes C W strict = Inr t' \<and>
    t_version t' = t_version t \<and> t_locktime t' = t_locktime t \<and>
    map outpoint (t_inputs t') =
      map (\<lambda>(i, k). (i_prev_txid i, i_output_n i, i_sequence i, k, 0))
        (zip (t_inputs t) [0..<length (t_inputs t)]) \<and>
    map (\<lambda>o1. (o_value o1, o_lock_script o1)) (t_outputs t') =
      map (\<lambda>o1. (o_value o1, o_lock_script o1)) (t_outputs t) \<and>
    t_txid t' = hex_of (rev (dsha C W)) \<and> t_rawtx t' = W \<and> t_size t' = length W"
proof -
  have "rest (mk_stream W) = W @ []" by simp
  from parse_tx_stream [OF assms this, of W] show ?thesis
    by (auto simp: parse_tx_bytes_def reads_back_def)
qed

definition example_input :: tx_input where
  "example_input = \<lparr>i_prev_txid = replicate 32 0, i_output_n = [0xff, 0xff, 0xff, 0xff],
     i_unlocking_script = [0x02, 0x07, 0x08], i_locking_script = [], i_redeemscript = [],
     i_sequence = 5, i_compressed = True, i_index_n = 0, i_value = 0, i_keys = [], i_signatures = [],
     i_sigs_required = 1, i_hash_type = 1, i_public_hash = [], i_script_type = ''coinbase'',
     i_witness_type = ''legacy'', i_witnesses = [], i_script = None, i_strict = False\<rparr>"

lemma output_p2pkh_ok:
  assumes "length h = 20" "0 \<le> o_value o1" "o_value o1 < 2 ^ 64"
    "o_lock_script o1 = [0x76, 0xa9, 0x14] @ h @ [0x88, 0xac]"
  shows "output_ok C strict o1 \<and> not_hex (o_lock_script o1)"
proof -
  have nh: "not_hex (o_lock_script o1)" using assms(4) by (simp add: not_hex_def digit_val_def ascii_space_def)
  have "is_ok (output_of C strict n o1)" for n
    using p2pkh_parse [OF assms(1), of C None None strict] to_bytes_not_hex [OF nh] assms(4)
    by (auto simp: output_of_def output_init_def Let_def simp del: append.simps)
  then show ?thesis using nh assms by (simp add: output_ok_def)
qed

definition example_output :: tx_output where
  "example_output = \<lparr>o_value = 5000, o_lock_script = [0x76, 0xa9, 0x14] @ replicate 20 7 @ [0x88, 0xac],
     o_output_n = 0, o_script_type = Some ''p2pkh'', o_script = empty_script,
     o_public_hash = Cmd (Data (replicate 20 7)), o_public_key = [], o_witver = 0, o_change = False\<rparr>"

definition example_tx :: transaction where
  "example_tx = \<lparr>t_version = [0, 0, 0, 1], t_version_int = 1, t_inputs = [example_input],
     t_outputs = [example_output], t_locktime = 9, t_witness_type = ''legacy'', t_coinbase = True,
     t_flag = None, t_rawtx = [], t_size = 0, t_vsize = 0, t_txid = [], t_fee = None,
     t_input_total = 0, t_output_total = 0, t_verified = False\<rparr>"

lemma not_hex_zeros: "not_hex (replicate 32 0)"
  by (simp add: not_hex_def list_ex_iff digit_val_def ascii_space_def)

lemma example_input_ok: "input_ok example_crypto ''legacy'' True example_input"
proof -
  have "not_hex [2, 7, 8]" by (simp add: not_hex_def digit_val_def ascii_space_def)
  then show ?thesis
    by (simp add: input_ok_def wire_input_def input_of_def input_init_def example_input_def
      to_bytes_not_hex not_hex_zeros Let_def update_scripts_def raw_witness_items_def int_to_varbyteint_ok)
qed

lemma example_tx_legacy: "legacy_tx example_crypto True example_tx"
proof -
  have "output_ok example_crypto True example_output \<and> not_hex (o_lock_script example_output)"
    using output_p2pkh_ok [of "replicate 20 7" example_output example_crypto True]
    by (simp add: example_output_def)
  then show ?thesis
    using example_input_ok not_hex_zeros
    by (simp add: legacy_tx_def example_tx_def) (simp add: example_input_def)
qed

theorem tx_parse_raw_witness:
  "\<exists>W t'. tx_raw example_tx None 1 None = Inr W \<and> parse_tx_bytes example_crypto W True = Inr t' \<and>
    t_locktime t' = 9 \<and> map o_value (t_outputs t') = [5000] \<and>
    map i_sequence (t_inputs t') = [5]"
proof -
  have "is_ok (tx_raw example_tx None 1 None)" by code_simp
  then obtain W where W: "tx_raw example_tx None 1 None = Inr W"
    by (cases "tx_raw example_tx None 1 None") simp_all
  have "digest_size_pos example_crypto" by (simp add: digest_size_pos_def example_crypto_def)
  from tx_parse_raw [OF example_tx_legacy W this] obtain t' where
    "parse_tx_bytes example_crypto W True = Inr t'" "t_locktime t' = 9"
    "map outpoint (t_inputs t') = [(replicate 32 0, [0xff, 0xff, 0xff, 0xff], 5, 0, 0)]"
    "map (\<lambda>o1. (o_value o1, o_lock_script o1)) (t_outputs t') =
      [(5000, [0x76, 0xa9, 0x14] @ replicate 20 7 @ [0x88, 0xac])]"
    by (auto simp: example_tx_def example_input_def example_output_def)
  then show ?thesis using W by (auto simp: outpoint_def)
qed

end
