(* ===== verification/Tx_Fee.thy ===== *)
theory Tx_Fee
  imports Tx_Sign_Rules Tx_Legacy
begin

text \<open>
  Sizes and fees: \<^verbatim>\<open>estimate_size\<close>, \<^verbatim>\<open>bumpfee\<close>, \<^verbatim>\<open>add_output\<close> for a locking script, and
  \<^verbatim>\<open>get_unlocking_script_type\<close> of \<^verbatim>\<open>bitcoinlib/transactions.py\<close>.
\<close>

section \<open>Unlocking script types\<close>

definition get_unlocking_script_type :: "string \<Rightarrow> string \<Rightarrow> bool \<Rightarrow> string res" where
  "get_unlocking_script_type locking_script_type witness_type multisig =
    (if locking_script_type \<in> {''p2pkh'', ''p2wpkh''} then Inr ''sig_pubkey''
     else if locking_script_type = ''p2wsh'' \<or> witness_type = ''legacy'' \<and> multisig
     then Inr ''p2sh_multisig''
     else if locking_script_type = ''p2sh''
     then Inr (if \<not> multisig then ''sig_pubkey'' else ''p2sh_multisig'')
     else if locking_script_type = ''p2pk'' then Inr ''signature''
     else Inl TransactionError)"

section \<open>Estimated size\<close>

text \<open>The estimated size of the scripts of an input.\<close>

definition input_scr_size :: "tx_input \<Rightarrow> int res" where
  "input_scr_size inp =
    (if i_unlocking_script inp \<noteq> [] \<and> int (length (i_signatures inp)) \<ge> i_sigs_required inp
     then bindE (varstr (i_unlocking_script inp)) (\<lambda>v.
            Inr (int (length v) + (if i_witness_type inp = ''p2sh-segwit''
                                   then sum_list (map (\<lambda>w. 1 + int (length w)) (i_witnesses inp))
                                   else 0)))
     else if i_script_type inp = ''sig_pubkey''
     then Inr (107 + (if \<not> i_compressed inp then 33 else 0) +
               (if i_witness_type inp = ''p2sh-segwit'' then 24 else 0))
     else if i_script_type inp = ''p2sh_multisig''
     then Inr (9 + int (length (i_keys inp)) * 34 + i_sigs_required inp * 72 +
               (if i_witness_type inp = ''p2sh-segwit'' then 17 * i_sigs_required inp else 0))
     else if i_script_type inp = ''signature'' then Inr (9 + 72)
     else Inl TransactionError)"

fun inputs_size :: "tx_input list \<Rightarrow> (int \<times> int) res" where
  "inputs_size [] = Inr (0, 0)"
| "inputs_size (inp # inps) =
     bindE (input_scr_size inp) (\<lambda>scr_size. bindE (inputs_size inps) (\<lambda>(est, wit).
       Inr (40 + (if i_witness_type inp \<noteq> ''legacy'' then 1 else 0) + scr_size + est, scr_size + wit)))"

fun outputs_size :: "tx_output list \<Rightarrow> int res" where
  "outputs_size [] = Inr 0"
| "outputs_size (outp # outps) =
     (if o_lock_script outp = [] then Inl TransactionError
      else bindE (varstr (o_lock_script outp)) (\<lambda>v. bindE (outputs_size outps) (\<lambda>est.
             Inr (8 + int (length v) + est))))"

text \<open>The size of one change output.\<close>

definition change_size :: "tx_input list \<Rightarrow> int" where
  "change_size inps =
    (let is_multisig = (inps \<noteq> [] \<and> i_script_type (hd inps) = ''p2sh_multisig'')
     in 8 + (if inps = [] \<or> i_witness_type (hd inps) = ''legacy''
             then (if is_multisig then 24 else 26)
             else if i_witness_type (hd inps) = ''p2sh-segwit'' then 24
             else (if is_multisig then 33 else 23)))"

text \<open>
  The result and the transaction with its new sizes. \<^verbatim>\<open>math.ceil(x / 4 - 1.5)\<close> is
  \<open>(x - 3) div 4\<close>.
\<close>

definition estimate_size :: "transaction \<Rightarrow> nat \<Rightarrow> (int \<times> transaction) res" where
  "estimate_size t number_of_change_outputs =
    bindE (inputs_size (t_inputs t)) (\<lambda>(est_in, wit_in).
    bindE (outputs_size (t_outputs t)) (\<lambda>est_out.
      let est_size = 12 + (if t_witness_type t \<noteq> ''legacy'' then 2 else 0) +
            (if t_inputs t = [] then 125 else 0) + est_in + est_out +
            int number_of_change_outputs * change_size (t_inputs t);
          witness_size = 2 + (if t_inputs t = [] then 72 else 0) + wit_in;
          vsize = (if t_witness_type t = ''legacy'' then est_size
                   else ((est_size - witness_size) * 3 + est_size - 3) div 4)
      in Inr (vsize, t\<lparr>t_size := nat est_size, t_vsize := nat vsize\<rparr>)))"

section \<open>Raising the fee\<close>

text \<open>
  The loop over the change outputs: the outputs that remain, with their new values, and
  \<^verbatim>\<open>remaining_fee\<close>. Outputs are compared by identity, so that the ones to delete are dropped on
  the spot.
\<close>

fun bump_outputs :: "int \<Rightarrow> tx_output list \<Rightarrow> int \<Rightarrow> tx_output list \<times> int" where
  "bump_outputs extra_fee [] remaining_fee = ([], remaining_fee)"
| "bump_outputs extra_fee (outp # outps) remaining_fee =
     (if \<not> o_change outp \<or> remaining_fee = 0
      then (let (os, r) = bump_outputs extra_fee outps remaining_fee in (outp # os, r))
      else if o_value outp > remaining_fee * 2
      then (let (os, r) = bump_outputs extra_fee outps 0
            in (outp\<lparr>o_value := o_value outp - extra_fee\<rparr> # os, r))
      else if o_value outp < remaining_fee
      then bump_outputs extra_fee outps (remaining_fee - o_value outp)
      else bump_outputs extra_fee outps 0)"

text \<open>
  The new fee and the extra fee; \<open>default_fee\<close> stands for the floating point formula that is used
  when neither is given.
\<close>

definition bump_amounts :: "(int \<Rightarrow> int \<Rightarrow> int) \<Rightarrow> int \<Rightarrow> int \<Rightarrow> int \<Rightarrow> int \<Rightarrow> (int \<times> int) res" where
  "bump_amounts default_fee old_fee minimal_required_fee fee extra_fee =
    (if fee \<noteq> 0
     then if fee < old_fee + minimal_required_fee then Inl TransactionError
          else Inr (fee, fee - old_fee)
     else if extra_fee \<noteq> 0
     then if extra_fee < minimal_required_fee then Inl TransactionError
          else Inr (old_fee + extra_fee, extra_fee)
     else let f = default_fee old_fee minimal_required_fee in Inr (f, f - old_fee))"

definition bump_with ::
  "crypto \<Rightarrow> (nat \<Rightarrow> key_obj list) \<Rightarrow> int \<Rightarrow> int \<Rightarrow> transaction \<Rightarrow> transaction res" where
  "bump_with C held fee extra_fee t =
    (let (outs, remaining_fee) = bump_outputs extra_fee (t_outputs t) extra_fee
     in if remaining_fee \<noteq> 0 then Inl TransactionError
        else sign_and_update C held (t\<lparr>t_fee := Some fee, t_outputs := outs\<rparr>) None)"

definition bumpfee ::
  "crypto \<Rightarrow> (nat \<Rightarrow> key_obj list) \<Rightarrow> (int \<Rightarrow> int \<Rightarrow> int) \<Rightarrow> transaction \<Rightarrow> int \<Rightarrow> int \<Rightarrow> transaction res" where
  "bumpfee C held default_fee t fee extra_fee =
    (case t_fee t of
       None \<Rightarrow> Inl TransactionError
     | Some old_fee \<Rightarrow>
         if old_fee = 0 then Inl TransactionError
         else bindE (if t_vsize t = 0 then bindE (estimate_size t 0) (\<lambda>(_, t1). Inr t1) else Inr t) (\<lambda>t1.
              bindE (bump_amounts default_fee old_fee (int (t_vsize t1)) fee extra_fee) (\<lambda>(fee1, extra).
                bump_with C held fee1 extra t1)))"

section \<open>Outputs\<close>

text \<open>\<^verbatim>\<open>add_output\<close> with a locking script and an integer value.\<close>

definition add_output ::
  "crypto \<Rightarrow> transaction \<Rightarrow> int \<Rightarrow> bytes \<Rightarrow> nat option \<Rightarrow> bool \<Rightarrow> (nat \<times> transaction) res" where
  "add_output C t value lock_script0 output_n0 strict =
    bindE (to_bytes (PBytes lock_script0) True) (\<lambda>lock_script.
      let output_n = (case output_n0 of None \<Rightarrow> length (t_outputs t) | Some n \<Rightarrow> n)
      in if startswith [0x6a] lock_script \<and> value \<noteq> 0 then Inl TransactionError
         else bindE (output_init C value lock_script output_n strict) (\<lambda>o1.
                Inr (output_n, t\<lparr>t_outputs := t_outputs t @ [o1]\<rparr>)))"

section \<open>Lemmas\<close>

lemma bump_outputs_zero [simp]: "bump_outputs e outs 0 = (outs, 0)"
  by (induction outs) simp_all

lemma sum_bump_outputs:
  assumes "bump_outputs extra outs rem = (outs', 0)" "0 < rem" "rem \<le> extra"
    and "\<forall>o1 \<in> set outs. 0 \<le> o_value o1"
  shows "sum_list (map o_value outs') \<le> sum_list (map o_value outs) - rem"
  using assms
proof (induction outs arbitrary: rem outs')
  case (Cons o1 outs)
  show ?case
  proof (cases "o_change o1")
    case False
    then obtain os where "bump_outputs extra outs rem = (os, 0)" "outs' = o1 # os"
      using Cons.prems(1,2) by (auto split: prod.splits)
    then show ?thesis using Cons.IH [of rem os] Cons.prems(2-4) by simp
  next
    case True
    consider "o_value o1 > rem * 2" | "o_value o1 < rem" | "rem \<le> o_value o1" "o_value o1 \<le> rem * 2"
      by linarith
    then show ?thesis
    proof cases
      case 2
      then show ?thesis
        using Cons.IH [of "rem - o_value o1" outs'] Cons.prems True by simp
    qed (use True Cons.prems in auto)
  qed
qed simp

lemma bump_outputs_payments:
  "filter (\<lambda>o1. \<not> o_change o1) (fst (bump_outputs extra outs rem)) = filter (\<lambda>o1. \<not> o_change o1) outs"
proof (induction outs arbitrary: rem)
  case (Cons o1 outs)
  have s: "fst (let (os, r) = p in (x # os, r)) = x # fst p" for p :: "tx_output list \<times> int" and x
    by (simp add: case_prod_beta)
  show ?case
    by (cases "o_change o1") (simp_all only: bump_outputs.simps s if_distrib [of fst] if_distrib [of "filter _"],
      simp_all add: Cons.IH)
qed simp

text \<open>The estimate on inputs and outputs that are complete.\<close>

definition complete_input :: "tx_input \<Rightarrow> bool" where
  "complete_input i \<longleftrightarrow> i_witness_type i = ''legacy'' \<and> i_unlocking_script i \<noteq> [] \<and>
     i_sigs_required i \<le> int (length (i_signatures i)) \<and> i_script_type i \<noteq> ''nonstandard_0001'' \<and>
     length (i_prev_txid i) = 32 \<and> length (i_output_n i) = 4"

lemma length_int_to_le: "int_to_le n v = Inr b \<Longrightarrow> length b = n"
  by (auto simp: int_to_le_Inr_iff)

lemma inputs_size_complete:
  assumes "\<forall>i \<in> set ins. complete_input i" "write_list (raw_input None) ins = Inr b"
  shows "\<exists>w. inputs_size ins = Inr (int (length b), w)"
  using assms
proof (induction ins arbitrary: b)
  case (Cons i ins)
  then obtain b1 b2 where b: "raw_input None i = Inr b1" "write_list (raw_input None) ins = Inr b2" "b = b1 @ b2"
    by (auto simp: bindE_Inr_iff)
  obtain w where w: "inputs_size ins = Inr (int (length b2), w)" using Cons b(2) by auto
  have c: "complete_input i" using Cons.prems(1) by simp
  then obtain v sq where "varstr (i_unlocking_script i) = Inr v" "int_to_le 4 (int (i_sequence i)) = Inr sq"
    "b1 = rev (i_prev_txid i) @ rev (i_output_n i) @ v @ sq"
    using b(1) by (auto simp: raw_input_def bindE_Inr_iff complete_input_def)
  then show ?case
    using c w b(3) length_int_to_le [of 4] by (simp add: input_scr_size_def complete_input_def)
qed simp

lemma outputs_size_raw:
  assumes "\<forall>o1 \<in> set outs. o_lock_script o1 \<noteq> []" "write_list raw_output outs = Inr b"
  shows "outputs_size outs = Inr (int (length b))"
  using assms
proof (induction outs arbitrary: b)
  case (Cons o1 outs)
  then obtain b1 b2 where b: "raw_output o1 = Inr b1" "write_list raw_output outs = Inr b2" "b = b1 @ b2"
    by (auto simp: bindE_Inr_iff)
  then obtain v l where "int_to_le 8 (o_value o1) = Inr v" "varstr (o_lock_script o1) = Inr l" "b1 = v @ l"
    by (auto simp: bindE_Inr_iff raw_output_def split: if_splits)
  then show ?case using Cons b(2,3) length_int_to_le [of 8] by simp
qed simp

section \<open>Properties\<close>

text \<open>C37: \<^verbatim>\<open>bumpfee\<close> with an extra fee keeps every output that is not change as it was, and takes
  at least the extra fee from the outputs, so that the fee really paid is raised by no less than
  what was asked for.\<close>

theorem bumpfee_raises_fee:
  assumes "bumpfee C held default_fee t 0 extra = Inr t'" "0 < extra"
    and "\<forall>o1 \<in> set (t_outputs t). 0 \<le> o_value o1"
  shows "filter (\<lambda>o1. \<not> o_change o1) (t_outputs t') = filter (\<lambda>o1. \<not> o_change o1) (t_outputs t) \<and>
    sum_list (map o_value (t_outputs t')) \<le> sum_list (map o_value (t_outputs t)) - extra"
proof -
  obtain fee0 where fee0: "t_fee t = Some fee0" "fee0 \<noteq> 0"
    using assms(1) by (auto simp: bumpfee_def split: option.splits if_splits)
  then obtain t1 where t1: "(if t_vsize t = 0 then bindE (estimate_size t 0) (\<lambda>(_, t1). Inr t1) else Inr t) = Inr t1"
    and b: "bindE (bump_amounts default_fee fee0 (int (t_vsize t1)) 0 extra) (\<lambda>(fee1, extra).
        bump_with C held fee1 extra t1) = Inr t'"
    using assms(1)
    by (cases "if t_vsize t = 0 then bindE (estimate_size t 0) (\<lambda>(_, t1). Inr t1) else Inr t")
      (simp_all add: bumpfee_def)
  have o: "t_outputs t1 = t_outputs t"
    using t1 by (auto simp: estimate_size_def Let_def bindE_Inr_iff split: if_split_asm)
  have a: "bump_amounts default_fee fee0 (int (t_vsize t1)) 0 extra = Inr (fee0 + extra, extra)"
    using b assms(2) by (simp add: bump_amounts_def split: if_splits)
  obtain outs r where outs: "bump_outputs extra (t_outputs t) extra = (outs, r)" by fastforce
  have r: "r = 0" and
    s: "sign_and_update C held (t1\<lparr>t_fee := Some (fee0 + extra), t_outputs := outs\<rparr>) None = Inr t'"
    using b by (simp_all add: a bump_with_def o outs split: if_splits)
  have "t_outputs t' = outs" using sign_and_update_frame [OF s] by (simp add: frame_def)
  then show ?thesis
    using bump_outputs_payments [of extra "t_outputs t" extra] sum_bump_outputs [of extra "t_outputs t" extra outs] outs r assms(2,3)
    by simp
qed

text \<open>When a small change output was deleted first, the next one is reduced by the whole
  extra fee and not by what remains: the extra fee is paid more than once, and the output can
  become negative.\<close>

theorem bumpfee_negative_change:
  "bump_outputs 149 [o1\<lparr>o_value := 100, o_change := True\<rparr>, o1\<lparr>o_value := 120, o_change := True\<rparr>] 149 =
     ([o1\<lparr>o_value := - 29, o_change := True\<rparr>], 0) \<and>
   bump_outputs 150 [o1\<lparr>o_value := 100, o_change := True\<rparr>, o1\<lparr>o_value := 1000, o_change := True\<rparr>] 150 =
     ([o1\<lparr>o_value := 850, o_change := True\<rparr>], 0)"
  by simp

text \<open>C38: for a complete legacy transaction the estimate is its serialised size plus four, less
  the bytes of the two counters: two too many for fewer than 253 inputs and outputs, two too few
  for at least 253 of both.\<close>

theorem estimate_size_complete:
  assumes "t_witness_type t = ''legacy''" "t_inputs t \<noteq> []" "length (t_version t) = 4"
    and "\<forall>i \<in> set (t_inputs t). complete_input i" "\<forall>o1 \<in> set (t_outputs t). o_lock_script o1 \<noteq> []"
    and "tx_raw t None h None = Inr W"
    and "int_to_varbyteint (int (length (t_inputs t))) = Inr a"
    and "int_to_varbyteint (int (length (t_outputs t))) = Inr b"
  shows "\<exists>t'. estimate_size t 0 = Inr (int (length W) + 4 - int (length a) - int (length b), t')"
proof -
  obtain ins outs where w: "write_list (raw_input None) (t_inputs t) = Inr ins"
    "write_list raw_output (t_outputs t) = Inr outs"
    "W = rev (t_version t) @ a @ ins @ b @ outs @ le_bytes 4 (t_locktime t)"
    using tx_raw_form [OF assms(6,1)] assms(7,8) by (metis sum.inject(2))
  obtain x where "inputs_size (t_inputs t) = Inr (int (length ins), x)"
    using inputs_size_complete [OF assms(4) w(1)] by blast
  then show ?thesis
    using outputs_size_raw [OF assms(5) w(2)] assms(1-3) w(3) by (simp add: estimate_size_def Let_def)
qed

text \<open>For \<^verbatim>\<open>SIGHASH_SINGLE\<close> the segwit hash commits to no output, and for
  \<^verbatim>\<open>SIGHASH_NONE\<close> to the output with the index of the input, the reverse of BIP 143.\<close>

theorem segwit_none_single_swapped:
  assumes "n < length (t_outputs t)" "raw_output (t_outputs t ! n) = Inr w"
  shows "hash_outputs_segwit C t n SIGHASH_SINGLE = Inr (replicate 32 0) \<and>
    hash_outputs_segwit C t n SIGHASH_NONE = Inr (dsha C w)"
proof -
  have "(SIGHASH_SINGLE AND 0x1f) = SIGHASH_SINGLE" "(SIGHASH_NONE AND 0x1f) = SIGHASH_NONE"
    by (simp_all add: SIGHASH_SINGLE_def SIGHASH_NONE_def)
  moreover have "SIGHASH_NONE \<noteq> SIGHASH_SINGLE" by (simp add: SIGHASH_SINGLE_def SIGHASH_NONE_def)
  ultimately show ?thesis
    using assms by (auto simp: hash_outputs_segwit_def Let_def raw_output_def bindE_Inr_iff split: if_splits)
qed

section \<open>Witnesses\<close>

definition example_paying :: "tx_input \<Rightarrow> transaction" where
  "example_paying i = (example_signed_tx [i])\<lparr>t_outputs := [example_output\<lparr>o_value := 100, o_change := True\<rparr>],
     t_fee := Some 10, t_vsize := 5\<rparr>"

lemmas raw_eval = tx_raw_def raw_input_def raw_output_def raw_witness_def varstr_def
  int_to_varbyteint_def int_to_le_def int_to_be_def calc_weight_units_def witness_data_def
  raw_witness_items_def

theorem bumpfee_raises_fee_witness:
  "\<exists>t'. bumpfee example_crypto (\<lambda>_. []) (\<lambda>f m. 0) (example_paying example_p2pkh) 0 20 = Inr t' \<and>
    sum_list (map o_value (t_outputs t')) \<le> 100 - 20"
proof -
  let ?t = "example_paying example_p2pkh"
  let ?b = "bumpfee example_crypto (\<lambda>_. []) (\<lambda>f m. 0) ?t 0 20"
  have "is_ok ?b"
    by (simp add: bumpfee_def bump_amounts_def bump_with_def sign_and_update_def sign_def sign_input_def
        adopt_keys_def Let_def add_signatures_def signing_keys_def example_paying_def example_output_def
        example_signed_tx_def example_p2pkh_def signature_hash_def signature_def tx_raw_update_def
        SIGHASH_ALL_def raw_eval)
  then obtain t' where t': "?b = Inr t'" by (cases ?b) simp_all
  have "\<forall>o1 \<in> set (t_outputs ?t). 0 \<le> o_value o1" by (simp add: example_paying_def)
  from bumpfee_raises_fee [OF t' _ this] show ?thesis using t' by (simp add: example_paying_def)
qed

theorem estimate_size_complete_witness:
  "\<exists>W t'. tx_raw (example_paying ((example_multisig_input [] [example_sig 5] 1)\<lparr>i_unlocking_script := [7, 8]\<rparr>))
      None 1 None = Inr W \<and>
    estimate_size (example_paying ((example_multisig_input [] [example_sig 5] 1)\<lparr>i_unlocking_script := [7, 8]\<rparr>)) 0 =
      Inr (int (length W) + 2, t')"
proof -
  let ?t = "example_paying ((example_multisig_input [] [example_sig 5] 1)\<lparr>i_unlocking_script := [7, 8]\<rparr>)"
  have "is_ok (tx_raw ?t None 1 None)"
    by (simp add: example_paying_def example_output_def example_multisig_input_def example_signed_tx_def raw_eval)
  then obtain W where W: "tx_raw ?t None 1 None = Inr W" by (cases "tx_raw ?t None 1 None") simp_all
  have "\<exists>t'. estimate_size ?t 0 = Inr (int (length W) + 4 - int (length [1 :: byte]) - int (length [1 :: byte]), t')"
    by (rule estimate_size_complete [OF _ _ _ _ _ W])
      (simp_all add: example_paying_def example_output_def example_multisig_input_def example_signed_tx_def
        complete_input_def int_to_varbyteint_def int_to_le_def)
  then show ?thesis using W by (simp add: add.commute)
qed

theorem segwit_none_single_swapped_witness:
  "\<exists>w. hash_outputs_segwit example_crypto (example_paying example_p2pkh) 0 SIGHASH_NONE =
    Inr (dsha example_crypto w)"
proof -
  let ?o = "t_outputs (example_paying example_p2pkh) ! 0"
  have "is_ok (raw_output ?o)" by (simp add: example_paying_def example_output_def raw_eval)
  then obtain w where "raw_output ?o = Inr w" by (cases "raw_output ?o") simp_all
  then show ?thesis
    using segwit_none_single_swapped [of 0 "example_paying example_p2pkh" w example_crypto]
    by (auto simp: example_paying_def)
qed

end
