(* ===== verification/Stream_Pos.thy ===== *)
theory Stream_Pos
  imports Tx_Parse
begin

text \<open>
  How the parsers move in a stream: never backwards, and a transaction that was parsed has used up
  at least one byte. This is why the loop over the transactions of a block ends.
\<close>

section \<open>Reading\<close>

lemma sread_pos: "sread n s = (d, s1) \<Longrightarrow> spos s \<le> spos s1 \<and> sbuf s1 = sbuf s"
  by (auto simp: sread_def Let_def)

lemma read_varbyteint_pos:
  assumes "read_varbyteint s = (v, s1)"
  shows "spos s \<le> spos s1 \<and> sbuf s1 = sbuf s \<and> (v \<noteq> 0 \<longrightarrow> spos s < spos s1)"
  using assms
  by (auto simp: read_varbyteint_def Let_def varbyteint_to_int_def sseek_def sread_def
      split: prod.splits if_splits list.splits)

lemma read_varstr_pos: "read_varstr s = (d, s1) \<Longrightarrow> spos s \<le> spos s1 \<and> sbuf s1 = sbuf s"
  by (auto simp: read_varstr_def Let_def split: prod.splits dest!: sread_pos read_varbyteint_pos)

lemma read_list_pos:
  assumes "\<And>i s x s1. d i s = Inr (x, s1) \<Longrightarrow> spos s \<le> spos s1 \<and> sbuf s1 = sbuf s"
  shows "read_list d i k s = Inr (xs, s1) \<Longrightarrow> spos s \<le> spos s1 \<and> sbuf s1 = sbuf s"
proof (induction k arbitrary: i s xs)
  case (Suc k)
  then obtain x s2 ys where "d i s = Inr (x, s2)" "read_list d (Suc i) k s2 = Inr (ys, s1)"
    by (auto simp: bindE_Inr_iff)
  then show ?case using Suc.IH assms [of i s x s2] by fastforce
qed simp

lemma input_parse_pos:
  assumes "input_parse C wt strict n s = Inr (i, s')"
  shows "spos s \<le> spos s' \<and> sbuf s' = sbuf s"
proof -
  obtain h s1 o4 s2 sz s3 u s4 sq s5 where r: "sread 32 s = (h, s1)" "sread 4 s1 = (o4, s2)"
    "read_varbyteint s2 = (sz, s3)" "sread sz s3 = (u, s4)" "sread 4 s4 = (sq, s5)"
    by (metis surj_pair)
  have "s' = s5"
    using assms unfolding input_parse_def Let_def r prod.case
    by (auto simp: bindE_Inr_iff split: if_split_asm)
  then show ?thesis
    using sread_pos [OF r(1)] sread_pos [OF r(2)] read_varbyteint_pos [OF r(3)] sread_pos [OF r(4)]
      sread_pos [OF r(5)] by simp
qed

lemma output_parse_pos:
  assumes "output_parse C strict n s = Inr (o1, s')"
  shows "spos s \<le> spos s' \<and> sbuf s' = sbuf s"
proof -
  obtain v s1 l s2 where r: "sread 8 s = (v, s1)" "read_varstr s1 = (l, s2)"
    by (metis surj_pair)
  have "s' = s2"
    using assms unfolding output_parse_def Let_def r prod.case by (auto simp: bindE_Inr_iff)
  then show ?thesis using sread_pos [OF r(1)] read_varstr_pos [OF r(2)] by simp
qed

section \<open>Witnesses\<close>

lemma read_witness_pos: "read_witness s = (w, s1) \<Longrightarrow> spos s \<le> spos s1 \<and> sbuf s1 = sbuf s"
  by (auto simp: read_witness_def Let_def split: prod.splits if_splits dest!: sread_pos read_varbyteint_pos)

lemma witness_loop_pos:
  "witness_loop C strict n ws sc tap s = Inr (ws', sc', s') \<Longrightarrow> spos s \<le> spos s' \<and> sbuf s' = sbuf s"
proof (induction n arbitrary: ws sc tap s)
  case (Suc n)
  obtain w s1 where w: "read_witness s = (w, s1)" by fastforce
  obtain ws1 sc1 tap1 where "witness_loop C strict n ws1 sc1 tap1 s1 = Inr (ws', sc', s')"
    using Suc.prems w by (cases tap) (auto simp: bindE_Inr_iff Let_def)
  then show ?case using Suc.IH read_witness_pos [OF w] by fastforce
qed simp

lemma read_input_witness_pos:
  assumes "read_input_witness C strict cb i s = Inr (j, s')"
  shows "spos s \<le> spos s' \<and> sbuf s' = sbuf s"
proof -
  obtain n s1 where n: "read_varbyteint s = (n, s1)" by fastforce
  show ?thesis
  proof (cases "n = 0")
    case True
    then show ?thesis using assms n read_varbyteint_pos [OF n] by (simp add: read_input_witness_def)
  next
    case False
    then obtain ws sc where "witness_loop C strict n (i_witnesses i) empty_script False s1 = Inr (ws, sc, s')"
      using assms n by (auto simp: read_input_witness_def bindE_Inr_iff)
    then show ?thesis using witness_loop_pos read_varbyteint_pos [OF n] by fastforce
  qed
qed

lemma read_witnesses_pos:
  "read_witnesses C strict cb is s = Inr (js, s') \<Longrightarrow> spos s \<le> spos s' \<and> sbuf s' = sbuf s"
proof (induction "is" arbitrary: s js)
  case (Cons i "is")
  then obtain j s1 ks where "read_input_witness C strict cb i s = Inr (j, s1)"
    "read_witnesses C strict cb is s1 = Inr (ks, s')" by (auto simp: bindE_Inr_iff)
  then show ?case using Cons.IH read_input_witness_pos by fastforce
qed simp

section \<open>Transactions\<close>

lemma read_marker_pos: "read_marker s = (f, w, s1) \<Longrightarrow> spos s - 1 \<le> spos s1 \<and> sbuf s1 = sbuf s"
  by (auto simp: read_marker_def Let_def sseek_back_def split: prod.splits if_splits dest!: sread_pos)

lemma parse_tx_pos:
  assumes "parse_tx C s strict [] = Inr (t, s')" "spos s < length (sbuf s)"
  shows "spos s < spos s' \<and> sbuf s' = sbuf s"
proof -
  obtain v s1 f w s2 n_in s3 where r1: "sread 4 s = (v, s1)" "read_marker s1 = (f, w, s2)"
    "read_varbyteint s2 = (n_in, s3)" by (metis surj_pair)
  obtain ins s4 where r2: "read_list (\<lambda>n s. input_parse C w strict n s) 0 n_in s3 = Inr (ins, s4)"
    using assms(1) unfolding parse_tx_def Let_def r1 prod.case
    by (cases "read_list (\<lambda>n s. input_parse C w strict n s) 0 n_in s3") auto
  obtain n_out s5 where r3: "read_varbyteint s4 = (n_out, s5)" by fastforce
  obtain outs s6 where r4: "read_list (\<lambda>n s. output_parse C strict n s) 0 n_out s5 = Inr (outs, s6)"
    using assms(1) unfolding parse_tx_def Let_def r1 prod.case r2 bindE_simps r3
    by (cases "read_list (\<lambda>n s. output_parse C strict n s) 0 n_out s5") auto
  let ?cb = "list_ex (\<lambda>i. i_prev_txid i = replicate 32 0) ins"
  have ne: "outs \<noteq> []"
    using assms(1) unfolding parse_tx_def Let_def r1 prod.case r2 bindE_simps r3 r4 by auto
  obtain ins1 s7 where r5: "(if w = ''segwit'' then read_witnesses C strict ?cb ins s6 else Inr (ins, s6)) = Inr (ins1, s7)"
    using assms(1) ne unfolding parse_tx_def Let_def r1 prod.case r2 bindE_simps r3 r4 if_not_P [OF ne]
    by (cases "if w = ''segwit'' then read_witnesses C strict ?cb ins s6 else Inr (ins, s6)") auto
  obtain l s8 where r6: "sread 4 s7 = (l, s8)" by fastforce
  have "s' = snd (sread (spos s8 - spos s) (sseek (spos s) s8))"
    using assms(1) unfolding parse_tx_def Let_def r1 prod.case r2 bindE_simps r3 r4 if_not_P [OF ne] r5 r6
    by (auto simp: bindE_Inr_iff split: if_split_asm prod.splits)
  moreover have "n_out \<noteq> 0" using r4 ne by (cases n_out) auto
  moreover have "spos s1 > spos s" "sbuf s1 = sbuf s"
    using r1(1) assms(2) by (auto simp: sread_def rest_def Let_def)
  moreover have "spos s3 \<le> spos s4 \<and> sbuf s4 = sbuf s3"
    using r2 by (rule read_list_pos [rotated]) (rule input_parse_pos)
  moreover have "spos s5 \<le> spos s6 \<and> sbuf s6 = sbuf s5"
    using r4 by (rule read_list_pos [rotated]) (rule output_parse_pos)
  moreover have "spos s6 \<le> spos s7 \<and> sbuf s7 = sbuf s6"
    using r5 read_witnesses_pos by (auto split: if_split_asm)
  ultimately show ?thesis
    using read_marker_pos [OF r1(2)] read_varbyteint_pos [OF r1(3)]
      read_varbyteint_pos [OF r3] sread_pos [OF r6] assms(2)
    by (auto simp: sread_def rest_def sseek_def Let_def)
qed

end
