(* ===== verification/Block.thy ===== *)
theory Block
  imports Complex_Main Stream_Pos Base_Conv
begin

text \<open>
  Blocks: the class \<^verbatim>\<open>Block\<close> of \<^verbatim>\<open>bitcoinlib/blocks.py\<close>. The network and the number of
  confirmations, which nothing here reads, and the difficulty, a floating point quotient, are left
  out.
\<close>

record block =
  b_hash :: bytes
  b_version :: bytes
  b_version_int :: nat
  b_prev_block :: bytes
  b_merkle_root :: bytes
  b_time :: nat
  b_bits :: bytes
  b_bits_int :: nat
  b_nonce :: bytes
  b_nonce_int :: nat
  b_transactions :: "transaction list"
  b_txs_data :: "stream option"
  b_tx_count :: nat
  b_height :: "nat option"
  b_size :: nat
  b_total_in :: int
  b_total_out :: int

section \<open>Construction\<close>

text \<open>The height in the unlocking script of the coinbase, for blocks of version 2 and later.\<close>

definition bip34_height :: "nat \<Rightarrow> transaction list \<Rightarrow> nat option \<Rightarrow> nat option res" where
  "bip34_height version_int txs height =
    (case txs of
       [] \<Rightarrow> Inr height
     | t # _ \<Rightarrow>
         if version_int > 1 \<and> t_coinbase t
         then (case t_inputs t of
                 [] \<Rightarrow> Inl IndexError
               | i # _ \<Rightarrow>
                   if i_unlocking_script i = [] then Inr height
                   else let calc_height = le_val (slice 1 4 (i_unlocking_script i) @ [0])
                     in if (case height of None \<Rightarrow> False
                            | Some h \<Rightarrow> h \<noteq> 0 \<and> calc_height \<noteq> h \<and> h > 227835)
                        then Inl ValueError else Inr (Some calc_height))
         else Inr height)"

text \<open>\<^verbatim>\<open>Block.__init__\<close> for header fields given as bytes.\<close>

definition block_init ::
  "bytes \<Rightarrow> bytes \<Rightarrow> bytes \<Rightarrow> bytes \<Rightarrow> bytes \<Rightarrow> bytes \<Rightarrow> bytes \<Rightarrow> transaction list \<Rightarrow> nat option
    \<Rightarrow> block res" where
  "block_init block_hash version prev_block merkle_root time bits nonce txs height =
    bindE (to_bytes (PBytes block_hash) True) (\<lambda>bh.
    bindE (to_bytes (PBytes version) True) (\<lambda>v.
    bindE (to_bytes (PBytes prev_block) True) (\<lambda>pb.
    bindE (to_bytes (PBytes merkle_root) True) (\<lambda>mr.
    bindE (to_bytes (PBytes bits) True) (\<lambda>bt.
    bindE (to_bytes (PBytes nonce) True) (\<lambda>nc.
    bindE (bip34_height (be_val v) txs height) (\<lambda>ht.
      Inr \<lparr>b_hash = bh, b_version = v, b_version_int = be_val v, b_prev_block = pb,
           b_merkle_root = mr, b_time = be_val time, b_bits = bt, b_bits_int = be_val bt,
           b_nonce = nc, b_nonce_int = be_val nc, b_transactions = txs, b_txs_data = None,
           b_tx_count = 0, b_height = ht, b_size = 0, b_total_in = 0, b_total_out = 0\<rparr>)))))))"

section \<open>Parsing\<close>

text \<open>The loop over the transactions of the block, which ends because every one uses up bytes.\<close>

function block_txs ::
  "crypto \<Rightarrow> nat \<Rightarrow> transaction list \<Rightarrow> stream \<Rightarrow> (transaction list \<times> stream) res" where
  "block_txs C limit txs s =
    (if length (sbuf s) \<le> spos s then Inr (txs, s)
     else if limit \<noteq> 0 \<and> limit \<le> length txs then Inr (txs, s)
     else bindE (parse_tx C s False []) (\<lambda>(t, s1). block_txs C limit (txs @ [t]) s1))"
  by pat_completeness auto
termination
  by (relation "measure (\<lambda>(C, limit, txs, s). length (sbuf s) - spos s)") (auto dest!: parse_tx_pos)

declare block_txs.simps [simp del]

definition block_parse_bytesio ::
  "crypto \<Rightarrow> stream \<Rightarrow> bytes option \<Rightarrow> nat option \<Rightarrow> bool \<Rightarrow> nat \<Rightarrow> block res" where
  "block_parse_bytesio C raw block_hash0 height parse_transactions limit =
    (let (block_header, _) = sread 80 raw;
         block_hash_calc = rev (dsha C block_header);
         given = (case block_hash0 of None \<Rightarrow> [] | Some h \<Rightarrow> h)
     in if given \<noteq> [] \<and> given \<noteq> block_hash_calc then Inl ValueError
        else
         let block_hash = (if given = [] then block_hash_calc else given);
             s0 = sseek 0 raw;
             (v, s1) = sread 4 s0;
             (pb, s2) = sread 32 s1;
             (mr, s3) = sread 32 s2;
             (tm, s4) = sread 4 s3;
             (bt, s5) = sread 4 s4;
             (nc, s6) = sread 4 s5;
             (tx_count, s7) = read_varbyteint s6
         in bindE (if parse_transactions then block_txs C limit [] s7 else Inr ([], s7)) (\<lambda>(txs, s8).
            if parse_transactions \<and> limit = 0 \<and> tx_count \<noteq> length txs then Inl ValueError
            else bindE (block_init block_hash (rev v) (rev pb) (rev mr) (rev tm) (rev bt) (rev nc) txs height)
                   (\<lambda>b. Inr (b\<lparr>b_txs_data := Some s8, b_tx_count := tx_count\<rparr>))))"

definition block_parse_bytes ::
  "crypto \<Rightarrow> bytes \<Rightarrow> bytes option \<Rightarrow> nat option \<Rightarrow> bool \<Rightarrow> nat \<Rightarrow> block res" where
  "block_parse_bytes C raw_bytes block_hash height parse_transactions limit =
    bindE (block_parse_bytesio C (mk_stream raw_bytes) block_hash height parse_transactions limit) (\<lambda>b.
      Inr (b\<lparr>b_size := length raw_bytes\<rparr>))"

text \<open>\<^verbatim>\<open>parse_transaction\<close>: \<open>None\<close> is \<^verbatim>\<open>False\<close>.\<close>

definition block_parse_transaction :: "crypto \<Rightarrow> block \<Rightarrow> (transaction option \<times> block) res" where
  "block_parse_transaction C b =
    (case b_txs_data b of
       None \<Rightarrow> Inr (None, b)
     | Some s \<Rightarrow>
         if b_tx_count b \<le> length (b_transactions b) then Inr (None, b)
         else bindE (parse_tx C s False []) (\<lambda>(t, s1).
                Inr (Some t, b\<lparr>b_txs_data := Some s1, b_transactions := b_transactions b @ [t]\<rparr>)))"

text \<open>\<^verbatim>\<open>parse_transactions(limit)\<close>; the loop ends at the number of transactions of the block.\<close>

function block_parse_transactions :: "crypto \<Rightarrow> nat \<Rightarrow> nat \<Rightarrow> block \<Rightarrow> block res" where
  "block_parse_transactions C limit n b =
    (case b_txs_data b of
       None \<Rightarrow> Inr b
     | Some s \<Rightarrow>
         if (limit = 0 \<or> n < limit) \<and> length (b_transactions b) < b_tx_count b
         then bindE (parse_tx C s False []) (\<lambda>(t, s1).
                block_parse_transactions C limit (n + 1)
                  (b\<lparr>b_txs_data := Some s1, b_transactions := b_transactions b @ [t]\<rparr>))
         else Inr b)"
  by pat_completeness auto
termination
  by (relation "measure (\<lambda>(C, limit, n, b). b_tx_count b - length (b_transactions b))") auto

declare block_parse_transactions.simps [simp del]

section \<open>Serialisation\<close>

definition block_header :: "block \<Rightarrow> bytes res" where
  "block_header b =
    bindE (int_to_le 4 (int (b_time b))) (\<lambda>tm.
      let rb = rev (b_version b) @ rev (b_prev_block b) @ rev (b_merkle_root b) @ tm @
               rev (b_bits b) @ rev (b_nonce b)
      in if length rb \<noteq> 80 then Inl ValueError else Inr rb)"

text \<open>\<^verbatim>\<open>t.raw()\<close> may set the size of a transaction; the bytes do not depend on it.\<close>

definition block_serialize :: "block \<Rightarrow> bytes res" where
  "block_serialize b =
    (if length (b_transactions b) \<noteq> b_tx_count b \<or> length (b_transactions b) < 1 then Inl ValueError
     else bindE (block_header b) (\<lambda>rb.
          bindE (int_to_varbyteint (int (length (b_transactions b)))) (\<lambda>n.
          bindE (write_list (\<lambda>t. tx_raw t None SIGHASH_ALL None) (b_transactions b)) (\<lambda>ts.
            Inr (rb @ n @ ts)))))"

section \<open>Proof of work\<close>

text \<open>
  The target, a fraction when the exponent is below 3 (Python gives the floating point number,
  which is exact).
\<close>

definition block_target :: "block \<Rightarrow> rat" where
  "block_target b =
    (case b_bits b of
       [] \<Rightarrow> 0
     | e # cs \<Rightarrow>
         let exponent = unat e; coefficient = be_val (0 # cs)
         in if 3 \<le> exponent then of_nat (coefficient * 256 ^ (exponent - 3))
            else of_nat coefficient / of_nat (256 ^ (3 - exponent)))"

definition target_hex :: "block \<Rightarrow> string" where
  "target_hex b =
    (if b_bits b = [] then []
     else zfill 64 (hex_tail \<lfloor>block_target b\<rfloor>))"

definition check_proof_of_work :: "block \<Rightarrow> bool" where
  "check_proof_of_work b =
    (b_hash b \<noteq> [] \<and> b_bits b \<noteq> [] \<and> of_nat (be_val (b_hash b)) < block_target b)"

section \<open>Versions and totals\<close>

definition version_bin :: "block \<Rightarrow> string" where
  "version_bin b =
    (let ds = to_digits 2 (b_version_int b) []
     in zfill 32 (if ds = [] then ''0'' else map (\<lambda>d. if d = 0 then CHR ''0'' else CHR ''1'') ds))"

definition bit_set :: "nat \<Rightarrow> nat \<Rightarrow> bool" where
  "bit_set v n = (v div 2 ^ n mod 2 = 1)"

text \<open>Comparing a missing height with a number is a \<^verbatim>\<open>TypeError\<close>.\<close>

definition version_bips :: "block \<Rightarrow> string list res" where
  "version_bips b =
    (let v = b_version_int b
     in bindE (if v div 2 ^ 29 = 1
               then (case b_height b of None \<Rightarrow> Inl TypeError | Some h \<Rightarrow> Inr (407021 \<le> h))
               else Inr False) (\<lambda>bip9.
        if bip9
        then (case b_height b of
                None \<Rightarrow> Inl TypeError
              | Some h \<Rightarrow> Inr ([''BIP9''] @
                  (if bit_set v 0 then [''BIP68''] else []) @
                  (if bit_set v 1 then [''BIP141''] else []) @
                  (if bit_set v 4 then [''BIP91''] else []) @
                  (if v = 0x30000000 then [''BIP109''] else []) @
                  (if v AND 0x1fffe000 \<noteq> 0 \<and> 500000 \<le> h then [''BIP310''] else [])))
        else (case b_height b of
                None \<Rightarrow> Inl TypeError
              | Some h \<Rightarrow>
                  if h < 500000
                  then Inr ((if v = 2 then [''BIP34''] else []) @
                            (if v = 3 then [''BIP66''] else []) @
                            (if v = 4 then [''BIP65''] else []) @
                            (if v = 0x30000000 then [''BIP109''] else []) @
                            (if v = 0x20000007 then [''BIP101''] else []))
                  else Inr [])))"

definition block_update_totals :: "block \<Rightarrow> block" where
  "block_update_totals b =
    b\<lparr>b_total_in := sum_list (map (\<lambda>t. sum_list (map i_value (t_inputs t))) (b_transactions b)),
      b_total_out := sum_list (map (\<lambda>t. sum_list (map o_value (t_outputs t))) (b_transactions b))\<rparr>"

end
