(* ===== verification/Block_Dict.thy ===== *)
theory Block_Dict
  imports Block Tx_Legacy
begin

text \<open>
  \<^verbatim>\<open>Block.parse_transaction_dict\<close> and \<^verbatim>\<open>parse_transactions_dict\<close> of
  \<^verbatim>\<open>bitcoinlib/blocks.py\<close>: a second parser of transactions, which builds dictionaries without
  looking into the scripts and puts the raw transaction together from what it reads.
\<close>

section \<open>The dictionaries\<close>

record dict_input =
  d_prev_txid :: bytes
  d_output_n :: bytes
  d_unlocking_script :: bytes
  d_inp_type :: string
  d_sequence :: bytes
  d_witnesses :: "bytes list option"

record dict_output =
  d_value :: nat
  d_lock_script :: bytes
  d_index_n :: nat

record dict_tx =
  d_height :: "nat option"
  d_coinbase :: bool
  d_witness_type :: string
  d_version :: bytes
  d_inputs :: "dict_input list"
  d_outputs :: "dict_output list"
  d_output_total :: nat
  d_locktime :: nat
  d_rawtx :: bytes
  d_txid :: bytes
  d_size :: nat
  d_index :: nat

section \<open>The parser\<close>

text \<open>Every reader gives the item together with the bytes it adds to the raw transaction.\<close>

definition dict_input_read :: "string \<Rightarrow> nat \<Rightarrow> stream \<Rightarrow> ((dict_input \<times> bytes) \<times> stream) res" where
  "dict_input_read witness_type n s0 =
    (let (h, s1) = sread 32 s0;
         prev_txid = rev h
     in if length prev_txid \<noteq> 32 then Inl GenericException
        else (let (o4, s2) = sread 4 s1;
                  output_n = rev o4;
                  ((size, size_raw), s3) = read_varbyteint_return s2;
                  (unlocking_script, s4) = sread size s3;
                  (sequence, s5) = sread 4 s4
              in Inr ((\<lparr>d_prev_txid = prev_txid, d_output_n = output_n,
                        d_unlocking_script = unlocking_script,
                        d_inp_type = (if witness_type = ''segwit'' \<and> size = 0 then ''segwit''
                                      else ''legacy''),
                        d_sequence = sequence, d_witnesses = None\<rparr>,
                       rev prev_txid @ rev output_n @ size_raw @ unlocking_script @ sequence), s5)))"

definition dict_output_read :: "nat \<Rightarrow> stream \<Rightarrow> ((dict_output \<times> bytes) \<times> stream) res" where
  "dict_output_read n s0 =
    (let (outp_value, s1) = sread 8 s0;
         ((size, size_raw), s2) = read_varbyteint_return s1;
         (lock_script, s3) = sread size s2
     in Inr ((\<lparr>d_value = be_val (rev outp_value), d_lock_script = lock_script, d_index_n = n\<rparr>,
              outp_value @ size_raw @ lock_script), s3))"

definition dict_item_read :: "nat \<Rightarrow> stream \<Rightarrow> ((bytes \<times> bytes) \<times> stream) res" where
  "dict_item_read m s0 =
    (let ((item_size, size_raw), s1) = read_varbyteint_return s0;
         (witness, s2) = sread item_size s1
     in Inr ((witness, size_raw @ witness), s2))"

definition dict_witness_read :: "nat \<Rightarrow> stream \<Rightarrow> ((bytes list option \<times> bytes) \<times> stream) res" where
  "dict_witness_read n s0 =
    (let ((n_items, raw_n_items), s1) = read_varbyteint_return s0
     in if n_items = 0 then Inr ((None, raw_n_items), s1)
        else bindE (read_list dict_item_read 0 n_items s1) (\<lambda>(items, s2).
               Inr ((Some (map fst items), raw_n_items @ concat (map snd items)), s2)))"

text \<open>The result \<open>None\<close> is \<^verbatim>\<open>False\<close>.\<close>

definition dict_tx_read ::
  "crypto \<Rightarrow> nat option \<Rightarrow> nat \<Rightarrow> stream \<Rightarrow> (dict_tx option \<times> stream) res" where
  "dict_tx_read C height index s0 =
    (let (v, s1) = sread 4 s0;
         version = rev v
     in if version = [] then Inr (None, s1)
        else
         let (flag, witness_type, s2) = read_marker s1;
             raw_flag = (if flag = None then [] else [0, 1]);
             ((n_inputs, raw_n_inputs), s3) = read_varbyteint_return s2
         in bindE (read_list (dict_input_read witness_type) 0 n_inputs s3) (\<lambda>(ins, s4).
            let inputs_raw = concat (map snd ins);
                coinbase = (ins \<noteq> [] \<and> d_prev_txid (fst (last ins)) = replicate 32 0);
                ((n_outputs, raw_n_outputs), s5) = read_varbyteint_return s4
            in bindE (read_list dict_output_read 0 n_outputs s5) (\<lambda>(outs, s6).
               if outs = [] then Inl GenericException
               else let outputs_raw = concat (map snd outs)
                in bindE (if witness_type = ''segwit''
                          then read_list dict_witness_read 0 (length ins) s6
                          else Inr (map (\<lambda>_. (None, [])) ins, s6)) (\<lambda>(wits, s7).
                   let (tx_locktime, s8) = sread 4 s7;
                       rawtx = rev version @ raw_flag @ raw_n_inputs @ inputs_raw @ raw_n_outputs @
                               outputs_raw @ concat (map snd wits) @ tx_locktime
                   in Inr (Some \<lparr>d_height = height, d_coinbase = coinbase,
                        d_witness_type = witness_type, d_version = version,
                        d_inputs = map2 (\<lambda>i w. (fst i)\<lparr>d_witnesses := fst w\<rparr>) ins wits,
                        d_outputs = map fst outs,
                        d_output_total = sum_list (map (\<lambda>o1. d_value (fst o1)) outs),
                        d_locktime = be_val (rev tx_locktime), d_rawtx = rawtx,
                        d_txid = rev (dsha C (rev version @ raw_n_inputs @ inputs_raw @
                                   raw_n_outputs @ outputs_raw @ tx_locktime)),
                        d_size = length rawtx, d_index = index\<rparr>, s8)))))"

definition parse_transaction_dict :: "crypto \<Rightarrow> nat \<Rightarrow> block \<Rightarrow> (dict_tx option \<times> block) res" where
  "parse_transaction_dict C index b =
    (case b_txs_data b of
       None \<Rightarrow> Inr (None, b)
     | Some s \<Rightarrow>
         if b_tx_count b \<le> length (b_transactions b) then Inr (None, b)
         else bindE (dict_tx_read C (b_height b) index s) (\<lambda>(tx, s1).
                Inr (tx, b\<lparr>b_txs_data := Some s1\<rparr>)))"

section \<open>Positions\<close>

lemma read_varbyteint_return_pos:
  assumes "read_varbyteint_return s = ((v, raw), s1)"
  shows "spos s \<le> spos s1 \<and> sbuf s1 = sbuf s \<and> (v \<noteq> 0 \<longrightarrow> spos s < spos s1)"
  using assms read_varbyteint_pos [of s v s1]
  by (cases "read_varbyteint s") (simp add: read_varbyteint_return_alt)

lemma dict_input_read_pos:
  assumes "dict_input_read wt n s = Inr (i, s')"
  shows "spos s \<le> spos s' \<and> sbuf s' = sbuf s"
proof -
  obtain h s1 o4 s2 sz raw s3 u s4 sq s5 where r: "sread 32 s = (h, s1)" "sread 4 s1 = (o4, s2)"
    "read_varbyteint_return s2 = ((sz, raw), s3)" "sread sz s3 = (u, s4)" "sread 4 s4 = (sq, s5)"
    by (metis surj_pair)
  have "s' = s5"
    using assms unfolding dict_input_read_def Let_def r prod.case by (auto split: if_split_asm)
  then show ?thesis
    using sread_pos [OF r(1)] sread_pos [OF r(2)] read_varbyteint_return_pos [OF r(3)]
      sread_pos [OF r(4)] sread_pos [OF r(5)] by simp
qed

lemma dict_output_read_pos:
  assumes "dict_output_read n s = Inr (i, s')"
  shows "spos s \<le> spos s' \<and> sbuf s' = sbuf s"
proof -
  obtain v s1 sz raw s2 l s3 where r: "sread 8 s = (v, s1)"
    "read_varbyteint_return s1 = ((sz, raw), s2)" "sread sz s2 = (l, s3)"
    by (metis surj_pair)
  have "s' = s3" using assms unfolding dict_output_read_def Let_def r prod.case by simp
  then show ?thesis
    using sread_pos [OF r(1)] read_varbyteint_return_pos [OF r(2)] sread_pos [OF r(3)] by simp
qed

lemma dict_item_read_pos:
  assumes "dict_item_read n s = Inr (i, s')"
  shows "spos s \<le> spos s' \<and> sbuf s' = sbuf s"
proof -
  obtain sz raw s2 l s3 where r: "read_varbyteint_return s = ((sz, raw), s2)" "sread sz s2 = (l, s3)"
    by (metis surj_pair)
  have "s' = s3" using assms unfolding dict_item_read_def Let_def r prod.case by simp
  then show ?thesis using read_varbyteint_return_pos [OF r(1)] sread_pos [OF r(2)] by simp
qed

lemma dict_witness_read_pos:
  assumes "dict_witness_read n s = Inr (i, s')"
  shows "spos s \<le> spos s' \<and> sbuf s' = sbuf s"
proof -
  obtain k raw s1 where r: "read_varbyteint_return s = ((k, raw), s1)" by (metis surj_pair)
  have "s' = s1 \<or> (\<exists>items. read_list dict_item_read 0 k s1 = Inr (items, s'))"
    using assms unfolding dict_witness_read_def Let_def r prod.case
    by (cases "k = 0"; cases "read_list dict_item_read 0 k s1") auto
  moreover have "spos s1 \<le> spos s' \<and> sbuf s' = sbuf s1"
    if "read_list dict_item_read 0 k s1 = Inr (items, s')" for items
    using that by (rule read_list_pos [rotated]) (rule dict_item_read_pos)
  ultimately show ?thesis using read_varbyteint_return_pos [OF r] by auto
qed

lemma dict_tx_read_pos:
  assumes "dict_tx_read C height index s = Inr (Some d, s')"
  shows "spos s < spos s' \<and> spos s < length (sbuf s) \<and> sbuf s' = sbuf s"
proof -
  obtain v s1 f w s2 n_in raw_in s3 where r1: "sread 4 s = (v, s1)" "read_marker s1 = (f, w, s2)"
    "read_varbyteint_return s2 = ((n_in, raw_in), s3)" by (metis surj_pair)
  have v: "rev v \<noteq> []"
    using assms unfolding dict_tx_read_def Let_def r1 prod.case by auto
  obtain ins s4 where r2: "read_list (dict_input_read w) 0 n_in s3 = Inr (ins, s4)"
    using assms unfolding dict_tx_read_def Let_def r1 prod.case if_not_P [OF v]
    by (cases "read_list (dict_input_read w) 0 n_in s3") auto
  obtain n_out raw_out s5 where r3: "read_varbyteint_return s4 = ((n_out, raw_out), s5)"
    by (metis surj_pair)
  obtain outs s6 where r4: "read_list dict_output_read 0 n_out s5 = Inr (outs, s6)"
    using assms unfolding dict_tx_read_def Let_def r1 prod.case if_not_P [OF v] r2 bindE_simps r3
    by (cases "read_list dict_output_read 0 n_out s5") auto
  have ne: "outs \<noteq> []"
    using assms unfolding dict_tx_read_def Let_def r1 prod.case if_not_P [OF v] r2 bindE_simps r3 r4
    by auto
  obtain wits s7 where r5: "(if w = ''segwit'' then read_list dict_witness_read 0 (length ins) s6
      else Inr (map (\<lambda>_. (None, [])) ins, s6)) = Inr (wits, s7)"
    using assms
    unfolding dict_tx_read_def Let_def r1 prod.case if_not_P [OF v] r2 bindE_simps r3 r4 if_not_P [OF ne]
    by (cases "if w = ''segwit'' then read_list dict_witness_read 0 (length ins) s6
      else Inr (map (\<lambda>_. (None, [])) ins, s6)") auto
  obtain l s8 where r6: "sread 4 s7 = (l, s8)" by fastforce
  have "s' = s8"
    using assms
    unfolding dict_tx_read_def Let_def r1 prod.case if_not_P [OF v] r2 bindE_simps r3 r4
      if_not_P [OF ne] r5 r6 by simp
  moreover have "n_out \<noteq> 0" using r4 ne by (cases n_out) auto
  moreover have "spos s1 > spos s" "sbuf s1 = sbuf s" "spos s < length (sbuf s)"
    using r1(1) v by (auto simp: sread_def rest_def Let_def)
  moreover have "spos s3 \<le> spos s4 \<and> sbuf s4 = sbuf s3"
    using r2 by (rule read_list_pos [rotated]) (rule dict_input_read_pos)
  moreover have "spos s5 \<le> spos s6 \<and> sbuf s6 = sbuf s5"
    using r4 by (rule read_list_pos [rotated]) (rule dict_output_read_pos)
  moreover have "spos s6 \<le> spos s7 \<and> sbuf s7 = sbuf s6"
  proof (cases "w = ''segwit''")
    case True
    then have "read_list dict_witness_read 0 (length ins) s6 = Inr (wits, s7)" using r5 by simp
    then show ?thesis by (rule read_list_pos [rotated]) (rule dict_witness_read_pos)
  next
    case False
    then show ?thesis using r5 by simp
  qed
  ultimately show ?thesis
    using read_marker_pos [OF r1(2)] read_varbyteint_return_pos [OF r1(3)]
      read_varbyteint_return_pos [OF r3] sread_pos [OF r6]
    by auto
qed

section \<open>All transactions\<close>

text \<open>
  The loop of \<^verbatim>\<open>parse_transactions_dict\<close>, which ends because every dictionary uses up bytes. The
  transactions of the block are not touched, and the stream is put back at the end.
\<close>

function dicts_loop :: "crypto \<Rightarrow> nat option \<Rightarrow> nat \<Rightarrow> stream \<Rightarrow> dict_tx list res" where
  "dicts_loop C height index s =
    bindE (dict_tx_read C height index s) (\<lambda>(tx, s1).
      case tx of
        None \<Rightarrow> Inr []
      | Some d \<Rightarrow> bindE (dicts_loop C height (index + 1) s1) (\<lambda>ds. Inr (d # ds)))"
  by pat_completeness auto
termination
  by (relation "measure (\<lambda>(C, height, index, s). length (sbuf s) - spos s)")
    (auto dest!: dict_tx_read_pos)

declare dicts_loop.simps [simp del]

definition parse_transactions_dict :: "crypto \<Rightarrow> block \<Rightarrow> dict_tx list res" where
  "parse_transactions_dict C b =
    (case b_txs_data b of
       None \<Rightarrow> Inr []
     | Some s \<Rightarrow> if b_tx_count b \<le> length (b_transactions b) then Inr []
                 else dicts_loop C (b_height b) 0 s)"

end
