(* ===== verification/Dict_Rules.thy ===== *)
theory Dict_Rules
  imports Block_Dict
begin

text \<open>
  The dictionary parser of \<^verbatim>\<open>Block\<close> on serialised transactions: its readers of inputs,
  outputs and witnesses read what \<^verbatim>\<open>Transaction.raw\<close> writes, and put together the bytes they
  read.
\<close>

lemma read_varbyteint_return_encoded:
  assumes "int_to_varbyteint (int n) = Inr w" "rest s = w @ r"
  shows "read_varbyteint_return s = ((n, w), adv (length w) s)"
  using read_varbyteint_encoded [OF assms] assms int_to_varbyteint_length_le [OF assms(1)]
  by (simp add: read_varbyteint_return_alt)

section \<open>Inputs\<close>

definition dict_input_of :: "string \<Rightarrow> nat \<Rightarrow> tx_input \<Rightarrow> dict_input \<times> bytes" where
  "dict_input_of wt n i =
    (\<lparr>d_prev_txid = i_prev_txid i, d_output_n = i_output_n i,
      d_unlocking_script = i_unlocking_script i,
      d_inp_type = (if wt = ''segwit'' \<and> i_unlocking_script i = [] then ''segwit'' else ''legacy''),
      d_sequence = le_bytes 4 (i_sequence i), d_witnesses = None\<rparr>,
     projr (raw_input None i))"

lemma raw_input_form:
  assumes "wire_input i" "raw_input None i = Inr w"
  obtains l where "int_to_varbyteint (int (length (i_unlocking_script i))) = Inr l"
    "w = rev (i_prev_txid i) @ rev (i_output_n i) @ l @ i_unlocking_script i @ le_bytes 4 (i_sequence i)"
proof (cases "i_unlocking_script i = [0]")
  case True
  have "int_to_varbyteint 1 = Inr [1]" by (simp add: int_to_varbyteint_def int_to_le_def)
  then show ?thesis
    using assms True that [of "[1]"]
    by (auto simp: raw_input_def wire_input_def varstr_def bindE_Inr_iff int_to_le_Inr_iff)
next
  case False
  then show ?thesis
    using assms that by (auto simp: raw_input_def wire_input_def varstr_def bindE_Inr_iff int_to_le_Inr_iff)
qed

lemma dict_input_read_raw:
  assumes "wire_input i" "raw_input None i = Inr w" "rest s = w @ r"
  shows "dict_input_read wt n s = Inr (dict_input_of wt n i, adv (length w) s)"
proof -
  have len: "length (i_prev_txid i) = 32" "length (i_output_n i) = 4"
    using assms(1) by (simp_all add: wire_input_def)
  let ?p = "rev (i_prev_txid i)" and ?o = "rev (i_output_n i)" and ?u = "i_unlocking_script i"
    and ?q = "le_bytes 4 (i_sequence i)"
  obtain l where l: "int_to_varbyteint (int (length ?u)) = Inr l" and w: "w = ?p @ ?o @ l @ ?u @ ?q"
    using raw_input_form [OF assms(1,2)] .
  define s1 where "s1 = adv 32 s"
  define s2 where "s2 = adv 4 s1"
  define s3 where "s3 = adv (length l) s2"
  define s4 where "s4 = adv (length ?u) s3"
  have r0: "rest s = ?p @ ?o @ l @ ?u @ ?q @ r" using assms(3) w by simp
  then have a1: "sread 32 s = (?p, s1)" unfolding s1_def by (rule sread_adv) (simp add: len)
  have r1: "rest s1 = ?o @ l @ ?u @ ?q @ r" using r0 by (simp add: s1_def len)
  then have a2: "sread 4 s1 = (?o, s2)" unfolding s2_def by (rule sread_adv) (simp add: len)
  have r2: "rest s2 = l @ ?u @ ?q @ r" using r1 by (simp add: s2_def len)
  note a3 = read_varbyteint_return_encoded [OF l r2, folded s3_def]
  have r3: "rest s3 = ?u @ ?q @ r" using r2 by (simp add: s3_def)
  then have a4: "sread (length ?u) s3 = (?u, s4)" unfolding s4_def by (rule sread_adv) simp
  have r4: "rest s4 = ?q @ r" using r3 by (simp add: s4_def)
  then have a5: "sread 4 s4 = (?q, adv 4 s4)" by (rule sread_adv) simp
  have "adv 4 s4 = adv (length w) s" by (simp add: w s4_def s3_def s2_def s1_def len ac_simps)
  then show ?thesis
    unfolding dict_input_read_def a1 a2 a3 a4 a5 Let_def prod.case
    using len w by (simp add: dict_input_of_def assms(2))
qed

interpretation dict_in: wire_format "raw_input None" "dict_input_read wt" "dict_input_of wt" wire_input
  for wt
  by unfold_locales (simp_all add: raw_input_ok dict_input_read_raw)

section \<open>Outputs\<close>

definition wire_output :: "tx_output \<Rightarrow> bool" where
  "wire_output o1 \<longleftrightarrow> 0 \<le> o_value o1 \<and> o_value o1 < 2 ^ 64 \<and> o_lock_script o1 \<noteq> [0] \<and>
     length (o_lock_script o1) < 2 ^ 64"

definition dict_output_of :: "nat \<Rightarrow> tx_output \<Rightarrow> dict_output \<times> bytes" where
  "dict_output_of n o1 =
    (\<lparr>d_value = nat (o_value o1), d_lock_script = o_lock_script o1, d_index_n = n\<rparr>,
     projr (raw_output o1))"

lemma raw_output_wire:
  assumes "wire_output o1"
  obtains l where "int_to_varbyteint (int (length (o_lock_script o1))) = Inr l"
    "raw_output o1 = Inr (le_bytes 8 (nat (o_value o1)) @ l @ o_lock_script o1)"
proof -
  have "is_ok (int_to_varbyteint (int (length (o_lock_script o1))))"
    using varint_ok assms by (fastforce simp: wire_output_def)
  then obtain l where l: "int_to_varbyteint (int (length (o_lock_script o1))) = Inr l"
    by (cases "int_to_varbyteint (int (length (o_lock_script o1)))") simp_all
  have "int_to_le 8 (o_value o1) = Inr (le_bytes 8 (nat (o_value o1)))"
    using assms by (simp add: int_to_le_def wire_output_def)
  with l show ?thesis
    using assms that by (simp add: raw_output_def varstr_def wire_output_def)
qed

lemma dict_output_read_raw:
  assumes "wire_output o1" "raw_output o1 = Inr w" "rest s = w @ r"
  shows "dict_output_read n s = Inr (dict_output_of n o1, adv (length w) s)"
proof -
  let ?v = "le_bytes 8 (nat (o_value o1))" and ?l = "o_lock_script o1"
  obtain l where l: "int_to_varbyteint (int (length ?l)) = Inr l" and w: "w = ?v @ l @ ?l"
    using raw_output_wire [OF assms(1)] assms(2) by auto
  have "nat (o_value o1) < 256 ^ 8" using assms(1) by (simp add: wire_output_def nat_less_iff)
  then have v: "be_val (rev ?v) = nat (o_value o1)" by (rule be_val_rev_le)
  have r0: "rest s = ?v @ l @ ?l @ r" using assms(3) w by simp
  then have a1: "sread 8 s = (?v, adv 8 s)" by (rule sread_adv) simp
  have r1: "rest (adv 8 s) = l @ ?l @ r" using r0 by simp
  note a2 = read_varbyteint_return_encoded [OF l r1]
  have "rest (adv (length l) (adv 8 s)) = ?l @ r" unfolding rest_adv [of "length l"] r1 by simp
  then have a3: "sread (length ?l) (adv (length l) (adv 8 s)) = (?l, adv (length ?l) (adv (length l) (adv 8 s)))"
    by (rule sread_adv) simp
  show ?thesis
    unfolding dict_output_read_def a1 a2 a3 Let_def prod.case v
    using w by (simp add: dict_output_of_def assms(2) ac_simps)
qed

interpretation dict_out: wire_format raw_output dict_output_read dict_output_of wire_output
proof unfold_locales
  fix o1
  assume "wire_output o1"
  then show "is_ok (raw_output o1)" by (rule raw_output_wire) simp
qed (rule dict_output_read_raw)

section \<open>Witnesses\<close>

text \<open>\<^verbatim>\<open>varstr\<close> writes the item \<open>[0]\<close> as an empty one; the bytes read are those written.\<close>

definition dict_item_of :: "nat \<Rightarrow> bytes \<Rightarrow> bytes \<times> bytes" where
  "dict_item_of n d = (if d = [0] then [] else d, projr (varstr d))"

lemma dict_item_read_raw:
  assumes "varstr d = Inr w" "rest s = w @ r"
  shows "dict_item_read n s = Inr (dict_item_of n d, adv (length w) s)"
proof (cases "d = [0]")
  case True
  then have w: "w = [0]" using assms(1) by (simp add: varstr_def)
  have "int_to_varbyteint (int 0) = Inr [0]" by (simp add: int_to_varbyteint_def int_to_le_def)
  from read_varbyteint_return_encoded [OF this] assms(2) w
  have a1: "read_varbyteint_return s = ((0, [0]), adv 1 s)" by simp
  have "sread 0 (adv 1 s) = ([], adv 1 s)" by (simp add: sread_def adv_def)
  then show ?thesis using a1 True assms(1) w by (simp add: dict_item_read_def dict_item_of_def)
next
  case False
  with assms(1) obtain l where l: "int_to_varbyteint (int (length d)) = Inr l" "w = l @ d"
    by (auto simp: varstr_def bindE_Inr_iff)
  have r: "rest s = l @ d @ r" using assms(2) l by simp
  note a1 = read_varbyteint_return_encoded [OF l(1) r]
  have "rest (adv (length l) s) = d @ r" using r by simp
  then have "sread (length d) (adv (length l) s) = (d, adv (length d) (adv (length l) s))"
    by (rule sread_adv) simp
  then show ?thesis using a1 False assms(1) l by (simp add: dict_item_read_def dict_item_of_def)
qed

interpretation dict_item: wire_format varstr dict_item_read dict_item_of "\<lambda>d. length d < 2 ^ 64"
  by unfold_locales (simp_all add: varstr_ok dict_item_read_raw)

definition wire_witness :: "tx_input \<Rightarrow> bool" where
  "wire_witness i \<longleftrightarrow> length (i_witnesses i) < 2 ^ 64 \<and> (\<forall>d \<in> set (i_witnesses i). length d < 2 ^ 64)"

definition dict_witness_of :: "nat \<Rightarrow> tx_input \<Rightarrow> bytes list option \<times> bytes" where
  "dict_witness_of n i =
    (if i_witnesses i \<noteq> [] \<and> i_witness_type i \<noteq> ''legacy''
     then Some (map (\<lambda>d. if d = [0] then [] else d) (i_witnesses i)) else None,
     projr (raw_witness i))"

lemma map_fst_views_item: "map fst (views dict_item_of n ds) = map (\<lambda>d. if d = [0] then [] else d) ds"
  by (induction ds arbitrary: n) (simp_all add: dict_item_of_def)

lemma concat_views:
  assumes "\<And>n x. snd (v n x) = projr (e x)"
  shows "write_list e xs = Inr w \<Longrightarrow> concat (map snd (views v n xs)) = w"
  by (induction xs arbitrary: n w) (auto simp: bindE_Inr_iff assms)

lemma dict_witness_read_raw:
  assumes "wire_witness i" "raw_witness i = Inr w" "rest s = w @ r"
  shows "dict_witness_read n s = Inr (dict_witness_of n i, adv (length w) s)"
proof (cases "i_witnesses i \<noteq> [] \<and> i_witness_type i \<noteq> ''legacy''")
  case True
  then obtain l ds where w: "int_to_varbyteint (int (length (i_witnesses i))) = Inr l"
    "write_list varstr (i_witnesses i) = Inr ds" "w = l @ ds"
    using assms(2) by (auto simp: raw_witness_def raw_witness_items_def bindE_Inr_iff)
  have r: "rest s = l @ ds @ r" using assms(3) w(3) by simp
  note a1 = read_varbyteint_return_encoded [OF w(1) r]
  have "\<forall>d \<in> set (i_witnesses i). length d < 2 ^ 64" using assms(1) by (simp add: wire_witness_def)
  moreover have "rest (adv (length l) s) = ds @ r" using r by simp
  ultimately have a2: "read_list dict_item_read 0 (length (i_witnesses i)) (adv (length l) s) =
      Inr (views dict_item_of 0 (i_witnesses i), adv (length ds) (adv (length l) s))"
    using w(2) by (intro dict_item.read_list_write_list)
  have a3: "concat (map snd (views dict_item_of 0 (i_witnesses i))) = ds"
    using w(2) by (intro concat_views [of _ varstr]) (simp_all add: dict_item_of_def)
  have ne: "length (i_witnesses i) \<noteq> 0" using True by simp
  show ?thesis
    unfolding dict_witness_read_def Let_def a1 prod.case if_not_P [OF ne] a2 bindE_simps a3
    using True w(3) assms(2) by (simp add: dict_witness_of_def map_fst_views_item)
next
  case False
  have w: "w = [0]" using assms(2) unfolding raw_witness_def if_not_P [OF False] by simp
  have "int_to_varbyteint (int 0) = Inr [0]" by (simp add: int_to_varbyteint_def int_to_le_def)
  from read_varbyteint_return_encoded [OF this] assms(3) w
  have "read_varbyteint_return s = ((0, [0]), adv 1 s)" by simp
  then show ?thesis using False w assms(2) by (auto simp: dict_witness_read_def dict_witness_of_def)
qed

lemma raw_witness_wire: "wire_witness i \<Longrightarrow> is_ok (raw_witness i)"
proof -
  assume i: "wire_witness i"
  then obtain l where "int_to_varbyteint (int (length (i_witnesses i))) = Inr l"
    using varint_ok by (auto simp: wire_witness_def)
  moreover have "is_ok (write_list varstr (i_witnesses i))"
    using i by (intro dict_item.write_list_total) (simp add: wire_witness_def)
  then obtain ds where "write_list varstr (i_witnesses i) = Inr ds"
    by (cases "write_list varstr (i_witnesses i)") simp_all
  ultimately show ?thesis by (simp add: raw_witness_def raw_witness_items_def)
qed

interpretation dict_wit: wire_format raw_witness dict_witness_read dict_witness_of wire_witness
  by unfold_locales (simp_all add: raw_witness_wire dict_witness_read_raw)

section \<open>Transactions\<close>

definition wire_tx :: "transaction \<Rightarrow> bool" where
  "wire_tx t \<longleftrightarrow> t_witness_type t \<in> {''legacy'', ''segwit''} \<and> length (t_version t) = 4 \<and>
     t_locktime t < 2 ^ 32 \<and> t_inputs t \<noteq> [] \<and> length (t_inputs t) < 2 ^ 64 \<and>
     t_outputs t \<noteq> [] \<and> length (t_outputs t) < 2 ^ 64 \<and>
     (\<forall>i \<in> set (t_inputs t). wire_input i \<and> wire_witness i) \<and> (\<forall>o1 \<in> set (t_outputs t). wire_output o1)"

text \<open>The parts of the serialised transaction, with and without the marker and the witnesses.\<close>

lemma tx_raw_parts:
  assumes "tx_raw t None h None = Inr W"
  obtains n_in ins n_out outs wits where
    "int_to_varbyteint (int (length (t_inputs t))) = Inr n_in"
    "write_list (raw_input None) (t_inputs t) = Inr ins"
    "write_list raw_witness (t_inputs t) = Inr wits"
    "int_to_varbyteint (int (length (t_outputs t))) = Inr n_out"
    "write_list raw_output (t_outputs t) = Inr outs"
    "W = rev (t_version t) @ (if t_witness_type t = ''segwit'' then [0, 1] else []) @ n_in @ ins @
      n_out @ outs @ (if t_witness_type t = ''segwit'' then wits else []) @ le_bytes 4 (t_locktime t)"
    "tx_raw t None h (Some ''legacy'') =
      Inr (rev (t_version t) @ n_in @ ins @ n_out @ outs @ le_bytes 4 (t_locktime t))"
  using assms by (auto simp: tx_raw_def Let_def bindE_Inr_iff int_to_le_Inr_iff)

lemma read_marker_written:
  assumes "rest s = (if wt = ''segwit'' then [0, 1] else []) @ n_in @ r"
    and "int_to_varbyteint (int n) = Inr n_in" "0 < n" "wt \<in> {''legacy'', ''segwit''}"
  shows "read_marker s = (if wt = ''segwit'' then Some [1] else None, wt,
    adv (length (if wt = ''segwit'' then [0, 1 :: byte] else [])) s)"
proof (cases "wt = ''segwit''")
  case True
  have "sread 1 s = ([0], adv 1 s)" using assms(1) True by (intro sread_adv [where r = "1 # n_in @ r"]) simp_all
  moreover have "sread 1 (adv 1 s) = ([1], adv 1 (adv 1 s))"
    using assms(1) True by (intro sread_adv [where r = "n_in @ r"]) simp_all
  ultimately show ?thesis using True by (simp add: read_marker_def numeral_2_eq_2)
next
  case False
  obtain b bs where "n_in = b # bs" "b \<noteq> 0" using varint_nonzero [OF assms(2,3)] .
  then have "read_marker s = (None, ''legacy'', s)"
    using assms(1) False by (intro read_marker_none [of _ b]) simp_all
  then show ?thesis using False assms(4) by simp
qed

definition reads_dict :: "crypto \<Rightarrow> transaction \<Rightarrow> bytes \<Rightarrow> bytes \<Rightarrow> dict_tx \<Rightarrow> bool" where
  "reads_dict C t W L d \<longleftrightarrow>
    d_rawtx d = W \<and> d_size d = length W \<and> d_txid d = rev (dsha C L) \<and>
    d_version d = t_version t \<and> d_locktime d = t_locktime t \<and> d_witness_type d = t_witness_type t \<and>
    map (\<lambda>i. (d_prev_txid i, d_output_n i, d_unlocking_script i, le_val (d_sequence i))) (d_inputs d) =
      map (\<lambda>i. (i_prev_txid i, i_output_n i, i_unlocking_script i, i_sequence i)) (t_inputs t) \<and>
    map (\<lambda>o1. (int (d_value o1), d_lock_script o1)) (d_outputs d) =
      map (\<lambda>o1. (o_value o1, o_lock_script o1)) (t_outputs t) \<and>
    int (d_output_total d) = sum_list (map o_value (t_outputs t))"

lemma views_map2_inputs:
  assumes "\<forall>i \<in> set is. wire_input i" "length ws = length is"
  shows "map (\<lambda>i. (d_prev_txid i, d_output_n i, d_unlocking_script i, le_val (d_sequence i)))
      (map2 (\<lambda>i w. (fst i)\<lparr>d_witnesses := fst w\<rparr>) (views (dict_input_of wt) n is) ws) =
    map (\<lambda>i. (i_prev_txid i, i_output_n i, i_unlocking_script i, i_sequence i)) is"
  using assms
proof (induction "is" arbitrary: n ws)
  case (Cons i "is")
  then obtain w ws' where "ws = w # ws'" by (cases ws) simp_all
  then show ?case using Cons by (simp add: dict_input_of_def wire_input_def le_val_le_bytes)
qed simp

lemma views_outputs:
  assumes "\<forall>o1 \<in> set os. wire_output o1"
  shows "map (\<lambda>o1. (int (d_value o1), d_lock_script o1)) (map fst (views dict_output_of n os)) =
      map (\<lambda>o1. (o_value o1, o_lock_script o1)) os"
    and "int (sum_list (map (\<lambda>o1. d_value (fst o1)) (views dict_output_of n os))) = sum_list (map o_value os)"
  using assms by (induction os arbitrary: n) (simp_all add: dict_output_of_def wire_output_def)

lemma dict_tx_read_raw:
  assumes t: "wire_tx t" and raw: "tx_raw t None h None = Inr W" and s: "rest s = W @ r"
  shows "\<exists>d L. tx_raw t None h (Some ''legacy'') = Inr L \<and>
    dict_tx_read C height index s = Inr (Some d, adv (length W) s) \<and> reads_dict C t W L d"
proof -
  let ?wt = "t_witness_type t" and ?lt = "le_bytes 4 (t_locktime t)"
  have f: "?wt \<in> {''legacy'', ''segwit''}" "length (t_version t) = 4" "t_inputs t \<noteq> []" "t_outputs t \<noteq> []"
    "\<forall>i \<in> set (t_inputs t). wire_input i" "\<forall>i \<in> set (t_inputs t). wire_witness i"
    "\<forall>o1 \<in> set (t_outputs t). wire_output o1" "t_locktime t < 2 ^ 32"
    using t by (auto simp: wire_tx_def)
  obtain n_in ins n_out outs wits where w:
    "int_to_varbyteint (int (length (t_inputs t))) = Inr n_in"
    "write_list (raw_input None) (t_inputs t) = Inr ins" "write_list raw_witness (t_inputs t) = Inr wits"
    "int_to_varbyteint (int (length (t_outputs t))) = Inr n_out"
    "write_list raw_output (t_outputs t) = Inr outs"
    "W = rev (t_version t) @ (if ?wt = ''segwit'' then [0, 1] else []) @ n_in @ ins @
      n_out @ outs @ (if ?wt = ''segwit'' then wits else []) @ ?lt"
    and L: "tx_raw t None h (Some ''legacy'') = Inr (rev (t_version t) @ n_in @ ins @ n_out @ outs @ ?lt)"
    using tx_raw_parts [OF raw] .
  define mk where "mk = (if ?wt = ''segwit'' then [0, 1 :: byte] else [])"
  define wt where "wt = (if ?wt = ''segwit'' then wits else [])"
  define s1 where "s1 = adv 4 s"
  define s2 where "s2 = adv (length mk) s1"
  define s3 where "s3 = adv (length n_in) s2"
  define s4 where "s4 = adv (length ins) s3"
  define s5 where "s5 = adv (length n_out) s4"
  define s6 where "s6 = adv (length outs) s5"
  define s7 where "s7 = adv (length wt) s6"
  have W: "W = rev (t_version t) @ mk @ n_in @ ins @ n_out @ outs @ wt @ ?lt"
    using w(6) by (simp add: mk_def wt_def)
  have r0: "rest s = rev (t_version t) @ mk @ n_in @ ins @ n_out @ outs @ wt @ ?lt @ r" using s W by simp
  then have a1: "sread 4 s = (rev (t_version t), s1)" unfolding s1_def by (rule sread_adv) (simp add: f)
  have r1: "rest s1 = mk @ n_in @ ins @ n_out @ outs @ wt @ ?lt @ r" using r0 by (simp add: s1_def f)
  have a2: "read_marker s1 = (if ?wt = ''segwit'' then Some [1] else None, ?wt, s2)"
    using read_marker_written [of s1 ?wt n_in _ "length (t_inputs t)"] r1 w(1) f(1,3)
    unfolding mk_def s2_def by blast
  have r2: "rest s2 = n_in @ ins @ n_out @ outs @ wt @ ?lt @ r" using r1 by (simp add: s2_def)
  note a3 = read_varbyteint_return_encoded [OF w(1) r2, folded s3_def]
  have r3: "rest s3 = ins @ n_out @ outs @ wt @ ?lt @ r" using r2 by (simp add: s3_def)
  have a4: "read_list (dict_input_read ?wt) 0 (length (t_inputs t)) s3 =
      Inr (views (dict_input_of ?wt) 0 (t_inputs t), s4)"
    unfolding s4_def using f(5) w(2) r3 by (rule dict_in.read_list_write_list)
  have r4: "rest s4 = n_out @ outs @ wt @ ?lt @ r" using r3 by (simp add: s4_def)
  note a5 = read_varbyteint_return_encoded [OF w(4) r4, folded s5_def]
  have r5: "rest s5 = outs @ wt @ ?lt @ r" using r4 by (simp add: s5_def)
  have a6: "read_list dict_output_read 0 (length (t_outputs t)) s5 =
      Inr (views dict_output_of 0 (t_outputs t), s6)"
    unfolding s6_def using f(7) w(5) r5 by (rule dict_out.read_list_write_list)
  have ne: "views dict_output_of 0 (t_outputs t) \<noteq> []" using f(4) by (cases "t_outputs t") simp_all
  have r6: "rest s6 = wt @ ?lt @ r" using r5 by (simp add: s6_def)
  obtain ws where a7: "(if ?wt = ''segwit''
      then read_list dict_witness_read 0 (length (views (dict_input_of ?wt) 0 (t_inputs t))) s6
      else Inr (map (\<lambda>_. (None, [])) (views (dict_input_of ?wt) 0 (t_inputs t)), s6)) = Inr (ws, s7)"
    and ws: "length ws = length (t_inputs t)" "concat (map snd ws) = wt"
  proof (cases "?wt = ''segwit''")
    case True
    have "read_list dict_witness_read 0 (length (t_inputs t)) s6 =
        Inr (views dict_witness_of 0 (t_inputs t), s7)"
      unfolding s7_def using f(6) w(3) r6 True
      by (intro dict_wit.read_list_write_list) (simp_all add: wt_def)
    moreover have "concat (map snd (views dict_witness_of 0 (t_inputs t))) = wt"
      using w(3) True by (intro concat_views [of _ raw_witness]) (simp_all add: dict_witness_of_def wt_def)
    ultimately show ?thesis using that [of "views dict_witness_of 0 (t_inputs t)"] True by simp
  next
    case False
    have "concat (map snd (map (\<lambda>_. (None, [])) xs)) = ([] :: byte list)" for xs :: "'x list"
      by (induction xs) simp_all
    then show ?thesis
      using that [of "map (\<lambda>_. (None, [])) (views (dict_input_of ?wt) 0 (t_inputs t))"] False
      by (simp add: wt_def s7_def)
  qed
  have r7: "rest s7 = ?lt @ r" using r6 by (simp add: s7_def)
  then have a8: "sread 4 s7 = (?lt, adv 4 s7)" by (rule sread_adv) simp
  have end_s: "adv 4 s7 = adv (length W) s"
    using f(2) W by (simp add: s7_def s6_def s5_def s4_def s3_def s2_def s1_def ac_simps)
  have lt: "be_val (rev ?lt) = t_locktime t" using f(8) by (intro be_val_rev_le) simp
  have ci: "concat (map snd (views (dict_input_of ?wt) 0 (t_inputs t))) = ins"
    using w(2) by (intro concat_views [of _ "raw_input None"]) (simp_all add: dict_input_of_def)
  have co: "concat (map snd (views dict_output_of 0 (t_outputs t))) = outs"
    using w(5) by (intro concat_views [of _ raw_output]) (simp_all add: dict_output_of_def)
  have vne: "t_version t \<noteq> []" using f(2) by auto
  have flag: "(if (if ?wt = ''segwit'' then Some [1 :: byte] else None) = None then [] else [0, 1]) = mk"
    by (simp add: mk_def)
  show ?thesis
    unfolding dict_tx_read_def Let_def a1 prod.case rev_rev_ident if_not_P [OF vne] a2 a3 a4 bindE_simps a5
      a6 if_not_P [OF ne] a7 a8 flag ci co ws(2) lt end_s W [symmetric] L
    using views_map2_inputs [OF f(5) ws(1)] views_outputs [OF f(7)]
    by (simp add: reads_dict_def)
qed



lemma dict_tx_read_end: "rest s = [] \<Longrightarrow> \<exists>s1. dict_tx_read C height index s = Inr (None, s1)"
  by (simp add: dict_tx_read_def sread_def)

lemma dicts_loop_raw:
  assumes "\<forall>t \<in> set ts. wire_tx t" "write_list (\<lambda>t. tx_raw t None h None) ts = Inr Ws" "rest s = Ws"
  shows "\<exists>ds. dicts_loop C height k s = Inr ds \<and>
    list_all2 (\<lambda>t d. \<exists>W L. tx_raw t None h None = Inr W \<and> tx_raw t None h (Some ''legacy'') = Inr L \<and>
      reads_dict C t W L d) ts ds"
  using assms
proof (induction ts arbitrary: k s Ws)
  case Nil
  then obtain s1 where "dict_tx_read C height k s = Inr (None, s1)"
    using dict_tx_read_end [of s C height k] by auto
  then show ?case by (subst dicts_loop.simps) simp
next
  case (Cons t ts)
  from Cons.prems(2) obtain W V where w: "tx_raw t None h None = Inr W"
    "write_list (\<lambda>t. tx_raw t None h None) ts = Inr V" "Ws = W @ V" by (auto simp: bindE_Inr_iff)
  have s: "rest s = W @ V" using Cons.prems(3) w(3) by simp
  have t: "wire_tx t" using Cons.prems(1) by simp
  obtain d L where d: "tx_raw t None h (Some ''legacy'') = Inr L"
    "dict_tx_read C height k s = Inr (Some d, adv (length W) s)" "reads_dict C t W L d"
    using dict_tx_read_raw [OF t w(1) s, of C height k] by blast
  have r: "rest (adv (length W) s) = V" using s by simp
  have ts: "\<forall>t \<in> set ts. wire_tx t" using Cons.prems(1) by simp
  obtain ds where "dicts_loop C height (k + 1) (adv (length W) s) = Inr ds"
    "list_all2 (\<lambda>t d. \<exists>W L. tx_raw t None h None = Inr W \<and> tx_raw t None h (Some ''legacy'') = Inr L \<and>
      reads_dict C t W L d) ts ds"
    using Cons.IH [OF ts w(2) r, of "k + 1"] by blast
  with d w(1) show ?case by (subst dicts_loop.simps) auto
qed

section \<open>Properties\<close>

text \<open>C32: the dictionary parser reads a transaction written by \<^verbatim>\<open>raw\<close>, with or without
  witnesses: it stops right behind it, puts its bytes together again, and takes the double hash of
  its serialisation without witnesses as id; version, lock time, outpoints, scripts, sequences,
  values and the total of the outputs are those of the transaction.\<close>

theorem dict_parse_raw:
  assumes "wire_tx t" "tx_raw t None h None = Inr W" "rest s = W @ r"
  shows "\<exists>d L. tx_raw t None h (Some ''legacy'') = Inr L \<and>
    dict_tx_read C height index s = Inr (Some d, adv (length W) s) \<and>
    d_rawtx d = W \<and> d_size d = length W \<and> d_txid d = rev (dsha C L) \<and>
    d_version d = t_version t \<and> d_locktime d = t_locktime t \<and> d_witness_type d = t_witness_type t \<and>
    map (\<lambda>i. (d_prev_txid i, d_output_n i, d_unlocking_script i, le_val (d_sequence i))) (d_inputs d) =
      map (\<lambda>i. (i_prev_txid i, i_output_n i, i_unlocking_script i, i_sequence i)) (t_inputs t) \<and>
    map (\<lambda>o1. (int (d_value o1), d_lock_script o1)) (d_outputs d) =
      map (\<lambda>o1. (o_value o1, o_lock_script o1)) (t_outputs t) \<and>
    int (d_output_total d) = sum_list (map o_value (t_outputs t))"
  using dict_tx_read_raw [OF assms, of C height index] unfolding reads_dict_def by blast


text \<open>\<^verbatim>\<open>parse_transactions_dict\<close> reads all transactions behind the header of a block:
  it returns one dictionary for each, in order, whose bytes are the bytes of the block, and whose
  ids are the hashes of the serialisations without witnesses.\<close>

theorem parse_transactions_dict_raw:
  assumes "\<forall>t \<in> set ts. wire_tx t" "write_list (\<lambda>t. tx_raw t None h None) ts = Inr Ws"
    and "b_txs_data b = Some s" "rest s = Ws" "length (b_transactions b) < b_tx_count b"
  shows "\<exists>ds. parse_transactions_dict C b = Inr ds \<and> length ds = length ts \<and>
    concat (map d_rawtx ds) = Ws \<and>
    map (\<lambda>d. Inr (d_txid d)) ds =
      map (\<lambda>t. bindE (tx_raw t None h (Some ''legacy'')) (\<lambda>L. Inr (rev (dsha C L)))) ts"
proof -
  obtain ds where ds: "dicts_loop C (b_height b) 0 s = Inr ds"
    "list_all2 (\<lambda>t d. \<exists>W L. tx_raw t None h None = Inr W \<and> tx_raw t None h (Some ''legacy'') = Inr L \<and>
      reads_dict C t W L d) ts ds"
    using dicts_loop_raw [OF assms(1,2,4)] by blast
  from ds(2) assms(2) have "length ds = length ts \<and> concat (map d_rawtx ds) = Ws \<and>
    map (\<lambda>d. Inr (d_txid d)) ds =
      map (\<lambda>t. bindE (tx_raw t None h (Some ''legacy'')) (\<lambda>L. Inr (rev (dsha C L)))) ts"
  proof (induction ts ds arbitrary: Ws rule: list_all2_induct)
    case (Cons t ts d ds)
    then obtain W L where 1: "tx_raw t None h None = Inr W" "tx_raw t None h (Some ''legacy'') = Inr L"
      "reads_dict C t W L d" by blast
    with Cons.prems obtain V where "write_list (\<lambda>t. tx_raw t None h None) ts = Inr V" "Ws = W @ V"
      by (auto simp: bindE_Inr_iff)
    then show ?case using 1 Cons.IH by (simp add: reads_dict_def)
  qed simp
  then show ?thesis using ds(1) assms(3,5) by (simp add: parse_transactions_dict_def)
qed

section \<open>Witnesses\<close>

text \<open>A transaction with a witness item, and the block data behind a header.\<close>

definition example_segwit_tx :: transaction where
  "example_segwit_tx = example_tx\<lparr>t_witness_type := ''segwit'',
     t_inputs := [example_input\<lparr>i_witness_type := ''segwit'', i_witnesses := [[1, 2, 3]]\<rparr>]\<rparr>"

definition example_tx_data :: "stream \<Rightarrow> nat \<Rightarrow> block" where
  "example_tx_data s n = \<lparr>b_hash = [], b_version = [], b_version_int = 0, b_prev_block = [],
     b_merkle_root = [], b_time = 0, b_bits = [], b_bits_int = 0, b_nonce = [], b_nonce_int = 0,
     b_transactions = [], b_txs_data = Some s, b_tx_count = n, b_height = None, b_size = 0,
     b_total_in = 0, b_total_out = 0\<rparr>"

lemma example_segwit_wire: "wire_tx example_segwit_tx" "wire_tx example_tx"
  by (simp_all add: wire_tx_def example_segwit_tx_def example_tx_def example_input_def
      example_output_def wire_input_def wire_output_def wire_witness_def)

lemma example_segwit_raw:
  obtains W where "tx_raw example_segwit_tx None 1 None = Inr W"
proof -
  have "is_ok (tx_raw example_segwit_tx None 1 None)" by code_simp
  then show ?thesis using that by (cases "tx_raw example_segwit_tx None 1 None") simp_all
qed

theorem dict_parse_raw_witness:
  "\<exists>W d s'. tx_raw example_segwit_tx None 1 None = Inr W \<and>
    dict_tx_read example_crypto None 0 (mk_stream (W @ [7])) = Inr (Some d, s') \<and>
    d_rawtx d = W \<and> rest s' = [7] \<and> d_locktime d = 9 \<and> d_witness_type d = ''segwit''"
proof -
  obtain W where W: "tx_raw example_segwit_tx None 1 None = Inr W" by (rule example_segwit_raw)
  have s: "rest (mk_stream (W @ [7])) = W @ [7]" by simp
  obtain d where "dict_tx_read example_crypto None 0 (mk_stream (W @ [7])) =
      Inr (Some d, adv (length W) (mk_stream (W @ [7])))" "d_rawtx d = W"
    "d_locktime d = t_locktime example_segwit_tx" "d_witness_type d = t_witness_type example_segwit_tx"
    using dict_parse_raw [OF example_segwit_wire(1) W s, of example_crypto None 0] by blast
  then show ?thesis using W by (auto simp: example_segwit_tx_def example_tx_def)
qed


theorem parse_transactions_dict_raw_witness:
  "\<exists>W ds. tx_raw example_segwit_tx None 1 None = Inr W \<and>
    parse_transactions_dict example_crypto (example_tx_data (mk_stream (W @ W)) 2) = Inr ds \<and>
    length ds = 2 \<and> concat (map d_rawtx ds) = W @ W"
proof -
  obtain W where W: "tx_raw example_segwit_tx None 1 None = Inr W" by (rule example_segwit_raw)
  let ?ts = "[example_segwit_tx, example_segwit_tx]"
  have 1: "\<forall>t \<in> set ?ts. wire_tx t" using example_segwit_wire(1) by simp
  have 2: "write_list (\<lambda>t. tx_raw t None 1 None) ?ts = Inr (W @ W)" using W by simp
  have "b_txs_data (example_tx_data (mk_stream (W @ W)) 2) = Some (mk_stream (W @ W))"
    "rest (mk_stream (W @ W)) = W @ W"
    "length (b_transactions (example_tx_data (mk_stream (W @ W)) 2)) <
      b_tx_count (example_tx_data (mk_stream (W @ W)) 2)"
    by (simp_all add: example_tx_data_def)
  from parse_transactions_dict_raw [OF 1 2 this, of example_crypto] W show ?thesis by auto
qed

end
