(* ===== verification/Block_Rules.thy ===== *)
theory Block_Rules
  imports Dict_Rules Script_Num
begin

text \<open>
  Properties of blocks: the round trip through \<^verbatim>\<open>serialize\<close> and \<^verbatim>\<open>parse_bytes\<close>, the block
  height in the coinbase, the header fields on which \<^verbatim>\<open>to_bytes\<close> breaks the round trip, and
  the proof of work.
\<close>

section \<open>Headers\<close>





lemma to_bytes_hex_text: "to_bytes (PBytes (map (\<lambda>c. byte_of (of_char c)) (hex_of x))) True = Inr x"
proof -
  have "map unat (map (\<lambda>c. byte_of (of_char c)) (hex_of x)) = codes (hex_of x)"
    by (simp add: codes_def unat_byte_of)
  then show ?thesis
    using fromhex_hex_of [of x] by (simp only: to_bytes_def pyval.simps map_is_Nil_conv hex_of_eq_Nil) simp
qed

section \<open>The transactions of a block\<close>




section \<open>Properties\<close>


text \<open>The height that BIP 34 puts into the coinbase is read back from its push, for the
  heights whose push has three bytes, 32768 to 8388607, and a different height given for a block
  after 227835 is refused.\<close>

theorem bip34_reads_pushed_height:
  assumes "32768 \<le> h" "h < 8388608" "1 < v" "t_coinbase t" "t_inputs t = i # is"
    and "i_unlocking_script i = 3 # encode_num (int h) @ r"
  shows "bip34_height v (t # ts) None = Inr (Some h) \<and>
    bip34_height v (t # ts) (Some h) = Inr (Some h) \<and>
    (227835 < k \<and> k \<noteq> h \<longrightarrow> bip34_height v (t # ts) (Some k) = Inl ValueError)"
proof -
  have pos: "0 < h" using assms(1) by simp
  obtain xs b where e: "le_val (xs @ [b]) = h" "b \<noteq> 0" "byte_length h = Suc (length xs)"
    using abs_bytes [OF pos] by metis
  have enc: "encode_num (int h) = (if 128 \<le> unat b then xs @ [b, 0] else xs @ [b])"
    using encode_num_abs [of xs b "int h"] e by simp
  have v: "le_val (encode_num (int h)) = h"
    using e(1) by (simp add: enc le_val_snoc le_val_append)
  have hv: "h = le_val xs + 256 ^ length xs * unat b" using e(1) by (simp add: le_val_snoc)
  have b1: "1 \<le> unat b" using e(2) by (simp add: Suc_leI unat_gt_0)
  have len: "length (encode_num (int h)) = 3"
  proof (cases "128 \<le> unat b")
    case True
    have "256 ^ length xs * 128 \<le> 256 ^ length xs * unat b" using True by (intro mult_le_mono2)
    then have "256 ^ length xs * 128 \<le> h" using hv by linarith
    then have "(256 :: nat) ^ length xs < 256 ^ 2" using assms(2) by simp
    then have "length xs < 2" by (rule power_less_imp_less_exp [rotated]) simp
    moreover have "(256 :: nat) ^ 1 < 256 ^ Suc (length xs)"
      using le_val_bound [of "xs @ [b]"] e(1) assms(1) by simp
    then have "1 < Suc (length xs)" by (rule power_less_imp_less_exp [rotated]) simp
    ultimately have "length xs = 1" by linarith
    then show ?thesis using True enc by simp
  next
    case False
    have "256 ^ length xs * unat b < 256 ^ 3" using hv assms(2) by simp
    moreover have "256 ^ length xs * 1 \<le> 256 ^ length xs * unat b" using b1 by (intro mult_le_mono2)
    ultimately have "(256 :: nat) ^ length xs < 256 ^ 3" by linarith
    then have lt: "length xs < 3" by (rule power_less_imp_less_exp [rotated]) simp
    have "256 ^ length xs * (unat b + 1) > h" using hv le_val_bound [of xs] by simp
    moreover have "256 ^ length xs * (unat b + 1) \<le> 256 ^ length xs * 128"
      using False by (intro mult_le_mono2) simp
    ultimately have big: "32768 < (256 :: nat) ^ length xs * 128" using assms(1) by linarith
    have "length xs \<noteq> 0" "length xs \<noteq> 1" using big by fastforce+
    with lt have "length xs = 2" by linarith
    then show ?thesis using False enc by simp
  qed
  have sl: "slice 1 4 (i_unlocking_script i) = encode_num (int h)"
    using len assms(6) by (simp add: slice_def)
  have "le_val (slice 1 4 (i_unlocking_script i) @ [0]) = h"
    unfolding sl using v by (simp add: le_val_append)
  then show ?thesis using assms(3-6) pos by (simp add: bip34_height_def Let_def)
qed

text \<open>A shorter push is read together with the byte behind it: the height 1000 becomes
  5309416 when an \<^verbatim>\<open>OP_1\<close> follows, and the given height is replaced without an error.\<close>

theorem bip34_misreads_short_push:
  assumes "1 < v" "t_coinbase t" "t_inputs t = i # is"
    and "i_unlocking_script i = 2 # encode_num 1000 @ 0x51 # r"
  shows "bip34_height v (t # ts) (Some 1000) = Inr (Some 5309416)"
proof -
  have e: "encode_num 1000 = [0xe8, 0x03]" by code_simp
  have "slice 1 4 (i_unlocking_script i) = [0xe8, 0x03, 0x51]" using assms(4) by (simp add: e slice_def)
  then show ?thesis using assms(1-4) e by (simp add: bip34_height_def Let_def)
qed

text \<open>A header whose nonce is the hexadecimal text of two bytes is read as a block with these
  two bytes as nonce, which \<^verbatim>\<open>serialize\<close> then refuses.\<close>

theorem block_nonce_misread:
  assumes "block_init bh v pb mr tm bt (map (\<lambda>c. byte_of (of_char c)) (hex_of [x, y])) txs height = Inr b"
    and "length (b_version b) = 4" "length (b_prev_block b) = 32" "length (b_merkle_root b) = 32"
    and "length (b_bits b) = 4" "b_time b < 2 ^ 32"
  shows "b_nonce b = [x, y] \<and> b_nonce_int b = be_val [x, y] \<and> block_header b = Inl ValueError"
proof -
  have "b_nonce b = [x, y]" "b_nonce_int b = be_val [x, y]"
    using assms(1) by (auto simp: block_init_def bindE_Inr_iff to_bytes_hex_text)
  then show ?thesis using assms(2-) by (simp add: block_header_def int_to_le_def)
qed

section \<open>Witnesses\<close>







definition example_coinbase :: "bytes \<Rightarrow> transaction" where
  "example_coinbase script = example_tx\<lparr>t_inputs := [example_input\<lparr>i_unlocking_script := script\<rparr>]\<rparr>"

theorem bip34_reads_pushed_height_witness:
  "bip34_height 2 [example_coinbase (3 # encode_num 500000 @ [0x51])] None = Inr (Some 500000) \<and>
   bip34_height 2 [example_coinbase (3 # encode_num 500000 @ [0x51])] (Some 500001) = Inl ValueError"
  using bip34_reads_pushed_height [of 500000 2 "example_coinbase (3 # encode_num 500000 @ [0x51])"
      "example_input\<lparr>i_unlocking_script := 3 # encode_num 500000 @ [0x51]\<rparr>" "[]" "[0x51]" "[]" 500001]
  by (simp add: example_coinbase_def example_tx_def)

theorem bip34_misreads_short_push_witness:
  "bip34_height 2 [example_coinbase (2 # encode_num 1000 @ 0x51 # [])] (Some 1000) =
    Inr (Some 5309416)"
  using bip34_misreads_short_push [of 2 "example_coinbase (2 # encode_num 1000 @ [0x51])"
      "example_input\<lparr>i_unlocking_script := 2 # encode_num 1000 @ [0x51]\<rparr>" "[]" "[]" "[]"]
  by (simp add: example_coinbase_def example_tx_def)

theorem block_nonce_misread_witness:
  "\<exists>b. block_init (replicate 32 0) [0, 0, 0, 1] (replicate 32 0) (replicate 32 0) [0, 0, 0, 5]
      [0x1d, 0, 0xff, 0xff] (map (\<lambda>c. byte_of (of_char c)) ''abcd'') [] None = Inr b \<and>
    b_nonce b = [0xab, 0xcd] \<and> block_header b = Inl ValueError"
proof -
  have t: "''abcd'' = hex_of [0xab, 0xcd]" by code_simp
  let ?m = "block_init (replicate 32 0) [0, 0, 0, 1] (replicate 32 0) (replicate 32 0) [0, 0, 0, 5]
      [0x1d, 0, 0xff, 0xff] (map (\<lambda>c. byte_of (of_char c)) (hex_of [0xab, 0xcd])) [] None"
  have "not_hex [0, 0, 0, 1]" "not_hex [0x1d, 0, 0xff, 0xff]"
    by (simp_all add: not_hex_def digit_val_def ascii_space_def)
  then obtain b where b: "?m = Inr b" and l: "length (b_version b) = 4" "length (b_prev_block b) = 32"
    "length (b_merkle_root b) = 32" "length (b_bits b) = 4" "b_time b = 5"
    by (simp add: block_init_def to_bytes_not_hex not_hex_zeros to_bytes_hex_text bip34_height_def be_val_def)
  have "b_nonce b = [0xab, 0xcd] \<and> block_header b = Inl ValueError"
    using block_nonce_misread [OF b l(1-4)] l(5) by simp
  then show ?thesis using b unfolding t by blast
qed

end
