(* ===== verification/Networks.thy ===== *)
theory Networks
  imports Base_Conv
begin

text \<open>
  The network definitions of \<^verbatim>\<open>bitcoinlib/data/networks.json\<close>, the functions of
  \<^verbatim>\<open>bitcoinlib/networks.py\<close> that look prefixes up in them, and \<^verbatim>\<open>script_type_default\<close> and
  \<^verbatim>\<open>get_encoding_from_witness\<close> of \<^verbatim>\<open>bitcoinlib/main.py\<close>. Names, symbols and the
  floating point denominator are left out.
\<close>

section \<open>The definitions\<close>

text \<open>Prefix, its text form, private or public, multisig, witness type and script type.\<close>

type_synonym wif_row = "string \<times> string \<times> string \<times> bool \<times> string \<times> string"

record network =
  n_name :: string
  n_prefix_address :: string
  n_prefix_address_p2sh :: string
  n_prefix_bech32 :: string
  n_prefix_wif :: string
  n_prefixes_wif :: "wif_row list"
  n_bip44_cointype :: nat
  n_dust_amount :: nat
  n_fee_default :: "nat option"
  n_fee_min :: nat
  n_fee_max :: nat
  n_priority :: nat

definition test_prefixes :: "wif_row list" where
  "test_prefixes =
    [(''2FFFACCC'', ''BC11'', ''public'', False, ''legacy'', ''p2pkh''),
     (''2FFFACCC'', ''BC11'', ''public'', True, ''legacy'', ''p2sh''),
     (''2FFFADDD'', ''BC12'', ''private'', False, ''legacy'', ''p2pkh''),
     (''2FFFADDD'', ''BC12'', ''private'', True, ''legacy'', ''p2sh''),
     (''2FFFAEEE'', ''BC13'', ''public'', False, ''p2sh-segwit'', ''p2sh_p2wpkh''),
     (''2FFFB100'', ''BC14'', ''public'', True, ''p2sh-segwit'', ''p2sh_p2wsh''),
     (''2FFFB300'', ''BC15'', ''private'', False, ''p2sh-segwit'', ''p2sh_p2wpkh''),
     (''2FFFB500'', ''BC16'', ''private'', True, ''p2sh-segwit'', ''p2sh_p2wsh''),
     (''2FFFB666'', ''BC17'', ''public'', False, ''segwit'', ''p2wpkh''),
     (''2FFFB800'', ''BC18'', ''public'', True, ''segwit'', ''p2wsh''),
     (''2FFFB900'', ''BC19'', ''private'', False, ''segwit'', ''p2wpkh''),
     (''2FFFBA00'', ''BC1A'', ''private'', True, ''segwit'', ''p2wsh'')]"

definition bitcoin_prefixes :: "wif_row list" where
  "bitcoin_prefixes =
    [(''0488B21E'', ''xpub'', ''public'', False, ''legacy'', ''p2pkh''),
     (''0488B21E'', ''xpub'', ''public'', True, ''legacy'', ''p2sh''),
     (''0488ADE4'', ''xprv'', ''private'', False, ''legacy'', ''p2pkh''),
     (''0488ADE4'', ''xprv'', ''private'', True, ''legacy'', ''p2sh''),
     (''049D7CB2'', ''ypub'', ''public'', False, ''p2sh-segwit'', ''p2sh_p2wpkh''),
     (''0295B43F'', ''Ypub'', ''public'', True, ''p2sh-segwit'', ''p2sh_p2wsh''),
     (''049D7878'', ''yprv'', ''private'', False, ''p2sh-segwit'', ''p2sh_p2wpkh''),
     (''0295B005'', ''Yprv'', ''private'', True, ''p2sh-segwit'', ''p2sh_p2wsh''),
     (''04B24746'', ''zpub'', ''public'', False, ''segwit'', ''p2wpkh''),
     (''02AA7ED3'', ''Zpub'', ''public'', True, ''segwit'', ''p2wsh''),
     (''04B2430C'', ''zprv'', ''private'', False, ''segwit'', ''p2wpkh''),
     (''02AA7A99'', ''Zprv'', ''private'', True, ''segwit'', ''p2wsh'')]"

definition testnet_prefixes :: "wif_row list" where
  "testnet_prefixes =
    [(''043587CF'', ''tpub'', ''public'', False, ''legacy'', ''p2pkh''),
     (''043587CF'', ''tpub'', ''public'', True, ''legacy'', ''p2sh''),
     (''04358394'', ''tprv'', ''private'', False, ''legacy'', ''p2pkh''),
     (''04358394'', ''tprv'', ''private'', True, ''legacy'', ''p2sh''),
     (''044A5262'', ''upub'', ''public'', False, ''p2sh-segwit'', ''p2sh_p2wpkh''),
     (''024289EF'', ''Upub'', ''public'', True, ''p2sh-segwit'', ''p2sh_p2wsh''),
     (''044A4E28'', ''uprv'', ''private'', False, ''p2sh-segwit'', ''p2sh_p2wpkh''),
     (''024285B5'', ''Uprv'', ''private'', True, ''p2sh-segwit'', ''p2sh_p2wsh''),
     (''045F1CF6'', ''vpub'', ''public'', False, ''segwit'', ''p2wpkh''),
     (''02575483'', ''Vpub'', ''public'', True, ''segwit'', ''p2wsh''),
     (''045F18BC'', ''vprv'', ''private'', False, ''segwit'', ''p2wpkh''),
     (''02575048'', ''Vprv'', ''private'', True, ''segwit'', ''p2wsh'')]"

definition litecoin_prefixes :: "wif_row list" where
  "litecoin_prefixes =
    [(''019DA462'', ''Ltub'', ''public'', False, ''legacy'', ''p2pkh''),
     (''019DA462'', ''Ltub'', ''public'', True, ''legacy'', ''p2sh''),
     (''019D9CFE'', ''Ltpv'', ''private'', False, ''legacy'', ''p2pkh''),
     (''019D9CFE'', ''Ltpv'', ''private'', True, ''legacy'', ''p2sh''),
     (''01B26EF6'', ''Mtub'', ''public'', False, ''p2sh-segwit'', ''p2sh_p2wpkh''),
     (''01B26EF6'', ''Mtub'', ''public'', True, ''p2sh-segwit'', ''p2sh_p2wsh''),
     (''01B26792'', ''Mtpv'', ''private'', False, ''p2sh-segwit'', ''p2sh_p2wpkh''),
     (''01B26792'', ''Mtpv'', ''private'', True, ''p2sh-segwit'', ''p2sh_p2wsh''),
     (''01B26EF6'', ''Mtub'', ''public'', False, ''segwit'', ''p2wpkh''),
     (''01B26EF6'', ''Mtub'', ''public'', True, ''segwit'', ''p2wsh''),
     (''01B26792'', ''Mtpv'', ''private'', False, ''segwit'', ''p2wpkh''),
     (''01B26792'', ''Mtpv'', ''private'', True, ''segwit'', ''p2wsh'')]"

definition litecoin_testnet_prefixes :: "wif_row list" where
  "litecoin_testnet_prefixes =
    [(''0436F6E1'', ''ttub'', ''public'', False, ''legacy'', ''p2pkh''),
     (''0436F6E1'', ''ttub'', ''public'', True, ''legacy'', ''p2sh''),
     (''0436EF7D'', ''ttpv'', ''private'', False, ''legacy'', ''p2pkh''),
     (''0436EF7D'', ''ttpv'', ''private'', True, ''legacy'', ''p2sh''),
     (''0436F6E1'', ''ttub'', ''public'', False, ''p2sh-segwit'', ''p2sh_p2wpkh''),
     (''0436F6E1'', ''ttub'', ''public'', True, ''p2sh-segwit'', ''p2sh_p2wsh''),
     (''0436EF7D'', ''ttpv'', ''private'', False, ''p2sh-segwit'', ''p2sh_p2wpkh''),
     (''0436EF7D'', ''ttpv'', ''private'', True, ''p2sh-segwit'', ''p2sh_p2wsh''),
     (''0436F6E1'', ''ttub'', ''public'', False, ''segwit'', ''p2wpkh''),
     (''0436F6E1'', ''ttub'', ''public'', True, ''segwit'', ''p2wsh''),
     (''0436EF7D'', ''ttpv'', ''private'', False, ''segwit'', ''p2wpkh''),
     (''0436EF7D'', ''ttpv'', ''private'', True, ''segwit'', ''p2wsh'')]"

definition dogecoin_prefixes :: "wif_row list" where
  "dogecoin_prefixes =
    [(''0488B21E'', ''xpub'', ''public'', False, ''legacy'', ''p2pkh''),
     (''0488B21E'', ''xpub'', ''public'', True, ''legacy'', ''p2sh''),
     (''0488ADE4'', ''xprv'', ''private'', False, ''legacy'', ''p2pkh''),
     (''0488ADE4'', ''xprv'', ''private'', True, ''legacy'', ''p2sh'')]"

definition dogecoin_testnet_prefixes :: "wif_row list" where
  "dogecoin_testnet_prefixes =
    [(''043587CF'', ''tpub'', ''public'', False, ''legacy'', ''p2pkh''),
     (''043587CF'', ''tpub'', ''public'', True, ''legacy'', ''p2sh''),
     (''04358394'', ''tprv'', ''private'', False, ''legacy'', ''p2pkh''),
     (''04358394'', ''tprv'', ''private'', True, ''legacy'', ''p2sh'')]"

definition NETWORK_DEFINITIONS :: "network list" where
  "NETWORK_DEFINITIONS =
    [\<lparr>n_name = ''bitcoinlib_test'', n_prefix_address = ''90'', n_prefix_address_p2sh = ''95'', n_prefix_bech32 = ''blt'',
       n_prefix_wif = ''99'', n_prefixes_wif = test_prefixes, n_bip44_cointype = 9999999, n_dust_amount = 1000,
       n_fee_default = Some 10000, n_fee_min = 1000, n_fee_max = 1000000, n_priority = 2\<rparr>,
     \<lparr>n_name = ''bitcoin'', n_prefix_address = ''00'', n_prefix_address_p2sh = ''05'', n_prefix_bech32 = ''bc'',
       n_prefix_wif = ''80'', n_prefixes_wif = bitcoin_prefixes, n_bip44_cointype = 0, n_dust_amount = 1000,
       n_fee_default = None, n_fee_min = 1000, n_fee_max = 1000000, n_priority = 12\<rparr>,
     \<lparr>n_name = ''testnet'', n_prefix_address = ''6F'', n_prefix_address_p2sh = ''C4'', n_prefix_bech32 = ''tb'',
       n_prefix_wif = ''EF'', n_prefixes_wif = testnet_prefixes, n_bip44_cointype = 1, n_dust_amount = 1000,
       n_fee_default = Some 10000, n_fee_min = 1000, n_fee_max = 2000000, n_priority = 8\<rparr>,
     \<lparr>n_name = ''testnet4'', n_prefix_address = ''6F'', n_prefix_address_p2sh = ''C4'', n_prefix_bech32 = ''tb'',
       n_prefix_wif = ''EF'', n_prefixes_wif = testnet_prefixes, n_bip44_cointype = 1, n_dust_amount = 1000,
       n_fee_default = Some 10000, n_fee_min = 1000, n_fee_max = 2000000, n_priority = 8\<rparr>,
     \<lparr>n_name = ''signet'', n_prefix_address = ''6F'', n_prefix_address_p2sh = ''C4'', n_prefix_bech32 = ''tb'',
       n_prefix_wif = ''EF'', n_prefixes_wif = testnet_prefixes, n_bip44_cointype = 1, n_dust_amount = 1000,
       n_fee_default = Some 10000, n_fee_min = 1000, n_fee_max = 2000000, n_priority = 8\<rparr>,
     \<lparr>n_name = ''regtest'', n_prefix_address = ''00'', n_prefix_address_p2sh = ''05'', n_prefix_bech32 = ''bcrt'',
       n_prefix_wif = ''80'', n_prefixes_wif = bitcoin_prefixes, n_bip44_cointype = 0, n_dust_amount = 1000,
       n_fee_default = None, n_fee_min = 1000, n_fee_max = 1000000, n_priority = 0\<rparr>,
     \<lparr>n_name = ''litecoin'', n_prefix_address = ''30'', n_prefix_address_p2sh = ''32'', n_prefix_bech32 = ''ltc'',
       n_prefix_wif = ''B0'', n_prefixes_wif = litecoin_prefixes, n_bip44_cointype = 2, n_dust_amount = 1000,
       n_fee_default = Some 50000, n_fee_min = 1000, n_fee_max = 1000000, n_priority = 10\<rparr>,
     \<lparr>n_name = ''litecoin_legacy'', n_prefix_address = ''30'', n_prefix_address_p2sh = ''05'', n_prefix_bech32 = ''ltc'',
       n_prefix_wif = ''B0'', n_prefixes_wif = litecoin_prefixes, n_bip44_cointype = 2, n_dust_amount = 1000,
       n_fee_default = Some 50000, n_fee_min = 1000, n_fee_max = 1000000, n_priority = 8\<rparr>,
     \<lparr>n_name = ''litecoin_testnet'', n_prefix_address = ''6F'', n_prefix_address_p2sh = ''3A'', n_prefix_bech32 = ''tltc'',
       n_prefix_wif = ''EF'', n_prefixes_wif = litecoin_testnet_prefixes, n_bip44_cointype = 1, n_dust_amount = 1000,
       n_fee_default = Some 50000, n_fee_min = 1000, n_fee_max = 1000000, n_priority = 6\<rparr>,
     \<lparr>n_name = ''dogecoin'', n_prefix_address = ''1E'', n_prefix_address_p2sh = ''16'', n_prefix_bech32 = ''doge'',
       n_prefix_wif = ''9E'', n_prefixes_wif = dogecoin_prefixes, n_bip44_cointype = 3, n_dust_amount = 1000,
       n_fee_default = Some 200000000, n_fee_min = 1000000, n_fee_max = 10000000000, n_priority = 10\<rparr>,
     \<lparr>n_name = ''dogecoin_testnet'', n_prefix_address = ''71'', n_prefix_address_p2sh = ''C4'', n_prefix_bech32 = ''tdoge'',
       n_prefix_wif = ''F1'', n_prefixes_wif = dogecoin_testnet_prefixes, n_bip44_cointype = 1, n_dust_amount = 1000,
       n_fee_default = Some 100000000, n_fee_min = 1000000, n_fee_max = 10000000000, n_priority = 6\<rparr>]"

text \<open>\<^verbatim>\<open>Network(name)\<close>\<close>

definition network_named :: "string \<Rightarrow> network res" where
  "network_named name =
    (case filter (\<lambda>n. n_name n = name) NETWORK_DEFINITIONS of
       [] \<Rightarrow> Inl NetworkError
     | n # _ \<Rightarrow> Inr n)"

definition network_defined :: "string \<Rightarrow> bool" where
  "network_defined name = (name \<in> set (map n_name NETWORK_DEFINITIONS))"

text \<open>\<^verbatim>\<open>str.upper\<close> on ASCII text.\<close>

definition upper_char :: "char \<Rightarrow> char" where
  "upper_char c = (let n = of_char c :: nat in if 97 \<le> n \<and> n \<le> 122 then char_of (n - 32) else c)"

section \<open>Looking prefixes up\<close>

text \<open>
  \<^verbatim>\<open>network_by_value(field, value)\<close> for the textual fields: the value as it is, or else in
  upper case, the networks of highest priority first.
\<close>

definition network_by_value :: "(network \<Rightarrow> string) \<Rightarrow> string \<Rightarrow> string list" where
  "network_by_value field value =
    (let nws = filter (\<lambda>n. field n = value) NETWORK_DEFINITIONS;
         nws1 = (if nws = [] then filter (\<lambda>n. field n = map upper_char value) NETWORK_DEFINITIONS
                 else nws)
     in map n_name (sort_key (\<lambda>n. - int (n_priority n)) nws1))"

record wif_match =
  w_prefix :: string
  w_is_private :: bool
  w_prefix_str :: string
  w_network :: string
  w_witness_type :: string
  w_multisig :: bool
  w_script_type :: string

text \<open>The first argument as \<^verbatim>\<open>wif_prefix_search\<close> reads it: hexadecimal, converted if it is longer.\<close>

definition wif_key_hex :: "string \<Rightarrow> string res" where
  "wif_key_hex wif =
    (if length wif > 8
     then (case change_base (PStr wif) 58 16 0 None None of
             Inr (PStr h) \<Rightarrow> Inr h
           | Inr _ \<Rightarrow> Inl TypeError
           | Inl _ \<Rightarrow> Inr wif)
     else Inr wif)"

definition row_match ::
  "string \<Rightarrow> string option \<Rightarrow> bool option \<Rightarrow> string \<Rightarrow> wif_row \<Rightarrow> wif_match list" where
  "row_match prefix witness_type multisig name r =
    (case r of (pf, pstr, ip, ms, wt, st) \<Rightarrow>
      if pf = prefix \<and> (multisig = None \<or> multisig = Some ms) \<and>
         (witness_type = None \<or> witness_type = Some wt)
      then [\<lparr>w_prefix = prefix, w_is_private = (ip = ''private''), w_prefix_str = pstr,
             w_network = name, w_witness_type = wt, w_multisig = ms, w_script_type = st\<rparr>]
      else [])"

definition row_matches ::
  "string \<Rightarrow> string option \<Rightarrow> bool option \<Rightarrow> string \<Rightarrow> wif_row list \<Rightarrow> wif_match list" where
  "row_matches prefix witness_type multisig name rows =
    concat (map (row_match prefix witness_type multisig name) rows)"

definition wif_matches ::
  "string \<Rightarrow> string option \<Rightarrow> bool option \<Rightarrow> string option \<Rightarrow> wif_match list" where
  "wif_matches prefix witness_type multisig network =
    concat (map (\<lambda>n.
      if network \<noteq> None \<and> network \<noteq> Some (n_name n) then []
      else row_matches prefix witness_type multisig (n_name n) (n_prefixes_wif n)) NETWORK_DEFINITIONS)"

definition wif_prefix_search ::
  "string \<Rightarrow> string option \<Rightarrow> bool option \<Rightarrow> string option \<Rightarrow> wif_match list res" where
  "wif_prefix_search wif witness_type multisig network =
    bindE (wif_key_hex wif) (\<lambda>key_hex.
      Inr (wif_matches (map upper_char (take 8 key_hex)) witness_type multisig network))"

section \<open>Types\<close>

text \<open>\<^verbatim>\<open>script_type_default\<close> for a witness type that is given.\<close>

definition script_type_default :: "string \<Rightarrow> bool \<Rightarrow> bool \<Rightarrow> string res" where
  "script_type_default witness_type multisig locking_script =
    (if witness_type = ''legacy'' \<and> \<not> multisig
     then Inr (if locking_script then ''p2pkh'' else ''sig_pubkey'')
     else if witness_type = ''legacy'' then Inr (if locking_script then ''p2sh'' else ''p2sh_multisig'')
     else if witness_type = ''segwit'' \<and> \<not> multisig
     then Inr (if locking_script then ''p2wpkh'' else ''sig_pubkey'')
     else if witness_type = ''segwit'' then Inr (if locking_script then ''p2wsh'' else ''p2sh_multisig'')
     else if witness_type = ''p2sh-segwit'' \<and> \<not> multisig
     then Inr (if locking_script then ''p2sh'' else ''p2sh_p2wpkh'')
     else if witness_type = ''p2sh-segwit'' then Inr (if locking_script then ''p2sh'' else ''p2sh_p2wsh'')
     else Inl ValueError)"

definition get_encoding_from_witness :: "string option \<Rightarrow> string res" where
  "get_encoding_from_witness witness_type =
    (if witness_type = Some ''segwit'' then Inr ''bech32''
     else if witness_type \<in> {None, Some ''legacy'', Some ''p2sh-segwit''} then Inr ''base58''
     else Inl ValueError)"

definition wif_script_type :: "string \<Rightarrow> string \<Rightarrow> bool \<Rightarrow> string" where
  "wif_script_type st witness_type multisig =
    (if st = ''p2sh'' \<and> witness_type \<in> {''p2sh-segwit'', ''segwit''}
     then (if multisig then ''p2sh_p2wsh'' else ''p2sh_p2wpkh'') else st)"

definition found_rows :: "wif_row list \<Rightarrow> bool \<Rightarrow> string \<Rightarrow> wif_row list" where
  "found_rows rows is_private script_type =
    filter (\<lambda>(pf, pstr, i, ms, wt, s). i = (if is_private then ''private'' else ''public'') \<and> s = script_type) rows"

definition row_prefix :: "wif_row list \<Rightarrow> bool \<Rightarrow> string \<Rightarrow> bool \<Rightarrow> bytes res" where
  "row_prefix rows is_private witness_type multisig =
    bindE (script_type_default witness_type multisig True) (\<lambda>st.
      case found_rows rows is_private (wif_script_type st witness_type multisig) of
        [] \<Rightarrow> Inl NetworkError
      | (pf, _) # _ \<Rightarrow> (case fromhex (codes pf) of None \<Rightarrow> Inl ValueError | Some b \<Rightarrow> Inr b))"

definition wif_prefix :: "network \<Rightarrow> bool \<Rightarrow> string \<Rightarrow> bool \<Rightarrow> bytes res" where
  "wif_prefix n = row_prefix (n_prefixes_wif n)"

section \<open>The tables are unambiguous\<close>

lemmas prefix_tables = test_prefixes_def bitcoin_prefixes_def testnet_prefixes_def litecoin_prefixes_def
  litecoin_testnet_prefixes_def dogecoin_prefixes_def dogecoin_testnet_prefixes_def

definition prefix_table :: "wif_row list list" where
  "prefix_table = [test_prefixes, bitcoin_prefixes, testnet_prefixes, litecoin_prefixes,
     litecoin_testnet_prefixes, dogecoin_prefixes, dogecoin_testnet_prefixes]"

lemma prefix_tables_of_networks: "n_prefixes_wif ` set NETWORK_DEFINITIONS \<subseteq> set prefix_table"
  by (simp add: NETWORK_DEFINITIONS_def prefix_table_def)

lemma network_names: "distinct (map n_name NETWORK_DEFINITIONS)"
  by (simp add: NETWORK_DEFINITIONS_def)

text \<open>Every prefix of the tables is private everywhere or public everywhere.\<close>

definition prefixes_of :: "bool \<Rightarrow> wif_row list \<Rightarrow> string list" where
  "prefixes_of b rows = map fst (filter (\<lambda>r. (fst (snd (snd r)) = ''private'') = b) rows)"

lemma prefixes_disjoint:
  "list_all (\<lambda>rows. list_all (\<lambda>rows'. list_all (\<lambda>p. list_all (\<lambda>q. p \<noteq> q)
      (prefixes_of False rows')) (prefixes_of True rows)) prefix_table) prefix_table"
  by (simp add: prefixes_of_def prefix_table_def prefix_tables)

lemma row_match_in:
  "m \<in> set (row_match prefix wt ms name (pf, pstr, ip, msg, wtype, st)) \<longleftrightarrow>
    pf = prefix \<and> (ms = None \<or> ms = Some msg) \<and> (wt = None \<or> wt = Some wtype) \<and>
    m = \<lparr>w_prefix = prefix, w_is_private = (ip = ''private''), w_prefix_str = pstr,
          w_network = name, w_witness_type = wtype, w_multisig = msg, w_script_type = st\<rparr>"
proof (cases "pf = prefix \<and> (ms = None \<or> ms = Some msg) \<and> (wt = None \<or> wt = Some wtype)")
  case True
  then show ?thesis unfolding row_match_def prod.case if_P [OF True] by simp
next
  case False
  then show ?thesis unfolding row_match_def prod.case if_not_P [OF False] list.set by blast
qed

lemma row_matches_in:
  "m \<in> set (row_matches prefix wt ms name rows) \<longleftrightarrow>
    (\<exists>pstr ip msg wtype st. (prefix, pstr, ip, msg, wtype, st) \<in> set rows \<and>
      (ms = None \<or> ms = Some msg) \<and> (wt = None \<or> wt = Some wtype) \<and>
      m = \<lparr>w_prefix = prefix, w_is_private = (ip = ''private''), w_prefix_str = pstr,
          w_network = name, w_witness_type = wtype, w_multisig = msg, w_script_type = st\<rparr>)"
proof -
  have "m \<in> set (row_matches prefix wt ms name rows) \<longleftrightarrow>
    (\<exists>r \<in> set rows. m \<in> set (row_match prefix wt ms name r))"
    by (simp add: row_matches_def)
  then show ?thesis unfolding bex_simps Bex_def split_paired_Ex row_match_in by blast
qed

lemma prefixes_of_in: "(pf, pstr, ip, r) \<in> set rows \<Longrightarrow> pf \<in> set (prefixes_of (ip = ''private'') rows)"
  unfolding prefixes_of_def by force

lemma wif_matches_in:
  assumes "m \<in> set (wif_matches prefix wt ms nw)"
  obtains rows where "rows \<in> set prefix_table" "prefix \<in> set (prefixes_of (w_is_private m) rows)"
    "\<forall>n. nw = Some n \<longrightarrow> w_network m = n" "\<forall>w. wt = Some w \<longrightarrow> w_witness_type m = w"
    "\<forall>b. ms = Some b \<longrightarrow> w_multisig m = b"
proof -
  obtain n where "n \<in> set NETWORK_DEFINITIONS" "nw = None \<or> nw = Some (n_name n)"
    "m \<in> set (row_matches prefix wt ms (n_name n) (n_prefixes_wif n))"
    using assms unfolding wif_matches_def by (auto split: if_split_asm)
  then show ?thesis
    using that [of "n_prefixes_wif n"] prefix_tables_of_networks
    by (fastforce simp: row_matches_in prefixes_of_in)
qed

lemma wif_matches_private:
  assumes "m \<in> set (wif_matches prefix wt ms nw)" "m' \<in> set (wif_matches prefix wt' ms' nw')"
  shows "w_is_private m = w_is_private m'"
proof -
  obtain r where r: "r \<in> set prefix_table" "prefix \<in> set (prefixes_of (w_is_private m) r)"
    using assms(1) by (rule wif_matches_in)
  obtain r' where r': "r' \<in> set prefix_table" "prefix \<in> set (prefixes_of (w_is_private m') r')"
    using assms(2) by (rule wif_matches_in)
  show ?thesis
    using prefixes_disjoint [unfolded list_all_iff] r r'
    by (cases "w_is_private m"; cases "w_is_private m'") auto
qed

text \<open>
  The row that is chosen from a table has the flags that were asked for, and a prefix of four
  bytes in upper case.
\<close>

definition row_found :: "wif_row list \<Rightarrow> bool \<Rightarrow> string \<Rightarrow> bool \<Rightarrow> bool" where
  "row_found rows ip wt ms =
    (case script_type_default wt ms True of
       Inl _ \<Rightarrow> True
     | Inr st \<Rightarrow> (case found_rows rows ip (wif_script_type st wt ms) of
                    [] \<Rightarrow> True
                  | (pf, pstr, i, m, w, s) # _ \<Rightarrow> m = ms \<and> w = wt \<and> (i = ''private'') = ip))"

definition rows_found :: "wif_row list \<Rightarrow> bool" where
  "rows_found rows = list_all (\<lambda>wt. row_found rows True wt True \<and> row_found rows True wt False \<and>
      row_found rows False wt True \<and> row_found rows False wt False)
    [''legacy'', ''segwit'', ''p2sh-segwit'']"

lemma tables_found: "list_all rows_found prefix_table"
  by (simp add: prefix_table_def rows_found_def row_found_def found_rows_def script_type_default_def
      wif_script_type_def prefix_tables)

definition upper_hex :: "string \<Rightarrow> bool" where
  "upper_hex pf = (case fromhex (codes pf) of
     None \<Rightarrow> False | Some b \<Rightarrow> length b = 4 \<and> map upper_char (hex_of b) = pf)"

lemma tables_hex: "list_all (\<lambda>rows. list_all upper_hex (remdups (map fst rows))) prefix_table"
  by (simp add: prefix_table_def prefix_tables upper_hex_def codes_def digit_val_def ascii_space_def
      hex_of_def hex_char_def upper_char_def char_of_eq_iff)

lemma script_type_default_types:
  "script_type_default wt ms l = Inr st \<Longrightarrow> wt \<in> set [''legacy'', ''segwit'', ''p2sh-segwit'']"
  by (auto simp: script_type_default_def split: if_split_asm)

lemma wif_prefix_found:
  assumes "n \<in> set NETWORK_DEFINITIONS" "wif_prefix n ip wt ms = Inr p"
  shows "length p = 4" "\<exists>m \<in> set (wif_matches (map upper_char (hex_of p)) (Some wt) (Some ms)
    (Some (n_name n))). w_is_private m = ip"
proof -
  let ?rows = "n_prefixes_wif n"
  have t: "?rows \<in> set prefix_table" using assms(1) prefix_tables_of_networks by auto
  obtain st where st: "script_type_default wt ms True = Inr st"
    and c: "(case found_rows ?rows ip (wif_script_type st wt ms) of
        [] \<Rightarrow> Inl NetworkError
      | (pf, _) # _ \<Rightarrow> (case fromhex (codes pf) of None \<Rightarrow> Inl ValueError | Some b \<Rightarrow> Inr b)) = Inr p"
    using assms(2) by (auto simp: wif_prefix_def row_prefix_def bindE_Inr_iff)
  then obtain pf pstr i m w s rs where f: "found_rows ?rows ip (wif_script_type st wt ms) = (pf, pstr, i, m, w, s) # rs"
    and p: "fromhex (codes pf) = Some p"
    by (auto split: list.splits option.splits)
  have "(pf, pstr, i, m, w, s) \<in> set (found_rows ?rows ip (wif_script_type st wt ms))" using f by simp
  then have r: "(pf, pstr, i, m, w, s) \<in> set ?rows" unfolding found_rows_def set_filter by blast
  have "upper_hex pf" using tables_hex t r by (force simp: list_all_iff)
  then have u: "length p = 4" "map upper_char (hex_of p) = pf" using p by (simp_all add: upper_hex_def)
  have "wt \<in> set [''legacy'', ''segwit'', ''p2sh-segwit'']" using st by (rule script_type_default_types)
  moreover have "rows_found ?rows" using tables_found t by (simp add: list_all_iff)
  ultimately have "row_found ?rows ip wt ms" by (cases ip; cases ms) (auto simp: rows_found_def)
  then have "m = ms" "w = wt" "(i = ''private'') = ip" using st f by (simp_all add: row_found_def)
  then have "\<exists>m \<in> set (row_matches pf (Some wt) (Some ms) (n_name n) ?rows). w_is_private m = ip"
    using r by (force simp: row_matches_in)
  then show "length p = 4" "\<exists>m \<in> set (wif_matches (map upper_char (hex_of p)) (Some wt) (Some ms)
    (Some (n_name n))). w_is_private m = ip"
    using u assms(1) unfolding wif_matches_def by auto
qed

section \<open>Properties\<close>

text \<open>The prefix that \<^verbatim>\<open>Network.wif_prefix\<close> chooses for an extended key has four bytes and is
  found again by \<^verbatim>\<open>wif_prefix_search\<close> with the network, witness type and multisig flag, and
  without these filters too every match says correctly whether the key is private.\<close>

theorem wif_prefix_recovered:
  assumes "n \<in> set NETWORK_DEFINITIONS" "wif_prefix n is_private witness_type multisig = Inr p"
  shows "length p = 4 \<and>
    (\<exists>M. wif_prefix_search (hex_of p) (Some witness_type) (Some multisig) (Some (n_name n)) = Inr M \<and>
      M \<noteq> [] \<and> (\<forall>m \<in> set M. w_network m = n_name n \<and> w_witness_type m = witness_type \<and>
        w_multisig m = multisig \<and> w_is_private m = is_private)) \<and>
    (\<forall>wt ms nw M. wif_prefix_search (hex_of p) wt ms nw = Inr M \<longrightarrow>
      (\<forall>m \<in> set M. w_is_private m = is_private))"
proof -
  let ?f = "wif_matches (map upper_char (hex_of p))"
  note f = wif_prefix_found [OF assms]
  then obtain m where m: "m \<in> set (?f (Some witness_type) (Some multisig) (Some (n_name n)))"
    "w_is_private m = is_private" by blast
  have s: "wif_prefix_search (hex_of p) wt ms nw = Inr (?f wt ms nw)" for wt ms nw
    using f(1) by (simp add: wif_prefix_search_def wif_key_hex_def)
  have p: "w_is_private m' = is_private" if "m' \<in> set (?f wt ms nw)" for wt ms nw m'
    using wif_matches_private [OF m(1) that] m(2) by simp
  have "w_network m' = n_name n \<and> w_witness_type m' = witness_type \<and> w_multisig m' = multisig"
    if "m' \<in> set (?f (Some witness_type) (Some multisig) (Some (n_name n)))" for m'
    using that by (rule wif_matches_in) simp
  moreover have "?f (Some witness_type) (Some multisig) (Some (n_name n)) \<noteq> []" using m(1) by auto
  ultimately show ?thesis unfolding s using f(1) p by auto
qed

text \<open>Version bytes of the two kinds of base58 addresses never coincide.\<close>

lemma address_prefix_tables:
  "map n_prefix_address NETWORK_DEFINITIONS =
    [''90'', ''00'', ''6F'', ''6F'', ''6F'', ''00'', ''30'', ''30'', ''6F'', ''1E'', ''71'']"
  "map n_prefix_address_p2sh NETWORK_DEFINITIONS =
    [''95'', ''05'', ''C4'', ''C4'', ''C4'', ''05'', ''32'', ''05'', ''3A'', ''16'', ''C4'']"
  by (simp_all add: NETWORK_DEFINITIONS_def)

theorem wif_prefix_recovered_witness:
  "\<exists>p M. wif_prefix (NETWORK_DEFINITIONS ! 1) True ''segwit'' True = Inr p \<and>
    wif_prefix_search (hex_of p) (Some ''segwit'') (Some True) (Some ''bitcoin'') = Inr M \<and> M \<noteq> [] \<and>
    (\<forall>m \<in> set M. w_is_private m)"
proof -
  have n: "NETWORK_DEFINITIONS ! 1 \<in> set NETWORK_DEFINITIONS" "n_name (NETWORK_DEFINITIONS ! 1) = ''bitcoin''"
    "n_prefixes_wif (NETWORK_DEFINITIONS ! 1) = bitcoin_prefixes"
    by (simp_all add: NETWORK_DEFINITIONS_def)
  have "is_ok (row_prefix bitcoin_prefixes True ''segwit'' True)" by code_simp
  then obtain p where "row_prefix bitcoin_prefixes True ''segwit'' True = Inr p"
    by (cases "row_prefix bitcoin_prefixes True ''segwit'' True") simp_all
  then have p: "wif_prefix (NETWORK_DEFINITIONS ! 1) True ''segwit'' True = Inr p"
    by (simp only: wif_prefix_def n(3))
  from wif_prefix_recovered [OF n(1) p] p n(2) show ?thesis by auto
qed

end
