(* ===== verification/Key_Format.thy ===== *)
theory Key_Format
  imports Networks Addr
begin

text \<open>
  Recognising keys and addresses: \<^verbatim>\<open>get_key_format\<close>, \<^verbatim>\<open>check_network_and_key\<close>,
  \<^verbatim>\<open>deserialize_address\<close> and \<^verbatim>\<open>addr_convert\<close> of \<^verbatim>\<open>bitcoinlib/keys.py\<close>.
\<close>

section \<open>Addresses\<close>

record address_info =
  ai_address :: string
  ai_encoding :: string
  ai_hash :: bytes
  ai_prefix :: pyval
  ai_network :: "string option"
  ai_script_type :: string
  ai_witness_type :: string
  ai_networks :: "string list"
  ai_checksum :: pyval
  ai_witver :: "int option"
  ai_raw :: bytes

text \<open>
  The base58 half, on the 25 or more decoded bytes: \<open>None\<close> when the checksum is wrong and the
  other encoding may be tried. An empty network name counts as none.
\<close>

definition deserialize_base58 ::
  "hash_fun \<Rightarrow> string \<Rightarrow> bytes \<Rightarrow> string option \<Rightarrow> string option \<Rightarrow> address_info option res" where
  "deserialize_base58 sha256 address address_bytes encoding network =
    (let check = last_n 4 address_bytes;
         key_hash = but_last_n 4 address_bytes;
         checksum = take 4 (double_sha256 sha256 key_hash)
     in if check \<noteq> checksum
        then (if encoding = Some ''base58'' then Inl BKeyError else Inr None)
        else
         let address_prefix = take 1 key_hash;
             networks_p2pkh = network_by_value n_prefix_address (hex_of address_prefix);
             networks_p2sh = network_by_value n_prefix_address_p2sh (hex_of address_prefix);
             (script_type, witness_type, networks) =
               (if networks_p2pkh \<noteq> [] \<and> networks_p2sh = []
                then (''p2pkh'', ''legacy'', networks_p2pkh)
                else if networks_p2sh \<noteq> [] then (''p2sh'', '''', networks_p2sh)
                else ('''', '''', []));
             given = (case network of None \<Rightarrow> False | Some n \<Rightarrow> n \<noteq> [])
         in if given \<and> the network \<notin> set networks then Inl BKeyError
            else Inr (Some \<lparr>ai_address = address, ai_encoding = ''base58'', ai_hash = drop 1 key_hash,
                   ai_prefix = PBytes address_prefix,
                   ai_network = (if given \<or> networks = [] then network else Some (hd networks)),
                   ai_script_type = script_type, ai_witness_type = witness_type,
                   ai_networks = networks, ai_checksum = PBytes checksum, ai_witver = None,
                   ai_raw = address_bytes\<rparr>))"

definition deserialize_bech32 :: "string \<Rightarrow> address_info res" where
  "deserialize_bech32 address =
    bindE (addr_bech32_to_pubkeyhash address None True False) (\<lambda>r.
      case r of
        PBytes pkh_incl \<Rightarrow>
          (let public_key_hash = drop 2 pkh_incl;
               witver = (if hd pkh_incl \<noteq> 0 then int (unat (hd pkh_incl)) - 0x50 else 0);
               prefix = (case rfind_1 address of None \<Rightarrow> butlast address | Some i \<Rightarrow> take i address);
               networks = network_by_value n_prefix_bech32 prefix
           in bindE (addr_bech32_checksum address) (\<lambda>checksum.
                Inr \<lparr>ai_address = address, ai_encoding = ''bech32'', ai_hash = public_key_hash,
                     ai_prefix = PStr prefix,
                     ai_network = Some (case networks of [] \<Rightarrow> '''' | n # _ \<Rightarrow> n),
                     ai_script_type = (if length public_key_hash = 20 then ''p2wpkh''
                                       else if witver = 0 then ''p2wsh'' else ''p2tr''),
                     ai_witness_type = (if witver = 0 then ''segwit'' else ''taproot''),
                     ai_networks = networks, ai_checksum = PInt checksum, ai_witver = Some witver,
                     ai_raw = pkh_incl\<rparr>))
      | _ \<Rightarrow> Inl TypeError)"

definition deserialize_address ::
  "hash_fun \<Rightarrow> string \<Rightarrow> string option \<Rightarrow> string option \<Rightarrow> address_info res" where
  "deserialize_address sha256 address encoding network =
    bindE (if encoding = None \<or> encoding = Some ''base58''
           then (case change_base (PStr address) 58 256 25 None None of
                   Inl e \<Rightarrow> if e = EncodingError then Inr None else Inl e
                 | Inr (PBytes b) \<Rightarrow> deserialize_base58 sha256 address b encoding network
                 | Inr _ \<Rightarrow> Inl TypeError)
           else Inr None) (\<lambda>found.
      case found of
        Some a \<Rightarrow> Inr a
      | None \<Rightarrow> if encoding = Some ''bech32'' \<or> encoding = None then deserialize_bech32 address
                else Inl EncodingError)"

definition addr_convert ::
  "hash_fun \<Rightarrow> string \<Rightarrow> pyval \<Rightarrow> string option \<Rightarrow> string option \<Rightarrow> string res" where
  "addr_convert sha256 addr prefix encoding to_encoding =
    bindE (case encoding of
             Some e \<Rightarrow> Inr e
           | None \<Rightarrow> bindE (deserialize_address sha256 addr None None) (\<lambda>da. Inr (ai_encoding da))) (\<lambda>enc.
    bindE (addr_to_pubkeyhash sha256 addr False (Some enc)) (\<lambda>pkh.
      let to_enc = (case to_encoding of None \<Rightarrow> enc | Some e \<Rightarrow> e)
      in bindE (if to_enc = ''base58''
                then (case prefix of
                        PStr p \<Rightarrow> bindE (to_hexstring (PStr p)) (\<lambda>h. Inr (PStr h))
                      | _ \<Rightarrow> Inr prefix)
                else Inr prefix) (\<lambda>p.
         case pkh of
           None \<Rightarrow> Inl AttributeError
         | Some h \<Rightarrow> pubkeyhash_to_addr sha256 h (Some p) to_enc 0)))"

section \<open>Key formats\<close>

text \<open>What a caller may pass as a key.\<close>

datatype key_input = KInt int | KPoint nat nat | KBytes bytes | KStr string

text \<open>The networks of a key: none known, a list, or for an address one name.\<close>

datatype key_networks = NoNetworks | NetworkList "string list" | NetworkName string

record key_format =
  kf_format :: string
  kf_networks :: key_networks
  kf_is_private :: "bool option"
  kf_script_types :: "string list"
  kf_witness_types :: "string list"
  kf_multisig :: "bool list"

text \<open>\<^verbatim>\<open>list(dict.fromkeys(xs))\<close>: the first occurrence of every element.\<close>

fun from_keys :: "'a list \<Rightarrow> 'a list" where
  "from_keys [] = []"
| "from_keys (x # xs) = x # filter (\<lambda>y. y \<noteq> x) (from_keys xs)"

text \<open>
  The formats recognised by length and first characters; the Booleans say private or public.
  \<open>None\<close> means that none of them applies.
\<close>

definition plain_format :: "key_input \<Rightarrow> bool option \<Rightarrow> (string \<times> bool) option" where
  "plain_format key is_private =
    (case key of
       KInt _ \<Rightarrow> Some (''decimal'', True)
     | KPoint _ _ \<Rightarrow> Some (''point'', False)
     | KBytes b \<Rightarrow>
         if length b \<in> {33, 65} \<and> (take 1 b = [2] \<or> take 1 b = [3]) then Some (''bin_compressed'', False)
         else if length b \<in> {33, 65} \<and> take 1 b = [4] then Some (''bin'', False)
         else if length b = 33 \<and> last_n 1 b = [1] then Some (''bin_compressed'', True)
         else if length b = 32 then Some (''bin'', True)
         else if length b = 128 then Some (''hex'', is_private \<noteq> Some False)
         else if length b = 64 then Some (''hex'', is_private \<noteq> Some False)
         else None
     | KStr s \<Rightarrow>
         if length s = 130 \<and> take 2 s = ''04'' \<and> is_private \<noteq> Some True
         then Some (''public_uncompressed'', False)
         else if length s = 128 then Some (''hex'', is_private \<noteq> Some False)
         else if length s = 66 \<and> take 2 s \<in> {''02'', ''03''} \<and> is_private \<noteq> Some True
         then Some (''public'', False)
         else if length s = 64 then Some (''hex'', is_private \<noteq> Some False)
         else if length s = 66 \<and> drop 64 s = ''01'' \<and> is_private \<noteq> Some False
         then Some (''hex_compressed'', True)
         else if length s = 58 \<and> take 2 s = ''6P'' then Some (''wif_protected'', True)
         else if CHR '' '' \<in> set s then Some (''mnemonic'', True)
         else None)"

definition key_pyval :: "key_input \<Rightarrow> pyval" where
  "key_pyval key = (case key of KStr s \<Rightarrow> PStr s | KBytes b \<Rightarrow> PBytes b | KInt i \<Rightarrow> PInt i
                    | KPoint x y \<Rightarrow> PList [int x, int y])"

text \<open>The extended keys and the keys in import format, by the prefix of the decoded bytes.\<close>

definition wif_format :: "string \<Rightarrow> bool option \<Rightarrow> key_format option res" where
  "wif_format key_hex is_private =
    (let prefix_data = wif_matches (map upper_char (take 8 key_hex)) None None None
     in case prefix_data of
          m # _ \<Rightarrow>
            if is_private = None \<and> length (from_keys (map w_is_private prefix_data)) > 1 then Inl BKeyError
            else Inr (Some \<lparr>kf_format = (if w_is_private m then ''hdkey_private'' else ''hdkey_public''),
                   kf_networks = NetworkList (from_keys (map w_network prefix_data)),
                   kf_is_private = Some (w_is_private m),
                   kf_script_types = from_keys (map w_script_type prefix_data),
                   kf_witness_types = from_keys (map w_witness_type prefix_data),
                   kf_multisig = from_keys (map w_multisig prefix_data)\<rparr>)
        | [] \<Rightarrow>
            (let networks = network_by_value n_prefix_wif (take 2 key_hex)
             in if networks = [] then Inr None
                else Inr (Some \<lparr>kf_format = (if take 2 (last_n 10 key_hex) = ''01'' \<and> length key_hex \<ge> 10
                                            then ''wif_compressed'' else ''wif''),
                       kf_networks = NetworkList networks, kf_is_private = Some True,
                       kf_script_types = [], kf_witness_types = [''segwit''], kf_multisig = [False]\<rparr>)))"

definition plain_key_format :: "string \<Rightarrow> key_networks \<Rightarrow> bool option \<Rightarrow> string list \<Rightarrow> key_format" where
  "plain_key_format fmt networks is_private script_types =
    \<lparr>kf_format = fmt, kf_networks = networks, kf_is_private = is_private,
     kf_script_types = script_types, kf_witness_types = [''segwit''], kf_multisig = [False]\<rparr>"

definition key_empty :: "key_input \<Rightarrow> bool" where
  "key_empty key = (case key of KInt i \<Rightarrow> i = 0 | KBytes b \<Rightarrow> b = [] | KStr s \<Rightarrow> s = [] | KPoint _ _ \<Rightarrow> False)"

text \<open>
  Decimal text of 71 to 77 characters, and then addresses, when nothing else was recognised. A
  byte string can only be a base58 address.
\<close>

definition key_address :: "hash_fun \<Rightarrow> key_input \<Rightarrow> address_info res" where
  "key_address sha256 key =
    (case key of
       KStr s \<Rightarrow> deserialize_address sha256 s None None
     | KBytes b \<Rightarrow>
         bindE (change_base (PBytes b) 58 256 25 None None) (\<lambda>v.
           case v of
             PBytes a \<Rightarrow> bindE (deserialize_base58 sha256 [] a None None) (\<lambda>r.
                           case r of Some da \<Rightarrow> Inr da | None \<Rightarrow> Inl TypeError)
           | _ \<Rightarrow> Inl TypeError)
     | _ \<Rightarrow> Inl TypeError)"

definition key_text :: "key_input \<Rightarrow> bytes \<times> nat" where
  "key_text key = (case key of KStr s \<Rightarrow> (utf8_encode s, length s) | KBytes b \<Rightarrow> (b, length b) | _ \<Rightarrow> ([], 0))"

definition last_format :: "hash_fun \<Rightarrow> key_input \<Rightarrow> key_format res" where
  "last_format sha256 key =
    (let (b, len) = key_text key
     in if py_int 10 b \<noteq> None \<and> 70 < len \<and> len < 78
        then Inr (plain_key_format ''decimal'' NoNetworks (Some True) [])
        else (case key_address sha256 key of
                Inr da \<Rightarrow> Inr (plain_key_format ''address''
                            (case ai_network da of None \<Rightarrow> NoNetworks | Some n \<Rightarrow> NetworkName n)
                            (Some False) [ai_script_type da])
              | Inl e \<Rightarrow> if e \<in> {EncodingError, TypeError} then Inl BKeyError else Inl e))"

definition get_key_format :: "hash_fun \<Rightarrow> key_input \<Rightarrow> bool option \<Rightarrow> key_format res" where
  "get_key_format sha256 key is_private =
    (if key_empty key then Inl BKeyError
     else case plain_format key is_private of
            Some (fmt, p) \<Rightarrow> Inr (plain_key_format fmt NoNetworks (Some p) [])
          | None \<Rightarrow>
              bindE (case change_base (key_pyval key) 58 16 0 None None of
                       Inr (PStr key_hex) \<Rightarrow> wif_format key_hex is_private
                     | Inr _ \<Rightarrow> Inr None
                     | Inl e \<Rightarrow> if e \<in> {TypeError, EncodingError} then Inr None else Inl e) (\<lambda>w.
                case w of Some kf \<Rightarrow> Inr kf | None \<Rightarrow> last_format sha256 key))"

text \<open>
  \<^verbatim>\<open>check_network_and_key\<close> for a list of networks or none; \<open>key\<close> is looked at when no list
  is given.
\<close>

definition choose_network :: "string list \<Rightarrow> string option \<Rightarrow> string \<Rightarrow> string res" where
  "choose_network networks network default_network =
    (case network of
       Some n \<Rightarrow> if networks \<noteq> [] \<and> n \<notin> set networks then Inl BKeyError else Inr n
     | None \<Rightarrow>
         if networks = [] then Inr default_network
         else if length networks = 1 then Inr (hd networks)
         else if default_network \<in> set networks then Inr default_network
         else if ''testnet'' \<in> set networks then Inr ''testnet''
         else Inl BKeyError)"

end
