(* ===== verification/Keys.thy ===== *)
theory Keys
  imports Key_Format Signature
begin

text \<open>
  The class \<^verbatim>\<open>Key\<close> of \<^verbatim>\<open>bitcoinlib/keys.py\<close> and \<^verbatim>\<open>mod_sqrt\<close>. The multiplication of the
  generator, the addition of points, HMAC-SHA512, the random number of a new key and the random bytes
  of a new seed come from other packages and are arguments, collected in a record.
\<close>

record curve =
  e_point :: "nat \<Rightarrow> nat \<times> nat"
  e_add :: "nat \<times> nat \<Rightarrow> nat \<times> nat \<Rightarrow> nat \<times> nat"
  e_hmac512 :: "bytes \<Rightarrow> bytes \<Rightarrow> bytes"
  e_random :: nat
  e_urandom :: bytes

text \<open>
  A key. An absent private key is an empty byte string; the second coordinate is \<open>None\<close> until it
  has been computed from the first. The hexadecimal renderings are those of the byte strings.
\<close>

record key =
  k_is_private :: bool
  k_secret :: "nat option"
  k_private :: bytes
  k_public :: bytes
  k_public_compressed :: bytes
  k_x :: nat
  k_y :: "nat option"
  k_compressed :: bool
  k_network :: string

section \<open>Square roots modulo the prime of the curve\<close>

definition secp256k1_p :: nat where
  "secp256k1_p = 0xFFFFFFFFFFFFFFFFFFFFFFFFFFFFFFFFFFFFFFFFFFFFFFFFFFFFFFFEFFFFFC2F"

text \<open>\<^verbatim>\<open>pow(a, e, m)\<close>\<close>

fun pow_mod :: "nat \<Rightarrow> nat \<Rightarrow> nat \<Rightarrow> nat" where
  "pow_mod a e m =
    (if e = 0 then 1 mod m
     else let h = pow_mod (a * a mod m) (e div 2) m in if odd e then a * h mod m else h)"

declare pow_mod.simps [simp del]

definition mod_sqrt :: "nat \<Rightarrow> nat" where
  "mod_sqrt a = pow_mod a
    (28948022309329048855892746252171976963317496166410141009864396001977208667915 + 1) secp256k1_p"

text \<open>The second coordinate, computed from the first and the parity that the prefix says.\<close>

definition decompress :: "nat \<Rightarrow> bool \<Rightarrow> nat" where
  "decompress x sign =
    (let ys = pow_mod x 3 secp256k1_p + 7;
         y = mod_sqrt ys
     in if odd y \<noteq> sign then secp256k1_p - y else y)"

definition key_y :: "'a key_scheme \<Rightarrow> nat" where
  "key_y k = (case k_y k of
                Some y \<Rightarrow> y
              | None \<Rightarrow> decompress (k_x k) (take 1 (k_public k) = [3]))"

section \<open>Construction\<close>

text \<open>Coordinates and secrets as 64 hexadecimal digits, and the bytes that \<^verbatim>\<open>fromhex\<close> makes of them.\<close>

definition hex64 :: "nat \<Rightarrow> string" where
  "hex64 n = zfill 64 (hex_tail (int n))"

definition unhex :: "string \<Rightarrow> bytes res" where
  "unhex s = (case fromhex (codes s) of Some b \<Rightarrow> Inr b | None \<Rightarrow> Inl ValueError)"

text \<open>A public key given as a point.\<close>

definition key_of_point :: "nat \<Rightarrow> nat \<Rightarrow> bool \<Rightarrow> string \<Rightarrow> key res" where
  "key_of_point x y compressed network =
    bindE (int_to_be 32 (int x)) (\<lambda>xb. bindE (int_to_be 32 (int y)) (\<lambda>yb.
      let pc = (if odd y then 3 else 2) # xb
      in Inr \<lparr>k_is_private = False, k_secret = None, k_private = [],
              k_public = (if compressed then pc else 4 # xb @ yb), k_public_compressed = pc,
              k_x = x, k_y = Some y, k_compressed = compressed, k_network = network\<rparr>))"

text \<open>A public key given in hexadecimal; 130 digits are an uncompressed key.\<close>

definition key_of_public :: "string \<Rightarrow> string \<Rightarrow> key res" where
  "key_of_public pub_key network =
    (let x_hex = slice 2 66 pub_key; y_hex = slice 66 130 pub_key
     in if length pub_key = 130
        then (case (py_int 16 (utf8_encode y_hex), py_int 16 (utf8_encode x_hex)) of
                (Some y, Some x) \<Rightarrow>
                  bindE (unhex ((if y mod 2 \<noteq> 0 then ''03'' else ''02'') @ x_hex)) (\<lambda>pc.
                  bindE (unhex pub_key) (\<lambda>pu.
                    Inr \<lparr>k_is_private = False, k_secret = None, k_private = [], k_public = pu,
                         k_public_compressed = pc, k_x = nat x, k_y = Some (nat y),
                         k_compressed = False, k_network = network\<rparr>))
              | _ \<Rightarrow> Inl ValueError)
        else (case py_int 16 (utf8_encode x_hex) of
                None \<Rightarrow> Inl ValueError
              | Some x \<Rightarrow>
                  bindE (unhex pub_key) (\<lambda>pc.
                    Inr \<lparr>k_is_private = False, k_secret = None, k_private = [], k_public = pc,
                         k_public_compressed = pc, k_x = nat x, k_y = None,
                         k_compressed = True, k_network = network\<rparr>)))"

text \<open>The private bytes of a key in one of the formats, and whether the key is compressed.\<close>

definition wif_private_bytes :: "hash_fun \<Rightarrow> key_input \<Rightarrow> (bytes \<times> bool) res" where
  "wif_private_bytes sha256 import_key =
    bindE (change_base (key_pyval import_key) 58 256 0 None None) (\<lambda>v.
      case v of
        PBytes d \<Rightarrow>
          (let checksum = last_n 4 d; key = but_last_n 4 d
           in if checksum \<noteq> take 4 (double_sha256 sha256 key) then Inl BKeyError
              else if network_by_value n_prefix_wif (hex_of (take 1 key)) = [] then Inl BKeyError
              else if last_n 1 key = [1] then Inr (drop 1 (but_last_n 1 key), True)
              else Inr (drop 1 key, False))
      | _ \<Rightarrow> Inl TypeError)"

definition private_bytes :: "hash_fun \<Rightarrow> key_input \<Rightarrow> string \<Rightarrow> bool \<Rightarrow> (bytes \<times> bool) res" where
  "private_bytes sha256 import_key fmt compressed =
    (if fmt = ''hex''
     then (case import_key of KStr s \<Rightarrow> bindE (unhex s) (\<lambda>b. Inr (b, compressed)) | _ \<Rightarrow> Inl TypeError)
     else if fmt = ''hex_compressed''
     then (case import_key of KStr s \<Rightarrow> bindE (unhex (but_last_n 2 s)) (\<lambda>b. Inr (b, True)) | _ \<Rightarrow> Inl TypeError)
     else if fmt = ''bin''
     then (case import_key of KBytes b \<Rightarrow> Inr (b, compressed) | _ \<Rightarrow> Inl AttributeError)
     else if fmt = ''bin_compressed''
     then (case import_key of
             KBytes b \<Rightarrow> Inr (if length b \<in> {33, 65, 129} \<and> last_n 1 b = [1] then but_last_n 1 b else b, True)
           | _ \<Rightarrow> Inl AttributeError)
     else if fmt = ''wif'' \<or> fmt = ''wif_compressed'' then wif_private_bytes sha256 import_key
     else Inl BKeyError)"

text \<open>A private key: its public half is computed on the curve.\<close>

definition key_of_secret :: "curve \<Rightarrow> nat \<Rightarrow> bytes \<Rightarrow> bool \<Rightarrow> string \<Rightarrow> key res" where
  "key_of_secret E secret private compressed network =
    (let (x, y) = e_point E secret
     in bindE (unhex ((if odd y then ''03'' else ''02'') @ hex64 x)) (\<lambda>pc.
        bindE (unhex (''04'' @ hex64 x @ hex64 y)) (\<lambda>pu.
          Inr \<lparr>k_is_private = True, k_secret = Some secret, k_private = private,
               k_public = (if compressed then pc else pu), k_public_compressed = pc,
               k_x = x, k_y = Some y, k_compressed = compressed, k_network = network\<rparr>)))"

text \<open>\<^verbatim>\<open>Key.__init__\<close> behind the recognition of the format and the network.\<close>

definition key_of_format ::
  "crypto \<Rightarrow> curve \<Rightarrow> key_input \<Rightarrow> string \<Rightarrow> bool \<Rightarrow> bool \<Rightarrow> string \<Rightarrow> key res" where
  "key_of_format C E import_key fmt is_private compressed network =
    (if \<not> is_private
     then (case import_key of
             KPoint x y \<Rightarrow> key_of_point x y compressed network
           | _ \<Rightarrow> bindE (to_hexstring (key_pyval import_key)) (\<lambda>h. key_of_public h network))
     else if fmt = ''decimal''
     then (case (case import_key of KInt i \<Rightarrow> Some i | _ \<Rightarrow> py_int 10 (fst (key_text import_key))) of
             None \<Rightarrow> Inl ValueError
           | Some i \<Rightarrow>
               bindE (unhex (zfill 64 (hex_tail i))) (\<lambda>b. key_of_secret E (nat i) b compressed network))
     else bindE (private_bytes (c_sha256 C) import_key fmt compressed) (\<lambda>(b, comp).
            if b = [] then Inl BKeyError else key_of_secret E (be_val b) b comp network))"

text \<open>
  \<^verbatim>\<open>Key.__init__\<close>. \<open>protected\<close> stands for \<^verbatim>\<open>_bip38_decrypt\<close>: the private bytes of a password
  protected key and whether it is compressed.
\<close>

definition key_network :: "key_networks \<Rightarrow> string option \<Rightarrow> string res" where
  "key_network networks network =
    (case network of
       Some n \<Rightarrow> Inr n
     | None \<Rightarrow> (case networks of
                 NetworkList (n # ns) \<Rightarrow> choose_network (n # ns) None ''bitcoin''
               | _ \<Rightarrow> Inr ''bitcoin''))"

definition key_init ::
  "crypto \<Rightarrow> curve \<Rightarrow> (string \<Rightarrow> (bytes \<times> bool) res) \<Rightarrow> key_input \<Rightarrow> string option \<Rightarrow> bool \<Rightarrow> bool option
    \<Rightarrow> bool \<Rightarrow> key res" where
  "key_init C E protected import_key network compressed is_private strict =
    bindE (if key_empty import_key
           then (if is_private = Some False then Inl AssertionError
                 else Inr (KInt (int (e_random E)), ''decimal'', NoNetworks, True))
           else (case get_key_format (c_sha256 C) import_key is_private of
                   Inl e \<Rightarrow> if e \<noteq> BKeyError then Inl e
                            else if strict then Inl BKeyError
                            else Inr (import_key, '''', NoNetworks, False)
                 | Inr kf \<Rightarrow> if kf_format kf = ''address'' then Inl BKeyError
                            else if is_private = Some True
                            then Inr (import_key, kf_format kf, kf_networks kf, True)
                            else (case kf_is_private kf of
                                    None \<Rightarrow> Inl BKeyError
                                  | Some p \<Rightarrow> Inr (import_key, kf_format kf, kf_networks kf, p))))
      (\<lambda>(ik, fmt, networks, priv).
    bindE (bindE (key_network networks network) network_named) (\<lambda>nw.
    bindE (if fmt = ''wif_protected''
           then (case ik of
                   KStr s \<Rightarrow> bindE (protected s) (\<lambda>(b, comp).
                     Inr (KBytes b, if comp then ''bin_compressed'' else ''bin'', comp))
                 | _ \<Rightarrow> Inl TypeError)
           else Inr (ik, fmt, compressed)) (\<lambda>(ik1, fmt1, comp1).
      key_of_format C E ik1 fmt1 priv comp1 (n_name nw))))"

section \<open>Operations\<close>

definition key_uncompressed :: "'a key_scheme \<Rightarrow> bytes" where
  "key_uncompressed k = 4 # be_bytes 32 (k_x k) @ be_bytes 32 (key_y k)"

definition public_point :: "'a key_scheme \<Rightarrow> nat \<times> nat" where
  "public_point k = (k_x k, key_y k)"

definition key_hash160 :: "crypto \<Rightarrow> 'a key_scheme \<Rightarrow> bytes" where
  "key_hash160 C k = hash160 (c_ripemd160 C) (c_sha256 C)
    (if k_compressed k then k_public k else key_uncompressed k)"

text \<open>\<^verbatim>\<open>Key.public\<close>\<close>

definition key_public :: "'a key_scheme \<Rightarrow> 'a key_scheme" where
  "key_public k = k\<lparr>k_is_private := False, k_private := [], k_secret := None\<rparr>"

text \<open>\<^verbatim>\<open>Key.wif\<close>; a version byte given by the caller is already bytes.\<close>

definition key_wif :: "crypto \<Rightarrow> 'a key_scheme \<Rightarrow> bytes option \<Rightarrow> string res" where
  "key_wif C k prefix =
    (case k_secret k of
       None \<Rightarrow> Inl BKeyError
     | Some secret \<Rightarrow>
         if secret = 0 then Inl BKeyError
         else bindE (case prefix of
                Some p \<Rightarrow> Inr p
              | None \<Rightarrow> bindE (network_named (k_network k)) (\<lambda>n. unhex (n_prefix_wif n))) (\<lambda>versionbyte.
              bindE (int_to_be 32 (int secret)) (\<lambda>s.
                let key = versionbyte @ s @ (if k_compressed k then [1] else [])
                in Inr (base58encode (key @ take 4 (double_sha256 (c_sha256 C) key))))))"

text \<open>\<^verbatim>\<open>Key.from_wif\<close>\<close>

definition key_from_wif :: "crypto \<Rightarrow> curve \<Rightarrow> (string \<Rightarrow> (bytes \<times> bool) res) \<Rightarrow> string \<Rightarrow> string option \<Rightarrow> key res" where
  "key_from_wif C E protected wif network =
    bindE (change_base (PStr wif) 58 16 0 None None) (\<lambda>v.
      case v of
        PStr key_hex \<Rightarrow>
          (let networks = network_by_value n_prefix_wif (take 2 key_hex)
           in case networks of
                [] \<Rightarrow> Inl BKeyError
              | n # _ \<Rightarrow> key_init C E protected (KStr wif)
                          (Some (case network of None \<Rightarrow> n | Some nw \<Rightarrow> if nw = [] then n else nw))
                          (take 2 (last_n 10 key_hex) = ''01'') (Some True) True)
      | _ \<Rightarrow> Inl TypeError)"

text \<open>Arithmetic of secrets modulo the order of the curve.\<close>

definition key_arith ::
  "crypto \<Rightarrow> curve \<Rightarrow> (string \<Rightarrow> (bytes \<times> bool) res) \<Rightarrow> (int \<Rightarrow> int \<Rightarrow> int) \<Rightarrow> key \<Rightarrow> key \<Rightarrow> key res" where
  "key_arith C E protected f a b =
    (case (k_secret a, k_secret b) of
       (Some s, Some t) \<Rightarrow>
         key_init C E protected (KInt (f (int s) (int t) mod int secp256k1_n)) (Some (k_network a))
           (k_compressed a) None True
     | _ \<Rightarrow> Inl AssertionError)"

definition key_inverse :: "crypto \<Rightarrow> curve \<Rightarrow> (string \<Rightarrow> (bytes \<times> bool) res) \<Rightarrow> key \<Rightarrow> key res" where
  "key_inverse C E protected k =
    (if k_is_private k
     then (case k_secret k of
             None \<Rightarrow> Inl TypeError
           | Some s \<Rightarrow> key_init C E protected (KInt (int secp256k1_n - int s)) (Some (k_network k))
                        (k_compressed k) None True)
     else (case k_y k of
             None \<Rightarrow> Inl TypeError
           | Some y \<Rightarrow> key_init C E protected
                        (KStr ((if odd y then ''02'' else ''03'') @ hex64 (k_x k)))
                        (Some (k_network k)) (k_compressed k) None True))"

end
