(* ===== verification/HD_Keys.thy ===== *)
theory HD_Keys
  imports Keys "HOL-Library.Sublist"
begin

text \<open>
  The class \<^verbatim>\<open>HDKey\<close> of \<^verbatim>\<open>bitcoinlib/keys.py\<close>: hierarchical deterministic keys, their
  construction, the derivation of children, paths and the extended wallet import format.
\<close>

record hdkey = key +
  h_chain :: "bytes option"
  h_depth :: int
  h_parent_fingerprint :: bytes
  h_child_index :: int
  h_encoding :: string
  h_script_type :: "string option"
  h_witness_type :: string
  h_multisig :: bool
  h_key_type :: string

section \<open>Construction\<close>

text \<open>The keyword arguments of \<^verbatim>\<open>HDKey.__init__\<close>; an absent \<^verbatim>\<open>key\<close> is empty.\<close>

datatype hd_import = NoImport | ImportKey key | ImportInput key_input

record hd_args =
  a_import :: hd_import
  a_key :: bytes
  a_chain :: "bytes option"
  a_depth :: int
  a_parent_fingerprint :: bytes
  a_child_index :: int
  a_is_private :: "bool option"
  a_network :: "string option"
  a_key_type :: string
  a_compressed :: bool
  a_encoding :: "string option"
  a_witness_type :: "string option"
  a_multisig :: bool

definition hd_defaults :: hd_args where
  "hd_defaults = \<lparr>a_import = NoImport, a_key = [], a_chain = None, a_depth = 0,
     a_parent_fingerprint = [0, 0, 0, 0], a_child_index = 0, a_is_private = None, a_network = None,
     a_key_type = ''bip32'', a_compressed = True, a_encoding = None, a_witness_type = None,
     a_multisig = False\<rparr>"

text \<open>\<^verbatim>\<open>check_network_and_key\<close>: an empty list of networks is looked up again from the key.\<close>

definition choose_named :: "string \<Rightarrow> string option \<Rightarrow> string \<Rightarrow> string res" where
  "choose_named name network default_network =
    (case network of
       Some n \<Rightarrow> if sublist n name then Inr n else Inl BKeyError
     | None \<Rightarrow>
         if length name = 1 then Inr name
         else if sublist default_network name then Inr default_network
         else if sublist ''testnet'' name then Inr ''testnet''
         else Inl BKeyError)"

definition check_network_and_key ::
  "hash_fun \<Rightarrow> key_input \<Rightarrow> string option \<Rightarrow> key_networks \<Rightarrow> string \<Rightarrow> string res" where
  "check_network_and_key sha256 key network networks default_network =
    bindE (case networks of
             NetworkList (_ # _) \<Rightarrow> Inr networks
           | NetworkName (_ # _) \<Rightarrow> Inr networks
           | _ \<Rightarrow> bindE (get_key_format sha256 key None) (\<lambda>kf. Inr (kf_networks kf))) (\<lambda>nws.
      case nws of
        NetworkList ns \<Rightarrow> choose_network ns network default_network
      | NetworkName (c # cs) \<Rightarrow> choose_named (c # cs) network default_network
      | _ \<Rightarrow> choose_network [] network default_network)"

text \<open>\<^verbatim>\<open>_key_derivation\<close>; the chain code is the key of the HMAC.\<close>

definition given :: "'a list option \<Rightarrow> bool" where
  "given x = (case x of None \<Rightarrow> False | Some l \<Rightarrow> l \<noteq> [])"

definition bitcoin_seed :: bytes where
  "bitcoin_seed = utf8_encode ''Bitcoin seed''"

definition key_derivation :: "curve \<Rightarrow> bytes option \<Rightarrow> bytes \<Rightarrow> (bytes \<times> bytes) res" where
  "key_derivation E chain seed =
    (let i = e_hmac512 E (if given chain then the chain else bitcoin_seed) seed
     in if secp256k1_n \<le> be_val (take 32 i) then Inl BKeyError
        else Inr (take 32 i, drop 32 i))"

text \<open>
  The first half of \<^verbatim>\<open>__init__\<close>: what is imported, as the arguments it amounts to, the key and the
  script type that the prefix of an extended key says.
\<close>

definition hd_import_format ::
  "crypto \<Rightarrow> (string \<Rightarrow> (bytes \<times> bool) res) \<Rightarrow> hd_args \<Rightarrow> key_input \<Rightarrow> key_format
    \<Rightarrow> (hd_args \<times> key_input) res" where
  "hd_import_format C protected a ik kf =
    (let chain0 = (if given (a_chain a) then a_chain a else Some (replicate 32 0))
     in if kf_format kf \<in> {''hdkey_private'', ''hdkey_public''}
        then bindE (change_base (key_pyval ik) 58 256 0 None None) (\<lambda>v.
          case v of
            PBytes bkey \<Rightarrow>
              (if length bkey \<le> 45 then Inl TypeError
               else
                let public = bkey ! 45 \<noteq> 0
                in Inr (a\<lparr>a_is_private := (if public then Some False else a_is_private a),
                      a_depth := int (unat (bkey ! 4)), a_parent_fingerprint := slice 5 9 bkey,
                      a_child_index := int (be_val (slice 9 13 bkey)),
                      a_chain := Some (slice 13 45 bkey)\<rparr>,
                    KBytes (if public then slice 45 78 bkey else slice 46 78 bkey)))
          | _ \<Rightarrow> Inl TypeError)
        else if kf_format kf = ''mnemonic'' then Inl BKeyError
        else if kf_format kf = ''wif_protected''
        then (case ik of
                KStr s \<Rightarrow> bindE (protected s) (\<lambda>(b, compressed).
                  Inr (a\<lparr>a_compressed := compressed, a_chain := chain0, a_key_type := ''private''\<rparr>, KBytes b))
              | _ \<Rightarrow> Inl TypeError)
        else Inr (a\<lparr>a_chain := chain0, a_is_private := kf_is_private kf,
                    a_key_type := (if kf_is_private kf = Some True then ''private'' else ''public'')\<rparr>, ik))"

definition single :: "'a list \<Rightarrow> 'a option" where
  "single xs = (case xs of [x] \<Rightarrow> Some x | _ \<Rightarrow> None)"

definition hd_import_key ::
  "crypto \<Rightarrow> (string \<Rightarrow> (bytes \<times> bool) res) \<Rightarrow> hd_args \<Rightarrow> key_input
    \<Rightarrow> (hd_args \<times> key_input \<times> string option) res" where
  "hd_import_key C protected a ik =
    bindE (get_key_format (c_sha256 C) ik (a_is_private a)) (\<lambda>kf.
      if kf_format kf = ''address'' then Inl BKeyError
      else
       bindE (bindE (check_network_and_key (c_sha256 C) ik (a_network a) (kf_networks kf) ''bitcoin'')
                network_named) (\<lambda>nw.
       let a1 = a\<lparr>a_network := Some (n_name nw),
                  a_witness_type := (if single (kf_witness_types kf) \<noteq> None \<and> \<not> given (a_witness_type a)
                                     then single (kf_witness_types kf) else a_witness_type a),
                  a_multisig := (case single (kf_multisig kf) of Some m \<Rightarrow> m | None \<Rightarrow> a_multisig a)\<rparr>
       in bindE (hd_import_format C protected a1 ik kf) (\<lambda>(a2, key).
            Inr (a2, key, single (kf_script_types kf)))))"

definition hd_resolve ::
  "crypto \<Rightarrow> curve \<Rightarrow> (string \<Rightarrow> (bytes \<times> bool) res) \<Rightarrow> hd_args
    \<Rightarrow> (hd_args \<times> key_input \<times> string option) res" where
  "hd_resolve C E protected a =
    (let generated = bindE (key_derivation E None (e_urandom E)) (\<lambda>(key, chain).
                       Inr (a\<lparr>a_chain := Some chain\<rparr>, KBytes key, None))
     in if a_key a \<noteq> [] then Inr (a, KBytes (a_key a), None)
        else case a_import a of
          NoImport \<Rightarrow> generated
        | ImportKey k \<Rightarrow>
            if k_private k = [] then Inl BKeyError
            else Inr (a\<lparr>a_compressed := a_compressed a \<and> k_compressed k, a_key_type := ''private'',
                        a_chain := (if given (a_chain a) then a_chain a else Some (replicate 32 0))\<rparr>,
                      KBytes (k_private k), None)
        | ImportInput ik \<Rightarrow>
            if key_empty ik then generated
            else (case ik of
                    KBytes b \<Rightarrow> if length b = 64
                               then Inr (a\<lparr>a_chain := Some (drop 32 b)\<rparr>, KBytes (take 32 b), None)
                               else hd_import_key C protected a ik
                  | _ \<Rightarrow> hd_import_key C protected a ik))"

text \<open>\<^verbatim>\<open>HDKey.__init__\<close>\<close>

definition hd_script_type :: "string option \<Rightarrow> string \<Rightarrow> bool \<Rightarrow> string option res" where
  "hd_script_type script_type witness_type multisig =
    (if given script_type then Inr script_type
     else if witness_type = [] then Inr None
     else bindE (script_type_default witness_type multisig False) (\<lambda>s. Inr (Some s)))"

definition hd_extend :: "key \<Rightarrow> hd_args \<Rightarrow> string \<Rightarrow> string \<Rightarrow> string option \<Rightarrow> hdkey" where
  "hd_extend k a witness_type encoding script_type =
    key.extend k (hdkey.fields (a_chain a) (a_depth a) (a_parent_fingerprint a) (a_child_index a)
      encoding script_type witness_type (a_multisig a) (a_key_type a))"

definition hd_init ::
  "crypto \<Rightarrow> curve \<Rightarrow> (string \<Rightarrow> (bytes \<times> bool) res) \<Rightarrow> hd_args \<Rightarrow> hdkey res" where
  "hd_init C E protected args =
    bindE (hd_resolve C E protected args) (\<lambda>(a, key, st).
      let witness_type = (case a_witness_type a of None \<Rightarrow> ''segwit'' | Some w \<Rightarrow> w);
          is_private = (case a_is_private a of None \<Rightarrow> True | Some p \<Rightarrow> p)
      in bindE (hd_script_type st witness_type (a_multisig a)) (\<lambda>script_type.
         bindE (if given (a_encoding a) then Inr (the (a_encoding a))
                else get_encoding_from_witness (Some witness_type)) (\<lambda>encoding.
         bindE (key_init C E protected key (a_network a) (a_compressed a) (Some is_private) True) (\<lambda>k.
           Inr (hd_extend k a witness_type encoding script_type)))))"

text \<open>\<^verbatim>\<open>HDKey.from_seed\<close>, on a seed in bytes\<close>

definition hd_from_seed ::
  "crypto \<Rightarrow> curve \<Rightarrow> (string \<Rightarrow> (bytes \<times> bool) res) \<Rightarrow> bytes \<Rightarrow> hd_args \<Rightarrow> hdkey res" where
  "hd_from_seed C E protected seed a =
    (let i = e_hmac512 E bitcoin_seed seed
     in if secp256k1_n \<le> be_val (take 32 i) then Inl BKeyError
        else hd_init C E protected (a\<lparr>a_key := take 32 i, a_chain := Some (drop 32 i)\<rparr>))"

section \<open>The extended wallet import format\<close>

definition hd_from_wif ::
  "crypto \<Rightarrow> curve \<Rightarrow> (string \<Rightarrow> (bytes \<times> bool) res) \<Rightarrow> string \<Rightarrow> string option \<Rightarrow> bool \<Rightarrow> bool option
    \<Rightarrow> hdkey res" where
  "hd_from_wif C E protected wif network compressed multisig =
    bindE (change_base (PStr wif) 58 256 0 None None) (\<lambda>v.
      case v of
        PBytes bkey \<Rightarrow>
          if length bkey \<noteq> 82 then Inl BKeyError
          else bindE (wif_prefix_search (take 8 (hex_of bkey)) None multisig network) (\<lambda>prefix_data.
            case prefix_data of
              [] \<Rightarrow> Inl BKeyError
            | m # _ \<Rightarrow>
                (if given network \<and> the network \<notin> set (map w_network prefix_data) then Inl BKeyError
                 else hd_init C E protected (hd_defaults\<lparr>
                   a_key := (if bkey ! 45 \<noteq> 0 then slice 45 78 bkey else slice 46 78 bkey),
                   a_chain := Some (slice 13 45 bkey), a_depth := int (unat (bkey ! 4)),
                   a_parent_fingerprint := slice 5 9 bkey,
                   a_child_index := int (be_val (slice 9 13 bkey)),
                   a_is_private := Some (bkey ! 45 = 0),
                   a_network := Some (if given network then the network else w_network m),
                   a_witness_type := Some (w_witness_type m),
                   a_multisig := (multisig = Some True \<or> w_multisig m),
                   a_compressed := compressed\<rparr>)))
      | _ \<Rightarrow> Inl TypeError)"

text \<open>
  \<^verbatim>\<open>HDKey.wif\<close>: the text, and the key with the child index that was given.
\<close>

definition hd_wif_key :: "hdkey \<Rightarrow> bool \<Rightarrow> bytes" where
  "hd_wif_key k is_private =
    (if \<not> is_private then k_public k
     else (if k_is_private k then [0] else []) @
          (if k_private k \<noteq> [] then k_private k else k_public_compressed k))"

definition hd_wif ::
  "crypto \<Rightarrow> hdkey \<Rightarrow> bool \<Rightarrow> int \<Rightarrow> bytes option \<Rightarrow> string option \<Rightarrow> bool \<Rightarrow> (string \<times> hdkey) res" where
  "hd_wif C k is_private child_index version witness_type multisig =
    (let wt = (if given witness_type then the witness_type
               else if h_witness_type k = [] then ''segwit'' else h_witness_type k);
         k1 = (if child_index \<noteq> 0 then k\<lparr>h_child_index := child_index\<rparr> else k)
     in bindE (if given version then Inr (the version)
               else bindE (network_named (k_network k)) (\<lambda>n.
                 wif_prefix n (k_is_private k \<and> is_private) wt (multisig \<or> h_multisig k))) (\<lambda>pre.
        bindE (int_to_be 1 (h_depth k)) (\<lambda>depth.
        bindE (int_to_be 4 (h_child_index k1)) (\<lambda>index.
          case h_chain k of
            None \<Rightarrow> Inl TypeError
          | Some chain \<Rightarrow>
              (let raw = pre @ depth @ h_parent_fingerprint k @ index @ chain @ hd_wif_key k is_private
               in Inr (base58encode (raw @ take 4 (double_sha256 (c_sha256 C) raw)), k1))))))"

section \<open>Derivation of children\<close>

definition hd_fingerprint :: "crypto \<Rightarrow> hdkey \<Rightarrow> bytes" where
  "hd_fingerprint C k = take 4 (key_hash160 C k)"

text \<open>The arguments of a child that are the same for private and public children.\<close>

definition child_args :: "crypto \<Rightarrow> hdkey \<Rightarrow> bytes \<Rightarrow> bytes \<Rightarrow> int \<Rightarrow> string option \<Rightarrow> hd_args" where
  "child_args C k key chain index network =
    hd_defaults\<lparr>a_key := key, a_chain := Some chain, a_depth := h_depth k + 1,
      a_parent_fingerprint := hd_fingerprint C k, a_child_index := index,
      a_witness_type := Some (h_witness_type k), a_multisig := h_multisig k,
      a_encoding := Some (h_encoding k),
      a_network := Some (case network of None \<Rightarrow> k_network k | Some n \<Rightarrow> n)\<rparr>"

definition child_private ::
  "crypto \<Rightarrow> curve \<Rightarrow> (string \<Rightarrow> (bytes \<times> bool) res) \<Rightarrow> hdkey \<Rightarrow> int \<Rightarrow> bool \<Rightarrow> string option \<Rightarrow> hdkey res" where
  "child_private C E protected k index hardened network =
    (if \<not> k_is_private k then Inl BKeyError
     else
      let i = (if hardened then index OR 0x80000000 else index)
      in bindE (int_to_be 4 i) (\<lambda>ib.
         bindE (key_derivation E (h_chain k) ((if hardened then 0 # k_private k else k_public k) @ ib))
           (\<lambda>(key, chain).
         case k_secret k of
           None \<Rightarrow> Inl TypeError
         | Some secret \<Rightarrow>
             (let newkey = (be_val key + secret) mod secp256k1_n
              in if newkey = 0 then Inl BKeyError
                 else hd_init C E protected (child_args C k (be_bytes 32 newkey) chain i network)))))"

definition child_public ::
  "crypto \<Rightarrow> curve \<Rightarrow> (string \<Rightarrow> (bytes \<times> bool) res) \<Rightarrow> hdkey \<Rightarrow> int \<Rightarrow> string option \<Rightarrow> hdkey res" where
  "child_public C E protected k index network =
    (if index > 0x80000000 then Inl BKeyError
     else
      bindE (int_to_be 4 index) (\<lambda>ib.
      bindE (key_derivation E (h_chain k) (k_public k @ ib)) (\<lambda>(key, chain).
        let (x, y) = e_add E (e_point E (be_val key)) (public_point k)
        in bindE (unhex ((if odd y then ''03'' else ''02'') @ hex64 x)) (\<lambda>pub.
             hd_init C E protected
               ((child_args C k pub chain index network)\<lparr>a_is_private := Some False\<rparr>)))))"

definition hd_public :: "hdkey \<Rightarrow> hdkey" where
  "hd_public k = k\<lparr>k_is_private := False, k_secret := None, k_private := []\<rparr>"

definition network_change :: "hdkey \<Rightarrow> string \<Rightarrow> hdkey res" where
  "network_change k new_network =
    bindE (network_named new_network) (\<lambda>n. Inr (k\<lparr>k_network := n_name n\<rparr>))"

definition hd_inverse ::
  "crypto \<Rightarrow> curve \<Rightarrow> (string \<Rightarrow> (bytes \<times> bool) res) \<Rightarrow> hdkey \<Rightarrow> hdkey res" where
  "hd_inverse C E protected k =
    (let args = \<lambda>ik. hd_defaults\<lparr>a_import := ImportInput ik, a_network := Some (k_network k),
                  a_compressed := k_compressed k, a_witness_type := Some (h_witness_type k),
                  a_multisig := h_multisig k, a_encoding := Some (h_encoding k)\<rparr>
     in if k_is_private k
        then (case k_secret k of
                None \<Rightarrow> Inl TypeError
              | Some s \<Rightarrow> hd_init C E protected (args (KInt (int secp256k1_n - int s))))
        else if \<not> k_compressed k then Inr k
        else (case k_y k of
                None \<Rightarrow> Inl TypeError
              | Some y \<Rightarrow> hd_init C E protected
                           (args (KStr ((if odd y then ''02'' else ''03'') @ hex64 (k_x k))))))"

section \<open>Paths\<close>

text \<open>\<^verbatim>\<open>path.split("/")\<close>\<close>

fun split_text :: "char \<Rightarrow> string \<Rightarrow> string list" where
  "split_text c [] = [[]]"
| "split_text c (x # xs) =
    (if x = c then [] # split_text c xs
     else case split_text c xs of [] \<Rightarrow> [[x]] | w # ws \<Rightarrow> (x # w) # ws)"

text \<open>One level of a path: its index, and whether it is marked as hardened.\<close>

definition path_index :: "string \<Rightarrow> (int \<times> bool) res" where
  "path_index item =
    (if item = [] then Inl BKeyError
     else
      let hardened = last item \<in> set [CHR 0x27, CHR ''H'', CHR ''h'', CHR ''P'', CHR ''p''];
          digits = (if hardened then butlast item else item)
      in case py_int 10 (utf8_encode digits) of
           None \<Rightarrow> Inl ValueError
         | Some i \<Rightarrow> if i < 0 then Inl BKeyError else Inr (i, hardened))"

fun derive_path ::
  "crypto \<Rightarrow> curve \<Rightarrow> (string \<Rightarrow> (bytes \<times> bool) res) \<Rightarrow> string option \<Rightarrow> bool \<Rightarrow> string list \<Rightarrow> hdkey
    \<Rightarrow> hdkey res" where
  "derive_path C E protected network first_public [] k = Inr k"
| "derive_path C E protected network first_public (item # path) k =
    bindE (path_index item) (\<lambda>(index, hardened).
    bindE (if first_public \<or> \<not> k_is_private k then child_public C E protected k index network
           else child_private C E protected k index hardened network)
      (derive_path C E protected network False path))"

definition key_for_path ::
  "crypto \<Rightarrow> curve \<Rightarrow> (string \<Rightarrow> (bytes \<times> bool) res) \<Rightarrow> hdkey \<Rightarrow> string list \<Rightarrow> string option \<Rightarrow> hdkey res" where
  "key_for_path C E protected k path network =
    (if h_key_type k = ''single'' then Inl BKeyError
     else case path of
       [] \<Rightarrow> Inl IndexError
     | p # ps \<Rightarrow>
         if p = ''m'' then derive_path C E protected network False ps k
         else if p = ''M'' then derive_path C E protected network True ps k
         else derive_path C E protected network False path k)"

definition key_for_path_text ::
  "crypto \<Rightarrow> curve \<Rightarrow> (string \<Rightarrow> (bytes \<times> bool) res) \<Rightarrow> hdkey \<Rightarrow> string \<Rightarrow> string option \<Rightarrow> hdkey res" where
  "key_for_path_text C E protected k path network =
    key_for_path C E protected k (split_text (CHR ''/'') path) network"

end
