(* ===== verification/Address.thy ===== *)
theory Address
  imports HD_Keys
begin

text \<open>
  The class \<^verbatim>\<open>Address\<close> of \<^verbatim>\<open>bitcoinlib/keys.py\<close> and the addresses of keys. What an address only
  carries along (depth, change, index, compression) is left out.
\<close>

record address =
  ad_data :: bytes
  ad_script_type :: "string option"
  ad_encoding :: string
  ad_witver :: int
  ad_witness_type :: string
  ad_prefix :: pyval
  ad_hash :: bytes
  ad_redeemscript :: bytes
  ad_network :: string
  ad_address :: string
  ad_address_orig :: string

text \<open>The witness type and version when no witness type is given, and the encoding when none is.\<close>

definition address_witness ::
  "string option \<Rightarrow> string option \<Rightarrow> string option \<Rightarrow> int \<Rightarrow> string \<times> int" where
  "address_witness witness_type script_type encoding witver =
    (case witness_type of
       Some w \<Rightarrow> (w, witver)
     | None \<Rightarrow>
         if script_type \<in> {Some ''p2wpkh'', Some ''p2wsh''} then (''segwit'', witver)
         else if script_type \<in> {Some ''p2sh_p2wpkh'', Some ''p2sh_p2wsh''} then (''p2sh-segwit'', witver)
         else if script_type = Some ''p2tr'' then (''taproot'', if witver = 0 then 1 else witver)
         else if encoding = Some ''base58'' then (''legacy'', witver)
         else (''segwit'', witver))"

definition address_encoding :: "string option \<Rightarrow> string option \<Rightarrow> string \<Rightarrow> string" where
  "address_encoding encoding script_type witness_type =
    (case encoding of
       Some e \<Rightarrow> e
     | None \<Rightarrow>
         if script_type \<in> {Some ''p2pkh'', Some ''p2sh'', Some ''multisig'', Some ''p2pk''} \<or>
            witness_type = ''legacy'' \<or> witness_type = ''p2sh-segwit''
         then ''base58'' else ''bech32'')"

text \<open>The hash of the data, for an address whose hash is not given.\<close>

definition address_hash :: "crypto \<Rightarrow> bytes \<Rightarrow> string option \<Rightarrow> string \<Rightarrow> bytes" where
  "address_hash C data script_type encoding =
    (if encoding = ''bech32'' \<and> script_type \<in> {Some ''p2sh'', Some ''p2sh_multisig'', Some ''p2tr''} \<or>
        script_type \<in> {Some ''p2wsh'', Some ''p2sh_p2wsh''}
     then c_sha256 C data else hash160 (c_ripemd160 C) (c_sha256 C) data)"

text \<open>The script type, the prefix, the redeem script and the hash that the encoding decides.\<close>

definition address_base58 ::
  "crypto \<Rightarrow> network \<Rightarrow> pyval option \<Rightarrow> string option \<Rightarrow> string \<Rightarrow> bytes
    \<Rightarrow> (string \<times> pyval \<times> bytes \<times> bytes) res" where
  "address_base58 C nw vprefix script_type witness_type hash0 =
    (let st = (case script_type of None \<Rightarrow> ''p2pkh'' | Some s \<Rightarrow> s)
     in bindE (if witness_type = ''p2sh-segwit''
               then bindE (varstr hash0) (\<lambda>v.
                      Inr (0 # v, hash160 (c_ripemd160 C) (c_sha256 C) (0 # v)))
               else Inr ([], hash0)) (\<lambda>(redeemscript, h).
        bindE (case vprefix of
                 Some p \<Rightarrow> to_bytes p True
               | None \<Rightarrow>
                   unhex (if st \<in> {''p2sh'', ''p2sh_p2wpkh'', ''p2sh_p2wsh'', ''p2sh_multisig''} \<or>
                             witness_type = ''p2sh-segwit''
                          then n_prefix_address_p2sh nw else n_prefix_address nw)) (\<lambda>p.
          Inr (st, PBytes p, redeemscript, h))))"

definition address_init ::
  "crypto \<Rightarrow> pyval \<Rightarrow> pyval \<Rightarrow> pyval option \<Rightarrow> string option \<Rightarrow> string option \<Rightarrow> string option \<Rightarrow> int
    \<Rightarrow> string \<Rightarrow> string option \<Rightarrow> address res" where
  "address_init C data hashed_data vprefix script_type encoding witness_type witver network overrides =
    (if data \<in> {PStr [], PBytes []} \<and> hashed_data \<in> {PStr [], PBytes []} then Inl BKeyError
     else
      bindE (network_named network) (\<lambda>nw.
      bindE (to_bytes data True) (\<lambda>data_bytes.
      bindE (to_bytes hashed_data True) (\<lambda>hash0.
      let (wt, witver1) = address_witness witness_type script_type encoding witver;
          enc = address_encoding encoding script_type wt;
          h0 = (if hash0 = [] then address_hash C data_bytes script_type enc else hash0)
      in bindE (if enc = ''base58'' then address_base58 C nw vprefix script_type wt h0
                else if enc = ''bech32''
                then Inr (case script_type of None \<Rightarrow> ''p2wpkh'' | Some s \<Rightarrow> s,
                          case vprefix of None \<Rightarrow> PStr (n_prefix_bech32 nw) | Some p \<Rightarrow> p, [], h0)
                else Inl BKeyError) (\<lambda>(st, p, redeemscript, h).
         bindE (pubkeyhash_to_addr (c_sha256 C) (PBytes h) (Some p) enc witver1) (\<lambda>addr.
         bindE (if given overrides \<and> st = ''p2sh''
                then addr_convert (c_sha256 C) addr (PStr (the overrides)) None None
                else Inr addr) (\<lambda>addr1.
           Inr \<lparr>ad_data = data_bytes, ad_script_type = Some st, ad_encoding = enc, ad_witver = witver1,
                ad_witness_type = wt, ad_prefix = p, ad_hash = h, ad_redeemscript = redeemscript,
                ad_network = n_name nw, ad_address = addr1, ad_address_orig = addr\<rparr>)))))))"

text \<open>\<^verbatim>\<open>Address.parse\<close>; the first characters may say that the address is bech32.\<close>

definition ENCODING_BECH32_PREFIXES :: "string list" where
  "ENCODING_BECH32_PREFIXES = [''bc'', ''tb'', ''ltc'', ''tltc'', ''blt'']"

definition guess_encoding :: "string \<Rightarrow> string option \<Rightarrow> string option" where
  "guess_encoding addr encoding =
    (if encoding = None \<and> takeWhile (\<lambda>c. c \<noteq> CHR ''1'') (take 3 addr) \<in> set ENCODING_BECH32_PREFIXES
     then Some ''bech32'' else encoding)"

definition address_parse ::
  "crypto \<Rightarrow> string \<Rightarrow> string option \<Rightarrow> string option \<Rightarrow> string option \<Rightarrow> address res" where
  "address_parse C addr encoding network overrides =
    bindE (deserialize_address (c_sha256 C) addr (guess_encoding addr encoding) network) (\<lambda>d.
      address_init C (PStr []) (PBytes (ai_hash d)) (Some (ai_prefix d)) (Some (ai_script_type d))
        (Some (ai_encoding d)) (Some (ai_witness_type d)) 0
        (case (case network of None \<Rightarrow> ai_network d | Some n \<Rightarrow> Some n) of
           None \<Rightarrow> '''' | Some n \<Rightarrow> n) overrides)"

text \<open>
  \<^verbatim>\<open>Key.address\<close> and \<^verbatim>\<open>HDKey.address\<close> of a key that has no address yet: the address, and the key,
  whose compression flag is set to what was asked for.
\<close>

definition key_address_obj ::
  "crypto \<Rightarrow> 'a key_scheme \<Rightarrow> bool option \<Rightarrow> pyval option \<Rightarrow> string option \<Rightarrow> string option
    \<Rightarrow> (address \<times> 'a key_scheme) res" where
  "key_address_obj C k compressed vprefix script_type encoding =
    (let comp = (case compressed of None \<Rightarrow> k_compressed k | Some c \<Rightarrow> c);
         data = (if comp then k_public k else key_uncompressed k);
         enc = (case encoding of None \<Rightarrow> ''base58'' | Some e \<Rightarrow> e)
     in if \<not> comp \<and> enc = ''bech32'' then Inl BKeyError
        else bindE (address_init C (PBytes data) (PStr []) vprefix script_type (Some enc) None 0
                      (k_network k) None) (\<lambda>a. Inr (a, k\<lparr>k_compressed := comp\<rparr>)))"

definition hd_address_obj ::
  "crypto \<Rightarrow> hdkey \<Rightarrow> bool option \<Rightarrow> pyval option \<Rightarrow> string option \<Rightarrow> string option
    \<Rightarrow> (address \<times> hdkey) res" where
  "hd_address_obj C k compressed vprefix script_type encoding =
    key_address_obj C k (Some (case compressed of None \<Rightarrow> k_compressed k | Some c \<Rightarrow> c)) vprefix
      (case script_type of None \<Rightarrow> h_script_type k | Some s \<Rightarrow> Some s)
      (Some (case encoding of None \<Rightarrow> h_encoding k | Some e \<Rightarrow> e))"

end
