(* ===== verification/Tx_Build.thy ===== *)
theory Tx_Build
  imports Address Tx_Fee "HOL-Library.List_Lexorder"
begin

text \<open>
  Building transactions: \<^verbatim>\<open>Script.__init__\<close> from a template, \<^verbatim>\<open>Output.__init__\<close> for an address,
  \<^verbatim>\<open>Input.__init__\<close> for an outpoint and keys, and \<^verbatim>\<open>add_input\<close> and \<^verbatim>\<open>add_output\<close> with these
  arguments. A transaction belongs to a network, whose name is an argument here.
\<close>

section \<open>Scripts from templates\<close>

text \<open>
  The commands of one template; \<open>n_and_m\<close> is the list \<^verbatim>\<open>sig_n_and_m\<close>. A tag of the environment has
  no value here, and its text is not a command that can be serialised.
\<close>

fun fill_template ::
  "bytes \<Rightarrow> bytes list \<Rightarrow> bytes list \<Rightarrow> bytes \<Rightarrow> int list \<Rightarrow> gen list \<Rightarrow> item list res" where
  "fill_template public_hash signatures keys redeemscript n_and_m [] = Inr []"
| "fill_template public_hash signatures keys redeemscript n_and_m (GOp n # gs) =
     bindE (fill_template public_hash signatures keys redeemscript n_and_m gs) (\<lambda>cs.
       Inr (Cmd (Op n) # cs))"
| "fill_template public_hash signatures keys redeemscript n_and_m (GTag tc # gs) =
     (if tc = ''op_n''
      then (if n_and_m = [] then Inl IndexError
            else if last n_and_m + 80 < 0 then Inl ValueError
            else bindE (fill_template public_hash signatures keys redeemscript (butlast n_and_m) gs) (\<lambda>cs.
                   Inr (Cmd (Op (nat (last n_and_m + 80))) # cs)))
      else if tc \<in> {''data'', ''signature'', ''key'', ''redeemscript''}
      then (let command = (if tc = ''data'' then (if public_hash = [] then [] else [public_hash])
                           else if tc = ''signature'' then signatures
                           else if tc = ''key'' then keys else [redeemscript])
            in if command = [] \<or> command = [[]] then Inl ScriptError
               else bindE (fill_template public_hash signatures keys redeemscript n_and_m gs) (\<lambda>cs.
                      Inr (map (\<lambda>d. Cmd (Data d)) command @ cs)))
      else Inl TypeError)"

definition template_of :: "string \<Rightarrow> (bool \<times> gen list) res" where
  "template_of st =
    (case map_of script_templates st of
       None \<Rightarrow> Inl KeyError
     | Some (kind, gs, _) \<Rightarrow> Inr (kind = ''locking'', gs))"

text \<open>\<^verbatim>\<open>Script(script_types=[st], public_hash=h, keys=keys)\<close>\<close>

definition script_of_type :: "string \<Rightarrow> bytes \<Rightarrow> bytes list \<Rightarrow> script res" where
  "script_of_type st h keys =
    bindE (template_of st) (\<lambda>(locking, gs).
    bindE (fill_template h [] keys [] [int (length keys), if keys \<noteq> [] then int (length keys) else 1] gs)
      (\<lambda>commands.
      Inr ((script_init commands None keys [] [] None (Some SIGHASH_ALL))
             \<lparr>s_script_types := [st], s_is_locking := Some locking, s_public_hash := Cmd (Data h)\<rparr>)))"

section \<open>Outputs to addresses\<close>

text \<open>\<^verbatim>\<open>Output.__init__\<close> for a value and an address given as text.\<close>

definition output_to_address ::
  "crypto \<Rightarrow> string \<Rightarrow> int \<Rightarrow> string \<Rightarrow> nat \<Rightarrow> string option \<Rightarrow> bool \<Rightarrow> tx_output res" where
  "output_to_address C network value addr output_n encoding change =
    (if addr = [] then Inl TransactionError
     else bindE (network_named network) (\<lambda>nw.
          bindE (parse_bytes C [] None None (Some True) True) (\<lambda>script0.
          bindE (deserialize_address (c_sha256 C) addr encoding (Some (n_name nw))) (\<lambda>d.
            if ai_script_type d = [] then Inl TransactionError
            else if n_name nw \<notin> set (ai_networks d) then Inl TransactionError
            else bindE (if s_commands script0 = [] \<and> ai_hash d \<noteq> []
                        then bindE (script_of_type (ai_script_type d) (ai_hash d) [[]]) (\<lambda>sc.
                             bindE (serialize (s_commands sc)) (\<lambda>raw.
                               if s_commands sc = [] then Inl TransactionError
                               else Inr (sc\<lparr>s_raw := raw\<rparr>, raw)))
                        else Inr (script0, [])) (\<lambda>(script, lock_script).
              Inr \<lparr>o_value = value, o_lock_script = lock_script, o_output_n = output_n,
                   o_script_type = Some (ai_script_type d), o_script = script,
                   o_public_hash = Cmd (Data (ai_hash d)), o_public_key = [], o_witver = 0,
                   o_change = change\<rparr>)))))"

definition add_output_to ::
  "crypto \<Rightarrow> string \<Rightarrow> transaction \<Rightarrow> int \<Rightarrow> string \<Rightarrow> string option \<Rightarrow> bool \<Rightarrow> (nat \<times> transaction) res" where
  "add_output_to C network t value addr encoding change =
    (let output_n = length (t_outputs t)
     in bindE (output_to_address C network value addr output_n encoding change) (\<lambda>o1.
          Inr (output_n, t\<lparr>t_outputs := t_outputs t @ [o1]\<rparr>)))"

section \<open>Inputs with keys\<close>

definition key_object :: "'a key_scheme \<Rightarrow> key_obj" where
  "key_object k = \<lparr>pk_public = k_public k, pk_private = k_private k\<rparr>"

text \<open>The keys of an input: each once, and the compression of the last one that was new.\<close>

fun input_keys :: "'a key_scheme list \<Rightarrow> 'a key_scheme list \<Rightarrow> bool \<Rightarrow> 'a key_scheme list \<times> bool" where
  "input_keys [] acc compressed = (acc, compressed)"
| "input_keys (k # ks) acc compressed =
     (if list_ex (\<lambda>a. key_eq (key_object a) (key_object k)) acc then input_keys ks acc compressed
      else input_keys ks (acc @ [k]) (k_compressed k))"

definition sort_keys :: "'a key_scheme list \<Rightarrow> 'a key_scheme list" where
  "sort_keys ks = sort_key (\<lambda>k. map unat (k_public k)) ks"

text \<open>The witness type that the address, the argument and the script type decide.\<close>

definition input_witness_type :: "string option \<Rightarrow> string option \<Rightarrow> string" where
  "input_witness_type witness_type script_type =
    (if witness_type = None \<or> witness_type = Some ''legacy''
     then (if script_type \<in> {Some ''p2sh_p2wpkh'', Some ''p2sh_p2wsh''} then ''p2sh-segwit'' else ''legacy'')
     else the witness_type)"

text \<open>
  \<^verbatim>\<open>Input.__init__\<close> for the arguments the wallet passes: no signatures, scripts, public hash or
  witnesses, and an address given as text.
\<close>

definition input_from_keys ::
  "crypto \<Rightarrow> bytes \<Rightarrow> int \<Rightarrow> 'a key_scheme list \<Rightarrow> string option \<Rightarrow> string \<Rightarrow> nat \<Rightarrow> bool \<Rightarrow> int option
    \<Rightarrow> bool \<Rightarrow> nat \<Rightarrow> int \<Rightarrow> string option \<Rightarrow> tx_input res" where
  "input_from_keys C prev_txid0 output_n keys0 script_type0 addr sequence compressed0 sigs_required
      sort_flag index_n value witness_type0 =
    bindE (to_bytes (PBytes prev_txid0) True) (\<lambda>prev_txid.
    bindE (int_to_be 4 output_n) (\<lambda>on.
    bindE (if addr = [] then Inr witness_type0
           else bindE (address_parse C addr None None None) (\<lambda>a.
                  Inr (if ad_witness_type a = [] then witness_type0 else Some (ad_witness_type a)))) (\<lambda>wt.
    let script_type = (if prev_txid = replicate 32 0 then Some ''coinbase'' else script_type0);
        (keys1, compressed) = input_keys keys0 [] compressed0;
        keys = (if sort_flag then sort_keys keys1 else keys1)
    in update_scripts C SIGHASH_ALL
         \<lparr>i_prev_txid = prev_txid, i_output_n = on, i_unlocking_script = [], i_locking_script = [],
          i_redeemscript = [], i_sequence = sequence, i_compressed = compressed, i_index_n = index_n,
          i_value = value, i_keys = map k_public keys, i_signatures = [],
          i_sigs_required = (case sigs_required of None \<Rightarrow> 1 | Some m \<Rightarrow> if m = 0 then 1 else m),
          i_hash_type = SIGHASH_ALL, i_public_hash = [],
          i_script_type = (case script_type of None \<Rightarrow> ''sig_pubkey'' | Some s \<Rightarrow> if s = [] then ''sig_pubkey'' else s),
          i_witness_type = input_witness_type wt script_type, i_witnesses = [], i_script = None,
          i_strict = True\<rparr>)))"

definition SEQUENCE_REPLACE_BY_FEE :: nat where
  "SEQUENCE_REPLACE_BY_FEE = 0xfffffffd"

definition SEQUENCE_LOCKTIME_DISABLE_FLAG :: nat where
  "SEQUENCE_LOCKTIME_DISABLE_FLAG = 2 ^ 31"

text \<open>\<^verbatim>\<open>add_input\<close>; the sequence number may raise the version of the transaction.\<close>

definition input_sequence :: "bool \<Rightarrow> nat \<Rightarrow> nat" where
  "input_sequence replace_by_fee sequence =
    (if replace_by_fee \<and> sequence = 0xffffffff then SEQUENCE_REPLACE_BY_FEE else sequence)"

definition add_input ::
  "crypto \<Rightarrow> bool \<Rightarrow> transaction \<Rightarrow> bytes \<Rightarrow> int \<Rightarrow> 'a key_scheme list \<Rightarrow> string option \<Rightarrow> string \<Rightarrow> nat
    \<Rightarrow> bool \<Rightarrow> int option \<Rightarrow> bool \<Rightarrow> int \<Rightarrow> string option \<Rightarrow> (nat \<times> transaction) res" where
  "add_input C replace_by_fee t prev_txid output_n keys script_type addr sequence0 compressed sigs_required
      sort_flag value witness_type =
    (let index_n = length (t_inputs t);
         sequence = input_sequence replace_by_fee sequence0;
         t1 = (if t_version t = [0, 0, 0, 1] \<and> 0 < sequence \<and> sequence < SEQUENCE_LOCKTIME_DISABLE_FLAG
               then t\<lparr>t_version := [0, 0, 0, 2], t_version_int := 2\<rparr> else t)
     in bindE (input_from_keys C prev_txid output_n keys script_type addr sequence compressed sigs_required
                 sort_flag index_n value witness_type) (\<lambda>i.
          Inr (index_n, t1\<lparr>t_inputs := t_inputs t1 @ [i]\<rparr>)))"

end
