(* ===== verification/Wallet_Db.thy ===== *)
theory Wallet_Db
  imports Tx_Build
begin

text \<open>
  The tables the wallet works on (\<^verbatim>\<open>bitcoinlib/db.py\<close>) and the queries of
  \<^verbatim>\<open>bitcoinlib/wallets.py\<close>. A table is the list of its rows in the order of their insertion; a
  query keeps that order among the rows that its \<^verbatim>\<open>ORDER BY\<close> does not distinguish. Columns that
  no modelled operation reads are left out.
\<close>

section \<open>Tables\<close>

record db_key =
  dk_id :: nat
  dk_wallet :: nat
  dk_account :: int
  dk_network :: string
  dk_purpose :: int
  dk_depth :: int
  dk_change :: int
  dk_address_index :: int
  dk_cosigner :: "int option"
  dk_path :: string
  dk_is_private :: bool
  dk_public :: bytes
  dk_wif :: string
  dk_name :: string
  dk_key_type :: string
  dk_compressed :: bool
  dk_address :: string
  dk_witness_type :: string
  dk_children :: "nat list"
  dk_used :: bool
  dk_balance :: int
  dk_latest_txid :: "bytes option"

record db_tx =
  dt_id :: nat
  dt_txid :: bytes
  dt_wallet :: "nat option"
  dt_account :: int
  dt_network :: string
  dt_confirmations :: int
  dt_status :: string
  dt_block_height :: "nat option"
  dt_fee :: "int option"
  dt_input_total :: int
  dt_output_total :: int
  dt_raw :: bytes
  dt_verified :: bool
  dt_locktime :: nat
  dt_is_complete :: bool

record db_input =
  di_tx :: nat
  di_index_n :: nat
  di_key :: "nat option"
  di_prev_txid :: bytes
  di_output_n :: nat
  di_value :: int
  di_script :: bytes
  di_address :: string

record db_output =
  do_tx :: nat
  do_output_n :: nat
  do_key :: "nat option"
  do_address :: string
  do_value :: int
  do_script :: bytes
  do_script_type :: string
  do_spent :: bool
  do_is_change :: bool

record db =
  db_keys :: "db_key list"
  db_txs :: "db_tx list"
  db_inputs :: "db_input list"
  db_outputs :: "db_output list"

text \<open>The attributes of a \<^verbatim>\<open>Wallet\<close> object.\<close>

record wallet_balance =
  wb_network :: string
  wb_account :: int
  wb_balance :: int

record wallet =
  wl_id :: nat
  wl_network :: string
  wl_default_account :: "int option"
  wl_purpose :: int
  wl_depth_public_master :: int
  wl_key_depth :: int
  wl_scheme :: string
  wl_witness_type :: string
  wl_encoding :: string
  wl_multisig :: bool
  wl_multisig_n_required :: int
  wl_sort_keys :: bool
  wl_ignore_dust :: bool
  wl_balances :: "wallet_balance list"
  wl_balance :: int

section \<open>Queries\<close>

text \<open>The value of \<^verbatim>\<open>Query.first\<close>, and of \<^verbatim>\<open>Query.scalar\<close>, which raises when there are several rows.\<close>

definition first_row :: "'a list \<Rightarrow> 'a option" where
  "first_row rows = (case rows of [] \<Rightarrow> None | r # _ \<Rightarrow> Some r)"

definition scalar_row :: "'a list \<Rightarrow> 'a option res" where
  "scalar_row rows = (case rows of [] \<Rightarrow> Inr None | [r] \<Rightarrow> Inr (Some r) | _ \<Rightarrow> Inl GenericException)"

type_synonym utxo_row = "db_output \<times> db_tx \<times> db_key"

abbreviation row_value :: "utxo_row \<Rightarrow> int" where
  "row_value r \<equiv> do_value (fst r)"

abbreviation row_confirmations :: "utxo_row \<Rightarrow> int" where
  "row_confirmations r \<equiv> dt_confirmations (fst (snd r))"

text \<open>
  The joins: an output with its transaction, and with the key it is linked to; an input with its
  transaction.
\<close>

definition output_rows :: "db \<Rightarrow> (db_output \<times> db_tx) list" where
  "output_rows d = [(ou, tx). ou \<leftarrow> db_outputs d, tx \<leftarrow> filter (\<lambda>t. dt_id t = do_tx ou) (db_txs d)]"

definition utxo_rows :: "db \<Rightarrow> utxo_row list" where
  "utxo_rows d = [(ou, tx, k). (ou, tx) \<leftarrow> output_rows d,
                    k \<leftarrow> filter (\<lambda>k. do_key ou = Some (dk_id k)) (db_keys d)]"

definition input_rows :: "db \<Rightarrow> (db_input \<times> db_tx) list" where
  "input_rows d = [(inp, tx). inp \<leftarrow> db_inputs d, tx \<leftarrow> filter (\<lambda>t. dt_id t = di_tx inp) (db_txs d)]"

definition order_desc :: "('a \<Rightarrow> int) \<Rightarrow> 'a list \<Rightarrow> 'a list" where
  "order_desc f rows = sort_key (\<lambda>r. - f r) rows"

subsection \<open>Keys and accounts\<close>

text \<open>\<^verbatim>\<open>Wallet.key\<close> for a key number.\<close>

definition wallet_key :: "wallet \<Rightarrow> db \<Rightarrow> nat \<Rightarrow> db_key res" where
  "wallet_key w d term =
    (case filter (\<lambda>k. dk_wallet k = wl_id w \<and> dk_id k = term) (db_keys d) of
       [] \<Rightarrow> Inl BKeyError
     | [k] \<Rightarrow> Inr k
     | _ \<Rightarrow> Inl GenericException)"

text \<open>\<^verbatim>\<open>_get_account_defaults\<close>; key number 0 counts as none. The key of the account is not used.\<close>

definition get_account_defaults ::
  "wallet \<Rightarrow> db \<Rightarrow> string option \<Rightarrow> int option \<Rightarrow> nat option \<Rightarrow> (string \<times> int) res" where
  "get_account_defaults w d network0 account0 key_id =
    bindE (case key_id of
             Some (Suc n) \<Rightarrow> bindE (wallet_key w d (Suc n)) (\<lambda>k. Inr (Some (dk_network k), Some (dk_account k)))
           | _ \<Rightarrow> Inr (network0, account0)) (\<lambda>(network1, account1).
      let network = (case network1 of None \<Rightarrow> wl_network w | Some n \<Rightarrow> n);
          account2 = (if account1 = None \<and> network = wl_network w then wl_default_account w else account1);
          acckeys = filter (\<lambda>k. dk_wallet k = wl_id w \<and> dk_purpose k = wl_purpose w \<and>
                              dk_depth k = wl_depth_public_master w \<and> dk_network k = network \<and>
                              (account2 = None \<or> Some (dk_account k) = account2)) (db_keys d)
      in Inr (network, case account2 of
                         Some a \<Rightarrow> a
                       | None \<Rightarrow> (case acckeys of [] \<Rightarrow> 0 | k # _ \<Rightarrow> dk_account k)))"

subsection \<open>Unspent outputs\<close>

text \<open>\<^verbatim>\<open>Wallet.utxos\<close>; \<open>key_ids\<close> is the key number or the list of key numbers.\<close>

definition wallet_utxos ::
  "wallet \<Rightarrow> db \<Rightarrow> int option \<Rightarrow> string option \<Rightarrow> int \<Rightarrow> nat list option \<Rightarrow> utxo_row list res" where
  "wallet_utxos w d account0 network0 min_confirms key_ids =
    (if key_ids = Some [] then Inl IndexError
     else bindE (get_account_defaults w d network0 account0 (map_option hd key_ids)) (\<lambda>(network, account).
       Inr (order_desc row_confirmations
              (filter (\<lambda>(ou, tx, k). \<not> do_spent ou \<and> dt_account tx = account \<and> dt_wallet tx = Some (wl_id w) \<and>
                         dt_network tx = network \<and> dt_confirmations tx \<ge> min_confirms \<and>
                         (case key_ids of None \<Rightarrow> True | Some ids \<Rightarrow> dk_id k \<in> set ids)) (utxo_rows d)))))"

text \<open>\<^verbatim>\<open>Wallet.utxo_last\<close>: the transaction of the least confirmed unspent output of an address.\<close>

definition utxo_last :: "wallet \<Rightarrow> db \<Rightarrow> string \<Rightarrow> bytes option" where
  "utxo_last w d addr =
    map_option (\<lambda>r. dt_txid (fst (snd r)))
      (first_row (sort_key row_confirmations
         (filter (\<lambda>(ou, tx, k). dk_address k = addr \<and> dt_wallet tx = Some (wl_id w) \<and> \<not> do_spent ou)
            (utxo_rows d))))"

text \<open>\<^verbatim>\<open>Wallet.transaction_spent\<close>: the transaction that spends an output.\<close>

definition transaction_spent :: "wallet \<Rightarrow> db \<Rightarrow> bytes \<Rightarrow> nat \<Rightarrow> bytes option res" where
  "transaction_spent w d txid output_n =
    bindE (scalar_row (filter (\<lambda>(inp, tx). dt_wallet tx = Some (wl_id w) \<and> di_prev_txid inp = txid \<and>
                                 di_output_n inp = output_n) (input_rows d)))
      (\<lambda>r. Inr (map_option (\<lambda>(inp, tx). dt_txid tx) r))"

subsection \<open>Keys\<close>

text \<open>The keyword arguments of \<^verbatim>\<open>Wallet.keys\<close>.\<close>

record key_query =
  q_account :: "int option"
  q_name :: "string option"
  q_key_id :: "nat option"
  q_change :: "int option"
  q_depth :: "int option"
  q_used :: "bool option"
  q_is_private :: "bool option"
  q_has_balance :: "bool option"
  q_is_active :: "bool option"
  q_witness_type :: "string option"
  q_network :: "string option"

definition any_key :: key_query where
  "any_key = \<lparr>q_account = None, q_name = None, q_key_id = None, q_change = None, q_depth = None,
     q_used = None, q_is_private = None, q_has_balance = None, q_is_active = None,
     q_witness_type = None, q_network = None\<rparr>"

definition wanted :: "'a option \<Rightarrow> 'a \<Rightarrow> bool" where
  "wanted q x = (case q of None \<Rightarrow> True | Some y \<Rightarrow> x = y)"

text \<open>A key number switches the filters for used and for active keys off.\<close>

definition wallet_keys :: "wallet \<Rightarrow> db \<Rightarrow> key_query \<Rightarrow> db_key list res" where
  "wallet_keys w d q =
    (let is_active = (if q_key_id q = None then q_is_active q else Some False);
         used = (if q_key_id q = None then q_used q else None);
         no_depth = (wl_scheme w = ''bip32'' \<and> q_depth q = None)
     in if q_has_balance q = Some True \<and> is_active = Some True then Inl WalletError
        else Inr (sort_key dk_id (filter (\<lambda>k. dk_wallet k = wl_id w \<and> wanted (q_network q) (dk_network k) \<and>
               wanted (q_witness_type q) (dk_witness_type k) \<and>
               wanted (q_account q) (dk_account k) \<and> (q_account q \<noteq> None \<and> no_depth \<longrightarrow> dk_depth k \<ge> 3) \<and>
               wanted (q_change q) (dk_change k) \<and>
               (q_change q \<noteq> None \<and> no_depth \<longrightarrow> dk_depth k > wl_key_depth w - 1) \<and>
               wanted (q_depth q) (dk_depth k) \<and> wanted (q_name q) (dk_name k) \<and>
               wanted (q_key_id q) (dk_id k) \<and> wanted used (dk_used k) \<and>
               wanted (q_is_private q) (dk_is_private k) \<and>
               wanted (q_has_balance q) (dk_balance k \<noteq> 0) \<and>
               (is_active = Some True \<longrightarrow> dk_balance k \<noteq> 0 \<or> \<not> dk_used k)) (db_keys d))))"

definition keys_addresses :: "wallet \<Rightarrow> db \<Rightarrow> key_query \<Rightarrow> db_key list res" where
  "keys_addresses w d q =
    wallet_keys w d (any_key\<lparr>q_account := q_account q, q_used := q_used q, q_is_active := q_is_active q,
      q_change := q_change q, q_network := q_network q,
      q_depth := Some (case q_depth q of None \<Rightarrow> wl_key_depth w | Some n \<Rightarrow> n)\<rparr>)"

definition keys_address_payment ::
  "wallet \<Rightarrow> db \<Rightarrow> int option \<Rightarrow> bool option \<Rightarrow> string option \<Rightarrow> db_key list res" where
  "keys_address_payment w d account used network =
    wallet_keys w d (any_key\<lparr>q_account := account, q_depth := Some (wl_key_depth w), q_change := Some 0,
      q_used := used, q_network := network\<rparr>)"

definition keys_address_change ::
  "wallet \<Rightarrow> db \<Rightarrow> int option \<Rightarrow> bool option \<Rightarrow> string option \<Rightarrow> db_key list res" where
  "keys_address_change w d account used network =
    wallet_keys w d (any_key\<lparr>q_account := account, q_depth := Some (wl_key_depth w), q_change := Some 1,
      q_used := used, q_network := network\<rparr>)"

definition addresslist :: "wallet \<Rightarrow> db \<Rightarrow> key_query \<Rightarrow> string list res" where
  "addresslist w d q =
    bindE (wallet_keys w d (any_key\<lparr>q_account := q_account q, q_used := q_used q, q_network := q_network q,
             q_change := q_change q, q_key_id := q_key_id q, q_is_active := Some False,
             q_depth := (case q_depth q of None \<Rightarrow> Some (wl_key_depth w)
                         | Some n \<Rightarrow> if n = -1 then None else Some n)\<rparr>))
      (\<lambda>ks. Inr (map dk_address ks))"

section \<open>Paths\<close>

text \<open>\<^verbatim>\<open>normalize_path\<close>\<close>

definition normal_level :: "string \<Rightarrow> string" where
  "normal_level level = (if last level \<in> set (CHR 0x27 # ''HhPp'') then butlast level @ [CHR 0x27] else level)"

definition normalize_path :: "string \<Rightarrow> string res" where
  "normalize_path path =
    (let levels = split_text (CHR ''/'') path
     in if [] \<in> set levels then Inl WalletError
        else Inr (butlast (concat (map (\<lambda>level. normal_level level @ ''/'') levels))))"

end
