(* ===== verification/Coin_Select.thy ===== *)
theory Coin_Select
  imports Wallet_Db "HOL-Library.Multiset"
begin

text \<open>
  \<^verbatim>\<open>Wallet.select_inputs\<close> of \<^verbatim>\<open>bitcoinlib/wallets.py\<close>: which unspent outputs pay for an amount.
\<close>

section \<open>itertools.combinations\<close>

fun combinations :: "'a list \<Rightarrow> nat \<Rightarrow> 'a list list" where
  "combinations xs 0 = [[]]"
| "combinations [] (Suc r) = []"
| "combinations (x # xs) (Suc r) = map ((#) x) (combinations xs r) @ combinations xs (Suc r)"

section \<open>The query\<close>

text \<open>
  The candidates: the unspent outputs of an account of the wallet with a public key, with enough
  confirmations, restricted to keys when \<open>key_ids\<close> is not empty, without dust when it is ignored.
\<close>

definition candidate_utxos ::
  "wallet \<Rightarrow> db \<Rightarrow> int \<Rightarrow> nat list \<Rightarrow> int \<Rightarrow> string \<Rightarrow> int \<Rightarrow> bool option \<Rightarrow> utxo_row list" where
  "candidate_utxos w d dust_amount key_ids account network min_confirms ignore_dust =
    order_desc row_confirmations
      (filter (\<lambda>(ou, tx, k). dt_wallet tx = Some (wl_id w) \<and> dt_account tx = account \<and>
                 dt_network tx = network \<and> dk_public k \<noteq> [] \<and> \<not> do_spent ou \<and>
                 dt_confirmations tx \<ge> min_confirms \<and>
                 (key_ids = [] \<or> dk_id k \<in> set key_ids) \<and>
                 ((case ignore_dust of None \<Rightarrow> wl_ignore_dust w | Some b \<Rightarrow> b) \<longrightarrow> do_value ou \<ge> dust_amount))
         (utxo_rows d))"

section \<open>One output\<close>

definition exact_utxo :: "int \<Rightarrow> int \<Rightarrow> utxo_row list \<Rightarrow> utxo_row option" where
  "exact_utxo amount variance us =
    first_row (filter (\<lambda>u. amount \<le> row_value u \<and> row_value u \<le> amount + variance) us)"

text \<open>A second \<^verbatim>\<open>ORDER BY\<close> comes after the first: the value only decides between equal confirmations.\<close>

definition higher_utxo :: "int \<Rightarrow> utxo_row list \<Rightarrow> utxo_row option" where
  "higher_utxo amount us =
    first_row (order_desc row_confirmations (sort_key row_value (filter (\<lambda>u. amount \<le> row_value u) us)))"

section \<open>Several outputs\<close>

definition lesser_utxos :: "int \<Rightarrow> utxo_row list \<Rightarrow> utxo_row list" where
  "lesser_utxos amount us =
    order_desc row_confirmations (order_desc row_value (filter (\<lambda>u. row_value u < amount) us))"

definition sufficient_combos :: "int \<Rightarrow> int \<Rightarrow> int list \<Rightarrow> int list list" where
  "sufficient_combos amount max_utxos values =
    filter (\<lambda>combo. amount \<le> sum_list combo)
      (concat (map (combinations values)
                 [2..<Suc (if max_utxos = 0 then length values else nat max_utxos)]))"

text \<open>For every value of the combination the first output with it, which is removed.\<close>

fun take_values :: "int list \<Rightarrow> utxo_row list \<Rightarrow> utxo_row list res" where
  "take_values [] lessers = Inr []"
| "take_values (v # vs) lessers =
     (case filter (\<lambda>u. row_value u = v) lessers of
        [] \<Rightarrow> Inl IndexError
      | u # _ \<Rightarrow> bindE (take_values vs (remove1 u lessers)) (\<lambda>us. Inr (u # us)))"

text \<open>The selection from the candidates; \<open>max_utxos\<close> is 0 for no maximum.\<close>

definition select_utxos :: "int \<Rightarrow> int \<Rightarrow> int \<Rightarrow> utxo_row list \<Rightarrow> utxo_row list res" where
  "select_utxos amount variance max_utxos us =
    (if us = [] then Inl WalletError
     else case exact_utxo amount variance us of
       Some u \<Rightarrow> Inr [u]
     | None \<Rightarrow>
         (case higher_utxo amount us of
            Some u \<Rightarrow> Inr [u]
          | None \<Rightarrow>
              if max_utxos \<noteq> 0 \<and> max_utxos \<le> 1 then Inr []
              else let lessers = lesser_utxos amount us
                   in (case sufficient_combos amount max_utxos (map row_value lessers) of
                         [] \<Rightarrow> Inr []
                       | combo # _ \<Rightarrow> take_values combo lessers)))"

text \<open>\<^verbatim>\<open>select_inputs\<close> up to the construction of the \<^verbatim>\<open>Input\<close> objects.\<close>

definition select_input_rows ::
  "wallet \<Rightarrow> db \<Rightarrow> int \<Rightarrow> int option \<Rightarrow> nat list \<Rightarrow> int option \<Rightarrow> string option \<Rightarrow> int \<Rightarrow> int
    \<Rightarrow> bool option \<Rightarrow> utxo_row list res" where
  "select_input_rows w d amount variance key_ids account0 network0 min_confirms max_utxos ignore_dust =
    bindE (get_account_defaults w d network0 account0 None) (\<lambda>(network, account).
    bindE (network_named network) (\<lambda>nw.
      let dust_amount = int (n_dust_amount nw)
      in select_utxos amount (case variance of None \<Rightarrow> dust_amount | Some v \<Rightarrow> v) max_utxos
           (candidate_utxos w d dust_amount key_ids account network min_confirms ignore_dust)))"

section \<open>The combinations of a list\<close>

lemma combinations_sub: "c \<in> set (combinations xs r) \<Longrightarrow> mset c \<subseteq># mset xs"
proof (induction xs r arbitrary: c rule: combinations.induct)
  case (3 x xs r)
  then consider c' where "c = x # c'" "mset c' \<subseteq># mset xs" | "mset c \<subseteq># mset xs" by auto
  then show ?case by cases (simp_all add: subset_mset.add_increasing2 subset_mset.order_trans [of _ "mset xs"])
qed simp_all

lemma combinations_length: "c \<in> set (combinations xs r) \<Longrightarrow> length c = r"
  by (induction xs r arbitrary: c rule: combinations.induct) auto

lemma combinations_complete:
  assumes "M \<subseteq># mset xs"
  shows "\<exists>c \<in> set (combinations xs (size M)). mset c = M"
  using assms
proof (induction xs arbitrary: M)
  case Nil
  then show ?case by simp
next
  case (Cons x xs)
  show ?case
  proof (cases "x \<in># M")
    case True
    then obtain N where N: "M = add_mset x N" by (metis insert_DiffM)
    then obtain c where "c \<in> set (combinations xs (size N))" "mset c = N"
      using Cons by fastforce
    then show ?thesis using N by (auto intro!: bexI [of _ "x # c"])
  next
    case False
    then have "M \<subseteq># mset xs"
      using Cons.prems subset_eq_diff_conv [of M "{#x#}" "mset xs"] by (simp add: diff_single_trivial)
    then obtain c where "c \<in> set (combinations xs (size M))" "mset c = M" using Cons.IH by blast
    then show ?thesis by (cases "size M") auto
  qed
qed

lemma combinations_sorted: "sorted (map length (concat (map (combinations xs) [m..<n])))"
proof (induction n)
  case (Suc n)
  have "map length (combinations xs k) = replicate (length (combinations xs k)) k" for k
    by (simp add: map_replicate_const [symmetric] combinations_length cong: map_cong)
  then have "sorted (map length (combinations xs k))" for k by simp
  then show ?case using Suc by (auto simp: sorted_append dest!: combinations_length)
qed simp

lemma sufficient_combos_mem:
  "c \<in> set (sufficient_combos amount m vs) \<longleftrightarrow>
     amount \<le> sum_list c \<and> 2 \<le> length c \<and> (if m = 0 then length c \<le> length vs else length c \<le> nat m) \<and>
     c \<in> set (combinations vs (length c))"
proof -
  have "(\<exists>r \<in> A. c \<in> set (combinations vs r)) \<longleftrightarrow> length c \<in> A \<and> c \<in> set (combinations vs (length c))" for A
    using combinations_length by blast
  then show ?thesis by (simp add: sufficient_combos_def del: upt_Suc) (auto simp: less_Suc_eq_le)
qed

lemma sufficient_combos_first:
  assumes "sufficient_combos amount m vs = c # cs" "c' \<in> set (c # cs)"
  shows "length c \<le> length c'"
proof -
  have "sorted (map length (c # cs))"
    unfolding assms(1) [symmetric] sufficient_combos_def by (intro sorted_filter combinations_sorted)
  then show ?thesis using assms(2) by auto
qed

lemma take_values_ok:
  assumes "mset vs \<subseteq># mset (map row_value ls)"
  shows "\<exists>us. take_values vs ls = Inr us \<and> map row_value us = vs \<and> mset us \<subseteq># mset ls"
  using assms
proof (induction vs arbitrary: ls)
  case (Cons v vs)
  then have "v \<in> row_value ` set ls" by (auto dest: mset_subset_eqD [of _ _ v])
  then obtain u rest where f: "filter (\<lambda>u. row_value u = v) ls = u # rest"
    by (cases "filter (\<lambda>u. row_value u = v) ls") (auto simp: filter_empty_conv)
  then have u: "u \<in> set ls" "row_value u = v" using filter_eq_ConsD [OF f] by auto
  then have split: "mset ls = add_mset u (mset (remove1 u ls))" by simp
  then have "mset (map row_value ls) = add_mset v (mset (map row_value (remove1 u ls)))"
    by (simp only: mset_map split image_mset_add_mset u(2))
  then have "mset vs \<subseteq># mset (map row_value (remove1 u ls))" using Cons.prems by simp
  then obtain us where "take_values vs (remove1 u ls) = Inr us" "map row_value us = vs"
    "mset us \<subseteq># mset (remove1 u ls)" using Cons.IH by blast
  then show ?case using f u by (simp add: insert_subset_eq_iff)
qed simp

section \<open>The selection\<close>

lemma first_row_filter_Some: "first_row (filter P us) = Some u \<Longrightarrow> u \<in> set us \<and> P u"
  by (auto simp: first_row_def split: list.splits dest!: filter_eq_ConsD)

lemma first_row_None [simp]: "first_row us = None \<longleftrightarrow> us = []"
  by (simp add: first_row_def split: list.splits)

lemma first_row_Some: "first_row us = Some u \<Longrightarrow> u \<in> set us"
  by (auto simp: first_row_def split: list.splits)

lemma order_desc_simps [simp]:
  "mset (order_desc f us) = mset us" "set (order_desc f us) = set us" "length (order_desc f us) = length us"
  "order_desc f us = [] \<longleftrightarrow> us = []"
  by (simp_all add: order_desc_def) (metis length_0_conv length_sort)

lemma sort_key_Nil_iff [simp]: "sort_key f xs = [] \<longleftrightarrow> xs = []"
  by (metis length_0_conv length_sort)

lemma higher_utxo_Some: "higher_utxo amount us = Some u \<Longrightarrow> u \<in> set us \<and> amount \<le> row_value u"
  by (auto simp: higher_utxo_def dest!: first_row_Some)

lemma higher_utxo_None: "higher_utxo amount us = None \<longleftrightarrow> (\<forall>u \<in> set us. row_value u < amount)"
  by (auto simp: higher_utxo_def filter_empty_conv)

lemma lesser_utxos_all:
  "\<forall>u \<in> set us. row_value u < amount \<Longrightarrow> mset (lesser_utxos amount us) = mset us"
  by (simp add: lesser_utxos_def filter_True)

text \<open>What a selection has to be: outputs of the candidates, as few as the amount allows.\<close>

definition pays :: "int \<Rightarrow> utxo_row list \<Rightarrow> utxo_row list \<Rightarrow> bool" where
  "pays amount us sel \<longleftrightarrow> mset sel \<subseteq># mset us \<and> amount \<le> sum_list (map row_value sel)"

lemma single_pays: "u \<in> set us \<Longrightarrow> amount \<le> row_value u \<Longrightarrow> pays amount us [u]"
  by (simp add: pays_def)

lemma pays_nonempty: "pays amount us sel \<Longrightarrow> 0 < amount \<Longrightarrow> 1 \<le> length sel"
  by (cases sel) (auto simp: pays_def)

text \<open>When no single output suffices, the combinations find the smallest payment.\<close>

lemma combos_select:
  assumes low: "\<forall>u \<in> set us. row_value u < amount" and ls: "ls = lesser_utxos amount us"
    and c: "sufficient_combos amount m (map row_value ls) = c # cs"
  shows "\<exists>sel. take_values c ls = Inr sel \<and> pays amount us sel \<and> length sel = length c"
proof -
  have m: "mset ls = mset us" using low ls lesser_utxos_all by blast
  have c_in: "amount \<le> sum_list c" "c \<in> set (combinations (map row_value ls) (length c))"
    using sufficient_combos_mem [of c amount m "map row_value ls"] c by auto
  obtain sel where "take_values c ls = Inr sel" "map row_value sel = c" "mset sel \<subseteq># mset ls"
    using take_values_ok [OF combinations_sub [OF c_in(2)]] by blast
  then show ?thesis using m c_in(1) by (auto simp: pays_def)
qed

lemma combos_complete:
  assumes low: "\<forall>u \<in> set us. row_value u < amount" and ls: "ls = lesser_utxos amount us"
    and p: "pays amount us ys" "0 < amount" "m \<noteq> 0 \<Longrightarrow> int (length ys) \<le> m"
  shows "\<exists>c \<in> set (sufficient_combos amount m (map row_value ls)). length c = length ys"
proof -
  have m: "mset ls = mset us" using low ls lesser_utxos_all by blast
  have sub: "mset (map row_value ys) \<subseteq># mset (map row_value ls)"
    using p(1) m by (simp add: pays_def image_mset_subseteq_mono)
  obtain c where c: "c \<in> set (combinations (map row_value ls) (length ys))" "mset c = mset (map row_value ys)"
    using combinations_complete [OF sub] by auto
  then have l: "length c = length ys" by (metis length_map mset_eq_length)
  have s: "sum_list c = sum_list (map row_value ys)" using c(2) by (metis sum_mset_sum_list)
  have "length ys \<noteq> 1"
  proof
    assume "length ys = 1"
    then obtain y where "ys = [y]" by (cases ys) auto
    then show False using p(1) low by (auto simp: pays_def)
  qed
  then have "2 \<le> length ys" using pays_nonempty [OF p(1,2)] by simp
  moreover have "length ys \<le> length ls" using sub size_mset_mono [OF sub] by simp
  ultimately have "c \<in> set (sufficient_combos amount m (map row_value ls))"
    using c l s p by (auto simp: sufficient_combos_mem pays_def)
  then show ?thesis using l by blast
qed

text \<open>A selection of candidates always returns, and returns as few outputs as possible.\<close>

lemma select_utxos_one:
  assumes "select_utxos amount variance m us = Inr sel" "\<exists>u \<in> set us. amount \<le> row_value u"
  shows "pays amount us sel \<and> length sel = 1"
proof -
  have "higher_utxo amount us \<noteq> None" using assms(2) by (auto simp: higher_utxo_None not_less)
  then show ?thesis using assms(1)
    by (auto simp: select_utxos_def exact_utxo_def single_pays split: if_splits option.splits
        dest!: higher_utxo_Some first_row_filter_Some)
qed

lemma select_utxos_several:
  assumes "\<forall>u \<in> set us. row_value u < amount" "us \<noteq> []"
  shows "select_utxos amount variance m us =
    (if m \<noteq> 0 \<and> m \<le> 1 then Inr []
     else case sufficient_combos amount m (map row_value (lesser_utxos amount us)) of
            [] \<Rightarrow> Inr [] | c # _ \<Rightarrow> take_values c (lesser_utxos amount us))"
proof -
  have "exact_utxo amount variance us = None" using assms(1) by (auto simp: exact_utxo_def filter_empty_conv)
  moreover have "higher_utxo amount us = None" using assms(1) by (simp add: higher_utxo_None)
  ultimately show ?thesis using assms(2) by (simp add: select_utxos_def Let_def)
qed

lemma select_utxos_minimal:
  assumes "us \<noteq> []" "0 < amount"
  shows "\<exists>sel. select_utxos amount variance m us = Inr sel \<and> (sel = [] \<or> pays amount us sel) \<and>
    (\<forall>ys. pays amount us ys \<and> (m \<noteq> 0 \<longrightarrow> int (length ys) \<le> m) \<longrightarrow> sel \<noteq> [] \<and> length sel \<le> length ys) \<and>
    (sel \<noteq> [] \<longrightarrow> length sel = 1 \<or> m = 0 \<or> int (length sel) \<le> m)"
proof (cases "\<exists>u \<in> set us. amount \<le> row_value u")
  case True
  then have "higher_utxo amount us \<noteq> None" by (auto simp: higher_utxo_None not_less)
  then have "\<exists>sel. select_utxos amount variance m us = Inr sel"
    using assms(1) by (auto simp: select_utxos_def split: option.splits)
  then obtain sel where sel: "select_utxos amount variance m us = Inr sel" by blast
  then have "pays amount us sel" "length sel = 1" using select_utxos_one True by blast+
  then show ?thesis using sel pays_nonempty [OF _ assms(2)] by force
next
  case False
  then have low: "\<forall>u \<in> set us. row_value u < amount" by auto
  define ls where "ls = lesser_utxos amount us"
  let ?combos = "sufficient_combos amount m (map row_value ls)"
  note eq = select_utxos_several [OF low assms(1), of variance m, folded ls_def]
  note complete = combos_complete [OF low ls_def _ assms(2), of _ m]
  show ?thesis
  proof (cases ?combos)
    case Nil
    then have "\<not> (pays amount us ys \<and> (m \<noteq> 0 \<longrightarrow> int (length ys) \<le> m))" for ys
      using complete [of ys] by auto
    moreover have "select_utxos amount variance m us = Inr []" using eq Nil by auto
    ultimately show ?thesis by auto
  next
    case (Cons c cs)
    obtain sel where sel: "take_values c ls = Inr sel" "pays amount us sel" "length sel = length c"
      using combos_select [OF low ls_def Cons] by blast
    have len: "2 \<le> length c" "m \<noteq> 0 \<Longrightarrow> length c \<le> nat m"
      using sufficient_combos_mem [of c amount m "map row_value ls"] Cons by (auto split: if_splits)
    then have "select_utxos amount variance m us = Inr sel" using eq Cons sel(1) by auto
    moreover have "length sel \<le> length ys" if "pays amount us ys \<and> (m \<noteq> 0 \<longrightarrow> int (length ys) \<le> m)" for ys
      using complete [of ys] that sufficient_combos_first [OF Cons] sel(3) Cons by fastforce
    moreover have "m = 0 \<or> int (length sel) \<le> m" using len sel(3) by (cases "m = 0") auto
    ultimately show ?thesis using sel len by auto
  qed
qed

section \<open>Where the outputs come from\<close>

lemma take_values_sub: "take_values vs ls = Inr us \<Longrightarrow> mset us \<subseteq># mset ls"
proof (induction vs arbitrary: ls us)
  case (Cons v vs)
  then obtain u rest us' where f: "filter (\<lambda>u. row_value u = v) ls = u # rest"
    and us: "take_values vs (remove1 u ls) = Inr us'" "us = u # us'"
    by (auto simp: bindE_Inr_iff split: list.splits)
  have "u \<in> set ls" using filter_eq_ConsD [OF f] by auto
  then show ?case using Cons.IH [OF us(1)] us(2) by (simp add: insert_subset_eq_iff)
qed simp

lemma lesser_utxos_sub: "mset (lesser_utxos amount us) \<subseteq># mset us"
  by (simp add: lesser_utxos_def)

lemma select_utxos_sub:
  assumes "select_utxos amount variance m us = Inr sel"
  shows "mset sel \<subseteq># mset us"
proof (cases "exact_utxo amount variance us = None \<and> higher_utxo amount us = None")
  case True
  then show ?thesis using assms subset_mset.order_trans [OF take_values_sub lesser_utxos_sub]
    by (auto simp: select_utxos_def Let_def split: if_splits list.splits)
next
  case False
  then show ?thesis using assms
    by (auto simp: select_utxos_def exact_utxo_def split: if_splits option.splits
        dest!: higher_utxo_Some first_row_filter_Some)
qed

text \<open>The primary keys of the tables.\<close>

definition output_key :: "db_output \<Rightarrow> nat \<times> nat" where
  "output_key ou = (do_tx ou, do_output_n ou)"

definition unique_rows :: "db \<Rightarrow> bool" where
  "unique_rows d \<longleftrightarrow> distinct (map dk_id (db_keys d)) \<and> distinct (map dt_id (db_txs d)) \<and>
     distinct (map output_key (db_outputs d))"

lemma filter_unique: "distinct (map f xs) \<Longrightarrow> length (filter (\<lambda>x. f x = a) xs) \<le> 1"
proof (induction xs)
  case (Cons x xs)
  moreover have "filter (\<lambda>y. f y = a) xs = []" if "f x = a"
    using Cons.prems that by (auto simp: filter_empty_conv) (metis imageI)
  ultimately show ?case by auto
qed simp

lemma length_le_1: "length ys \<le> 1 \<Longrightarrow> ys = [] \<or> (\<exists>y. ys = [y])"
  by (cases ys) auto

lemma distinct_join:
  assumes "distinct (map key xs)" "\<And>x. x \<in> set xs \<Longrightarrow> length (f x) \<le> 1"
    "\<And>x y. x \<in> set xs \<Longrightarrow> y \<in> set (f x) \<Longrightarrow> g y = key x"
  shows "distinct (map g (concat (map f xs)))"
  using assms
proof (induction xs)
  case (Cons x xs)
  have rest: "distinct (map g (concat (map f xs)))" by (rule Cons.IH) (use Cons.prems in auto)
  have "g y \<noteq> g z" if "y \<in> set (f x)" "x' \<in> set xs" "z \<in> set (f x')" for x' y z
    using Cons.prems that by force
  moreover have "distinct (map g (f x))" using length_le_1 [OF Cons.prems(2) [of x]] by auto
  ultimately show ?case using rest by auto
qed simp

lemma output_rows_distinct: "unique_rows d \<Longrightarrow> distinct (map (\<lambda>r. output_key (fst r)) (output_rows d))"
  unfolding output_rows_def unique_rows_def
  by (rule distinct_join [where key = output_key]) (auto simp: filter_unique [unfolded One_nat_def])

lemma utxo_rows_alt:
  "utxo_rows d = concat (map (\<lambda>r. map (\<lambda>k. (fst r, snd r, k))
     (filter (\<lambda>k. do_key (fst r) = Some (dk_id k)) (db_keys d))) (output_rows d))"
  unfolding utxo_rows_def by (rule arg_cong [where f = concat], rule map_cong) auto

lemma utxo_rows_distinct:
  assumes "unique_rows d"
  shows "distinct (map (\<lambda>r. output_key (fst r)) (utxo_rows d))"
  unfolding utxo_rows_alt
proof (rule distinct_join [where key = "\<lambda>r. output_key (fst r)"])
  have "length (filter (\<lambda>k. key = Some (dk_id k)) (db_keys d)) \<le> 1" for key
    using assms filter_unique [of "\<lambda>k. Some (dk_id k)" "db_keys d" key] unfolding unique_rows_def
    by (auto simp: eq_commute [of key] distinct_map inj_on_def)
  then show "length (map (\<lambda>k. (fst r, snd r, k)) (filter (\<lambda>k. do_key (fst r) = Some (dk_id k)) (db_keys d))) \<le> 1" for r
    by simp
qed (use assms output_rows_distinct in auto)

lemma utxo_rows_mem:
  "(ou, tx, k) \<in> set (utxo_rows d) \<longleftrightarrow> ou \<in> set (db_outputs d) \<and> tx \<in> set (db_txs d) \<and> k \<in> set (db_keys d) \<and>
     dt_id tx = do_tx ou \<and> do_key ou = Some (dk_id k)"
  by (auto simp: utxo_rows_def output_rows_def)

lemma sub_distinct:
  assumes "mset xs \<subseteq># mset ys" "distinct ys"
  shows "distinct xs"
proof -
  obtain zs where "mset ys = mset (xs @ zs)"
    using assms(1) ex_mset [of "mset ys - mset xs"] by (metis mset_append subset_mset.add_diff_inverse)
  then show ?thesis using assms(2) mset_eq_imp_distinct_iff by fastforce
qed

lemma sub_filter_distinct:
  assumes "mset sel \<subseteq># mset (order_desc f (filter P rows))" "distinct (map g rows)"
  shows "distinct (map g sel)"
proof (rule sub_distinct [OF _ assms(2)])
  have "mset sel \<subseteq># mset rows"
    using assms(1) subset_mset.order_trans [OF _ multiset_filter_subset] by simp
  then show "mset (map g sel) \<subseteq># mset (map g rows)" by (simp add: image_mset_subseteq_mono)
qed

section \<open>Properties\<close>

lemma select_input_rows_Inr:
  assumes "select_input_rows w d amount variance key_ids account0 network0 min_confirms m ignore_dust = Inr sel"
  obtains network account nw where "get_account_defaults w d network0 account0 None = Inr (network, account)"
    "network_named network = Inr nw"
    "mset sel \<subseteq># mset (candidate_utxos w d (int (n_dust_amount nw)) key_ids account network min_confirms ignore_dust)"
  using assms by (auto simp: select_input_rows_def Let_def bindE_Inr_iff dest: select_utxos_sub)

text \<open>C11: every output that \<^verbatim>\<open>select_inputs\<close> selects is an unspent output of the wallet, in a transaction
  of the account with at least the requested confirmations and locked by a key with a public key,
  and no output is selected twice.\<close>

theorem select_inputs_spendable:
  assumes "unique_rows d"
    and "select_input_rows w d amount variance key_ids account0 network0 min_confirms m ignore_dust = Inr sel"
  shows "distinct (map (\<lambda>r. output_key (fst r)) sel) \<and>
    (\<forall>(ou, tx, k) \<in> set sel. ou \<in> set (db_outputs d) \<and> \<not> do_spent ou \<and>
       tx \<in> set (db_txs d) \<and> dt_id tx = do_tx ou \<and> dt_wallet tx = Some (wl_id w) \<and> min_confirms \<le> dt_confirmations tx \<and>
       k \<in> set (db_keys d) \<and> do_key ou = Some (dk_id k) \<and> dk_public k \<noteq> [])"
proof -
  obtain network account and nw :: network where sub: "mset sel \<subseteq>#
      mset (candidate_utxos w d (int (n_dust_amount nw)) key_ids account network min_confirms ignore_dust)"
    using assms(2) by (rule select_input_rows_Inr)
  have "distinct (map (\<lambda>r. output_key (fst r)) sel)"
    by (rule sub_filter_distinct [OF sub [unfolded candidate_utxos_def] utxo_rows_distinct [OF assms(1)]])
  moreover have "set sel \<subseteq> set (candidate_utxos w d (int (n_dust_amount nw)) key_ids account network
      min_confirms ignore_dust)"
    using sub by (metis set_mset_mono set_mset_mset)
  ultimately show ?thesis by (auto simp: candidate_utxos_def utxo_rows_mem)
qed

text \<open>C10: when the wallet has candidates, \<^verbatim>\<open>select_inputs\<close> returns. It selects outputs that pay for
  the amount exactly when some choice of at most \<^verbatim>\<open>max_utxos\<close> of the candidates does, and then it
  selects as few outputs as any such choice.\<close>

theorem select_inputs_minimal:
  assumes "get_account_defaults w d network0 account0 None = Inr (network, account)"
    and "network_named network = Inr nw"
    and "us = candidate_utxos w d (int (n_dust_amount nw)) key_ids account network min_confirms ignore_dust"
    and "us \<noteq> []" "0 < amount" "0 \<le> m"
  shows "\<exists>sel. select_input_rows w d amount variance key_ids account0 network0 min_confirms m ignore_dust = Inr sel \<and>
    (sel \<noteq> [] \<longleftrightarrow> (\<exists>ys. pays amount us ys \<and> (m = 0 \<or> int (length ys) \<le> m))) \<and>
    (sel \<noteq> [] \<longrightarrow> pays amount us sel \<and> (m = 0 \<or> int (length sel) \<le> m)) \<and>
    (\<forall>ys. pays amount us ys \<and> (m = 0 \<or> int (length ys) \<le> m) \<longrightarrow> length sel \<le> length ys)"
proof -
  define variance1 where "variance1 = (case variance of None \<Rightarrow> int (n_dust_amount nw) | Some v \<Rightarrow> v)"
  have eq: "select_input_rows w d amount variance key_ids account0 network0 min_confirms m ignore_dust =
      select_utxos amount variance1 m us"
    using assms(1-3) by (simp add: select_input_rows_def Let_def variance1_def)
  obtain sel where sel: "select_utxos amount variance1 m us = Inr sel" "sel = [] \<or> pays amount us sel"
    "\<And>ys. pays amount us ys \<and> (m \<noteq> 0 \<longrightarrow> int (length ys) \<le> m) \<Longrightarrow> sel \<noteq> [] \<and> length sel \<le> length ys"
    "sel \<noteq> [] \<Longrightarrow> length sel = 1 \<or> m = 0 \<or> int (length sel) \<le> m"
    using select_utxos_minimal [OF assms(4,5)] by metis
  have "m = 0 \<or> int (length sel) \<le> m" if "sel \<noteq> []"
    using sel(4) [OF that] assms(6) by (cases "m = 0") auto
  then show ?thesis unfolding eq using sel by blast
qed

text \<open>
  Among the single outputs that suffice the one with most confirmations is chosen, whatever its value.
\<close>

lemma higher_utxo_most_confirmed:
  assumes "higher_utxo amount us = Some u" "v \<in> set us" "amount \<le> row_value v"
  shows "row_confirmations v \<le> row_confirmations u"
proof -
  let ?l = "order_desc row_confirmations (sort_key row_value (filter (\<lambda>u. amount \<le> row_value u) us))"
  obtain rest where l: "?l = u # rest" using assms(1) by (auto simp: higher_utxo_def first_row_def split: list.splits)
  have "sorted (map (\<lambda>r. - row_confirmations r) ?l)" by (simp add: order_desc_def)
  moreover have "v \<in> set ?l" using assms(2,3) by simp
  ultimately show ?thesis unfolding l by auto
qed

section \<open>Witnesses\<close>

text \<open>A wallet with one key and three unspent outputs of 3000, 4000 and 5000.\<close>

definition example_wallet :: wallet where
  "example_wallet = \<lparr>wl_id = 1, wl_network = ''bitcoin'', wl_default_account = Some 0, wl_purpose = 84,
     wl_depth_public_master = 3, wl_key_depth = 5, wl_scheme = ''bip32'', wl_witness_type = ''segwit'',
     wl_encoding = ''bech32'', wl_multisig = False, wl_multisig_n_required = 1, wl_sort_keys = False,
     wl_ignore_dust = True, wl_balances = [], wl_balance = 0\<rparr>"

definition example_db_key :: db_key where
  "example_db_key = \<lparr>dk_id = 1, dk_wallet = 1, dk_account = 0, dk_network = ''bitcoin'', dk_purpose = 84,
     dk_depth = 5, dk_change = 0, dk_address_index = 0, dk_cosigner = None, dk_path = [],
     dk_is_private = False,
     dk_public = [2], dk_wif = [], dk_name = [], dk_key_type = ''bip32'', dk_compressed = True,
     dk_address = ''a'', dk_witness_type = ''segwit'', dk_children = [], dk_used = False, dk_balance = 0,
     dk_latest_txid = None\<rparr>"

definition example_db_tx :: db_tx where
  "example_db_tx = \<lparr>dt_id = 1, dt_txid = [7], dt_wallet = Some 1, dt_account = 0, dt_network = ''bitcoin'',
     dt_confirmations = 6, dt_status = ''confirmed'', dt_block_height = None, dt_fee = None,
     dt_input_total = 0, dt_output_total = 0, dt_raw = [], dt_verified = True, dt_locktime = 0,
     dt_is_complete = True\<rparr>"

definition example_utxo :: "nat \<Rightarrow> int \<Rightarrow> db_output" where
  "example_utxo n value = \<lparr>do_tx = 1, do_output_n = n, do_key = Some 1, do_address = ''a'', do_value = value,
     do_script = [], do_script_type = ''p2wpkh'', do_spent = False, do_is_change = False\<rparr>"

definition example_db :: db where
  "example_db = \<lparr>db_keys = [example_db_key], db_txs = [example_db_tx], db_inputs = [],
     db_outputs = [example_utxo 0 3000, example_utxo 1 4000, example_utxo 2 5000]\<rparr>"

lemmas example_defs = example_wallet_def example_db_key_def example_db_tx_def example_utxo_def example_db_def

lemma example_bitcoin: "\<exists>nw. network_named ''bitcoin'' = Inr nw \<and> n_dust_amount nw = 1000"
  by (simp add: network_named_def NETWORK_DEFINITIONS_def)

lemma example_rows: "utxo_rows example_db =
  [(example_utxo 0 3000, example_db_tx, example_db_key), (example_utxo 1 4000, example_db_tx, example_db_key),
   (example_utxo 2 5000, example_db_tx, example_db_key)]"
  by (simp add: utxo_rows_def output_rows_def example_defs)

lemma example_value: "do_value (example_utxo n v) = v"
  by (simp add: example_utxo_def)

lemma example_defaults: "get_account_defaults example_wallet example_db None None None = Inr (''bitcoin'', 0)"
  by (simp add: get_account_defaults_def example_wallet_def)

lemma example_candidates:
  "candidate_utxos example_wallet example_db 1000 [] 0 ''bitcoin'' 1 None = utxo_rows example_db"
  unfolding candidate_utxos_def order_desc_def example_rows by (simp add: example_defs)

lemma example_selection:
  "\<exists>sel. select_input_rows example_wallet example_db 7500 None [] None None 1 0 None = Inr sel \<and>
     map row_value sel = [5000, 4000]"
proof -
  obtain nw where nw: "network_named ''bitcoin'' = Inr nw" "n_dust_amount nw = 1000" using example_bitcoin by blast
  let ?row = "\<lambda>n v. (example_utxo n v, example_db_tx, example_db_key)"
  have low: "\<forall>u \<in> set (utxo_rows example_db). row_value u < 7500" by (simp add: example_rows example_utxo_def)
  have lesser: "lesser_utxos 7500 (utxo_rows example_db) = [?row 2 5000, ?row 1 4000, ?row 0 3000]"
    by (simp add: lesser_utxos_def order_desc_def example_rows example_utxo_def)
  have ne: "utxo_rows example_db \<noteq> []" by (simp add: example_rows)
  have combos: "\<exists>cs. sufficient_combos 7500 0 [5000, 4000, 3000] = [5000, 4000] # cs"
    by (simp add: sufficient_combos_def upt_rec numeral_2_eq_2)
  have "take_values [5000, 4000] [?row 2 5000, ?row 1 4000, ?row 0 3000] = Inr [?row 2 5000, ?row 1 4000]"
    by (simp add: example_utxo_def)
  then have "select_utxos 7500 1000 0 (utxo_rows example_db) = Inr [?row 2 5000, ?row 1 4000]"
    using combos unfolding select_utxos_several [OF low ne] lesser by (auto simp: example_value)
  then show ?thesis using nw example_candidates
    by (simp add: select_input_rows_def example_defaults example_utxo_def)
qed

theorem select_inputs_spendable_witness:
  "\<exists>sel. select_input_rows example_wallet example_db 7500 None [] None None 1 0 None = Inr sel \<and>
     length sel = 2 \<and> (\<forall>(ou, tx, k) \<in> set sel. \<not> do_spent ou)"
proof -
  obtain sel where sel: "select_input_rows example_wallet example_db 7500 None [] None None 1 0 None = Inr sel"
    "map row_value sel = [5000, 4000]" using example_selection by (elim exE conjE)
  have "unique_rows example_db" by (simp add: unique_rows_def output_key_def example_defs)
  then have "\<forall>(ou, tx, k) \<in> set sel. \<not> do_spent ou" using select_inputs_spendable [OF _ sel(1)] by blast
  moreover have "length sel = 2" using arg_cong [OF sel(2), of length] by simp
  ultimately show ?thesis using sel(1) by blast
qed

theorem select_inputs_minimal_witness:
  "\<exists>sel. select_input_rows example_wallet example_db 7500 None [] None None 1 2 None = Inr sel \<and>
     pays 7500 (utxo_rows example_db) sel \<and> length sel \<le> 2"
proof -
  obtain nw where nw: "network_named ''bitcoin'' = Inr nw" "n_dust_amount nw = 1000" using example_bitcoin by blast
  have us: "utxo_rows example_db = candidate_utxos example_wallet example_db (int (n_dust_amount nw)) [] 0 ''bitcoin'' 1 None"
    using nw example_candidates by simp
  let ?ys = "[(example_utxo 1 4000, example_db_tx, example_db_key), (example_utxo 2 5000, example_db_tx, example_db_key)]"
  have tl: "mset ys \<subseteq># mset (y # ys)" for y and ys :: "utxo_row list" by simp
  have "pays 7500 (utxo_rows example_db) ?ys"
    unfolding pays_def example_rows by (rule conjI [OF tl]) (simp add: example_value)
  moreover have "utxo_rows example_db \<noteq> []" by (simp add: example_rows)
  ultimately have ys: "\<exists>ys. pays 7500 (utxo_rows example_db) ys \<and> ((2 :: int) = 0 \<or> int (length ys) \<le> 2)"
    and ne: "utxo_rows example_db \<noteq> []" by (force, simp)
  obtain sel where
    "select_input_rows example_wallet example_db 7500 None [] None None 1 2 None = Inr sel"
    "sel \<noteq> [] \<longrightarrow> pays 7500 (utxo_rows example_db) sel \<and> ((2 :: int) = 0 \<or> int (length sel) \<le> 2)" "sel \<noteq> []"
    using select_inputs_minimal [OF example_defaults nw(1) us ne, of 7500 2 None] ys by auto
  then show ?thesis by auto
qed

end
