(* ===== verification/Wallet_Balance.thy ===== *)
theory Wallet_Balance
  imports Coin_Select "HOL-Library.Product_Lexorder" "HOL-Library.Char_ord"
begin

text \<open>
  \<^verbatim>\<open>Wallet._balance_update\<close> and \<^verbatim>\<open>Wallet.balance\<close> of \<^verbatim>\<open>bitcoinlib/wallets.py\<close>. The source sums
  floating point numbers, which is exact below \<open>2 ^ 53\<close>; the sums are integers here.
\<close>

section \<open>Grouping\<close>

text \<open>
  \<^verbatim>\<open>groupby(sorted(items, key=f), f)\<close> with the sum of the balances of every group: the keys in
  increasing order.
\<close>

definition group_sums :: "('a \<Rightarrow> 'k :: linorder) \<Rightarrow> ('a \<Rightarrow> int) \<Rightarrow> 'a list \<Rightarrow> ('k \<times> int) list" where
  "group_sums f balance items =
    map (\<lambda>k. (k, sum_list (map balance (filter (\<lambda>x. f x = k) items)))) (remdups (sort (map f items)))"

section \<open>The update\<close>

text \<open>The outputs that count: key, network, account and value of each.\<close>

definition counted_utxos ::
  "wallet \<Rightarrow> db \<Rightarrow> int \<Rightarrow> int option \<Rightarrow> string option \<Rightarrow> nat option \<Rightarrow> int
    \<Rightarrow> ((nat \<times> string \<times> int) \<times> int) list" where
  "counted_utxos w d dust_amount account network key_id min_confirms =
    map (\<lambda>(ou, tx). ((the (do_key ou), dt_network tx, dt_account tx), do_value ou))
      (filter (\<lambda>(ou, tx). \<not> do_spent ou \<and> dt_wallet tx = Some (wl_id w) \<and> dt_confirmations tx \<ge> min_confirms \<and>
                 wanted account (dt_account tx) \<and> wanted network (dt_network tx) \<and>
                 (case key_id of None \<Rightarrow> do_key ou \<noteq> None | Some k \<Rightarrow> do_key ou = Some k) \<and>
                 (wl_ignore_dust w \<longrightarrow> do_value ou \<ge> dust_amount)) (output_rows d))"

text \<open>The new balances of the wallet object: replaced where there is one, else appended.\<close>

fun merge_balance :: "wallet_balance \<Rightarrow> wallet_balance list \<Rightarrow> wallet_balance list" where
  "merge_balance b [] = [b]"
| "merge_balance b (c # cs) =
     (if wb_network c = wb_network b \<and> wb_account c = wb_account b then b # cs
      else c # merge_balance b cs)"

text \<open>One row of \<^verbatim>\<open>bulk_update_mappings\<close>, which also writes the account.\<close>

definition update_key_balance :: "(nat \<times> int) \<times> int \<Rightarrow> db_key list \<Rightarrow> db_key list" where
  "update_key_balance kb ks =
    (let ((i, a), b) = kb in map (\<lambda>k. if dk_id k = i then k\<lparr>dk_account := a, dk_balance := b\<rparr> else k) ks)"

definition balance_update ::
  "int option \<Rightarrow> string option \<Rightarrow> nat option \<Rightarrow> int \<Rightarrow> wallet \<times> db \<Rightarrow> (wallet \<times> db) res" where
  "balance_update account network key_id min_confirms s =
    (let (w, d) = s
     in bindE (network_named (wl_network w)) (\<lambda>nw.
        let utxos = counted_utxos w d (int (n_dust_amount nw)) account network key_id min_confirms;
            key_sums = group_sums fst snd utxos;
            balance_list = map (\<lambda>((n, a), b). \<lparr>wb_network = n, wb_account = a, wb_balance = b\<rparr>)
              (group_sums (\<lambda>((i, n, a), b). (n, a)) snd key_sums)
        in bindE (wallet_keys w d (any_key\<lparr>q_account := account, q_network := network, q_key_id := key_id\<rparr>)) (\<lambda>ks.
           let key_balance_list = map (\<lambda>((i, n, a), b). ((i, a), b)) key_sums @
                 map (\<lambda>k. ((dk_id k, dk_account k), 0))
                   (filter (\<lambda>k. dk_id k \<notin> set (map (fst \<circ> fst) utxos)) ks)
           in Inr (w\<lparr>wl_balances := (if key_id = None \<or> key_id = Some 0
                                     then fold merge_balance balance_list (wl_balances w) else wl_balances w),
                     wl_balance := sum_list (map wb_balance
                       (filter (\<lambda>b. wb_network b = wl_network w) balance_list))\<rparr>,
                   d\<lparr>db_keys := fold update_key_balance key_balance_list (db_keys d)\<rparr>))))"

text \<open>\<^verbatim>\<open>Wallet.balance\<close> as a number.\<close>

definition wallet_balance_of ::
  "int option \<Rightarrow> string option \<Rightarrow> wallet \<times> db \<Rightarrow> (int \<times> wallet \<times> db) res" where
  "wallet_balance_of account0 network0 s =
    bindE (balance_update account0 network0 None 0 s) (\<lambda>(w, d).
    bindE (get_account_defaults w d network0 account0 None) (\<lambda>(network, account).
      Inr (case filter (\<lambda>b. wb_account b = account \<and> wb_network b = network) (wl_balances w) of
             [] \<Rightarrow> 0 | b # _ \<Rightarrow> wb_balance b, w, d)))"

section \<open>Sums of groups\<close>




lemma group_sums_keys_distinct: "distinct (map fst (group_sums f g xs))"
  by (simp add: group_sums_def o_def)

lemma group_sums_Nil [simp]: "group_sums f g [] = []"
  by (simp add: group_sums_def)


section \<open>Properties\<close>

text \<open>The unspent outputs of a wallet that have a key, and are no dust where that is ignored.\<close>

lemma balance_update_Inr:
  assumes "balance_update account network key_id min_confirms (w, d) = Inr (w', d')"
  obtains nw ks where "network_named (wl_network w) = Inr nw"
    "wallet_keys w d (any_key\<lparr>q_account := account, q_network := network, q_key_id := key_id\<rparr>) = Inr ks"
    "wl_balance w' = (\<Sum>(k, b) \<leftarrow> filter (\<lambda>((n, a), b). n = wl_network w)
        (group_sums (\<lambda>((i, n, a), b). (n, a)) snd
          (group_sums fst snd (counted_utxos w d (int (n_dust_amount nw)) account network key_id min_confirms))). b)"
    "db_keys d' = fold update_key_balance
       (map (\<lambda>((i, n, a), b). ((i, a), b))
          (group_sums fst snd (counted_utxos w d (int (n_dust_amount nw)) account network key_id min_confirms)) @
        map (\<lambda>k. ((dk_id k, dk_account k), 0))
          (filter (\<lambda>k. dk_id k \<notin> set (map (fst \<circ> fst)
             (counted_utxos w d (int (n_dust_amount nw)) account network key_id min_confirms))) ks)) (db_keys d)"
    "wl_balances w' = (if key_id = None \<or> key_id = Some 0
       then fold merge_balance (map (\<lambda>((n, a), b). \<lparr>wb_network = n, wb_account = a, wb_balance = b\<rparr>)
         (group_sums (\<lambda>((i, n, a), b). (n, a)) snd
          (group_sums fst snd (counted_utxos w d (int (n_dust_amount nw)) account network key_id min_confirms))))
         (wl_balances w) else wl_balances w)"
  using assms by (auto simp: balance_update_def Let_def bindE_Inr_iff filter_map o_def case_prod_unfold)









text \<open>
  The balances of the wallet object are only replaced, never removed: when the last output of an
  account is spent, \<^verbatim>\<open>Wallet.balance\<close> keeps returning the old balance.
\<close>

lemma spent_wallet_keeps_balance:
  assumes "\<forall>ou \<in> set (db_outputs d). do_spent ou"
    and "wl_balances w = [\<lparr>wb_network = n, wb_account = a, wb_balance = b\<rparr>]"
    and "wallet_balance_of (Some a) (Some n) (w, d) = Inr (balance, w', d')"
  shows "balance = b"
proof -
  have none: "counted_utxos w d dust account network key_id min_confirms = []" for dust account network key_id min_confirms
    using assms(1) by (auto simp: counted_utxos_def output_rows_def filter_empty_conv)
  obtain w1 d1 where up: "balance_update (Some a) (Some n) None 0 (w, d) = Inr (w1, d1)"
    and get: "bindE (get_account_defaults w1 d1 (Some n) (Some a) None) (\<lambda>(network, account).
      Inr (case filter (\<lambda>b. wb_account b = account \<and> wb_network b = network) (wl_balances w1) of
             [] \<Rightarrow> 0 | b # _ \<Rightarrow> wb_balance b, w1, d1)) = Inr (balance, w', d')"
    using assms(3) by (auto simp: wallet_balance_of_def bindE_Inr_iff)
  have "wl_balances w1 = wl_balances w" using up by (rule balance_update_Inr) (simp add: none)
  then show ?thesis using get assms(2) by (simp add: get_account_defaults_def)
qed

section \<open>Witnesses\<close>





end
