(* ===== verification/Wallet_Tx.thy ===== *)
theory Wallet_Tx
  imports Wallet_Balance
begin

text \<open>
  The operations of \<^verbatim>\<open>bitcoinlib/wallets.py\<close> that change the tables of transactions, inputs and
  outputs: \<^verbatim>\<open>WalletTransaction.store\<close>, \<^verbatim>\<open>send\<close> and \<^verbatim>\<open>delete\<close>, \<^verbatim>\<open>Wallet.utxos_update\<close> and
  \<^verbatim>\<open>utxo_add\<close>, and the updates of transactions from a service provider.
\<close>

section \<open>Transactions to store\<close>

text \<open>The attributes of a \<^verbatim>\<open>WalletTransaction\<close>, its inputs and its outputs that are stored.\<close>

record stored_input =
  si_index_n :: nat
  si_prev_txid :: bytes
  si_output_n :: nat
  si_value :: int
  si_script :: bytes
  si_address :: string

record stored_output =
  so_output_n :: nat
  so_value :: int
  so_address :: string
  so_script :: bytes
  so_script_type :: string
  so_spent :: "bool option"
  so_change :: bool

record wallet_tx =
  wt_txid :: bytes
  wt_network :: string
  wt_account :: int
  wt_confirmations :: "int option"
  wt_status :: string
  wt_block_height :: "nat option"
  wt_fee :: "int option"
  wt_input_total :: int
  wt_output_total :: int
  wt_rawtx :: bytes
  wt_verified :: bool
  wt_locktime :: nat
  wt_inputs :: "stored_input list"
  wt_outputs :: "stored_output list"

section \<open>Rows\<close>

text \<open>The number of a new row.\<close>

definition new_id :: "nat list \<Rightarrow> nat" where
  "new_id ids = Suc (fold max ids 0)"

definition update_where :: "('a \<Rightarrow> bool) \<Rightarrow> ('a \<Rightarrow> 'a) \<Rightarrow> 'a list \<Rightarrow> 'a list" where
  "update_where P f rows = map (\<lambda>r. if P r then f r else r) rows"

text \<open>\<^verbatim>\<open>x if x else y\<close>, for a value that may be absent or zero.\<close>

definition keep_nat :: "nat option \<Rightarrow> nat option \<Rightarrow> nat option" where
  "keep_nat x y = (if x = None \<or> x = Some 0 then y else x)"

definition keep_int :: "int option \<Rightarrow> int option \<Rightarrow> int option" where
  "keep_int x y = (if x = None \<or> x = Some 0 then y else x)"

text \<open>The key of the wallet with an address, which is marked as used.\<close>

definition use_key :: "wallet \<Rightarrow> db \<Rightarrow> string \<Rightarrow> (nat option \<times> db) res" where
  "use_key w d addr =
    bindE (scalar_row (filter (\<lambda>k. dk_wallet k = wl_id w \<and> dk_address k = addr) (db_keys d))) (\<lambda>r.
      case r of
        None \<Rightarrow> Inr (None, d)
      | Some k \<Rightarrow> Inr (Some (dk_id k),
          d\<lparr>db_keys := update_where (\<lambda>k'. dk_id k' = dk_id k) (\<lambda>k'. k'\<lparr>dk_used := True\<rparr>) (db_keys d)\<rparr>))"

section \<open>store\<close>

text \<open>The row of the transaction: a new one, one of no wallet that is taken over, or an old one.\<close>

definition new_tx_row :: "wallet \<Rightarrow> wallet_tx \<Rightarrow> nat \<Rightarrow> db_tx" where
  "new_tx_row w t n =
    \<lparr>dt_id = n, dt_txid = wt_txid t, dt_wallet = Some (wl_id w), dt_account = wt_account t,
     dt_network = wt_network t, dt_confirmations = (case wt_confirmations t of None \<Rightarrow> 0 | Some c \<Rightarrow> c),
     dt_status = wt_status t, dt_block_height = wt_block_height t, dt_fee = wt_fee t,
     dt_input_total = wt_input_total t, dt_output_total = wt_output_total t, dt_raw = wt_rawtx t,
     dt_verified = wt_verified t, dt_locktime = wt_locktime t, dt_is_complete = True\<rparr>"

definition update_tx_row :: "wallet_tx \<Rightarrow> db_tx \<Rightarrow> db_tx" where
  "update_tx_row t tx =
    tx\<lparr>dt_block_height := keep_nat (wt_block_height t) (dt_block_height tx),
       dt_confirmations := the (keep_int (wt_confirmations t) (Some (dt_confirmations tx))),
       dt_fee := keep_int (wt_fee t) (dt_fee tx),
       dt_status := (if wt_status t \<noteq> [] then wt_status t else dt_status tx),
       dt_input_total := (if wt_input_total t \<noteq> 0 then wt_input_total t else dt_input_total tx),
       dt_output_total := (if wt_output_total t \<noteq> 0 then wt_output_total t else dt_output_total tx),
       dt_network := (if wt_network t \<noteq> [] then wt_network t else dt_network tx),
       dt_raw := (if wt_rawtx t \<noteq> [] then wt_rawtx t else dt_raw tx),
       dt_verified := wt_verified t, dt_locktime := wt_locktime t\<rparr>"

definition store_tx_row :: "wallet \<Rightarrow> wallet_tx \<Rightarrow> db \<Rightarrow> (nat \<times> db) res" where
  "store_tx_row w t d =
    bindE (scalar_row (filter (\<lambda>tx. dt_wallet tx = Some (wl_id w) \<and> dt_txid tx = wt_txid t) (db_txs d))) (\<lambda>r.
      let found = (case r of
                     Some tx \<Rightarrow> Some tx
                   | None \<Rightarrow> first_row (filter (\<lambda>tx. dt_wallet tx = None \<and> dt_txid tx = wt_txid t) (db_txs d)))
      in case found of
           None \<Rightarrow> (let n = new_id (map dt_id (db_txs d))
                    in Inr (n, d\<lparr>db_txs := db_txs d @ [new_tx_row w t n]\<rparr>))
         | Some tx \<Rightarrow> Inr (dt_id tx, d\<lparr>db_txs :=
               update_where (\<lambda>tx'. dt_id tx' = dt_id tx)
                 (\<lambda>tx'. update_tx_row t (tx'\<lparr>dt_wallet := Some (wl_id w)\<rparr>)) (db_txs d)\<rparr>))"

definition store_input :: "wallet \<Rightarrow> nat \<Rightarrow> stored_input \<Rightarrow> db \<Rightarrow> db res" where
  "store_input w txidn ti d =
    bindE (use_key w d (si_address ti)) (\<lambda>(key_id, d1).
    bindE (scalar_row (filter (\<lambda>i. di_tx i = txidn \<and> di_index_n i = si_index_n ti) (db_inputs d1))) (\<lambda>r.
      case r of
        None \<Rightarrow> Inr (d1\<lparr>db_inputs := db_inputs d1 @
          [\<lparr>di_tx = txidn, di_index_n = si_index_n ti, di_key = key_id, di_prev_txid = si_prev_txid ti,
            di_output_n = si_output_n ti, di_value = si_value ti, di_script = si_script ti,
            di_address = si_address ti\<rparr>]\<rparr>)
      | Some _ \<Rightarrow>
          if key_id = None then Inr d1
          else Inr (d1\<lparr>db_inputs :=
            update_where (\<lambda>i. di_tx i = txidn \<and> di_index_n i = si_index_n ti)
              (\<lambda>i. i\<lparr>di_key := key_id,
                     di_value := (if si_value ti \<noteq> 0 then si_value ti else di_value i),
                     di_prev_txid := (if si_prev_txid ti \<noteq> [] then si_prev_txid ti else di_prev_txid i),
                     di_script := (if si_script ti \<noteq> [] then si_script ti else di_script i)\<rparr>)
              (db_inputs d1)\<rparr>)))"

definition store_output :: "wallet \<Rightarrow> nat \<Rightarrow> stored_output \<Rightarrow> db \<Rightarrow> db res" where
  "store_output w txidn to d =
    bindE (use_key w d (so_address to)) (\<lambda>(key_id, d1).
    bindE (scalar_row (filter (\<lambda>ou. do_tx ou = txidn \<and> do_output_n ou = so_output_n to) (db_outputs d1))) (\<lambda>r.
      case r of
        None \<Rightarrow> Inr (d1\<lparr>db_outputs := db_outputs d1 @
          [\<lparr>do_tx = txidn, do_output_n = so_output_n to, do_key = key_id, do_address = so_address to,
            do_value = so_value to, do_script = so_script to, do_script_type = so_script_type to,
            do_spent = (so_spent to = Some True), do_is_change = so_change to\<rparr>]\<rparr>)
      | Some _ \<Rightarrow>
          if key_id = None then Inr d1
          else Inr (d1\<lparr>db_outputs :=
            update_where (\<lambda>ou. do_tx ou = txidn \<and> do_output_n ou = so_output_n to)
              (\<lambda>ou. ou\<lparr>do_key := key_id,
                       do_spent := (case so_spent to of None \<Rightarrow> do_spent ou | Some b \<Rightarrow> b)\<rparr>)
              (db_outputs d1)\<rparr>)))"

fun store_inputs :: "wallet \<Rightarrow> nat \<Rightarrow> stored_input list \<Rightarrow> db \<Rightarrow> db res" where
  "store_inputs w txidn [] d = Inr d"
| "store_inputs w txidn (ti # tis) d = bindE (store_input w txidn ti d) (store_inputs w txidn tis)"

fun store_outputs :: "wallet \<Rightarrow> nat \<Rightarrow> stored_output list \<Rightarrow> db \<Rightarrow> db res" where
  "store_outputs w txidn [] d = Inr d"
| "store_outputs w txidn (to # tos) d = bindE (store_output w txidn to d) (store_outputs w txidn tos)"

definition tx_store :: "wallet \<Rightarrow> wallet_tx \<Rightarrow> db \<Rightarrow> (nat \<times> db) res" where
  "tx_store w t d =
    bindE (store_tx_row w t d) (\<lambda>(txidn, d1).
      if txidn = 0 then Inl AssertionError
      else bindE (store_inputs w txidn (wt_inputs t) d1) (\<lambda>d2.
           bindE (store_outputs w txidn (wt_outputs t) d2) (\<lambda>d3. Inr (txidn, d3))))"

section \<open>Spent outputs\<close>

text \<open>An output with its transaction is the one an input names.\<close>

definition names_output :: "db \<Rightarrow> (db_tx \<Rightarrow> bool) \<Rightarrow> bytes \<Rightarrow> nat \<Rightarrow> db_output \<Rightarrow> bool" where
  "names_output d P txid output_n ou =
    (do_output_n ou = output_n \<and>
     list_ex (\<lambda>tx. dt_id tx = do_tx ou \<and> dt_txid tx = txid \<and> P tx) (db_txs d))"

definition set_spent :: "db \<Rightarrow> (db_tx \<Rightarrow> bool) \<Rightarrow> bool \<Rightarrow> bytes \<times> nat \<Rightarrow> db" where
  "set_spent d P b prev =
    d\<lparr>db_outputs := update_where (names_output d P (fst prev) (snd prev)) (\<lambda>ou. ou\<lparr>do_spent := b\<rparr>) (db_outputs d)\<rparr>"

text \<open>All outputs that a list of inputs names are marked as spent.\<close>

definition mark_spent :: "(db_tx \<Rightarrow> bool) \<Rightarrow> (bytes \<times> nat) list \<Rightarrow> db \<Rightarrow> db" where
  "mark_spent P prevs d = fold (\<lambda>prev d'. set_spent d' P True prev) prevs d"

definition prev_of :: "stored_input \<Rightarrow> bytes \<times> nat" where
  "prev_of ti = (si_prev_txid ti, si_output_n ti)"

section \<open>send\<close>

text \<open>
  The answer of the service to \<^verbatim>\<open>sendrawtransaction\<close>: none, one without a transaction id, or the
  transaction id. The result is the error message, the wallet and the tables.
\<close>

datatype push_result = NoResponse | UnknownResponse | Pushed bytes

definition pushed_tx :: "bytes \<Rightarrow> wallet_tx \<Rightarrow> wallet_tx" where
  "pushed_tx txid t = t\<lparr>wt_txid := txid, wt_status := ''unconfirmed'', wt_confirmations := Some 0\<rparr>"

definition tx_send ::
  "bool \<Rightarrow> bool \<Rightarrow> push_result \<Rightarrow> wallet_tx \<Rightarrow> wallet \<times> db \<Rightarrow> (string option \<times> wallet \<times> db) res" where
  "tx_send verified broadcast answer t s =
    (let (w, d) = s
     in if \<not> verified then Inr (Some ''Cannot verify transaction'', s)
        else if \<not> broadcast then Inr (None, s)
        else case answer of
          NoResponse \<Rightarrow> Inr (Some ''Cannot send transaction'', s)
        | UnknownResponse \<Rightarrow> Inr (Some ''Transaction not send, unknown response from service providers'', s)
        | Pushed txid \<Rightarrow>
            bindE (tx_store w (pushed_tx txid t) d) (\<lambda>(_, d1).
            bindE (balance_update None (Some (wt_network t)) None 0
                     (w, mark_spent (\<lambda>_. True) (map prev_of (wt_inputs t)) d1)) (\<lambda>s1.
              Inr (None, s1))))"

section \<open>delete\<close>

text \<open>
  Every output that an input of the deleted transaction names becomes unspent: the test for
  another transaction that spends it finds the input itself. The keys lose the transaction before
  the query for them is repeated, so that the balance is never updated.
\<close>

definition unspend :: "wallet \<Rightarrow> db \<Rightarrow> db_input \<Rightarrow> db" where
  "unspend w d inp =
    (if list_ex (\<lambda>i. di_tx i = di_tx inp) (db_inputs d)
     then set_spent d (\<lambda>tx. dt_wallet tx = Some (wl_id w)) False (di_prev_txid inp, di_output_n inp) else d)"

definition tx_delete :: "wallet \<Rightarrow> bytes \<Rightarrow> db \<Rightarrow> (nat \<times> db) res" where
  "tx_delete w txid d =
    bindE (scalar_row (filter (\<lambda>tx. dt_txid tx = txid) (db_txs d))) (\<lambda>r.
      case r of
        None \<Rightarrow> Inl AttributeError
      | Some tx \<Rightarrow>
          let n = dt_id tx;
              d1 = d\<lparr>db_outputs := filter (\<lambda>ou. do_tx ou \<noteq> n) (db_outputs d)\<rparr>;
              d2 = fold (\<lambda>inp d'. unspend w d' inp) (filter (\<lambda>i. di_tx i = n) (db_inputs d1)) d1
          in Inr (length (filter (\<lambda>tx. dt_txid tx = txid) (db_txs d2)),
               d2\<lparr>db_inputs := filter (\<lambda>i. di_tx i \<noteq> n) (db_inputs d2),
                  db_keys := update_where (\<lambda>k. dk_latest_txid k = Some txid)
                    (\<lambda>k. k\<lparr>dk_latest_txid := None, dk_used := False\<rparr>) (db_keys d2),
                  db_txs := filter (\<lambda>tx. dt_txid tx \<noteq> txid) (db_txs d2)\<rparr>))"

text \<open>\<^verbatim>\<open>Wallet.transaction_delete\<close>; reading the transaction back is left out.\<close>

definition transaction_delete :: "wallet \<Rightarrow> bytes \<Rightarrow> db \<Rightarrow> db res" where
  "transaction_delete w txid d =
    bindE (scalar_row (filter (\<lambda>tx. dt_wallet tx = Some (wl_id w) \<and> dt_txid tx = txid) (db_txs d))) (\<lambda>r.
      case r of
        None \<Rightarrow> Inl WalletError
      | Some _ \<Rightarrow> bindE (tx_delete w txid d) (\<lambda>(_, d1). Inr d1))"

section \<open>Unspent outputs from a service\<close>

record utxo_info =
  ui_txid :: bytes
  ui_output_n :: nat
  ui_value :: int
  ui_address :: string
  ui_confirmations :: int
  ui_script :: bytes

definition script_type_default_opt :: "string \<Rightarrow> bool \<Rightarrow> bool \<Rightarrow> string option res" where
  "script_type_default_opt witness_type multisig locking_script =
    (if witness_type = [] then Inr None
     else bindE (script_type_default witness_type multisig locking_script) (\<lambda>st. Inr (Some st)))"

text \<open>\<^verbatim>\<open>spent_in_db\<close>: a stored transaction of the wallet spends the output.\<close>

definition spent_in_db :: "wallet \<Rightarrow> db \<Rightarrow> bytes \<Rightarrow> nat \<Rightarrow> bool" where
  "spent_in_db w d txid output_n =
    list_ex (\<lambda>(inp, tx). dt_wallet tx = Some (wl_id w) \<and> di_prev_txid inp = txid \<and> di_output_n inp = output_n)
      (input_rows d)"

text \<open>The row of an unknown transaction; two rows of a wallet with one txid violate a constraint.\<close>

definition add_utxo_tx :: "wallet \<Rightarrow> string \<Rightarrow> int \<Rightarrow> utxo_info \<Rightarrow> db \<Rightarrow> (nat \<times> db) res" where
  "add_utxo_tx w network account u d =
    bindE (scalar_row (filter (\<lambda>tx. dt_wallet tx = Some (wl_id w) \<and> dt_txid tx = ui_txid u \<and> dt_network tx = network)
             (db_txs d))) (\<lambda>r.
      case r of
        Some tx \<Rightarrow> Inr (dt_id tx, d)
      | None \<Rightarrow>
          if list_ex (\<lambda>tx. dt_wallet tx = Some (wl_id w) \<and> dt_txid tx = ui_txid u) (db_txs d)
          then Inl GenericException
          else let n = new_id (map dt_id (db_txs d))
               in Inr (n, d\<lparr>db_txs := db_txs d @
                    [\<lparr>dt_id = n, dt_txid = ui_txid u, dt_wallet = Some (wl_id w), dt_account = account,
                      dt_network = network, dt_confirmations = ui_confirmations u,
                      dt_status = (if ui_confirmations u \<noteq> 0 then ''confirmed'' else ''unconfirmed''),
                      dt_block_height = None, dt_fee = None, dt_input_total = 0, dt_output_total = 0,
                      dt_raw = [], dt_verified = False, dt_locktime = 0, dt_is_complete = False\<rparr>]\<rparr>))"

text \<open>
  One unspent output: 1 when it is new, or known but not linked to a key. The block height is never
  set, since the source tests \<^verbatim>\<open>None in utxo\<close>.
\<close>

definition utxo_key :: "wallet \<Rightarrow> db \<Rightarrow> db_key option \<Rightarrow> string \<Rightarrow> db_key res" where
  "utxo_key w d single_key addr =
    (case single_key of
       Some k \<Rightarrow> Inr k
     | None \<Rightarrow> bindE (scalar_row (filter (\<lambda>k. dk_wallet k = wl_id w \<and> dk_address k = addr) (db_keys d))) (\<lambda>r.
                case r of None \<Rightarrow> Inl WalletError | Some k \<Rightarrow> Inr k))"

definition refresh_utxo :: "wallet \<Rightarrow> string \<Rightarrow> nat \<Rightarrow> utxo_info \<Rightarrow> db_output \<Rightarrow> db \<Rightarrow> db res" where
  "refresh_utxo w network key_id u ou d =
    (let d1 = d\<lparr>db_outputs := update_where (\<lambda>ou'. output_key ou' = output_key ou)
           (\<lambda>ou'. ou'\<lparr>do_key := Some key_id, do_spent := spent_in_db w d (ui_txid u) (ui_output_n u)\<rparr>) (db_outputs d)\<rparr>;
         in_db = (\<lambda>tx. dt_wallet tx = Some (wl_id w) \<and> dt_txid tx = ui_txid u \<and> dt_network tx = network)
     in bindE (scalar_row (filter in_db (db_txs d1))) (\<lambda>r.
        Inr (case r of
               None \<Rightarrow> d1
             | Some tx \<Rightarrow> d1\<lparr>db_txs := update_where (\<lambda>tx'. dt_id tx' = dt_id tx)
                 (\<lambda>tx'. tx'\<lparr>dt_confirmations := ui_confirmations u,
                   dt_status := (if ui_confirmations u \<noteq> 0 then ''confirmed'' else ''unconfirmed'')\<rparr>) (db_txs d1)\<rparr>)))"

definition update_utxo ::
  "wallet \<Rightarrow> string \<Rightarrow> int \<Rightarrow> db_key option \<Rightarrow> utxo_info \<Rightarrow> db \<Rightarrow> (nat \<times> db) res" where
  "update_utxo w network account single_key u d =
    bindE (utxo_key w d single_key (ui_address u)) (\<lambda>key.
    let d1 = d\<lparr>db_keys := update_where (\<lambda>k. dk_id k = dk_id key) (\<lambda>k. k\<lparr>dk_used := True\<rparr>) (db_keys d)\<rparr>
    in bindE (scalar_row (map fst (filter (\<lambda>(ou, tx). dt_wallet tx = Some (wl_id w) \<and> dt_txid tx = ui_txid u \<and>
                do_output_n ou = ui_output_n u) (output_rows d1)))) (\<lambda>r.
       case r of
         Some ou \<Rightarrow> bindE (refresh_utxo w network (dk_id key) u ou d1) (\<lambda>d2.
                     Inr (if do_key ou = None \<or> do_key ou = Some 0 then 1 else 0, d2))
       | None \<Rightarrow>
           bindE (add_utxo_tx w network account u d1) (\<lambda>(tid, d2).
           bindE (script_type_default_opt (wl_witness_type w) (wl_multisig w) True) (\<lambda>script_type.
             Inr (1, d2\<lparr>db_outputs := db_outputs d2 @
               [\<lparr>do_tx = tid, do_output_n = ui_output_n u, do_key = Some (dk_id key), do_address = ui_address u,
                 do_value = ui_value u, do_script = ui_script u,
                 do_script_type = (case script_type of None \<Rightarrow> [] | Some s \<Rightarrow> s),
                 do_spent = spent_in_db w d1 (ui_txid u) (ui_output_n u), do_is_change = False\<rparr>]\<rparr>)))))"

fun update_utxos ::
  "wallet \<Rightarrow> string \<Rightarrow> int \<Rightarrow> db_key option \<Rightarrow> utxo_info list \<Rightarrow> db \<Rightarrow> (nat \<times> db) res" where
  "update_utxos w network account single_key [] d = Inr (0, d)"
| "update_utxos w network account single_key (u # us) d =
     bindE (update_utxo w network account single_key u d) (\<lambda>(n, d1).
     bindE (update_utxos w network account single_key us d1) (\<lambda>(m, d2). Inr (n + m, d2)))"

text \<open>With \<^verbatim>\<open>rescan_all\<close> the current unspent outputs are first marked as spent.\<close>

definition expire_utxos :: "wallet \<Rightarrow> string \<Rightarrow> int \<Rightarrow> db \<Rightarrow> db" where
  "expire_utxos w network account d =
    d\<lparr>db_outputs := update_where
       (\<lambda>ou. list_ex (\<lambda>tx. dt_id tx = do_tx ou \<and> dt_account tx = account \<and> dt_wallet tx = Some (wl_id w) \<and>
                        dt_network tx = network) (db_txs d))
       (\<lambda>ou. ou\<lparr>do_spent := True\<rparr>) (db_outputs d)\<rparr>"

text \<open>
  The answers of the service for the addresses of the wallet; \<open>getutxos\<close> returns \<open>None\<close> for
  \<^verbatim>\<open>False\<close>, and \<open>shuffle\<close> is the random order in which the addresses are asked for.
\<close>

fun fetch_utxos ::
  "(string \<Rightarrow> bytes option \<Rightarrow> utxo_info list option) \<Rightarrow> (string \<Rightarrow> bytes option) \<Rightarrow> string list
    \<Rightarrow> utxo_info list res" where
  "fetch_utxos getutxos after_txid [] = Inr []"
| "fetch_utxos getutxos after_txid (a # addresses) =
     (case getutxos a (after_txid a) of
        None \<Rightarrow> Inl WalletError
      | Some us \<Rightarrow> bindE (fetch_utxos getutxos after_txid addresses) (\<lambda>vs. Inr (us @ vs)))"

record utxos_args =
  ua_account :: "int option"
  ua_used :: "bool option"
  ua_networks :: "string list option"
  ua_key_id :: "nat option"
  ua_depth :: "int option"
  ua_change :: "int option"
  ua_utxos :: "utxo_info list option"
  ua_update_balance :: bool
  ua_rescan_all :: bool

text \<open>One network of \<^verbatim>\<open>utxos_update\<close>.\<close>

definition utxos_update_network ::
  "(string \<Rightarrow> string \<Rightarrow> bytes option \<Rightarrow> utxo_info list option) \<Rightarrow> (string list \<Rightarrow> string list) \<Rightarrow> utxos_args
    \<Rightarrow> int \<Rightarrow> db_key option \<Rightarrow> utxo_info list option \<Rightarrow> string \<Rightarrow> wallet \<times> db \<Rightarrow> (nat \<times> wallet \<times> db) res" where
  "utxos_update_network getutxos shuffle args account single_key utxos network s =
    (let (w, d) = s;
         rescan_all = (single_key = None \<and> ua_rescan_all args);
         d1 = (if rescan_all then expire_utxos w network account d else d);
         depth = (case ua_depth args of None \<Rightarrow> wl_key_depth w | Some n \<Rightarrow> n)
     in bindE (case utxos of
                 Some us \<Rightarrow> Inr us
               | None \<Rightarrow>
                   bindE (addresslist w d1 (any_key\<lparr>q_account := Some account, q_used := ua_used args,
                            q_network := Some network, q_key_id := ua_key_id args, q_change := ua_change args,
                            q_depth := Some depth\<rparr>)) (\<lambda>addresses.
                     fetch_utxos (getutxos network)
                       (\<lambda>a. if rescan_all then None else utxo_last w d1 a) (shuffle addresses))) (\<lambda>us.
        bindE (update_utxos w network account single_key us d1) (\<lambda>(n, d2).
        bindE (if ua_update_balance args
               then balance_update (Some account) (Some network) (ua_key_id args) 0 (w, d2)
               else Inr (w, d2)) (\<lambda>s2. Inr (n, s2)))))"

text \<open>The given outputs serve the first network only.\<close>

fun utxos_update_networks ::
  "(string \<Rightarrow> string \<Rightarrow> bytes option \<Rightarrow> utxo_info list option) \<Rightarrow> (string list \<Rightarrow> string list) \<Rightarrow> utxos_args
    \<Rightarrow> int \<Rightarrow> db_key option \<Rightarrow> utxo_info list option \<Rightarrow> string list \<Rightarrow> wallet \<times> db \<Rightarrow> (nat \<times> wallet \<times> db) res" where
  "utxos_update_networks getutxos shuffle args account single_key utxos [] s = Inr (0, s)"
| "utxos_update_networks getutxos shuffle args account single_key utxos (n # ns) s =
     bindE (utxos_update_network getutxos shuffle args account single_key utxos n s) (\<lambda>(c1, s1).
     bindE (utxos_update_networks getutxos shuffle args account single_key None ns s1) (\<lambda>(c2, s2).
       Inr (c1 + c2, s2)))"

text \<open>
  \<^verbatim>\<open>Wallet.utxos_update\<close>; \<open>network_list\<close> are the networks of the wallet. The network that is passed
  to \<^verbatim>\<open>_get_account_defaults\<close> is the empty string.
\<close>

definition single_key_of :: "wallet \<Rightarrow> db \<Rightarrow> nat option \<Rightarrow> db_key option res" where
  "single_key_of w d key_id =
    (if key_id = None \<or> key_id = Some 0 then Inr None
     else bindE (wallet_key w d (the key_id)) (\<lambda>k. Inr (Some k)))"

definition utxos_update ::
  "(string \<Rightarrow> string \<Rightarrow> bytes option \<Rightarrow> utxo_info list option) \<Rightarrow> (string list \<Rightarrow> string list) \<Rightarrow> string list
    \<Rightarrow> utxos_args \<Rightarrow> wallet \<times> db \<Rightarrow> (nat \<times> wallet \<times> db) res" where
  "utxos_update getutxos shuffle network_list args s =
    (let (w, d) = s
     in bindE (get_account_defaults w d (Some []) (ua_account args) (ua_key_id args)) (\<lambda>(_, account).
        bindE (single_key_of w d (ua_key_id args)) (\<lambda>single_key.
        let networks = (case single_key of
                          Some k \<Rightarrow> [dk_network k]
                        | None \<Rightarrow> (case ua_networks args of None \<Rightarrow> network_list | Some ns \<Rightarrow> ns))
        in if single_key = None \<and> ua_networks args \<noteq> None \<and> length networks \<noteq> 1 \<and> ua_utxos args \<noteq> None
           then Inl WalletError
           else utxos_update_networks getutxos shuffle args
                  (case single_key of Some k \<Rightarrow> dk_account k | None \<Rightarrow> account) single_key (ua_utxos args)
                  networks s)))"

text \<open>\<^verbatim>\<open>Wallet.utxo_add\<close>\<close>

definition utxo_add :: "string list \<Rightarrow> utxo_info \<Rightarrow> wallet \<times> db \<Rightarrow> (nat \<times> wallet \<times> db) res" where
  "utxo_add network_list u s =
    utxos_update (\<lambda>_ _ _. None) id network_list
      \<lparr>ua_account = None, ua_used = None, ua_networks = None, ua_key_id = None, ua_depth = None,
       ua_change = None, ua_utxos = Some [u], ua_update_balance = True, ua_rescan_all = False\<rparr> s"

section \<open>Transactions from a service\<close>

fun store_all :: "wallet \<Rightarrow> wallet_tx list \<Rightarrow> db \<Rightarrow> db res" where
  "store_all w [] d = Inr d"
| "store_all w (t # ts) d = bindE (tx_store w t d) (\<lambda>(_, d1). store_all w ts d1)"

text \<open>\<^verbatim>\<open>transactions_update_by_txids\<close> with the transactions the service returns.\<close>

definition transactions_update_by_txids :: "wallet \<Rightarrow> wallet_tx list \<Rightarrow> db \<Rightarrow> db res" where
  "transactions_update_by_txids w ts d =
    bindE (store_all w ts d) (\<lambda>d1.
      Inr (mark_spent (\<lambda>_. True) (remdups (concat (map (\<lambda>t. map prev_of (wt_inputs t)) ts))) d1))"

definition update_confirmations :: "wallet \<Rightarrow> nat \<Rightarrow> db \<Rightarrow> db" where
  "update_confirmations w blockcount d =
    d\<lparr>db_txs := update_where
       (\<lambda>tx. dt_wallet tx = Some (wl_id w) \<and> dt_network tx = wl_network w \<and>
             (case dt_block_height tx of None \<Rightarrow> False | Some h \<Rightarrow> h > 0))
       (\<lambda>tx. tx\<lparr>dt_status := ''confirmed'',
                dt_confirmations := int blockcount - int (the (dt_block_height tx)) + 1\<rparr>) (db_txs d)\<rparr>"

end
