(* ===== verification/Wallet_Create.thy ===== *)
theory Wallet_Create
  imports Wallet_Tx
begin

text \<open>
  \<^verbatim>\<open>Wallet.transaction_create\<close> of \<^verbatim>\<open>bitcoinlib/wallets.py\<close>: from payments to a
  transaction with inputs, change and fee. Payments are pairs of an address and an amount; given
  inputs are tuples of a transaction id, an output number, a key number and a value.
\<close>

section \<open>The environment\<close>

text \<open>
  What the service, the random numbers and the floating point formulas decide: the estimated fees
  for a priority and without one, the current block, \<open>e_fee\<close> for \<^verbatim>\<open>round(size / 1000.0 * fee_per_kb)\<close>,
  \<open>e_rate\<close> for \<^verbatim>\<open>round(fee * 1000.0 / vsize)\<close>, the random number of change outputs up to a bound, the amounts \<^verbatim>\<open>int(...)\<close>
  of \<open>n\<close> change outputs for the smallest value and the change, and the two shuffles. \<open>e_change_keys\<close>
  are the key number and the address of the change keys that \<^verbatim>\<open>get_key\<close> and \<^verbatim>\<open>get_keys\<close> return.
\<close>

record create_env =
  e_estimate :: "string \<Rightarrow> int"
  e_estimate_default :: int
  e_blockcount :: nat
  e_fee :: "int \<Rightarrow> int \<Rightarrow> int"
  e_rate :: "int \<Rightarrow> int \<Rightarrow> int"
  e_number :: "int \<Rightarrow> nat"
  e_amounts :: "nat \<Rightarrow> int \<Rightarrow> int \<Rightarrow> int list"
  e_shuffle_inputs :: "tx_input list \<Rightarrow> tx_input list"
  e_shuffle_outputs :: "tx_output list \<Rightarrow> tx_output list"
  e_change_keys :: "nat \<Rightarrow> (nat \<times> string) list res"

datatype fee_arg = NoFee | FeeInt int | FeePriority string

record create_args =
  ca_outputs :: "(string \<times> int) list"
  ca_inputs :: "(bytes \<times> nat \<times> nat \<times> int) list option"
  ca_key_ids :: "nat list"
  ca_account :: "int option"
  ca_network :: "string option"
  ca_fee :: fee_arg
  ca_min_confirms :: int
  ca_max_utxos :: int
  ca_locktime :: nat
  ca_change_outputs :: nat
  ca_shuffle :: bool
  ca_replace_by_fee :: bool
  ca_ignore_dust :: "bool option"
  ca_anti_fee_sniping :: bool

section \<open>Keys of inputs\<close>

text \<open>\<^verbatim>\<open>_objects_by_key_id\<close>, and the key objects of a \<^verbatim>\<open>WalletKey\<close>.\<close>

type_synonym protected = "string \<Rightarrow> (bytes \<times> bool) res"

definition child_objects :: "crypto \<Rightarrow> curve \<Rightarrow> protected \<Rightarrow> db \<Rightarrow> db_key \<Rightarrow> hdkey list res" where
  "child_objects C E protected d k =
    map_res (\<lambda>ck. hd_from_wif C E protected (dk_wif ck) (Some (dk_network ck)) (dk_compressed k) None)
      (concat (map (\<lambda>i. filter (\<lambda>ck. dk_id ck = i) (db_keys d)) (dk_children k)))"

definition objects_by_key :: "crypto \<Rightarrow> curve \<Rightarrow> protected \<Rightarrow> db \<Rightarrow> db_key \<Rightarrow> hdkey list res" where
  "objects_by_key C E protected d k =
    (if dk_key_type k = ''multisig'' then child_objects C E protected d k
     else if dk_key_type k \<in> {''bip32'', ''single''}
     then (if dk_wif k = [] then Inl WalletError
           else bindE (hd_from_wif C E protected (dk_wif k) (Some (dk_network k)) (dk_compressed k) None)
                  (\<lambda>key. Inr [key]))
     else Inl WalletError)"

definition wallet_key_objects :: "crypto \<Rightarrow> curve \<Rightarrow> protected \<Rightarrow> db \<Rightarrow> nat \<Rightarrow> (db_key \<times> hdkey list) res" where
  "wallet_key_objects C E protected d key_id =
    (case filter (\<lambda>k. dk_id k = key_id) (db_keys d) of
       [] \<Rightarrow> Inl WalletError
     | k # _ \<Rightarrow>
         bindE (if dk_key_type k = ''multisig'' then child_objects C E protected d k
                else if dk_wif k = [] then Inr []
                else bindE (hd_from_wif C E protected (dk_wif k) (Some (dk_network k)) (dk_compressed k) None)
                       (\<lambda>key. Inr [key])) (\<lambda>keys. Inr (k, keys)))"

section \<open>Inputs\<close>

text \<open>\<^verbatim>\<open>select_inputs\<close>: the \<^verbatim>\<open>Input\<close> object of a selected row, its keys and its address.\<close>

definition selected_input ::
  "crypto \<Rightarrow> curve \<Rightarrow> protected \<Rightarrow> wallet \<Rightarrow> db \<Rightarrow> utxo_row \<Rightarrow> (tx_input \<times> nat \<times> hdkey list \<times> string) res" where
  "selected_input C E protected w d r =
    (let (ou, tx, k) = r
     in bindE (objects_by_key C E protected d k) (\<lambda>keys.
        bindE (get_unlocking_script_type (do_script_type ou) (dk_witness_type k) (\<not> length keys < 2)) (\<lambda>script_type.
        bindE (input_from_keys C (dt_txid tx) (int (do_output_n ou)) keys (Some script_type) (dk_address k) 0xffffffff
                 (dk_compressed k) (Some (wl_multisig_n_required w)) (wl_sort_keys w) 0 (do_value ou)
                 (Some (dk_witness_type k))) (\<lambda>i.
          let keys1 = fst (input_keys keys [] (dk_compressed k))
          in Inr (i, do_output_n ou, if wl_sort_keys w then sort_keys keys1 else keys1, dk_address k)))))"

definition select_inputs ::
  "crypto \<Rightarrow> curve \<Rightarrow> protected \<Rightarrow> wallet \<Rightarrow> db \<Rightarrow> int \<Rightarrow> int option \<Rightarrow> nat list \<Rightarrow> int option
    \<Rightarrow> string option \<Rightarrow> int \<Rightarrow> int \<Rightarrow> bool option \<Rightarrow> (tx_input \<times> nat \<times> hdkey list \<times> string) list res" where
  "select_inputs C E protected w d amount variance key_ids account0 network0 min_confirms max_utxos ignore_dust =
    bindE (select_input_rows w d amount variance key_ids account0 network0 min_confirms max_utxos ignore_dust)
      (map_res (selected_input C E protected w d))"

fun add_selected ::
  "crypto \<Rightarrow> bool \<Rightarrow> wallet \<Rightarrow> nat \<Rightarrow> (tx_input \<times> nat \<times> hdkey list \<times> string) list \<Rightarrow> transaction
    \<Rightarrow> transaction res" where
  "add_selected C rbf w sequence [] t = Inr t"
| "add_selected C rbf w sequence ((i, n, keys, addr) # sel) t =
     bindE (add_input C rbf t (i_prev_txid i) (int n) keys (Some (i_script_type i)) addr sequence (i_compressed i)
              (Some (wl_multisig_n_required w)) (wl_sort_keys w) (i_value i)
              (Some (if i_witness_type i \<noteq> [] then i_witness_type i else wl_witness_type w)))
       (\<lambda>(_, t1). add_selected C rbf w sequence sel t1)"

text \<open>
  A given input: what the tables know of the output replaces the key and the value of the tuple;
  whether the output is spent is not tested.
\<close>

definition given_input ::
  "wallet \<Rightarrow> db \<Rightarrow> bytes \<times> nat \<times> nat \<times> int \<Rightarrow> (nat \<times> int \<times> string \<times> string \<times> string) res" where
  "given_input w d inp =
    (let (prev_txid, output_n, key_id0, value0) = inp
     in case filter (\<lambda>(ou, tx). dt_wallet tx = Some (wl_id w) \<and> dt_txid tx = prev_txid \<and> do_output_n ou = output_n)
               (output_rows d) of
          (ou, tx) # _ \<Rightarrow>
            (case filter (\<lambda>k. do_key ou = Some (dk_id k)) (db_keys d) of
               [] \<Rightarrow> Inl AttributeError
             | k # _ \<Rightarrow> bindE (get_unlocking_script_type (do_script_type ou) ''legacy'' (wl_multisig w)) (\<lambda>st.
                          Inr (dk_id k, do_value ou, dk_address k, st, dk_witness_type k)))
        | [] \<Rightarrow>
            bindE (scalar_row (filter (\<lambda>k. dk_wallet k = wl_id w \<and> dk_address k = []) (db_keys d))) (\<lambda>r.
              case r of
                None \<Rightarrow> Inl WalletError
              | Some k \<Rightarrow> if dk_id k = 0 \<or> value0 = 0 then Inl WalletError
                          else Inr (dk_id k, value0, [], [], wl_witness_type w)))"

fun add_given ::
  "crypto \<Rightarrow> curve \<Rightarrow> protected \<Rightarrow> bool \<Rightarrow> wallet \<Rightarrow> db \<Rightarrow> nat \<Rightarrow> (bytes \<times> nat \<times> nat \<times> int) list
    \<Rightarrow> int \<Rightarrow> transaction \<Rightarrow> (int \<times> transaction) res" where
  "add_given C E protected rbf w d sequence [] amount t = Inr (amount, t)"
| "add_given C E protected rbf w d sequence (inp # inps) amount t =
     bindE (given_input w d inp) (\<lambda>(key_id, value, addr, script_type, witness_type).
     bindE (wallet_key_objects C E protected d key_id) (\<lambda>(k, keys).
     bindE (add_input C rbf t (fst inp) (int (fst (snd inp))) keys (Some script_type) addr sequence (dk_compressed k)
              (Some (wl_multisig_n_required w)) (wl_sort_keys w) value (Some witness_type)) (\<lambda>(_, t1).
       add_given C E protected rbf w d sequence inps (amount + value) t1)))"

section \<open>Fees\<close>

definition no_inputs :: "create_args \<Rightarrow> bool" where
  "no_inputs a = (ca_inputs a = None \<or> ca_inputs a = Some [])"

text \<open>
  Before the inputs are known: the fee if it is decided, the estimate that the inputs have to pay
  for, the fee rate, and the transaction with its estimated size.
\<close>

definition initial_fee ::
  "create_env \<Rightarrow> create_args \<Rightarrow> transaction \<Rightarrow> (int option \<times> int \<times> int option \<times> transaction) res" where
  "initial_fee V a t =
    (case ca_fee a of
       FeeInt f \<Rightarrow> Inr (Some f, f, None, t)
     | _ \<Rightarrow>
         let fee_per_kb = e_estimate V (case ca_fee a of FeePriority p \<Rightarrow> p | _ \<Rightarrow> [])
         in bindE (if no_inputs a
                   then bindE (estimate_size t (ca_change_outputs a)) (\<lambda>(vsize, t1).
                          Inr (e_fee V vsize fee_per_kb, t1))
                   else Inr (0, t)) (\<lambda>(estimate, t1).
            Inr (case ca_fee a of FeePriority _ \<Rightarrow> Some estimate | _ \<Rightarrow> None, estimate, Some fee_per_kb, t1)))"

text \<open>
  With the inputs: fee, change, fee rate and the fee of one output. Without a fee the inputs that are
  given pay everything that is left as fee.
\<close>

definition fee_and_change ::
  "create_env \<Rightarrow> network \<Rightarrow> bool \<Rightarrow> int option \<Rightarrow> int option \<Rightarrow> int \<Rightarrow> int \<Rightarrow> int
    \<Rightarrow> int \<times> int \<times> int option \<times> int option" where
  "fee_and_change V nw selected fee fee_per_kb est_size amount_total_input amount_total_output =
    (case fee of
       Some f \<Rightarrow> (f, amount_total_input - (amount_total_output + f), fee_per_kb, None)
     | None \<Rightarrow>
         if selected
         then (let rate0 = (if fee_per_kb = None \<or> fee_per_kb = Some 0 then e_estimate_default V else the fee_per_kb);
                   rate = (if rate0 < int (n_fee_min nw) then int (n_fee_min nw) else rate0);
                   f = e_fee V est_size rate
               in (f, amount_total_input - (amount_total_output + f), Some rate, Some (e_fee V 50 rate)))
         else if amount_total_output \<noteq> 0 \<and> amount_total_input \<noteq> 0
         then (amount_total_input - amount_total_output, 0, fee_per_kb, None)
         else (0, amount_total_input - amount_total_output, fee_per_kb, None))"

text \<open>Change below the fee of an output or the dust limit is added to the fee, also when it is negative.\<close>

definition skip_dust :: "network \<Rightarrow> int option \<Rightarrow> int \<Rightarrow> int \<Rightarrow> int \<times> int" where
  "skip_dust nw fee_per_output fee change =
    (if (case fee_per_output of Some f \<Rightarrow> f \<noteq> 0 \<and> change < f | None \<Rightarrow> False) \<or> change \<le> int (n_dust_amount nw)
     then (fee + change, 0) else (fee, change))"

definition fee_rate :: "create_env \<Rightarrow> int option \<Rightarrow> int \<Rightarrow> nat \<Rightarrow> int res" where
  "fee_rate V fee_per_kb fee vsize =
    (if fee_per_kb = None \<or> fee_per_kb = Some 0
     then if vsize = 0 then Inl ZeroDivisionError else Inr (e_rate V fee (int vsize))
     else Inr (the fee_per_kb))"

section \<open>Change\<close>

text \<open>The number of change outputs when 0 is asked for.\<close>

definition change_number :: "create_env \<Rightarrow> int \<Rightarrow> int \<Rightarrow> int \<Rightarrow> nat" where
  "change_number V change amount_total_output min_output_value =
    (if change * 10 < amount_total_output \<or> change < min_output_value * 8 then 1
     else e_number V (if change > amount_total_output * 10 then 5 else 4))"

definition change_amounts :: "create_env \<Rightarrow> nat \<Rightarrow> int \<Rightarrow> int \<Rightarrow> int list" where
  "change_amounts V n min_output_value change =
    (if n > 1
     then (case e_amounts V n min_output_value change of
             [] \<Rightarrow> []
           | x # xs \<Rightarrow> (x + (change - sum_list (x # xs))) # xs)
     else [change])"

text \<open>An output for every change key.\<close>

fun add_change ::
  "crypto \<Rightarrow> string \<Rightarrow> string option \<Rightarrow> (nat \<times> string) list \<Rightarrow> int list \<Rightarrow> transaction \<Rightarrow> transaction res" where
  "add_change C network encoding [] amounts t = Inr t"
| "add_change C network encoding (ck # cks) [] t = Inl IndexError"
| "add_change C network encoding (ck # cks) (x # xs) t =
     bindE (add_output_to C network t x (snd ck) encoding True) (\<lambda>(_, t1).
       add_change C network encoding cks xs t1)"

definition with_change ::
  "crypto \<Rightarrow> create_env \<Rightarrow> network \<Rightarrow> string \<Rightarrow> create_args \<Rightarrow> int \<Rightarrow> int \<Rightarrow> int option \<Rightarrow> int \<Rightarrow> transaction
    \<Rightarrow> (int option \<times> transaction) res" where
  "with_change C V nw encoding a fee change fee_per_kb0 amount_total_output t =
    bindE (if fee \<noteq> 0 \<and> t_size t \<noteq> 0
           then bindE (fee_rate V fee_per_kb0 fee (t_vsize t)) (\<lambda>r.
                  Inr (Some r, r + int (n_fee_min nw) * 2 + int (n_dust_amount nw)))
           else Inr (fee_per_kb0, int (n_dust_amount nw) * 2 + int (n_fee_min nw) * 4)) (\<lambda>(fee_per_kb, min_output_value).
    bindE (if ca_change_outputs a = 0
           then (let n = change_number V change amount_total_output min_output_value
                 in bindE (estimate_size t n) (\<lambda>(vsize, t1). Inr (n, t1\<lparr>t_size := nat vsize\<rparr>)))
           else Inr (ca_change_outputs a, t)) (\<lambda>(n, t1).
      if n > 1 \<and> change div int n < min_output_value then Inl WalletError
      else bindE (e_change_keys V n) (\<lambda>cks.
           bindE (add_change C (n_name nw) (Some encoding) cks (change_amounts V n min_output_value change) t1) (\<lambda>t2.
             Inr (fee_per_kb, t2)))))"

section \<open>transaction\_create\<close>

fun add_payments :: "crypto \<Rightarrow> string \<Rightarrow> (string \<times> int) list \<Rightarrow> transaction \<Rightarrow> transaction res" where
  "add_payments C network [] t = Inr t"
| "add_payments C network ((addr, value) # os) t =
     bindE (add_output_to C network t value addr None False) (\<lambda>(_, t1). add_payments C network os t1)"

definition empty_transaction :: "wallet \<Rightarrow> nat \<Rightarrow> transaction" where
  "empty_transaction w locktime =
    \<lparr>t_version = [0, 0, 0, 1], t_version_int = 1, t_inputs = [], t_outputs = [], t_locktime = locktime,
     t_witness_type = (if wl_witness_type w \<in> {''segwit'', ''p2sh-segwit''} then ''segwit'' else ''legacy''),
     t_coinbase = False, t_flag = None, t_rawtx = [], t_size = 0, t_vsize = 0, t_txid = [], t_fee = None,
     t_input_total = 0, t_output_total = 0, t_verified = False\<rparr>"

definition create_sequence :: "bool \<Rightarrow> nat \<Rightarrow> nat" where
  "create_sequence replace_by_fee locktime =
    (if replace_by_fee then SEQUENCE_REPLACE_BY_FEE
     else if 0 < locktime \<and> locktime < 0xffffffff then SEQUENCE_ENABLE_LOCKTIME else 0xffffffff)"

text \<open>The inputs: selected by the wallet or given, with their total.\<close>

definition create_inputs ::
  "crypto \<Rightarrow> curve \<Rightarrow> protected \<Rightarrow> wallet \<Rightarrow> db \<Rightarrow> create_args \<Rightarrow> network \<Rightarrow> int \<Rightarrow> int \<Rightarrow> transaction
    \<Rightarrow> (int \<times> transaction) res" where
  "create_inputs C E protected w d a nw account amount t =
    (let sequence = create_sequence (ca_replace_by_fee a) (t_locktime t)
     in case ca_inputs a of
          None \<Rightarrow>
            bindE (select_inputs C E protected w d amount (Some (int (n_dust_amount nw))) (ca_key_ids a)
                     (Some account) (Some (n_name nw)) (ca_min_confirms a) (ca_max_utxos a) (ca_ignore_dust a)) (\<lambda>sel.
              if sel = [] then Inl WalletError
              else bindE (add_selected C (ca_replace_by_fee a) w sequence sel t) (\<lambda>t1.
                     Inr (sum_list (map (\<lambda>(i, _). i_value i) sel), t1)))
        | Some inps \<Rightarrow> add_given C E protected (ca_replace_by_fee a) w d sequence inps 0 t)"

definition renumber_inputs :: "tx_input list \<Rightarrow> tx_input list" where
  "renumber_inputs ins = map (\<lambda>(n, i). i\<lparr>i_index_n := n\<rparr>) (enumerate 0 ins)"

definition renumber_outputs :: "tx_output list \<Rightarrow> tx_output list" where
  "renumber_outputs outs = map (\<lambda>(n, o1). o1\<lparr>o_output_n := n\<rparr>) (enumerate 0 outs)"

definition shuffle_tx :: "create_env \<Rightarrow> transaction \<Rightarrow> transaction" where
  "shuffle_tx V t =
    t\<lparr>t_inputs := renumber_inputs (e_shuffle_inputs V (t_inputs t)),
      t_outputs := renumber_outputs (e_shuffle_outputs V (t_outputs t))\<rparr>"

text \<open>The totals, the transaction id and the checks at the end.\<close>

definition create_finish ::
  "crypto \<Rightarrow> create_env \<Rightarrow> network \<Rightarrow> create_args \<Rightarrow> int \<Rightarrow> int option \<Rightarrow> transaction \<Rightarrow> transaction res" where
  "create_finish C V nw a fee fee_per_kb0 t0 =
    (let t1 = (if ca_shuffle a then shuffle_tx V t0 else t0);
         t2 = t1\<lparr>t_input_total := sum_list (map i_value (t_inputs t1)),
                 t_output_total := sum_list (map o_value (t_outputs t1)), t_fee := Some fee\<rparr>
     in if t_input_total t2 \<noteq> fee + t_output_total t2 then Inl WalletError
        else bindE (signature_hash C t2 None SIGHASH_ALL None) (\<lambda>(h, t3).
             bindE (fee_rate V fee_per_kb0 fee (t_vsize t3)) (\<lambda>fee_per_kb.
               if fee_per_kb < int (n_fee_min nw) \<or> fee_per_kb > int (n_fee_max nw) then Inl WalletError
               else Inr (t3\<lparr>t_txid := hex_of (rev h)\<rparr>))))"

definition transaction_create ::
  "crypto \<Rightarrow> curve \<Rightarrow> protected \<Rightarrow> create_env \<Rightarrow> wallet \<Rightarrow> db \<Rightarrow> create_args \<Rightarrow> transaction res" where
  "transaction_create C E protected V w d a =
    bindE (get_account_defaults w d (ca_network a) (ca_account a) None) (\<lambda>(network, account).
    if ca_max_utxos a \<noteq> 0 \<and> ca_inputs a \<noteq> None \<and> int (length (the (ca_inputs a))) > ca_max_utxos a \<and>
       ca_inputs a \<noteq> Some []
    then Inl WalletError
    else bindE (network_named network) (\<lambda>nw.
    bindE (add_payments C network (ca_outputs a) (empty_transaction w (ca_locktime a))) (\<lambda>t0.
    let amount_total_output = sum_list (map snd (ca_outputs a));
        t1 = (if ca_locktime a = 0 \<and> ca_anti_fee_sniping a \<and> e_blockcount V \<noteq> 0
              then t0\<lparr>t_locktime := e_blockcount V\<rparr> else t0)
    in bindE (initial_fee V a t1) (\<lambda>(fee, fee_estimate, rate1, t2).
       bindE (create_inputs C E protected w d a nw account (amount_total_output + fee_estimate) t2)
         (\<lambda>(amount_total_input, t3).
       bindE (estimate_size t3 (ca_change_outputs a)) (\<lambda>(est_size, t4).
       let (fee1, change1, rate2, fee_per_output) =
             fee_and_change V nw (no_inputs a) fee rate1 est_size amount_total_input amount_total_output;
           (fee2, change2) = skip_dust nw fee_per_output fee1 change1;
           t5 = t4\<lparr>t_size := nat est_size\<rparr>
       in if change2 < 0 then Inl WalletError
          else bindE (if change2 \<noteq> 0
                      then with_change C V nw (wl_encoding w) a fee2 change2 rate2 amount_total_output t5
                      else Inr (rate2, t5)) (\<lambda>(rate3, t6).
                 create_finish C V nw a fee2 rate3 t6)))))))"

end
