(* ===== verification/Transition.thy ===== *)
theory Transition
  imports Main
begin

text \<open>
  The interface of the stateful components: a step relation and a property of the states that every step
  keeps. The wallet and the service provide it; what holds in all states they reach is derived once.
\<close>

locale transition =
  fixes step :: "'s \<Rightarrow> 's \<Rightarrow> bool"
    and inv :: "'s \<Rightarrow> bool"
  assumes step_inv: "step s s' \<Longrightarrow> inv s \<Longrightarrow> inv s'"
begin

lemma reach_inv: "step\<^sup>*\<^sup>* s s' \<Longrightarrow> inv s \<Longrightarrow> inv s'"
  by (induction rule: rtranclp_induct) (auto intro: step_inv)

lemma reach_keeps:
  assumes "\<And>s s'. step s s' \<Longrightarrow> inv s \<Longrightarrow> R s s'" "\<And>s. R s s" "\<And>a b c. R a b \<Longrightarrow> R b c \<Longrightarrow> R a c"
  shows "step\<^sup>*\<^sup>* s s' \<Longrightarrow> inv s \<Longrightarrow> R s s'"
proof (induction rule: rtranclp_induct)
  case (step t u)
  then show ?case using assms(1) [of t u] assms(3) [of s t u] reach_inv [of s t] by blast
qed (rule assms(2))

end

end
