(* ===== verification/Wallet_Rules.thy ===== *)
theory Wallet_Rules
  imports Wallet_Tx Transition
begin

text \<open>
  What the operations on the tables of the wallet preserve: the keys of the tables, and that no
  output is unspent that a stored transaction of the wallet spends.
\<close>

section \<open>The invariant\<close>

definition input_key :: "db_input \<Rightarrow> nat \<times> nat" where
  "input_key inp = (di_tx inp, di_index_n inp)"

text \<open>Primary keys and foreign keys.\<close>

definition db_ok :: "db \<Rightarrow> bool" where
  "db_ok d \<longleftrightarrow> unique_rows d \<and> distinct (map input_key (db_inputs d)) \<and>
     do_tx ` set (db_outputs d) \<subseteq> dt_id ` set (db_txs d) \<and>
     di_tx ` set (db_inputs d) \<subseteq> dt_id ` set (db_txs d)"

text \<open>The unspent outputs of the wallet that a stored transaction of the wallet spends are in \<open>S\<close>.\<close>

definition spends_marked_but :: "(bytes \<times> nat) set \<Rightarrow> wallet \<Rightarrow> db \<Rightarrow> bool" where
  "spends_marked_but S w d \<longleftrightarrow> (\<forall>(ou, tx) \<in> set (output_rows d).
     dt_wallet tx = Some (wl_id w) \<and> \<not> do_spent ou \<and> spent_in_db w d (dt_txid tx) (do_output_n ou) \<longrightarrow>
     (dt_txid tx, do_output_n ou) \<in> S)"

abbreviation spends_marked :: "wallet \<Rightarrow> db \<Rightarrow> bool" where
  "spends_marked \<equiv> spends_marked_but {}"

lemma output_rows_mem:
  "(ou, tx) \<in> set (output_rows d) \<longleftrightarrow> ou \<in> set (db_outputs d) \<and> tx \<in> set (db_txs d) \<and> dt_id tx = do_tx ou"
  by (auto simp: output_rows_def)

lemma input_rows_mem:
  "(inp, tx) \<in> set (input_rows d) \<longleftrightarrow> inp \<in> set (db_inputs d) \<and> tx \<in> set (db_txs d) \<and> dt_id tx = di_tx inp"
  by (auto simp: input_rows_def)

lemma spent_in_db_iff:
  "spent_in_db w d txid n \<longleftrightarrow> (\<exists>inp \<in> set (db_inputs d). \<exists>tx \<in> set (db_txs d). dt_id tx = di_tx inp \<and>
     dt_wallet tx = Some (wl_id w) \<and> di_prev_txid inp = txid \<and> di_output_n inp = n)"
  unfolding spent_in_db_def list_ex_iff by (auto simp: input_rows_mem) blast+

lemma spends_marked_butI:
  "(\<And>ou tx. ou \<in> set (db_outputs d) \<Longrightarrow> tx \<in> set (db_txs d) \<Longrightarrow> dt_id tx = do_tx ou \<Longrightarrow>
     dt_wallet tx = Some (wl_id w) \<Longrightarrow> \<not> do_spent ou \<Longrightarrow> spent_in_db w d (dt_txid tx) (do_output_n ou) \<Longrightarrow>
     (dt_txid tx, do_output_n ou) \<in> S) \<Longrightarrow> spends_marked_but S w d"
  by (auto simp: spends_marked_but_def output_rows_mem)

lemma spends_marked_butD:
  "spends_marked_but S w d \<Longrightarrow> ou \<in> set (db_outputs d) \<Longrightarrow> tx \<in> set (db_txs d) \<Longrightarrow> dt_id tx = do_tx ou \<Longrightarrow>
     dt_wallet tx = Some (wl_id w) \<Longrightarrow> \<not> do_spent ou \<Longrightarrow> spent_in_db w d (dt_txid tx) (do_output_n ou) \<Longrightarrow>
     (dt_txid tx, do_output_n ou) \<in> S"
  by (auto simp: spends_marked_but_def output_rows_mem)

section \<open>Rows\<close>

lemma new_id_fresh: "new_id ids \<notin> set ids"
proof
  have up: "m \<le> fold max ids m" for ids and m :: nat
    by (induction ids arbitrary: m) (auto intro: order_trans [OF max.cobounded2])
  have "n \<in> set ids \<Longrightarrow> n \<le> fold max ids m" for n m
    by (induction ids arbitrary: m) (auto intro: order_trans [OF max.cobounded1 up])
  moreover assume "new_id ids \<in> set ids"
  ultimately have "new_id ids \<le> fold max ids 0" by blast
  then show False by (simp add: new_id_def)
qed

lemma map_update_where: "(\<And>r. g (f r) = g r) \<Longrightarrow> map g (update_where P f rows) = map g rows"
  by (simp add: update_where_def)

lemma set_update_where: "r \<in> set (update_where P f rows) \<longleftrightarrow> (\<exists>s \<in> set rows. r = (if P s then f s else s))"
  by (auto simp: update_where_def)

lemma scalar_row_simps:
  "scalar_row rows = Inr None \<longleftrightarrow> rows = []"
  "scalar_row rows = Inr (Some r) \<longleftrightarrow> rows = [r]"
  by (auto simp: scalar_row_def split: list.splits)

text \<open>Only the rows of keys differ, and not in their numbers.\<close>

definition same_but_keys :: "db \<Rightarrow> db \<Rightarrow> bool" where
  "same_but_keys d d' \<longleftrightarrow> db_txs d' = db_txs d \<and> db_inputs d' = db_inputs d \<and> db_outputs d' = db_outputs d \<and>
     map dk_id (db_keys d') = map dk_id (db_keys d)"

lemma same_but_keys_inv:
  assumes "same_but_keys d d'"
  shows "db_ok d' = db_ok d" "spends_marked_but S w d' = spends_marked_but S w d"
  using assms by (simp_all add: same_but_keys_def db_ok_def unique_rows_def spends_marked_but_def
      output_rows_def spent_in_db_def input_rows_def)

lemma use_key_same: "use_key w d a = Inr (k, d') \<Longrightarrow> same_but_keys d d'"
  by (auto simp: use_key_def bindE_Inr_iff same_but_keys_def map_update_where split: option.splits)

lemma balance_update_same:
  assumes "balance_update a n k m (w, d) = Inr (w', d')"
  shows "same_but_keys d d' \<and> wl_id w' = wl_id w"
proof -
  have "map dk_id (update_key_balance kb ks) = map dk_id ks" for kb ks
    by (auto simp: update_key_balance_def Let_def case_prod_beta)
  then have "map dk_id (fold update_key_balance kbs ks) = map dk_id ks" for kbs ks
    by (induction kbs arbitrary: ks) simp_all
  then show ?thesis using assms by (auto simp: balance_update_def Let_def bindE_Inr_iff same_but_keys_def)
qed

section \<open>Storing a new transaction\<close>

text \<open>The inputs and the outputs that are stored, for a transaction number without rows.\<close>

definition input_row_of :: "nat \<Rightarrow> stored_input \<Rightarrow> db_input \<Rightarrow> bool" where
  "input_row_of n ti inp \<longleftrightarrow> di_tx inp = n \<and> di_index_n inp = si_index_n ti \<and>
     di_prev_txid inp = si_prev_txid ti \<and> di_output_n inp = si_output_n ti"

definition output_row_of :: "nat \<Rightarrow> stored_output \<Rightarrow> db_output \<Rightarrow> bool" where
  "output_row_of n to ou \<longleftrightarrow> do_tx ou = n \<and> do_output_n ou = so_output_n to \<and>
     do_spent ou = (so_spent to = Some True) \<and> do_value ou = so_value to"

lemma store_inputs_new:
  assumes "store_inputs w n tis d = Inr d'" "distinct (map si_index_n tis)"
    and "\<forall>inp \<in> set (db_inputs d). di_tx inp = n \<longrightarrow> di_index_n inp \<notin> set (map si_index_n tis)"
  shows "\<exists>rows. list_all2 (input_row_of n) tis rows \<and> same_but_keys (d\<lparr>db_inputs := db_inputs d @ rows\<rparr>) d'"
  using assms
proof (induction tis arbitrary: d)
  case Nil
  then show ?case by (simp add: same_but_keys_def)
next
  case (Cons ti tis)
  then obtain d1 where d1: "store_input w n ti d = Inr d1" "store_inputs w n tis d1 = Inr d'"
    by (auto simp: bindE_Inr_iff)
  obtain key d0 where d0: "use_key w d (si_address ti) = Inr (key, d0)" "same_but_keys d d0"
    using d1(1) use_key_same by (auto simp: store_input_def bindE_Inr_iff)
  have "filter (\<lambda>i. di_tx i = n \<and> di_index_n i = si_index_n ti) (db_inputs d0) = []"
    using Cons.prems(3) d0(2) by (auto simp: filter_empty_conv same_but_keys_def)
  then have "d1 = d0\<lparr>db_inputs := db_inputs d0 @
      [\<lparr>di_tx = n, di_index_n = si_index_n ti, di_key = key, di_prev_txid = si_prev_txid ti,
        di_output_n = si_output_n ti, di_value = si_value ti, di_script = si_script ti,
        di_address = si_address ti\<rparr>]\<rparr>" (is "_ = _\<lparr>db_inputs := _ @ [?row]\<rparr>")
    using d1(1) d0(1) by (simp add: store_input_def scalar_row_def)
  moreover have "input_row_of n ti ?row" by (simp add: input_row_of_def)
  ultimately obtain row where row: "input_row_of n ti row" "d1 = d0\<lparr>db_inputs := db_inputs d0 @ [row]\<rparr>"
    by (rule that [rotated])
  have "\<forall>inp \<in> set (db_inputs d1). di_tx inp = n \<longrightarrow> di_index_n inp \<notin> set (map si_index_n tis)"
    using Cons.prems(2,3) row d0(2) by (auto simp: input_row_of_def same_but_keys_def)
  then obtain rows where "list_all2 (input_row_of n) tis rows"
    "same_but_keys (d1\<lparr>db_inputs := db_inputs d1 @ rows\<rparr>) d'"
    using Cons.IH [OF d1(2)] Cons.prems(2) by auto
  then show ?case using row d0(2) by (intro exI [of _ "row # rows"]) (simp add: same_but_keys_def)
qed

lemma store_outputs_new:
  assumes "store_outputs w n tos d = Inr d'" "distinct (map so_output_n tos)"
    and "\<forall>ou \<in> set (db_outputs d). do_tx ou = n \<longrightarrow> do_output_n ou \<notin> set (map so_output_n tos)"
  shows "\<exists>rows. list_all2 (output_row_of n) tos rows \<and> same_but_keys (d\<lparr>db_outputs := db_outputs d @ rows\<rparr>) d'"
  using assms
proof (induction tos arbitrary: d)
  case Nil
  then show ?case by (simp add: same_but_keys_def)
next
  case (Cons to tos)
  then obtain d1 where d1: "store_output w n to d = Inr d1" "store_outputs w n tos d1 = Inr d'"
    by (auto simp: bindE_Inr_iff)
  obtain key d0 where d0: "use_key w d (so_address to) = Inr (key, d0)" "same_but_keys d d0"
    using d1(1) use_key_same by (auto simp: store_output_def bindE_Inr_iff)
  have "filter (\<lambda>ou. do_tx ou = n \<and> do_output_n ou = so_output_n to) (db_outputs d0) = []"
    using Cons.prems(3) d0(2) by (auto simp: filter_empty_conv same_but_keys_def)
  then have "d1 = d0\<lparr>db_outputs := db_outputs d0 @
      [\<lparr>do_tx = n, do_output_n = so_output_n to, do_key = key, do_address = so_address to,
        do_value = so_value to, do_script = so_script to, do_script_type = so_script_type to,
        do_spent = (so_spent to = Some True), do_is_change = so_change to\<rparr>]\<rparr>"
      (is "_ = _\<lparr>db_outputs := _ @ [?row]\<rparr>")
    using d1(1) d0(1) by (simp add: store_output_def scalar_row_def)
  moreover have "output_row_of n to ?row" by (simp add: output_row_of_def)
  ultimately obtain row where row: "output_row_of n to row" "d1 = d0\<lparr>db_outputs := db_outputs d0 @ [row]\<rparr>"
    by (rule that [rotated])
  have "\<forall>ou \<in> set (db_outputs d1). do_tx ou = n \<longrightarrow> do_output_n ou \<notin> set (map so_output_n tos)"
    using Cons.prems(2,3) row d0(2) by (auto simp: output_row_of_def same_but_keys_def)
  then obtain rows where "list_all2 (output_row_of n) tos rows"
    "same_but_keys (d1\<lparr>db_outputs := db_outputs d1 @ rows\<rparr>) d'"
    using Cons.IH [OF d1(2)] Cons.prems(2) by auto
  then show ?case using row d0(2) by (intro exI [of _ "row # rows"]) (simp add: same_but_keys_def)
qed

text \<open>A transaction that can be stored: its inputs and outputs have different numbers.\<close>

definition numbered_tx :: "wallet_tx \<Rightarrow> bool" where
  "numbered_tx t \<longleftrightarrow> distinct (map si_index_n (wt_inputs t)) \<and> distinct (map so_output_n (wt_outputs t))"

definition unknown_tx :: "db \<Rightarrow> bytes \<Rightarrow> bool" where
  "unknown_tx d txid \<longleftrightarrow> (\<forall>tx \<in> set (db_txs d). dt_txid tx \<noteq> txid)"

lemma unknown_tx_iff: "unknown_tx d txid \<longleftrightarrow> txid \<notin> dt_txid ` set (db_txs d)"
  by (auto simp: unknown_tx_def)

lemma tx_store_new:
  assumes "tx_store w t d = Inr (n, d')" "db_ok d" "numbered_tx t" "unknown_tx d (wt_txid t)"
  obtains row ins outs where "n \<notin> dt_id ` set (db_txs d)" "row = new_tx_row w t n"
    "list_all2 (input_row_of n) (wt_inputs t) ins" "list_all2 (output_row_of n) (wt_outputs t) outs"
    "same_but_keys (d\<lparr>db_txs := db_txs d @ [row], db_inputs := db_inputs d @ ins, db_outputs := db_outputs d @ outs\<rparr>) d'"
proof -
  have none: "filter (\<lambda>tx. dt_wallet tx = w' \<and> dt_txid tx = wt_txid t) (db_txs d) = []" for w'
    using assms(4) by (auto simp: unknown_tx_def filter_empty_conv)
  define n1 where "n1 = new_id (map dt_id (db_txs d))"
  define d1 where "d1 = d\<lparr>db_txs := db_txs d @ [new_tx_row w t n1]\<rparr>"
  have row: "store_tx_row w t d = Inr (n1, d1)"
    by (simp add: store_tx_row_def none scalar_row_def first_row_def Let_def n1_def d1_def)
  then obtain d2 where d2: "store_inputs w n1 (wt_inputs t) d1 = Inr d2"
    "store_outputs w n1 (wt_outputs t) d2 = Inr d'" and n: "n = n1"
    using assms(1) by (auto simp: tx_store_def bindE_Inr_iff split: if_splits)
  have fresh: "n1 \<notin> dt_id ` set (db_txs d)" using new_id_fresh [of "map dt_id (db_txs d)"] by (simp add: n1_def)
  have "\<forall>inp \<in> set (db_inputs d1). di_tx inp \<noteq> n1" using assms(2) fresh by (auto simp: db_ok_def d1_def)
  then obtain ins where ins: "list_all2 (input_row_of n1) (wt_inputs t) ins"
    "same_but_keys (d1\<lparr>db_inputs := db_inputs d1 @ ins\<rparr>) d2"
    using store_inputs_new [OF d2(1)] assms(3) by (auto simp: numbered_tx_def)
  have "\<forall>ou \<in> set (db_outputs d2). do_tx ou \<noteq> n1"
    using assms(2) fresh ins(2) by (auto simp: db_ok_def d1_def same_but_keys_def)
  then obtain outs where "list_all2 (output_row_of n1) (wt_outputs t) outs"
    "same_but_keys (d2\<lparr>db_outputs := db_outputs d2 @ outs\<rparr>) d'"
    using store_outputs_new [OF d2(2)] assms(3) by (auto simp: numbered_tx_def)
  then show thesis using that [OF _ refl, of ins outs] fresh ins n by (simp add: same_but_keys_def d1_def)
qed

definition spent_by :: "db_input \<Rightarrow> bytes \<times> nat" where
  "spent_by inp = (di_prev_txid inp, di_output_n inp)"

lemma input_rows_prevs:
  "list_all2 (input_row_of n) tis ins \<Longrightarrow> spent_by ` set ins = set (map prev_of tis) \<and>
     map input_key ins = map (\<lambda>ti. (n, si_index_n ti)) tis"
  by (induction rule: list_all2_induct) (auto simp: input_row_of_def spent_by_def prev_of_def input_key_def)

lemma output_rows_keys:
  "list_all2 (output_row_of n) tos outs \<Longrightarrow> map output_key outs = map (\<lambda>to. (n, so_output_n to)) tos"
  by (induction rule: list_all2_induct) (auto simp: output_row_of_def output_key_def)

lemma distinct_pairs: "distinct (map f xs) \<Longrightarrow> distinct (map (\<lambda>x. (n, f x)) xs)"
  by (auto simp: distinct_map inj_on_def)

lemma own_key_fst: "f ` set xs \<subseteq> A \<Longrightarrow> n \<notin> A \<Longrightarrow> (n, b) \<notin> (\<lambda>x. (f x, g x)) ` set xs"
  by auto

lemma store_new_ok:
  assumes "tx_store w t d = Inr (n, d')" "db_ok d" "numbered_tx t" "unknown_tx d (wt_txid t)"
  shows "db_ok d'"
proof -
  obtain row ins outs where fresh: "n \<notin> dt_id ` set (db_txs d)" and row: "row = new_tx_row w t n"
    and ins: "list_all2 (input_row_of n) (wt_inputs t) ins" and outs: "list_all2 (output_row_of n) (wt_outputs t) outs"
    and d': "same_but_keys (d\<lparr>db_txs := db_txs d @ [row], db_inputs := db_inputs d @ ins,
      db_outputs := db_outputs d @ outs\<rparr>) d'" using tx_store_new [OF assms] by metis
  have id: "dt_id row = n" by (simp add: row new_tx_row_def)
  have ik: "map input_key ins = map (\<lambda>ti. (n, si_index_n ti)) (wt_inputs t)" using input_rows_prevs [OF ins] by blast
  have ok: "map output_key outs = map (\<lambda>to. (n, so_output_n to)) (wt_outputs t)" by (rule output_rows_keys [OF outs])
  have fk: "do_tx ` set outs \<subseteq> {n}" "di_tx ` set ins \<subseteq> {n}"
    using arg_cong [OF ik, of "\<lambda>l. fst ` set l"] arg_cong [OF ok, of "\<lambda>l. fst ` set l"]
    by (auto simp: image_image input_key_def output_key_def)
  have "distinct (map input_key (db_inputs d @ ins))"
    using assms(2,3) fresh unfolding map_append ik distinct_append
    by (auto simp: db_ok_def numbered_tx_def input_key_def intro!: distinct_pairs)
  moreover have "distinct (map output_key (db_outputs d @ outs))"
    using assms(2,3) fresh unfolding map_append ok distinct_append
    by (auto simp: db_ok_def unique_rows_def numbered_tx_def output_key_def intro!: distinct_pairs)
  ultimately show ?thesis using assms(2) fresh fk id
    unfolding same_but_keys_inv(1) [OF d'] by (auto simp: db_ok_def unique_rows_def)
qed

lemma store_new_rows:
  assumes "tx_store w t d = Inr (n, d')" "db_ok d" "numbered_tx t" "unknown_tx d (wt_txid t)"
  shows "spent_by ` set (db_inputs d') = spent_by ` set (db_inputs d) \<union> set (map prev_of (wt_inputs t))"
    and "dt_txid ` set (db_txs d') = insert (wt_txid t) (dt_txid ` set (db_txs d))"
proof -
  obtain row ins outs where row: "row = new_tx_row w t n" and ins: "list_all2 (input_row_of n) (wt_inputs t) ins"
    and d': "same_but_keys (d\<lparr>db_txs := db_txs d @ [row], db_inputs := db_inputs d @ ins,
      db_outputs := db_outputs d @ outs\<rparr>) d'" using tx_store_new [OF assms] by metis
  show "spent_by ` set (db_inputs d') = spent_by ` set (db_inputs d) \<union> set (map prev_of (wt_inputs t))"
    using d' input_rows_prevs [OF ins] by (simp add: same_but_keys_def image_Un)
  show "dt_txid ` set (db_txs d') = insert (wt_txid t) (dt_txid ` set (db_txs d))"
    using d' by (simp add: same_but_keys_def row new_tx_row_def)
qed

lemma store_new_marked:
  assumes "tx_store w t d = Inr (n, d')" "db_ok d" "numbered_tx t" "unknown_tx d (wt_txid t)"
    and marked: "spends_marked_but S w d" and refs: "\<forall>inp \<in> set (db_inputs d). di_prev_txid inp = wt_txid t \<longrightarrow> spent_by inp \<in> S"
  shows "spends_marked_but (S \<union> set (map prev_of (wt_inputs t))) w d'"
proof -
  obtain row ins outs where fresh: "n \<notin> dt_id ` set (db_txs d)" and row: "row = new_tx_row w t n"
    and ins: "list_all2 (input_row_of n) (wt_inputs t) ins" and outs: "list_all2 (output_row_of n) (wt_outputs t) outs"
    and d': "same_but_keys (d\<lparr>db_txs := db_txs d @ [row], db_inputs := db_inputs d @ ins,
      db_outputs := db_outputs d @ outs\<rparr>) d'" using tx_store_new [OF assms(1-4)] by metis
  have id: "dt_id row = n" "dt_txid row = wt_txid t" by (simp_all add: row new_tx_row_def)
  have fk: "do_tx ou = n" if "ou \<in> set outs" for ou
    using that outs by (auto simp: list_all2_conv_all_nth in_set_conv_nth output_row_of_def)
  have prevs: "spent_by ` set ins = set (map prev_of (wt_inputs t))" using input_rows_prevs [OF ins] by blast
  show ?thesis unfolding same_but_keys_inv(2) [OF d']
  proof (rule spends_marked_butI, goal_cases)
    case (1 ou tx)
    note 1 = 1 [simplified]
    then obtain inp itx where inp: "inp \<in> set (db_inputs d @ ins)" "itx \<in> set (db_txs d @ [row])" "dt_id itx = di_tx inp"
      "dt_wallet itx = Some (wl_id w)" "spent_by inp = (dt_txid tx, do_output_n ou)"
      by (auto simp: spent_in_db_iff spent_by_def)
    show ?case
    proof (cases "inp \<in> set ins")
      case True
      then show ?thesis using prevs inp(5) by (metis UnI2 image_eqI)
    next
      case False
      then have old: "inp \<in> set (db_inputs d)" "itx \<in> set (db_txs d)"
        using inp assms(2) fresh id by (auto simp: db_ok_def)
      show ?thesis
      proof (cases "tx = row")
        case True
        then show ?thesis using refs old(1) inp(5) id by (auto simp: spent_by_def)
      next
        case False
        then have "tx \<in> set (db_txs d)" "ou \<in> set (db_outputs d)" using 1 fk fresh by auto
        moreover have "spent_in_db w d (dt_txid tx) (do_output_n ou)"
          using old inp by (auto simp: spent_in_db_iff spent_by_def)
        ultimately show ?thesis using spends_marked_butD [OF marked] 1 by blast
      qed
    qed
  qed
qed

section \<open>What the invariant depends on\<close>

definition tx_view :: "db_tx \<Rightarrow> nat \<times> nat option \<times> bytes" where
  "tx_view tx = (dt_id tx, dt_wallet tx, dt_txid tx)"

definition in_view :: "db_input \<Rightarrow> nat \<times> bytes \<times> nat" where
  "in_view inp = (di_tx inp, di_prev_txid inp, di_output_n inp)"

definition unspent_view :: "db \<Rightarrow> (nat \<times> nat) set" where
  "unspent_view d = output_key ` {ou \<in> set (db_outputs d). \<not> do_spent ou}"

lemma spent_in_db_views:
  "spent_in_db w d txid n \<longleftrightarrow> (\<exists>(i, p, m) \<in> in_view ` set (db_inputs d). \<exists>(j, wl, x) \<in> tx_view ` set (db_txs d).
     j = i \<and> wl = Some (wl_id w) \<and> p = txid \<and> m = n)"
  by (auto simp: spent_in_db_iff in_view_def tx_view_def)

lemma spends_marked_views:
  "spends_marked_but S w d \<longleftrightarrow> (\<forall>(i, n) \<in> unspent_view d. \<forall>(j, wl, txid) \<in> tx_view ` set (db_txs d).
     j = i \<and> wl = Some (wl_id w) \<and> spent_in_db w d txid n \<longrightarrow> (txid, n) \<in> S)"
  by (auto simp: spends_marked_but_def output_rows_mem unspent_view_def output_key_def tx_view_def)

lemma spends_marked_viewsI:
  "(\<And>i n txid. (i, n) \<in> unspent_view d \<Longrightarrow> (i, Some (wl_id w), txid) \<in> tx_view ` set (db_txs d) \<Longrightarrow>
     spent_in_db w d txid n \<Longrightarrow> (txid, n) \<in> S) \<Longrightarrow> spends_marked_but S w d"
  unfolding spends_marked_views by blast

lemma spent_in_db_mono:
  assumes "spent_in_db w d' txid n" "tx_view ` set (db_txs d') \<subseteq> tx_view ` set (db_txs d)"
    "in_view ` set (db_inputs d') \<subseteq> in_view ` set (db_inputs d)"
  shows "spent_in_db w d txid n"
  using assms unfolding spent_in_db_views by fast

lemma spends_marked_mono:
  assumes "spends_marked_but S w d" "tx_view ` set (db_txs d') \<subseteq> tx_view ` set (db_txs d)"
    "in_view ` set (db_inputs d') \<subseteq> in_view ` set (db_inputs d)" "unspent_view d' \<subseteq> unspent_view d"
  shows "spends_marked_but S w d'"
  using assms(1,2,4) spent_in_db_mono [OF _ assms(2,3)] unfolding spends_marked_views by fast

text \<open>Only the spent flags, the links to keys and the state of transactions differ.\<close>

definition same_shape :: "db \<Rightarrow> db \<Rightarrow> bool" where
  "same_shape d d' \<longleftrightarrow> map tx_view (db_txs d') = map tx_view (db_txs d) \<and> db_inputs d' = db_inputs d \<and>
     map output_key (db_outputs d') = map output_key (db_outputs d) \<and> map dk_id (db_keys d') = map dk_id (db_keys d)"

lemma same_shape_ids:
  assumes "same_shape d d'"
  shows "map dt_id (db_txs d') = map dt_id (db_txs d)" "do_tx ` set (db_outputs d') = do_tx ` set (db_outputs d)"
    "dt_id ` set (db_txs d') = dt_id ` set (db_txs d)"
proof -
  have "map fst (map tx_view (db_txs d')) = map fst (map tx_view (db_txs d))" using assms by (simp add: same_shape_def)
  then show ids: "map dt_id (db_txs d') = map dt_id (db_txs d)" by (simp add: tx_view_def o_def)
  then show "dt_id ` set (db_txs d') = dt_id ` set (db_txs d)" by (metis list.set_map)
  have "fst ` set (map output_key (db_outputs d')) = fst ` set (map output_key (db_outputs d))"
    using assms by (simp only: same_shape_def)
  then show "do_tx ` set (db_outputs d') = do_tx ` set (db_outputs d)" by (simp add: image_image output_key_def)
qed

lemma same_shape_ok: "same_shape d d' \<Longrightarrow> db_ok d' = db_ok d"
  using same_shape_ids [of d d'] by (simp add: db_ok_def unique_rows_def same_shape_def)

lemma same_shape_tx_view: "same_shape d d' \<Longrightarrow> tx_view ` set (db_txs d') = tx_view ` set (db_txs d)"
  unfolding same_shape_def by (metis list.set_map)

lemma same_shape_spent: "same_shape d d' \<Longrightarrow> spent_in_db w d' txid n = spent_in_db w d txid n"
  by (simp add: spent_in_db_views same_shape_tx_view) (simp add: same_shape_def)

lemma same_shape_marked:
  "same_shape d d' \<Longrightarrow> spends_marked_but S w d \<Longrightarrow> unspent_view d' \<subseteq> unspent_view d \<Longrightarrow> spends_marked_but S w d'"
  by (rule spends_marked_mono) (simp_all add: same_shape_tx_view, simp add: same_shape_def)

lemma same_shape_trans: "same_shape d d' \<Longrightarrow> same_shape d' d'' \<Longrightarrow> same_shape d d''"
  by (simp add: same_shape_def)

lemma same_but_keys_shape: "same_but_keys d d' \<Longrightarrow> same_shape d d' \<and> unspent_view d' = unspent_view d"
  by (simp add: same_but_keys_def same_shape_def unspent_view_def)

text \<open>Setting the spent flag of some outputs.\<close>

lemma set_spent_shape: "same_shape d (set_spent d P b prev)"
  by (simp add: set_spent_def same_shape_def map_update_where output_key_def)

lemma set_spent_same [simp]: "ou\<lparr>do_spent := b\<rparr> = ou \<longleftrightarrow> do_spent ou = b"
  by (cases ou) auto

lemma unspent_view_set_spent:
  "unspent_view (set_spent d P True prev) = output_key ` {ou \<in> set (db_outputs d). \<not> do_spent ou \<and>
     \<not> names_output d P (fst prev) (snd prev) ou}"
  by (auto simp: unspent_view_def set_spent_def set_update_where image_iff output_key_def)

lemma names_output_view:
  "names_output d (\<lambda>_. True) txid n ou \<longleftrightarrow> do_output_n ou = n \<and>
     (\<exists>v \<in> tx_view ` set (db_txs d). fst v = do_tx ou \<and> snd (snd v) = txid)"
  by (auto simp: names_output_def list_ex_iff tx_view_def)

lemma names_output_key:
  "same_shape d d' \<Longrightarrow> output_key ou' = output_key ou \<Longrightarrow>
     names_output d' (\<lambda>_. True) txid n ou' = names_output d (\<lambda>_. True) txid n ou"
  unfolding names_output_view using same_shape_tx_view [of d d'] by (simp add: output_key_def)

lemma mark_spent_shape: "same_shape d (mark_spent P prevs d)"
proof (induction prevs arbitrary: d)
  case (Cons p prevs)
  then show ?case by (auto simp: mark_spent_def intro: same_shape_trans [OF set_spent_shape])
qed (simp add: mark_spent_def same_shape_def)

text \<open>After \<open>mark_spent\<close> no output is unspent that the list names.\<close>

lemma mark_spent_unspent:
  "unspent_view (mark_spent (\<lambda>_. True) prevs d) \<subseteq> unspent_view d \<and>
   (\<forall>(i, n) \<in> unspent_view (mark_spent (\<lambda>_. True) prevs d). \<forall>v \<in> tx_view ` set (db_txs d).
      fst v = i \<longrightarrow> (snd (snd v), n) \<notin> set prevs)"
proof (induction prevs arbitrary: d)
  case Nil
  then show ?case by (simp add: mark_spent_def)
next
  case (Cons p prevs)
  let ?d1 = "set_spent d (\<lambda>_. True) True p"
  have eq: "mark_spent (\<lambda>_. True) (p # prevs) d = mark_spent (\<lambda>_. True) prevs ?d1" by (simp add: mark_spent_def)
  have one: "unspent_view ?d1 \<subseteq> unspent_view d" unfolding unspent_view_set_spent by (auto simp: unspent_view_def)
  have named: "(snd (snd v), n) \<noteq> p" if "(i, n) \<in> unspent_view ?d1" "v \<in> tx_view ` set (db_txs d)" "fst v = i" for i n v
    using that by (auto simp: unspent_view_set_spent names_output_view output_key_def)
  have txs: "tx_view ` set (db_txs ?d1) = tx_view ` set (db_txs d)" by (rule same_shape_tx_view [OF set_spent_shape])
  have sub: "unspent_view (mark_spent (\<lambda>_. True) prevs ?d1) \<subseteq> unspent_view ?d1"
    using Cons.IH [of ?d1] by blast
  have rest: "(snd (snd v), n) \<notin> set prevs"
      if "(i, n) \<in> unspent_view (mark_spent (\<lambda>_. True) prevs ?d1)" "v \<in> tx_view ` set (db_txs d)" "fst v = i" for i n v
    using Cons.IH [of ?d1] that unfolding txs by blast
  have "(snd (snd v), n) \<notin> set (p # prevs)"
    if "(i, n) \<in> unspent_view (mark_spent (\<lambda>_. True) prevs ?d1)" "v \<in> tx_view ` set (db_txs d)" "fst v = i" for i n v
    using rest [OF that] named [OF subsetD [OF sub that(1)] that(2,3)] by simp
  then show ?case unfolding eq using sub one by blast
qed

lemma mark_spent_marked:
  assumes "spends_marked_but S w d" "S \<subseteq> set prevs"
  shows "spends_marked w (mark_spent (\<lambda>_. True) prevs d)"
  using assms mark_spent_unspent [of prevs d]
    same_shape_tx_view [OF mark_spent_shape [of d "\<lambda>_. True" prevs]]
    same_shape_spent [OF mark_spent_shape [of d "\<lambda>_. True" prevs]]
  unfolding spends_marked_views by fastforce

section \<open>Unspent outputs from a service\<close>

lemma expire_utxos_shape:
  "same_shape d (expire_utxos w network account d) \<and> unspent_view (expire_utxos w network account d) \<subseteq> unspent_view d"
proof
  show "same_shape d (expire_utxos w network account d)"
    by (simp add: expire_utxos_def same_shape_def map_update_where output_key_def)
  show "unspent_view (expire_utxos w network account d) \<subseteq> unspent_view d"
    by (auto simp: expire_utxos_def unspent_view_def set_update_where split: if_splits)
qed

lemma update_where_views:
  "(\<And>tx. tx_view (f tx) = tx_view tx) \<Longrightarrow> same_shape d (d\<lparr>db_txs := update_where P f (db_txs d)\<rparr>) \<and>
     unspent_view (d\<lparr>db_txs := update_where P f (db_txs d)\<rparr>) = unspent_view d"
  by (simp add: same_shape_def map_update_where unspent_view_def)

lemma use_keys_shape:
  "same_but_keys d (d\<lparr>db_keys := update_where P (\<lambda>k. k\<lparr>dk_used := b\<rparr>) (db_keys d)\<rparr>)"
  by (simp add: same_but_keys_def map_update_where)

lemma unspent_view_map:
  assumes "\<And>ou. output_key (g ou) = output_key ou"
  shows "unspent_view (d\<lparr>db_outputs := map g (db_outputs d)\<rparr>) =
    output_key ` {ou \<in> set (db_outputs d). \<not> do_spent (g ou)}"
proof -
  have "{ou \<in> g ` set (db_outputs d). \<not> do_spent ou} = g ` {ou \<in> set (db_outputs d). \<not> do_spent (g ou)}" by auto
  then show ?thesis by (simp add: unspent_view_def image_image assms)
qed

lemma refresh_utxo_unspent:
  assumes r: "refresh_utxo w network k u ou d = Inr d'" and ok: "db_ok d" "spends_marked w d"
    and own: "(ou, tx) \<in> set (output_rows d)" "dt_txid tx = ui_txid u" "do_output_n ou = ui_output_n u"
      "dt_wallet tx = Some (wl_id w)"
  shows "same_shape d d' \<and>
    unspent_view d' = unspent_view d \<union> (if spent_in_db w d (ui_txid u) (ui_output_n u) then {} else {output_key ou})"
proof -
  let ?b = "spent_in_db w d (ui_txid u) (ui_output_n u)"
  define d1 where "d1 = d\<lparr>db_outputs := update_where (\<lambda>ou'. output_key ou' = output_key ou)
           (\<lambda>ou'. ou'\<lparr>do_key := Some k, do_spent := ?b\<rparr>) (db_outputs d)\<rparr>"
  obtain r1 :: "db_tx option" where "d' = (case r1 of None \<Rightarrow> d1
      | Some tx \<Rightarrow> d1\<lparr>db_txs := update_where (\<lambda>tx'. dt_id tx' = dt_id tx)
          (\<lambda>tx'. tx'\<lparr>dt_confirmations := ui_confirmations u,
            dt_status := (if ui_confirmations u \<noteq> 0 then ''confirmed'' else ''unconfirmed'')\<rparr>) (db_txs d1)\<rparr>)"
    using r unfolding refresh_utxo_def Let_def d1_def [symmetric] bindE_Inr_iff sum.inject
    by (elim exE conjE) (rule that, erule sym)
  then have d': "same_shape d1 d'" "unspent_view d' = unspent_view d1"
    using update_where_views [of "\<lambda>tx'. tx'\<lparr>dt_confirmations := ui_confirmations u,
            dt_status := (if ui_confirmations u \<noteq> 0 then ''confirmed'' else ''unconfirmed'')\<rparr>" d1]
    by (auto simp: tx_view_def same_shape_def split: option.splits)
  have shape: "same_shape d d1" by (simp add: d1_def same_shape_def map_update_where output_key_def)
  have mem: "ou \<in> set (db_outputs d)" using own(1) by (simp add: output_rows_mem)
  have key: "unspent_view d1 = unspent_view d - {output_key ou} \<union> (if ?b then {} else {output_key ou})"
  proof -
    define g where "g ou' = (if output_key ou' = output_key ou then ou'\<lparr>do_key := Some k, do_spent := ?b\<rparr> else ou')" for ou'
    have g: "output_key (g ou') = output_key ou'"
      "do_spent (g ou') = (if output_key ou' = output_key ou then ?b else do_spent ou')" for ou'
      by (simp_all add: g_def output_key_def)
    have "d1 = d\<lparr>db_outputs := map g (db_outputs d)\<rparr>" by (simp add: d1_def update_where_def g_def [abs_def])
    then show ?thesis using unspent_view_map [of g d, OF g(1)] mem by (auto simp: g(2) unspent_view_def split: if_splits)
  qed
  moreover have "output_key ou \<notin> unspent_view d" if ?b
  proof
    assume "output_key ou \<in> unspent_view d"
    moreover have "(do_tx ou, Some (wl_id w), ui_txid u) \<in> tx_view ` set (db_txs d)"
      using own by (auto simp: output_rows_mem tx_view_def intro!: image_eqI [of _ _ tx])
    ultimately show False using ok(2) own(3) that unfolding spends_marked_views output_key_def by fastforce
  qed
  ultimately have "unspent_view d1 = unspent_view d \<union> (if ?b then {} else {output_key ou})"
    by (cases ?b) auto
  then show ?thesis using d' same_shape_trans [OF shape d'(1)] by simp
qed

lemma refresh_utxo_inv:
  assumes r: "refresh_utxo w network k u ou d = Inr d'" and ok: "db_ok d" "spends_marked w d"
    and own: "(ou, tx) \<in> set (output_rows d)" "dt_txid tx = ui_txid u" "do_output_n ou = ui_output_n u"
      "dt_wallet tx = Some (wl_id w)"
  shows "db_ok d' \<and> spends_marked w d'"
proof -
  let ?b = "spent_in_db w d (ui_txid u) (ui_output_n u)"
  have shape: "same_shape d d'" and un: "unspent_view d' = unspent_view d \<union> (if ?b then {} else {output_key ou})"
    using refresh_utxo_unspent [OF assms] by auto
  have unique: "dt_txid tx' = ui_txid u" if "tx' \<in> set (db_txs d)" "dt_id tx' = do_tx ou" for tx'
    using that own ok(1) by (auto simp: db_ok_def unique_rows_def output_rows_mem distinct_map inj_on_def)
  have "spends_marked w d'"
  proof (rule spends_marked_viewsI)
    fix i n txid
    assume v: "(i, n) \<in> unspent_view d'" "(i, Some (wl_id w), txid) \<in> tx_view ` set (db_txs d')"
      "spent_in_db w d' txid n"
    then have v': "(i, Some (wl_id w), txid) \<in> tx_view ` set (db_txs d)" "spent_in_db w d txid n"
      using same_shape_tx_view [OF shape] same_shape_spent [OF shape] by auto
    have "(i, n) \<in> unspent_view d"
    proof (rule ccontr)
      assume "(i, n) \<notin> unspent_view d"
      then have "\<not> ?b" "i = do_tx ou" "n = do_output_n ou"
        using un v(1) by (auto simp: output_key_def split: if_splits)
      moreover have "txid = ui_txid u" using unique v'(1) \<open>i = do_tx ou\<close> by (auto simp: tx_view_def)
      ultimately show False using v'(2) own(3) by simp
    qed
    then show "(txid, n) \<in> {}" using ok(2) v' unfolding spends_marked_views by blast
  qed
  then show ?thesis using same_shape_ok [OF shape] ok(1) by simp
qed

lemma spent_in_db_new_txs:
  assumes "db_ok d" "db_txs d' = db_txs d @ txs'" "\<forall>tx \<in> set txs'. dt_id tx \<notin> dt_id ` set (db_txs d)"
    and "db_inputs d' = db_inputs d"
  shows "spent_in_db w d' txid n = spent_in_db w d txid n"
proof -
  have "itx \<in> set (db_txs d)" if "inp \<in> set (db_inputs d)" "itx \<in> set (db_txs d')" "dt_id itx = di_tx inp" for inp itx
  proof -
    have "di_tx inp \<in> dt_id ` set (db_txs d)" using that(1) assms(1) by (auto simp: db_ok_def)
    then show ?thesis using that(2,3) assms(2,3) by auto
  qed
  moreover have "set (db_txs d) \<subseteq> set (db_txs d')" using assms(2) by simp
  ultimately show ?thesis unfolding spent_in_db_iff assms(4) by blast
qed

lemma spends_marked_views_new:
  assumes ok: "db_ok d" "spends_marked w d"
    and txs: "db_txs d' = db_txs d @ txs'" "\<forall>tx \<in> set txs'. dt_id tx \<notin> dt_id ` set (db_txs d)"
    and outs: "db_outputs d' = db_outputs d @ [ou]" "db_inputs d' = db_inputs d"
    and spent: "\<forall>tx \<in> set (db_txs d'). dt_id tx = do_tx ou \<and> \<not> do_spent ou \<longrightarrow>
      \<not> spent_in_db w d (dt_txid tx) (do_output_n ou)"
  shows "spends_marked w d'"
proof (rule spends_marked_butI)
  fix ou' tx
  assume a: "ou' \<in> set (db_outputs d')" "tx \<in> set (db_txs d')" "dt_id tx = do_tx ou'"
    "dt_wallet tx = Some (wl_id w)" "\<not> do_spent ou'" "spent_in_db w d' (dt_txid tx) (do_output_n ou')"
  have s: "spent_in_db w d (dt_txid tx) (do_output_n ou')"
    using a(6) spent_in_db_new_txs [OF ok(1) txs outs(2)] by simp
  show "(dt_txid tx, do_output_n ou') \<in> {}"
  proof (cases "ou' \<in> set (db_outputs d)")
    case True
    then have "do_tx ou' \<in> dt_id ` set (db_txs d)" using ok(1) by (auto simp: db_ok_def)
    then have "tx \<in> set (db_txs d)" using a(2,3) txs by auto
    then show ?thesis using spends_marked_butD [OF ok(2) True _ a(3,4,5) s] by blast
  next
    case False
    then show ?thesis using a outs(1) spent s by auto
  qed
qed

lemma add_utxo_tx_inv:
  assumes "add_utxo_tx w network account u d = Inr (tid, d')" "db_ok d"
  obtains "d' = d" "\<exists>tx \<in> set (db_txs d). dt_id tx = tid \<and> dt_wallet tx = Some (wl_id w) \<and> dt_txid tx = ui_txid u"
  | row where "d' = d\<lparr>db_txs := db_txs d @ [row]\<rparr>" "dt_id row = tid" "dt_txid row = ui_txid u"
      "dt_wallet row = Some (wl_id w)"
      "tid \<notin> dt_id ` set (db_txs d)"
proof -
  let ?l = "filter (\<lambda>tx. dt_wallet tx = Some (wl_id w) \<and> dt_txid tx = ui_txid u \<and> dt_network tx = network) (db_txs d)"
  obtain r where r: "scalar_row ?l = Inr r" using assms(1) by (auto simp: add_utxo_tx_def bindE_Inr_iff)
  show thesis
  proof (cases r)
    case (Some tx)
    then have "tx \<in> set ?l" using r by (simp add: scalar_row_simps)
    then show ?thesis using assms(1) r Some that(1) by (auto simp: add_utxo_tx_def)
  next
    case None
    then show ?thesis using assms(1) r that(2) new_id_fresh [of "map dt_id (db_txs d)"]
      by (auto simp: add_utxo_tx_def Let_def split: if_splits)
  qed
qed

section \<open>The unspent outputs after an update\<close>






lemma update_utxo_elim:
  assumes up: "update_utxo w network account single_key u d = Inr (c, d')" and ok: "db_ok d"
  obtains (refresh) d1 k ou tx where "same_but_keys d d1" "refresh_utxo w network k u ou d1 = Inr d'"
      "(ou, tx) \<in> set (output_rows d1)" "dt_txid tx = ui_txid u" "do_output_n ou = ui_output_n u"
      "dt_wallet tx = Some (wl_id w)"
  | (add) d1 txs' ou where "same_but_keys d d1" "db_txs d' = db_txs d1 @ txs'"
      "\<forall>tx \<in> set txs'. dt_id tx \<notin> dt_id ` set (db_txs d1)" "db_outputs d' = db_outputs d1 @ [ou]"
      "db_inputs d' = db_inputs d1" "do_output_n ou = ui_output_n u"
      "do_spent ou = spent_in_db w d1 (ui_txid u) (ui_output_n u)"
      "\<forall>tx \<in> set (db_txs d'). dt_id tx = do_tx ou \<longrightarrow> dt_txid tx = ui_txid u"
      "\<exists>tx \<in> set (db_txs d'). dt_id tx = do_tx ou \<and> dt_wallet tx = Some (wl_id w)" "db_ok d'"
proof -
  obtain key where key: "utxo_key w d single_key (ui_address u) = Inr key"
    using up by (auto simp: update_utxo_def bindE_Inr_iff)
  define d1 where "d1 = d\<lparr>db_keys := update_where (\<lambda>k. dk_id k = dk_id key) (\<lambda>k. k\<lparr>dk_used := True\<rparr>) (db_keys d)\<rparr>"
  have same: "same_but_keys d d1" unfolding d1_def by (rule use_keys_shape)
  then have ok1: "db_ok d1" using ok same_but_keys_inv(1) by blast
  let ?l = "filter (\<lambda>(ou, tx). dt_wallet tx = Some (wl_id w) \<and> dt_txid tx = ui_txid u \<and>
      do_output_n ou = ui_output_n u) (output_rows d1)"
  obtain r where r: "scalar_row (map fst ?l) = Inr r"
    using up key by (auto simp: update_utxo_def Let_def d1_def [symmetric] bindE_Inr_iff)
  show thesis
  proof (cases r)
    case (Some ou)
    then have "map fst ?l = [ou]" using r by (simp add: scalar_row_simps)
    then have "ou \<in> fst ` set ?l" by (metis list.set_intros(1) list.set_map)
    then obtain tx where "(ou, tx) \<in> set (output_rows d1)" "dt_txid tx = ui_txid u" "do_output_n ou = ui_output_n u"
      "dt_wallet tx = Some (wl_id w)" by auto
    moreover have "refresh_utxo w network (dk_id key) u ou d1 = Inr d'"
      using up key r Some by (auto simp: update_utxo_def Let_def d1_def [symmetric] bindE_Inr_iff)
    ultimately show ?thesis using refresh same by blast
  next
    case None
    then have none: "?l = []" using r by (simp add: scalar_row_simps)
    obtain tid d2 st where d2: "add_utxo_tx w network account u d1 = Inr (tid, d2)"
      and d': "d' = d2\<lparr>db_outputs := db_outputs d2 @
               [\<lparr>do_tx = tid, do_output_n = ui_output_n u, do_key = Some (dk_id key), do_address = ui_address u,
                 do_value = ui_value u, do_script = ui_script u, do_script_type = st,
                 do_spent = spent_in_db w d1 (ui_txid u) (ui_output_n u), do_is_change = False\<rparr>]\<rparr>"
      (is "_ = _\<lparr>db_outputs := _ @ [?ou]\<rparr>")
      using up key r None by (auto simp: update_utxo_def Let_def d1_def [symmetric] bindE_Inr_iff)
    show ?thesis
      using d2 ok1
    proof (cases rule: add_utxo_tx_inv)
      case 1
      then obtain tx where tx: "tx \<in> set (db_txs d1)" "dt_id tx = tid" "dt_wallet tx = Some (wl_id w)" "dt_txid tx = ui_txid u"
        by blast
      have "output_key ?ou \<notin> output_key ` set (db_outputs d1)"
        using none tx by (auto simp: filter_empty_conv output_rows_mem output_key_def)
      then have "db_ok d'" using ok1 tx 1(1) by (auto simp: d' db_ok_def unique_rows_def)
      moreover have "\<forall>tx' \<in> set (db_txs d'). dt_id tx' = do_tx ?ou \<longrightarrow> dt_txid tx' = ui_txid u"
        using ok1 tx 1(1) by (auto simp: d' db_ok_def unique_rows_def distinct_map inj_on_def)
      ultimately show ?thesis using tx 1(1) by (intro add [OF same, of "[]" ?ou]) (auto simp: d')
    next
      case (2 row)
      have "output_key ?ou \<notin> output_key ` set (db_outputs d1)"
        using 2(5) ok1 by (auto simp: output_key_def db_ok_def)
      then have "db_ok d'" using ok1 2 by (auto simp: d' db_ok_def unique_rows_def)
      then show ?thesis using 2 by (intro add [OF same, of "[row]" ?ou]) (auto simp: d' image_iff)
    qed
  qed
qed

lemma update_utxo_inv:
  assumes "update_utxo w network account single_key u d = Inr (c, d')" "db_ok d" "spends_marked w d"
  shows "db_ok d' \<and> spends_marked w d'"
  using assms(1,2)
proof (cases rule: update_utxo_elim)
  case (refresh d1 k ou tx)
  then show ?thesis using refresh_utxo_inv assms(2,3) same_but_keys_inv by blast
next
  case (add d1 txs' ou)
  have ok1: "db_ok d1" "spends_marked w d1" using same_but_keys_inv [OF add(1)] assms(2,3) by simp_all
  have "spends_marked w d'"
    by (rule spends_marked_views_new [OF ok1 add(2,3,4,5)]) (use add(6-8) in auto)
  then show ?thesis using add by blast
qed




lemma update_utxos_inv:
  "update_utxos w network account single_key us d = Inr (c, d') \<Longrightarrow> db_ok d \<Longrightarrow> spends_marked w d \<Longrightarrow>
     db_ok d' \<and> spends_marked w d'"
proof (induction us arbitrary: d c)
  case (Cons u us)
  then obtain n d1 m where "update_utxo w network account single_key u d = Inr (n, d1)"
    "update_utxos w network account single_key us d1 = Inr (m, d')"
    by (auto simp: bindE_Inr_iff)
  then show ?case using Cons.IH update_utxo_inv Cons.prems(2,3) by blast
qed simp

section \<open>The wallet with its tables\<close>

text \<open>The invariant does not read the wallet object but for its number.\<close>

definition wallet_ok :: "wallet \<times> db \<Rightarrow> bool" where
  "wallet_ok s \<longleftrightarrow> db_ok (snd s) \<and> spends_marked (fst s) (snd s)"

lemma spends_marked_wallet: "wl_id w' = wl_id w \<Longrightarrow> spends_marked_but S w' d = spends_marked_but S w d"
  by (simp add: spends_marked_but_def spent_in_db_def)

lemma balance_update_inv:
  "balance_update a n k m (w, d) = Inr (w', d') \<Longrightarrow> wl_id w' = wl_id w \<and> wallet_ok (w', d') = wallet_ok (w, d)"
  using balance_update_same [of a n k m w d w' d'] same_but_keys_inv [of d d'] spends_marked_wallet [of w' w]
  by (auto simp: wallet_ok_def)

lemma utxos_update_network_inv:
  assumes "utxos_update_network getutxos shuffle args account single_key utxos network (w, d) = Inr (c, w', d')"
    and "wallet_ok (w, d)"
  shows "wl_id w' = wl_id w \<and> wallet_ok (w', d')"
proof -
  define d1 where "d1 = (if single_key = None \<and> ua_rescan_all args then expire_utxos w network account d else d)"
  have "same_shape d d1 \<and> unspent_view d1 \<subseteq> unspent_view d"
    using expire_utxos_shape [of d] by (simp add: d1_def same_shape_def)
  then have d1: "db_ok d1" "spends_marked w d1"
    using assms(2) same_shape_ok same_shape_marked by (auto simp: wallet_ok_def)
  obtain us d2 where d2: "update_utxos w network account single_key us d1 = Inr (c, d2)"
    and b: "(if ua_update_balance args then balance_update (Some account) (Some network) (ua_key_id args) 0 (w, d2)
             else Inr (w, d2)) = Inr (w', d')"
    using assms(1) unfolding utxos_update_network_def Let_def prod.case d1_def [symmetric]
    by (auto simp: bindE_Inr_iff)
  have "wallet_ok (w, d2)" using update_utxos_inv [OF d2 d1] by (simp add: wallet_ok_def)
  then show ?thesis using b balance_update_inv by (auto split: if_splits)
qed

lemma utxos_update_networks_inv:
  "utxos_update_networks getutxos shuffle args account single_key utxos ns (w, d) = Inr (c, w', d') \<Longrightarrow>
     wallet_ok (w, d) \<Longrightarrow> wl_id w' = wl_id w \<and> wallet_ok (w', d')"
proof (induction ns arbitrary: utxos w d c)
  case (Cons n ns)
  then obtain c1 w1 d1 c2 where
    "utxos_update_network getutxos shuffle args account single_key utxos n (w, d) = Inr (c1, w1, d1)"
    "utxos_update_networks getutxos shuffle args account single_key None ns (w1, d1) = Inr (c2, w', d')"
    by (auto simp: bindE_Inr_iff)
  then show ?case using utxos_update_network_inv Cons.IH Cons.prems(2) by metis
qed simp

lemma utxos_update_inv:
  assumes "utxos_update getutxos shuffle network_list args (w, d) = Inr (c, w', d')" "wallet_ok (w, d)"
  shows "wl_id w' = wl_id w \<and> wallet_ok (w', d')"
proof -
  obtain account single_key utxos ns where
    "utxos_update_networks getutxos shuffle args account single_key utxos ns (w, d) = Inr (c, w', d')"
    using assms(1) by (auto simp: utxos_update_def Let_def bindE_Inr_iff split: if_splits)
  then show ?thesis using utxos_update_networks_inv assms(2) by blast
qed

lemma update_confirmations_inv: "wallet_ok (w, d) \<Longrightarrow> wallet_ok (w, update_confirmations w blockcount d)"
proof -
  have "same_shape d (update_confirmations w blockcount d)"
    "unspent_view (update_confirmations w blockcount d) = unspent_view d"
    unfolding update_confirmations_def
    using update_where_views [of "\<lambda>tx. tx\<lparr>dt_status := ''confirmed'',
        dt_confirmations := int blockcount - int (the (dt_block_height tx)) + 1\<rparr>" d]
    by (simp_all add: tx_view_def)
  then show "wallet_ok (w, d) \<Longrightarrow> wallet_ok (w, update_confirmations w blockcount d)"
    using same_shape_ok [of d] same_shape_marked [of d] by (auto simp: wallet_ok_def)
qed

section \<open>delete\<close>

text \<open>No other stored transaction spends what an input of the transaction with this number spends.\<close>

definition sole_spender :: "db \<Rightarrow> nat \<Rightarrow> bool" where
  "sole_spender d n \<longleftrightarrow> (\<forall>inp \<in> set (db_inputs d). \<forall>inp' \<in> set (db_inputs d).
     di_tx inp = n \<and> di_tx inp' \<noteq> n \<longrightarrow> spent_by inp' \<noteq> spent_by inp)"

lemma unspend_shape: "same_shape d (unspend w d inp)"
  by (simp add: unspend_def set_spent_shape) (simp add: same_shape_def)

lemma unspent_view_unspend:
  assumes "(i, n) \<in> unspent_view (unspend w d inp)"
  shows "(i, n) \<in> unspent_view d \<or> n = di_output_n inp \<and> (\<exists>wl. (i, wl, di_prev_txid inp) \<in> tx_view ` set (db_txs d))"
proof -
  let ?names = "names_output d (\<lambda>tx. dt_wallet tx = Some (wl_id w)) (di_prev_txid inp) (di_output_n inp)"
  obtain ou where ou: "ou \<in> set (db_outputs d)" "(i, n) = output_key ou" "\<not> do_spent ou \<or> ?names ou"
    using assms by (auto simp: unspend_def unspent_view_def set_spent_def set_update_where output_key_def
        split: if_splits)
  then show ?thesis
  proof (cases "do_spent ou")
    case True
    then obtain tx where "tx \<in> set (db_txs d)" "dt_id tx = do_tx ou" "dt_txid tx = di_prev_txid inp"
      "do_output_n ou = di_output_n inp"
      using ou(3) by (auto simp: names_output_def list_ex_iff)
    then have "(i, dt_wallet tx, di_prev_txid inp) \<in> tx_view ` set (db_txs d)" "n = di_output_n inp"
      using ou(2) by (auto simp: tx_view_def output_key_def intro!: image_eqI [of _ _ tx])
    then show ?thesis by blast
  next
    case False
    then show ?thesis using ou by (auto simp: unspent_view_def)
  qed
qed

lemma fold_unspend:
  "same_shape d (fold (\<lambda>inp d'. unspend w d' inp) ins d) \<and>
   (\<forall>(i, n) \<in> unspent_view (fold (\<lambda>inp d'. unspend w d' inp) ins d). (i, n) \<in> unspent_view d \<or>
     (\<exists>inp \<in> set ins. n = di_output_n inp \<and> (\<exists>wl. (i, wl, di_prev_txid inp) \<in> tx_view ` set (db_txs d))))"
proof (induction ins arbitrary: d)
  case (Cons inp ins)
  let ?d1 = "unspend w d inp"
  have shape: "same_shape d ?d1" by (rule unspend_shape)
  note txs = same_shape_tx_view [OF shape]
  show ?case
    using Cons.IH [of ?d1] same_shape_trans [OF shape] unspent_view_unspend [of _ _ w d inp]
    unfolding txs fold_Cons o_apply by fastforce
qed (simp add: same_shape_def)

lemma tx_delete_inv:
  assumes del: "tx_delete w txid d = Inr (c, d')" and ok: "db_ok d" "spends_marked w d"
    and sole: "\<forall>tx \<in> set (db_txs d). dt_txid tx = txid \<longrightarrow> sole_spender d (dt_id tx)"
  shows "db_ok d' \<and> spends_marked w d'"
proof -
  obtain tx where f: "filter (\<lambda>tx. dt_txid tx = txid) (db_txs d) = [tx]"
    using del by (auto simp: tx_delete_def bindE_Inr_iff scalar_row_def split: option.splits list.splits)
  then have "set (filter (\<lambda>tx. dt_txid tx = txid) (db_txs d)) = {tx}" by simp
  then have tx: "tx \<in> set (db_txs d)" "dt_txid tx = txid"
    and only: "\<And>tx'. tx' \<in> set (db_txs d) \<Longrightarrow> dt_txid tx' = txid \<Longrightarrow> tx' = tx"
    by auto
  have scalar: "scalar_row (filter (\<lambda>tx. dt_txid tx = txid) (db_txs d)) = Inr (Some tx)"
    by (simp add: f scalar_row_def)
  define n where "n = dt_id tx"
  define d1 where "d1 = d\<lparr>db_outputs := filter (\<lambda>ou. do_tx ou \<noteq> n) (db_outputs d)\<rparr>"
  define ins where "ins = filter (\<lambda>i. di_tx i = n) (db_inputs d)"
  define d2 where "d2 = fold (\<lambda>inp d'. unspend w d' inp) ins d1"
  have d': "d' = d2\<lparr>db_inputs := filter (\<lambda>i. di_tx i \<noteq> n) (db_inputs d2),
                  db_keys := update_where (\<lambda>k. dk_latest_txid k = Some txid)
                    (\<lambda>k. k\<lparr>dk_latest_txid := None, dk_used := False\<rparr>) (db_keys d2),
                  db_txs := filter (\<lambda>tx. dt_txid tx \<noteq> txid) (db_txs d2)\<rparr>"
    using del scalar by (simp add: tx_delete_def Let_def n_def d1_def d2_def ins_def)
  have shape: "same_shape d1 d2" using fold_unspend by (simp add: d2_def)
  have txs: "map tx_view (db_txs d2) = map tx_view (db_txs d)" "db_inputs d2 = db_inputs d"
    using shape by (simp_all add: same_shape_def d1_def)
  have txs': "map tx_view (db_txs d') = filter (\<lambda>v. snd (snd v) \<noteq> txid) (map tx_view (db_txs d))"
    unfolding txs(1) [symmetric] by (simp add: d' filter_map o_def tx_view_def)
  have view: "tx' \<in> set (db_txs d2) \<Longrightarrow> \<exists>tx0 \<in> set (db_txs d). tx_view tx' = tx_view tx0" for tx'
    using arg_cong [OF txs(1), of set] by auto
  have gone: "dt_txid tx' \<noteq> txid" if "tx' \<in> set (db_txs d2)" "dt_id tx' \<noteq> n" for tx'
    using view [OF that(1)] that(2) only by (auto simp: tx_view_def n_def)
  have "db_ok d1" using ok(1) by (auto simp: db_ok_def unique_rows_def d1_def distinct_map_filter)
  then have ok2: "db_ok d2" using same_shape_ok [OF shape] by simp
  have "do_tx ` set (db_outputs d2) = do_tx ` set (db_outputs d1)" by (rule same_shape_ids(2) [OF shape])
  then have "n \<notin> do_tx ` set (db_outputs d2)" by (auto simp: d1_def)
  then have other: "ou \<in> set (db_outputs d2) \<Longrightarrow> do_tx ou \<noteq> n" for ou by auto
  have kept: "i \<in> dt_id ` {tx' \<in> set (db_txs d2). dt_txid tx' \<noteq> txid}" if "i \<in> dt_id ` set (db_txs d2)" "i \<noteq> n" for i
    using that gone by blast
  have fk: "do_tx ` set (db_outputs d2) \<subseteq> dt_id ` {tx' \<in> set (db_txs d2). dt_txid tx' \<noteq> txid}"
    "di_tx ` {i \<in> set (db_inputs d2). di_tx i \<noteq> n} \<subseteq> dt_id ` {tx' \<in> set (db_txs d2). dt_txid tx' \<noteq> txid}"
    using kept ok2 other unfolding db_ok_def by blast+
  have "db_ok d'" using ok2 fk
    by (simp add: db_ok_def unique_rows_def d' distinct_map_filter map_update_where)
  moreover have "spends_marked w d'"
  proof (rule spends_marked_viewsI)
    fix i m x
    assume v: "(i, m) \<in> unspent_view d'" "(i, Some (wl_id w), x) \<in> tx_view ` set (db_txs d')" "spent_in_db w d' x m"
    have txv: "v \<in> tx_view ` set (db_txs d') \<Longrightarrow> v \<in> tx_view ` set (db_txs d)" for v
      using arg_cong [OF txs', of set] by auto
    have un: "unspent_view d' = unspent_view d2" by (simp add: d' unspent_view_def)
    obtain inp' where inp': "inp' \<in> set (db_inputs d)" "di_tx inp' \<noteq> n" "spent_by inp' = (x, m)"
      using v(3) by (auto simp: spent_in_db_iff d' txs(2) spent_by_def)
    have spent: "spent_in_db w d x m"
      by (rule spent_in_db_mono [OF v(3)]) (use txv in blast, auto simp: d' txs(2))
    have own: "(i, Some (wl_id w), x) \<in> tx_view ` set (db_txs d)" by (rule txv [OF v(2)])
    have "(i, m) \<in> unspent_view d2" using v(1) un by simp
    then consider "(i, m) \<in> unspent_view d1"
      | inp wl where "inp \<in> set ins" "m = di_output_n inp" "(i, wl, di_prev_txid inp) \<in> tx_view ` set (db_txs d1)"
      using fold_unspend [of d1 w ins] unfolding d2_def by blast
    then show "(x, m) \<in> {}"
    proof cases
      case 1
      then have "(i, m) \<in> unspent_view d" by (auto simp: d1_def unspent_view_def)
      then show ?thesis using ok(2) own spent unfolding spends_marked_views by blast
    next
      case (2 inp wl)
      then have "(i, wl, di_prev_txid inp) \<in> tx_view ` set (db_txs d)" by (simp add: d1_def)
      then have "di_prev_txid inp = x"
        using own ok(1) by (auto simp: tx_view_def db_ok_def unique_rows_def distinct_map inj_on_def)
      then have "spent_by inp = (x, m)" using 2(2) by (simp add: spent_by_def)
      then show ?thesis using sole tx inp' 2(1) by (force simp: sole_spender_def n_def ins_def)
    qed
  qed
  ultimately show ?thesis by blast
qed

section \<open>Stored transactions\<close>

lemma store_all_inv:
  "store_all w ts d = Inr d' \<Longrightarrow> db_ok d \<Longrightarrow> spends_marked_but S w d \<Longrightarrow> distinct (map wt_txid ts) \<Longrightarrow>
     (\<forall>t \<in> set ts. numbered_tx t \<and> unknown_tx d (wt_txid t)) \<Longrightarrow>
     (\<forall>inp \<in> set (db_inputs d). di_prev_txid inp \<in> wt_txid ` set ts \<longrightarrow> spent_by inp \<in> S) \<Longrightarrow>
     db_ok d' \<and> spends_marked_but (S \<union> set (concat (map (\<lambda>t. map prev_of (wt_inputs t)) ts))) w d'"
proof (induction ts arbitrary: d S)
  case (Cons t ts)
  then obtain n d1 where d1: "tx_store w t d = Inr (n, d1)" "store_all w ts d1 = Inr d'"
    by (auto simp: bindE_Inr_iff)
  have t: "numbered_tx t" "unknown_tx d (wt_txid t)" using Cons.prems(5) by auto
  let ?S = "S \<union> set (map prev_of (wt_inputs t))"
  note rows = store_new_rows [OF d1(1) Cons.prems(2) t]
  have ne: "u \<in> set ts \<Longrightarrow> wt_txid u \<noteq> wt_txid t" for u using Cons.prems(4) by (auto simp: image_iff)
  have "db_ok d1" by (rule store_new_ok [OF d1(1) Cons.prems(2) t])
  moreover have "spends_marked_but ?S w d1"
    using store_new_marked [OF d1(1) Cons.prems(2) t Cons.prems(3)] Cons.prems(6) by simp
  moreover have "\<forall>u \<in> set ts. numbered_tx u \<and> unknown_tx d1 (wt_txid u)"
    using rows(2) ne Cons.prems(5) by (simp add: unknown_tx_iff)
  moreover have "\<forall>inp \<in> set (db_inputs d1). di_prev_txid inp \<in> wt_txid ` set ts \<longrightarrow> spent_by inp \<in> ?S"
  proof (intro ballI impI)
    fix inp
    assume inp: "inp \<in> set (db_inputs d1)" "di_prev_txid inp \<in> wt_txid ` set ts"
    then have "spent_by inp \<in> spent_by ` set (db_inputs d) \<union> set (map prev_of (wt_inputs t))"
      unfolding rows(1) [symmetric] by blast
    then show "spent_by inp \<in> ?S" using Cons.prems(6) inp(2) by (auto simp: spent_by_def)
  qed
  moreover have "distinct (map wt_txid ts)" using Cons.prems(4) by simp
  ultimately show ?case using Cons.IH [OF d1(2), of ?S] by (simp add: Un_assoc)
qed simp

text \<open>The transaction id is not known yet, and no stored input names it.\<close>

definition new_txid :: "db \<Rightarrow> bytes \<Rightarrow> bool" where
  "new_txid d txid \<longleftrightarrow> unknown_tx d txid \<and> (\<forall>inp \<in> set (db_inputs d). di_prev_txid inp \<noteq> txid)"

lemma tx_send_inv:
  assumes "tx_send verified broadcast answer t (w, d) = Inr (r, w', d')" "wallet_ok (w, d)" "numbered_tx t"
    and "\<And>txid. answer = Pushed txid \<Longrightarrow> new_txid d txid"
  shows "wallet_ok (w', d')"
proof (cases "verified \<and> broadcast \<and> (\<exists>txid. answer = Pushed txid)")
  case True
  then obtain txid n d1 where "answer = Pushed txid" and d1: "tx_store w (pushed_tx txid t) d = Inr (n, d1)"
    and b: "balance_update None (Some (wt_network t)) None 0
      (w, mark_spent (\<lambda>_. True) (map prev_of (wt_inputs t)) d1) = Inr (w', d')"
    using assms(1) by (auto simp: tx_send_def bindE_Inr_iff)
  then have new: "new_txid d txid" using assms(4) by blast
  have t: "numbered_tx (pushed_tx txid t)" "unknown_tx d (wt_txid (pushed_tx txid t))"
    using assms(3) new by (simp_all add: numbered_tx_def pushed_tx_def new_txid_def)
  have ok: "db_ok d" "spends_marked w d" using assms(2) by (simp_all add: wallet_ok_def)
  have "db_ok d1" by (rule store_new_ok [OF d1 ok(1) t])
  moreover have "spends_marked_but (set (map prev_of (wt_inputs t))) w d1"
    using store_new_marked [OF d1 ok(1) t ok(2)] new by (simp add: new_txid_def pushed_tx_def)
  ultimately have "wallet_ok (w, mark_spent (\<lambda>_. True) (map prev_of (wt_inputs t)) d1)"
    using same_shape_ok [OF mark_spent_shape] mark_spent_marked by (simp add: wallet_ok_def)
  then show ?thesis using balance_update_inv [OF b] by simp
next
  case False
  then show ?thesis using assms(1,2) by (auto simp: tx_send_def split: if_splits push_result.splits)
qed

lemma transactions_update_inv:
  assumes "transactions_update_by_txids w ts d = Inr d'" "wallet_ok (w, d)" "distinct (map wt_txid ts)"
    and "\<forall>t \<in> set ts. numbered_tx t \<and> new_txid d (wt_txid t)"
  shows "wallet_ok (w, d')"
proof -
  obtain d1 where d1: "store_all w ts d = Inr d1"
    and d': "d' = mark_spent (\<lambda>_. True) (remdups (concat (map (\<lambda>t. map prev_of (wt_inputs t)) ts))) d1"
    using assms(1) by (auto simp: transactions_update_by_txids_def bindE_Inr_iff)
  have "db_ok d1 \<and> spends_marked_but (set (concat (map (\<lambda>t. map prev_of (wt_inputs t)) ts))) w d1"
    using store_all_inv [OF d1, of "{}"] assms(2-4) by (auto simp: wallet_ok_def new_txid_def)
  then show ?thesis unfolding d' wallet_ok_def
    using same_shape_ok [OF mark_spent_shape] mark_spent_marked
    by (metis fst_conv order_refl set_remdups snd_conv)
qed

section \<open>Steps of the wallet\<close>

inductive wallet_step :: "wallet \<times> db \<Rightarrow> wallet \<times> db \<Rightarrow> bool" where
  step_send: "tx_send verified broadcast answer t s = Inr (r, s') \<Longrightarrow> numbered_tx t \<Longrightarrow>
     (\<And>txid. answer = Pushed txid \<Longrightarrow> new_txid (snd s) txid) \<Longrightarrow> wallet_step s s'"
| step_utxos: "utxos_update getutxos shuffle network_list args s = Inr (n, s') \<Longrightarrow> wallet_step s s'"
| step_transactions: "transactions_update_by_txids w ts d = Inr d' \<Longrightarrow> distinct (map wt_txid ts) \<Longrightarrow>
     (\<forall>t \<in> set ts. numbered_tx t \<and> new_txid d (wt_txid t)) \<Longrightarrow> wallet_step (w, d) (w, d')"
| step_confirmations: "wallet_step (w, d) (w, update_confirmations w blockcount d)"
| step_balance: "balance_update account network key_id min_confirms s = Inr s' \<Longrightarrow> wallet_step s s'"
| step_delete: "transaction_delete w txid d = Inr d' \<Longrightarrow>
     (\<forall>tx \<in> set (db_txs d). dt_txid tx = txid \<longrightarrow> sole_spender d (dt_id tx)) \<Longrightarrow> wallet_step (w, d) (w, d')"

lemma transaction_delete_inv:
  assumes "transaction_delete w txid d = Inr d'" "wallet_ok (w, d)"
    and "\<forall>tx \<in> set (db_txs d). dt_txid tx = txid \<longrightarrow> sole_spender d (dt_id tx)"
  shows "wallet_ok (w, d')"
proof -
  obtain c where "tx_delete w txid d = Inr (c, d')"
    using assms(1) by (auto simp: transaction_delete_def bindE_Inr_iff split: option.splits)
  then show ?thesis using tx_delete_inv assms(2,3) by (auto simp: wallet_ok_def)
qed

lemma wallet_step_ok: "wallet_step s s' \<Longrightarrow> wallet_ok s \<Longrightarrow> wallet_ok s'"
proof (induction rule: wallet_step.induct)
  case (step_send verified broadcast answer t s r s')
  then show ?case by (cases s; cases s') (auto intro: tx_send_inv)
next
  case (step_utxos getutxos shuffle network_list args s n s')
  then show ?case by (cases s; cases s') (auto dest: utxos_update_inv)
next
  case (step_balance account network key_id min_confirms s s')
  then show ?case by (cases s; cases s') (auto dest: balance_update_inv)
qed (auto intro: transactions_update_inv update_confirmations_inv transaction_delete_inv)

interpretation tables: transition wallet_step wallet_ok
  by unfold_locales (rule wallet_step_ok)

section \<open>Properties\<close>

lemma selected_rows:
  assumes "select_input_rows w d amount variance key_ids account0 network0 min_confirms m ignore_dust = Inr sel"
  shows "\<forall>(ou, tx, k) \<in> set sel. ou \<in> set (db_outputs d) \<and> \<not> do_spent ou \<and> tx \<in> set (db_txs d) \<and>
    dt_id tx = do_tx ou \<and> dt_wallet tx = Some (wl_id w)"
proof -
  obtain network account and nw :: network where "mset sel \<subseteq>#
      mset (candidate_utxos w d (int (n_dust_amount nw)) key_ids account network min_confirms ignore_dust)"
    using assms by (rule select_input_rows_Inr)
  then have "set sel \<subseteq> set (candidate_utxos w d (int (n_dust_amount nw)) key_ids account network
      min_confirms ignore_dust)"
    by (metis set_mset_mono set_mset_mset)
  then show ?thesis by (auto simp: candidate_utxos_def utxo_rows_mem)
qed

lemma mark_spent_gone:
  "(i, n) \<in> unspent_view (mark_spent (\<lambda>_. True) prevs d) \<Longrightarrow> v \<in> tx_view ` set (db_txs d) \<Longrightarrow> fst v = i \<Longrightarrow>
     (snd (snd v), n) \<notin> set prevs"
  using mark_spent_unspent [of prevs d] by blast


text \<open>C7: in every state the wallet reaches no output is selected for a new transaction that a stored
  transaction of the wallet spends already.\<close>

theorem selected_never_spent:
  assumes "wallet_step\<^sup>*\<^sup>* s (w, d)" "wallet_ok s"
    and "select_input_rows w d amount variance key_ids account0 network0 min_confirms m ignore_dust = Inr sel"
  shows "\<forall>(ou, tx, k) \<in> set sel. \<not> spent_in_db w d (dt_txid tx) (do_output_n ou)"
proof -
  have ok: "spends_marked w d" using tables.reach_inv [OF assms(1,2)] by (simp add: wallet_ok_def)
  show ?thesis using selected_rows [OF assms(3)] spends_marked_butD [OF ok] by blast
qed

text \<open>C9: once the network has accepted a transaction that the wallet sends, none of the outputs it spends
  is listed as unspent again by the wallet, and none is selected for another transaction.\<close>

theorem sent_outputs_gone:
  assumes "tx_send True True (Pushed txid) t (w, d) = Inr (r, w', d')"
    and "select_input_rows w' d' amount variance key_ids account0 network0 min_confirms m ignore_dust = Inr sel"
    and "wallet_utxos w' d' account1 network1 min_confirms1 key_ids1 = Inr us"
  shows "\<forall>(ou, tx, k) \<in> set sel \<union> set us. (dt_txid tx, do_output_n ou) \<notin> set (map prev_of (wt_inputs t))"
proof -
  obtain d1 where b: "balance_update None (Some (wt_network t)) None 0
      (w, mark_spent (\<lambda>_. True) (map prev_of (wt_inputs t)) d1) = Inr (w', d')"
    using assms(1) by (auto simp: tx_send_def bindE_Inr_iff)
  then have same: "same_but_keys (mark_spent (\<lambda>_. True) (map prev_of (wt_inputs t)) d1) d'"
    using balance_update_same by blast
  have gone: "(dt_txid tx, do_output_n ou) \<notin> set (map prev_of (wt_inputs t))"
    if "ou \<in> set (db_outputs d')" "\<not> do_spent ou" "tx \<in> set (db_txs d')" "dt_id tx = do_tx ou" for ou tx
  proof -
    have "(do_tx ou, do_output_n ou) \<in> unspent_view d'" using that(1,2) by (auto simp: unspent_view_def output_key_def)
    then have "(do_tx ou, do_output_n ou) \<in> unspent_view (mark_spent (\<lambda>_. True) (map prev_of (wt_inputs t)) d1)"
      using same_but_keys_shape [OF same] by simp
    moreover have "tx_view tx \<in> tx_view ` set (db_txs d1)"
      using that(3) same_shape_tx_view [OF conjunct1 [OF same_but_keys_shape [OF same]]]
        same_shape_tx_view [OF mark_spent_shape [of d1 "\<lambda>_. True" "map prev_of (wt_inputs t)"]] by blast
    ultimately have "(snd (snd (tx_view tx)), do_output_n ou) \<notin> set (map prev_of (wt_inputs t))"
      by (rule mark_spent_gone) (simp add: tx_view_def that(4))
    then show ?thesis by (simp add: tx_view_def)
  qed
  note sel = selected_rows [OF assms(2)]
  have us: "\<forall>(ou, tx, k) \<in> set us. ou \<in> set (db_outputs d') \<and> \<not> do_spent ou \<and> tx \<in> set (db_txs d') \<and>
      dt_id tx = do_tx ou"
    using assms(3) by (auto simp: wallet_utxos_def bindE_Inr_iff utxo_rows_mem split: if_splits)
  show ?thesis using sel us gone by blast
qed






section \<open>Witnesses\<close>

text \<open>A transaction that spends the first output of the example, and the tables once it is stored.\<close>

definition example_spend :: wallet_tx where
  "example_spend = \<lparr>wt_txid = [], wt_network = ''bitcoin'', wt_account = 0, wt_confirmations = None,
     wt_status = ''new'', wt_block_height = None, wt_fee = Some 500, wt_input_total = 3000,
     wt_output_total = 2500, wt_rawtx = [], wt_verified = True, wt_locktime = 0,
     wt_inputs = [\<lparr>si_index_n = 0, si_prev_txid = [7], si_output_n = 0, si_value = 3000, si_script = [], si_address = ''a''\<rparr>],
     wt_outputs = [\<lparr>so_output_n = 0, so_value = 2500, so_address = ''b'', so_script = [], so_script_type = ''p2wpkh'',
       so_spent = None, so_change = False\<rparr>]\<rparr>"

definition example_spend_row :: db_tx where
  "example_spend_row = new_tx_row example_wallet (pushed_tx [9] example_spend) 2"

definition example_spend_input :: db_input where
  "example_spend_input = \<lparr>di_tx = 2, di_index_n = 0, di_key = Some 1, di_prev_txid = [7], di_output_n = 0,
     di_value = 3000, di_script = [], di_address = ''a''\<rparr>"

definition example_spend_output :: db_output where
  "example_spend_output = \<lparr>do_tx = 2, do_output_n = 0, do_key = None, do_address = ''b'', do_value = 2500, do_script = [],
     do_script_type = ''p2wpkh'', do_spent = False, do_is_change = False\<rparr>"

definition example_stored :: db where
  "example_stored = \<lparr>db_keys = [example_db_key\<lparr>dk_used := True\<rparr>], db_txs = [example_db_tx, example_spend_row],
     db_inputs = [example_spend_input],
     db_outputs = [example_utxo 0 3000, example_utxo 1 4000, example_utxo 2 5000, example_spend_output]\<rparr>"

definition example_sent :: db where
  "example_sent = example_stored\<lparr>db_outputs := [(example_utxo 0 3000)\<lparr>do_spent := True\<rparr>, example_utxo 1 4000,
     example_utxo 2 5000, example_spend_output]\<rparr>"

lemma example_store:
  "tx_store example_wallet (pushed_tx [9] example_spend) example_db = Inr (2, example_stored)"
proof -
  let ?t = "pushed_tx [9] example_spend" and ?d1 = "example_db\<lparr>db_txs := [example_db_tx, example_spend_row]\<rparr>"
  let ?d2 = "?d1\<lparr>db_keys := [example_db_key\<lparr>dk_used := True\<rparr>], db_inputs := [example_spend_input]\<rparr>"
  have "store_tx_row example_wallet ?t example_db = Inr (2, ?d1)"
    by (simp add: store_tx_row_def scalar_row_def first_row_def new_id_def pushed_tx_def example_db_def
        example_db_tx_def example_wallet_def example_spend_row_def numeral_2_eq_2)
  moreover have "store_inputs example_wallet 2 (wt_inputs ?t) ?d1 = Inr ?d2"
    by (simp add: store_input_def use_key_def scalar_row_def update_where_def pushed_tx_def example_spend_def
        example_db_def example_wallet_def example_db_key_def example_spend_input_def)
  moreover have "store_outputs example_wallet 2 (wt_outputs ?t) ?d2 = Inr example_stored"
    by (simp add: store_output_def use_key_def scalar_row_def pushed_tx_def example_spend_def example_stored_def
        example_db_def example_wallet_def example_db_key_def example_utxo_def example_spend_output_def)
  ultimately show ?thesis by (simp add: tx_store_def)
qed

lemma example_marked:
  "mark_spent (\<lambda>_. True) (map prev_of (wt_inputs example_spend)) example_stored = example_sent"
  by (simp add: mark_spent_def set_spent_def update_where_def names_output_def prev_of_def example_spend_def
      example_stored_def example_sent_def example_utxo_def example_db_tx_def example_spend_row_def new_tx_row_def
      pushed_tx_def example_spend_output_def)

definition example_after :: "wallet \<times> db" where
  "example_after = (example_wallet\<lparr>wl_balances := [\<lparr>wb_network = ''bitcoin'', wb_account = 0, wb_balance = 9000\<rparr>],
     wl_balance := 9000\<rparr>, example_sent\<lparr>db_keys := [example_db_key\<lparr>dk_used := True, dk_balance := 9000\<rparr>]\<rparr>)"

lemma example_counted:
  "counted_utxos example_wallet example_sent 1000 None (Some ''bitcoin'') None 0 =
     [((1, ''bitcoin'', 0), 4000), ((1, ''bitcoin'', 0), 5000)]"
  by (simp add: counted_utxos_def output_rows_def example_sent_def example_stored_def example_utxo_def
      example_db_tx_def example_spend_row_def new_tx_row_def pushed_tx_def example_spend_output_def
      example_wallet_def example_spend_def wanted_def)

lemma example_balance:
  "balance_update None (Some ''bitcoin'') None 0 (example_wallet, example_sent) = Inr example_after"
proof -
  obtain nw where nw: "network_named ''bitcoin'' = Inr nw" "n_dust_amount nw = 1000" using example_bitcoin by blast
  have net: "wl_network example_wallet = ''bitcoin''" by (simp add: example_wallet_def)
  have sums: "group_sums fst snd [((1, ''bitcoin'', 0), 4000), ((1, ''bitcoin'', 0), 5000)] =
      [((1 :: nat, ''bitcoin'', 0 :: int), 9000)]"
    "group_sums (\<lambda>((i, n, a), b). (n, a)) snd [((1 :: nat, ''bitcoin'', 0 :: int), 9000)] = [((''bitcoin'', 0), 9000)]"
    by (simp_all add: group_sums_def)
  have keys: "wallet_keys example_wallet example_sent
      (any_key\<lparr>q_account := None, q_network := Some ''bitcoin'', q_key_id := None\<rparr>) = Inr [example_db_key\<lparr>dk_used := True\<rparr>]"
    by (simp add: wallet_keys_def any_key_def wanted_def example_sent_def example_stored_def example_defs)
  show ?thesis
    unfolding balance_update_def Let_def prod.case net nw(1) bindE_simps nw(2) of_nat_numeral example_counted sums keys
    by (simp add: example_after_def example_wallet_def update_key_balance_def example_sent_def example_stored_def
        example_db_key_def)
qed

lemma example_send:
  "tx_send True True (Pushed [9]) example_spend (example_wallet, example_db) = Inr (None, example_after)"
proof -
  have "wt_network example_spend = ''bitcoin''" by (simp add: example_spend_def)
  then show ?thesis using example_balance by (simp add: tx_send_def example_store example_marked)
qed

lemma example_ok: "wallet_ok (example_wallet, example_db)"
  by (simp add: wallet_ok_def db_ok_def unique_rows_def spends_marked_but_def spent_in_db_def input_rows_def
      example_defs output_key_def)

lemma example_new: "new_txid example_db [9]" "numbered_tx example_spend"
  by (simp_all add: new_txid_def unknown_tx_def numbered_tx_def example_spend_def example_db_def example_db_tx_def)

lemma example_step: "wallet_step (example_wallet, example_db) example_after"
  using example_new by (intro step_send [OF example_send]) simp_all


text \<open>The selection in the state after the transaction was sent.\<close>

definition example_spent_rows :: "utxo_row list" where
  "example_spent_rows = map (\<lambda>ou. (ou, example_db_tx, example_db_key\<lparr>dk_used := True, dk_balance := 9000\<rparr>))
     [example_utxo 1 4000, example_utxo 2 5000]"

lemma example_after_rows:
  "utxo_rows (snd example_after) = ((example_utxo 0 3000)\<lparr>do_spent := True\<rparr>, example_db_tx,
      example_db_key\<lparr>dk_used := True, dk_balance := 9000\<rparr>) # example_spent_rows"
  by (simp add: utxo_rows_def output_rows_def example_after_def example_sent_def example_stored_def
      example_spend_row_def new_tx_row_def pushed_tx_def example_spend_output_def example_spent_rows_def example_defs)

lemma example_after_selection:
  "\<exists>sel. select_input_rows (fst example_after) (snd example_after) 5000 None [] None None 1 0 None = Inr sel \<and>
     map row_value sel = [5000]"
proof -
  obtain nw where nw: "network_named ''bitcoin'' = Inr nw" "n_dust_amount nw = 1000" using example_bitcoin by blast
  have defaults: "get_account_defaults (fst example_after) (snd example_after) None None None = Inr (''bitcoin'', 0)"
    by (simp add: get_account_defaults_def example_after_def example_wallet_def)
  have cands: "candidate_utxos (fst example_after) (snd example_after) 1000 [] 0 ''bitcoin'' 1 None = example_spent_rows"
    unfolding candidate_utxos_def order_desc_def example_after_rows
    by (simp add: example_spent_rows_def example_after_def example_defs)
  have "exact_utxo 5000 1000 example_spent_rows =
      Some (example_utxo 2 5000, example_db_tx, example_db_key\<lparr>dk_used := True, dk_balance := 9000\<rparr>)"
    by (simp add: exact_utxo_def first_row_def example_spent_rows_def example_value)
  moreover have "example_spent_rows \<noteq> []" by (simp add: example_spent_rows_def)
  ultimately show ?thesis using nw cands by (simp add: select_input_rows_def defaults select_utxos_def example_value)
qed

theorem selected_never_spent_witness:
  "\<exists>sel. select_input_rows (fst example_after) (snd example_after) 5000 None [] None None 1 0 None = Inr sel \<and>
     length sel = 1 \<and> (\<forall>(ou, tx, k) \<in> set sel. \<not> spent_in_db (fst example_after) (snd example_after) (dt_txid tx) (do_output_n ou))"
proof -
  obtain sel where sel: "select_input_rows (fst example_after) (snd example_after) 5000 None [] None None 1 0 None = Inr sel"
    "map row_value sel = [5000]" using example_after_selection by (elim exE conjE)
  have "wallet_step\<^sup>*\<^sup>* (example_wallet, example_db) (fst example_after, snd example_after)"
    using example_step by (simp add: r_into_rtranclp)
  then have "\<forall>(ou, tx, k) \<in> set sel. \<not> spent_in_db (fst example_after) (snd example_after) (dt_txid tx) (do_output_n ou)"
    by (rule selected_never_spent [OF _ example_ok sel(1)])
  moreover have "length sel = 1" using arg_cong [OF sel(2), of length] by simp
  ultimately show ?thesis using sel(1) by (intro exI [of _ sel] conjI)
qed

lemma example_listed: "\<exists>us. wallet_utxos (fst example_after) (snd example_after) None None 0 None = Inr us"
  by (simp add: wallet_utxos_def get_account_defaults_def example_after_def example_wallet_def)

theorem sent_outputs_gone_witness:
  "\<exists>sel us. select_input_rows (fst example_after) (snd example_after) 5000 None [] None None 1 0 None = Inr sel \<and>
     wallet_utxos (fst example_after) (snd example_after) None None 0 None = Inr us \<and>
     (\<forall>(ou, tx, k) \<in> set sel \<union> set us. (dt_txid tx, do_output_n ou) \<notin> {([7], 0)})"
proof -
  obtain sel where sel: "select_input_rows (fst example_after) (snd example_after) 5000 None [] None None 1 0 None = Inr sel"
    using example_after_selection by (elim exE conjE)
  obtain us where us: "wallet_utxos (fst example_after) (snd example_after) None None 0 None = Inr us"
    using example_listed by (elim exE)
  have "tx_send True True (Pushed [9]) example_spend (example_wallet, example_db) = Inr (None, fst example_after, snd example_after)"
    using example_send by simp
  moreover have "set (map prev_of (wt_inputs example_spend)) = {([7], 0)}" by (simp add: prev_of_def example_spend_def)
  ultimately have "\<forall>(ou, tx, k) \<in> set sel \<union> set us. (dt_txid tx, do_output_n ou) \<notin> {([7], 0)}"
    using sent_outputs_gone [OF _ sel us, of "[9]" example_spend] by simp
  then show ?thesis using sel us by (intro exI [of _ sel] exI [of _ us] conjI)
qed




end
