(* ===== verification/Address_Rules.thy ===== *)
theory Address_Rules
  imports Tx_Build Bech32_Addr
begin

text \<open>
  Segwit addresses from end to end: \<^verbatim>\<open>pubkeyhash_to_addr_bech32\<close>, \<^verbatim>\<open>deserialize_address\<close>,
  \<^verbatim>\<open>Address.parse\<close> and the output that pays to an address.
\<close>

section \<open>Recognising an encoded address\<close>

definition witness_script_type :: "int \<Rightarrow> bytes \<Rightarrow> string" where
  "witness_script_type witver pkh =
    (if length pkh = 20 then ''p2wpkh'' else if witver = 0 then ''p2wsh'' else ''p2tr'')"

lemma addr_bech32_checksum_ok:
  assumes "good_hrp hrp" "\<forall>i \<in> set data. symbol i"
  shows "is_ok (addr_bech32_checksum (hrp @ CHR ''1'' # map sym_char data))"
    and "rfind_1 (hrp @ CHR ''1'' # map sym_char data) = Some (length hrp)"
proof -
  have plain: "map py_lower (map sym_char data) = map sym_char data" "CHR ''1'' \<notin> set (map sym_char data)"
    using assms(2) sym_char_plain(1,2) by (force simp: plain_char_def, force dest: sym_char_plain(2) sym)
  have hrp: "map py_lower hrp = hrp"
    using assms(1) by (auto simp: good_hrp_def list_all_iff plain_char_def intro: map_idI)
  show r: "rfind_1 (hrp @ CHR ''1'' # map sym_char data) = Some (length hrp)"
    by (rule rfind_1_append [OF plain(2)])
  have one: "py_lower (CHR ''1'') = CHR ''1''" by (simp add: py_lower_def)
  show "is_ok (addr_bech32_checksum (hrp @ CHR ''1'' # map sym_char data))"
    using codestring_to_array_symbols [OF assms(2)]
    by (simp add: addr_bech32_checksum_def plain hrp one r del: map_map)
qed

lemma deserialize_bech32_encoded:
  assumes "to_bytes p True = Inr pkh" "witness_program witver pkh" "good_hrp hrp"
    and "length hrp + 8 + (8 * length pkh + 4) div 5 \<le> 90"
  shows "\<exists>addr ck. pubkeyhash_to_addr_bech32 p hrp witver ''1'' 1 = Inr addr \<and> addr \<noteq> [] \<and>
    take (length hrp + 1) addr = hrp @ ''1'' \<and>
    deserialize_bech32 addr =
      Inr \<lparr>ai_address = addr, ai_encoding = ''bech32'', ai_hash = pkh, ai_prefix = PStr hrp,
           ai_network = Some (case network_by_value n_prefix_bech32 hrp of [] \<Rightarrow> '''' | n # _ \<Rightarrow> n),
           ai_script_type = witness_script_type witver pkh,
           ai_witness_type = (if witver = 0 then ''segwit'' else ''taproot''),
           ai_networks = network_by_value n_prefix_bech32 hrp, ai_checksum = PInt ck,
           ai_witver = Some witver,
           ai_raw = word_of_int (if witver \<noteq> 0 then witver + 0x50 else 0) # byte_of (length pkh) # pkh\<rparr>"
proof -
  obtain gs where gs: "\<forall>g \<in> set gs. symbol g" and f: "(let data = witver # gs; x = (if witver = 0 then 1 else BECH32M_CONST)
     in pubkeyhash_to_addr_bech32 p hrp witver ''1'' 1 =
       Inr (hrp @ CHR ''1'' # map sym_char (data @
         checksum_of (bech32_polymod (hrp_expand hrp @ data @ [0, 0, 0, 0, 0, 0]) XOR x))))"
    using pubkeyhash_to_addr_bech32_form [OF assms(1,2), of hrp] by blast
  then obtain data where addr: "pubkeyhash_to_addr_bech32 p hrp witver ''1'' 1 = Inr (hrp @ CHR ''1'' # map sym_char data)"
    and data: "\<forall>g \<in> set data. symbol g"
  proof -
    have w: "symbol witver" using assms(2) by (auto simp: witness_program_def symbol_def)
    show ?thesis by (rule that [OF f [unfolded Let_def]]) (use gs w checksum_of_symbols in auto)
  qed
  let ?addr = "hrp @ CHR ''1'' # map sym_char data"
  have dec: "addr_bech32_to_pubkeyhash ?addr None True False =
      Inr (PBytes (word_of_int (if witver \<noteq> 0 then witver + 0x50 else 0) # byte_of (length pkh) # pkh))"
    using bech32_roundtrip_gen [OF assms, of None True] addr by (auto simp: addr_bech32_to_pubkeyhash_def)
  obtain ck where ck: "addr_bech32_checksum ?addr = Inr ck"
    using addr_bech32_checksum_ok(1) [OF assms(3) data] by (cases "addr_bech32_checksum ?addr") auto
  have w: "0 \<le> witver" "witver \<le> 16" using assms(2) by (auto simp: witness_program_def)
  then have u: "uint (word_of_int (witver + 0x50) :: byte) = witver + 0x50"
    unfolding uint_word_of_int by simp
  then have v: "int (unat (word_of_int (witver + 0x50) :: byte)) = witver + 0x50" by simp
  have nz: "(word_of_int (witver + 0x50) :: byte) \<noteq> 0"
  proof
    assume "word_of_int (witver + 0x50) = (0 :: byte)"
    then have "uint (word_of_int (witver + 0x50) :: byte) = 0" by (simp only: unsigned_0)
    then show False using u w by linarith
  qed
  have witver: "(if (word_of_int (if witver \<noteq> 0 then witver + 0x50 else 0) :: byte) \<noteq> 0
      then int (unat (word_of_int (if witver \<noteq> 0 then witver + 0x50 else 0) :: byte)) - 0x50 else 0) = witver"
    using v nz by (simp only: if_True if_False split: if_split) auto
  define h where "h = (word_of_int (if witver \<noteq> 0 then witver + 0x50 else 0) :: byte)"
  show ?thesis unfolding h_def [symmetric]
    using addr_bech32_checksum_ok(2) [OF assms(3) data] witver [folded h_def]
    by (intro exI [of _ ?addr] exI [of _ ck])
      (simp add: addr deserialize_bech32_def dec [folded h_def] ck Let_def witness_script_type_def del: map_map,
        auto split: if_splits)
qed

lemma deserialize_address_bech32:
  assumes "encoding = Some ''bech32'' \<or>
    encoding = None \<and> change_base (PStr addr) 58 256 25 None None = Inl EncodingError"
  shows "deserialize_address sha256 addr encoding network = deserialize_bech32 addr"
  using assms by (auto simp: deserialize_address_def)

text \<open>A \<^verbatim>\<open>0\<close> is no base 58 character in any case, so such an address is read as bech32.\<close>

lemma digit_loop_foreign:
  "x \<in> set inp \<Longrightarrow> byte_index base x = None \<Longrightarrow> digit_loop base c inp f n z = Inl EncodingError"
  by (induction base c inp f n z rule: digit_loop.induct) (auto split: option.splits)

lemma zero_not_base58: "CHR ''0'' \<in> set cs \<Longrightarrow> change_base (PStr cs) 58 256 m None None = Inl EncodingError"
proof -
  assume "CHR ''0'' \<in> set cs"
  then have "48 \<in> set (rev (utf8_encode cs))"
    by (force simp: utf8_encode_def utf8_char_def)
  moreover have "byte_index 58 48 = None" by code_simp
  ultimately show ?thesis by (simp add: change_base_58_256 digit_loop_foreign)
qed

section \<open>Address.parse\<close>

lemma guess_encoding_bech32:
  assumes "takeWhile (\<lambda>c. c \<noteq> CHR ''1'') (take 3 (hrp @ CHR ''1'' # s)) \<in> set ENCODING_BECH32_PREFIXES"
  shows "guess_encoding (hrp @ CHR ''1'' # s) None = Some ''bech32''"
  using assms by (simp add: guess_encoding_def)

lemma networks_of_bech32_prefix:
  "network_by_value n_prefix_bech32 ''bc'' = [''bitcoin'']"
  "network_by_value n_prefix_bech32 ''tb'' = [''testnet'', ''testnet4'', ''signet'']"
  "network_by_value n_prefix_bech32 ''ltc'' = [''litecoin'', ''litecoin_legacy'']"
  "network_by_value n_prefix_bech32 ''blt'' = [''bitcoinlib_test'']"
  by (simp_all add: network_by_value_def NETWORK_DEFINITIONS_def sort_key_simps)

section \<open>Outputs to addresses\<close>

lemma network_named_mem: "network_named network = Inr nw \<Longrightarrow> nw \<in> set NETWORK_DEFINITIONS \<and> n_name nw = network"
  unfolding network_named_def by (auto split: list.splits dest!: filter_eq_ConsD) (metis in_set_conv_decomp)

lemma definitions_hrp:
  "list_all (\<lambda>nw. good_hrp (n_prefix_bech32 nw) \<and> length (n_prefix_bech32 nw) \<le> 5) NETWORK_DEFINITIONS"
  by (simp add: NETWORK_DEFINITIONS_def good_hrp_def plain_char_def py_lower_def)

lemma network_by_value_mem:
  "nw \<in> set NETWORK_DEFINITIONS \<Longrightarrow> n_name nw \<in> set (network_by_value f (f nw))"
  by (force simp: network_by_value_def Let_def filter_empty_conv)

text \<open>The address of a witness program in a network: it decodes to what it was made from.\<close>

lemma encoded_address:
  assumes "network_named network = Inr nw" "to_bytes p True = Inr pkh" "witness_program witver pkh"
  obtains addr ck where "pubkeyhash_to_addr_bech32 p (n_prefix_bech32 nw) witver ''1'' 1 = Inr addr" "addr \<noteq> []"
    "take (length (n_prefix_bech32 nw) + 1) addr = n_prefix_bech32 nw @ ''1''"
    "deserialize_bech32 addr =
      Inr \<lparr>ai_address = addr, ai_encoding = ''bech32'', ai_hash = pkh, ai_prefix = PStr (n_prefix_bech32 nw),
           ai_network = Some (case network_by_value n_prefix_bech32 (n_prefix_bech32 nw) of [] \<Rightarrow> '''' | n # _ \<Rightarrow> n),
           ai_script_type = witness_script_type witver pkh,
           ai_witness_type = (if witver = 0 then ''segwit'' else ''taproot''),
           ai_networks = network_by_value n_prefix_bech32 (n_prefix_bech32 nw), ai_checksum = PInt ck,
           ai_witver = Some witver,
           ai_raw = word_of_int (if witver \<noteq> 0 then witver + 0x50 else 0) # byte_of (length pkh) # pkh\<rparr>"
proof -
  have "good_hrp (n_prefix_bech32 nw)" "length (n_prefix_bech32 nw) \<le> 5"
    using network_named_mem [OF assms(1)] definitions_hrp by (auto simp: list_all_iff)
  moreover have "length pkh \<le> 40" using assms(3) by (auto simp: witness_program_def split: if_splits)
  ultimately have "length (n_prefix_bech32 nw) + 8 + (8 * length pkh + 4) div 5 \<le> 90" by linarith
  then show ?thesis
    using deserialize_bech32_encoded [OF assms(2,3) \<open>good_hrp (n_prefix_bech32 nw)\<close>] that by (metis (no_types, lifting))
qed

lemma empty_types: "get_script_types [] (Some True) = Inr []"
proof -
  have "exact_matches [] (locktypes (Some True)) = []"
    using templates_nonempty by (force simp: exact_matches_def)
  then show ?thesis by (simp add: get_script_types_def segment.simps)
qed

lemma parse_empty: "\<exists>s. parse_bytes C [] None None (Some True) True = Inr s \<and> s_commands s = []"
  by (simp add: parse_bytes_def parse_bytesio_def parse_commands_def parse_finish_def pstate0_def script_init_def
    empty_types extract_info_def Let_def)

text \<open>The locking script of a witness program.\<close>

definition witness_lock :: "nat \<Rightarrow> bytes \<Rightarrow> bytes" where
  "witness_lock witver pkh = (if witver = 0 then 0 else byte_of (0x50 + witver)) # byte_of (length pkh) # pkh"

lemma witness_templates:
  "template_of ''p2wpkh'' = Inr (True, [GOp 0, GTag ''data''])"
  "template_of ''p2wsh'' = Inr (True, [GOp 0, GTag ''data''])"
  "template_of ''p2tr'' = Inr (True, [GTag ''op_n'', GTag ''data''])"
  by (simp_all add: template_of_def script_templates_def)

lemma data_pack_short: "length h \<le> 75 \<Longrightarrow> data_pack h = Inr (byte_of (length h) # h)"
  by (simp add: data_pack_def int_to_be_def be_bytes_def)

lemma witness_script:
  assumes "witness_program witver pkh"
  shows "\<exists>sc. script_of_type (witness_script_type witver pkh) pkh [[]] = Inr sc \<and> s_commands sc \<noteq> [] \<and>
    serialize (s_commands sc) = Inr (witness_lock (if witness_script_type witver pkh = ''p2tr'' then 1 else 0) pkh)"
proof -
  have "length pkh \<le> 75" "pkh \<noteq> []" using assms by (auto simp: witness_program_def split: if_splits)
  then show ?thesis
    by (auto simp: witness_script_type_def script_of_type_def witness_templates script_init_def serialize_item_def
        data_pack_short witness_lock_def)
qed

text \<open>What \<^verbatim>\<open>Address.parse\<close> makes of the address of a witness program: it writes version 0.\<close>

lemma address_parse_encoded:
  assumes "network_named network = Inr nw" "n_prefix_bech32 nw \<in> {''bc'', ''tb'', ''ltc'', ''blt''}"
    and "witness_program witver pkh" "length pkh \<le> 32" "to_bytes (PBytes pkh) True = Inr pkh"
  obtains addr addr0 a where
    "pubkeyhash_to_addr_bech32 (PBytes pkh) (n_prefix_bech32 nw) witver ''1'' 1 = Inr addr"
    "pubkeyhash_to_addr_bech32 (PBytes pkh) (n_prefix_bech32 nw) 0 ''1'' 1 = Inr addr0"
    "address_parse C addr None None None = Inr a" "ad_address a = addr0" "ad_hash a = pkh"
    "ad_script_type a = Some (witness_script_type witver pkh)"
    "ad_witness_type a = (if witver = 0 then ''segwit'' else ''taproot'')"
proof -
  let ?hrp = "n_prefix_bech32 nw"
  obtain addr ck where addr: "pubkeyhash_to_addr_bech32 (PBytes pkh) ?hrp witver ''1'' 1 = Inr addr" "addr \<noteq> []"
    "take (length ?hrp + 1) addr = ?hrp @ ''1''" and d: "deserialize_bech32 addr =
      Inr \<lparr>ai_address = addr, ai_encoding = ''bech32'', ai_hash = pkh, ai_prefix = PStr ?hrp,
           ai_network = Some (case network_by_value n_prefix_bech32 ?hrp of [] \<Rightarrow> '''' | n # _ \<Rightarrow> n),
           ai_script_type = witness_script_type witver pkh,
           ai_witness_type = (if witver = 0 then ''segwit'' else ''taproot''),
           ai_networks = network_by_value n_prefix_bech32 ?hrp, ai_checksum = PInt ck, ai_witver = Some witver,
           ai_raw = word_of_int (if witver \<noteq> 0 then witver + 0x50 else 0) # byte_of (length pkh) # pkh\<rparr>"
    using encoded_address [OF assms(1,5,3)] by blast
  have wp0: "witness_program 0 pkh" using assms(3,4) by (auto simp: witness_program_def split: if_splits)
  obtain addr0 ck0 where addr0: "pubkeyhash_to_addr_bech32 (PBytes pkh) ?hrp 0 ''1'' 1 = Inr addr0"
    using encoded_address [OF assms(1,5) wp0] by blast
  have pkh: "pkh \<noteq> []" using assms(3) by (auto simp: witness_program_def split: if_splits)
  obtain rst where rst: "addr = ?hrp @ CHR ''1'' # rst"
    using addr(3) by (metis append_Cons append_assoc append_Nil append_take_drop_id)
  have "takeWhile (\<lambda>c. c \<noteq> CHR ''1'') (take 3 (?hrp @ CHR ''1'' # rst)) \<in> set ENCODING_BECH32_PREFIXES"
    using assms(2) by (auto simp: ENCODING_BECH32_PREFIXES_def)
  then have enc: "guess_encoding addr None = Some ''bech32''" unfolding rst by (rule guess_encoding_bech32)
  have des: "deserialize_address (c_sha256 C) addr (Some ''bech32'') None = deserialize_bech32 addr"
    by (simp add: deserialize_address_def)
  obtain nw0 :: network where nw0: "network_named (case network_by_value n_prefix_bech32 ?hrp of [] \<Rightarrow> '''' | n # _ \<Rightarrow> n) = Inr nw0"
    using assms(2) by (auto simp: networks_of_bech32_prefix network_named_def NETWORK_DEFINITIONS_def)
  have empty: "to_bytes (PStr []) True = Inr []" by (simp add: to_bytes_def)
  have "\<exists>a. address_parse C addr None None None = Inr a \<and> ad_address a = addr0 \<and> ad_hash a = pkh \<and>
    ad_script_type a = Some (witness_script_type witver pkh) \<and>
    ad_witness_type a = (if witver = 0 then ''segwit'' else ''taproot'')"
    unfolding address_parse_def enc des d
    by (simp add: address_init_def pkh nw0 assms(5) address_witness_def address_encoding_def pubkeyhash_to_addr_def addr0
        given_def empty Let_def)
  then show ?thesis using that addr(1) addr0 by blast
qed

section \<open>Properties\<close>

lemma encodings_differ:
  assumes "to_bytes p True = Inr pkh" "witness_program witver pkh" "witness_program 0 pkh" "good_hrp hrp"
    and "length hrp + 8 + (8 * length pkh + 4) div 5 \<le> 90" "0 < witver"
  shows "pubkeyhash_to_addr_bech32 p hrp witver ''1'' 1 \<noteq> pubkeyhash_to_addr_bech32 p hrp 0 ''1'' 1"
proof
  assume eq: "pubkeyhash_to_addr_bech32 p hrp witver ''1'' 1 = pubkeyhash_to_addr_bech32 p hrp 0 ''1'' 1"
  have "(word_of_int (witver + 0x50) :: byte) = 0"
    using bech32_roundtrip_gen [OF assms(1,2,4,5), of None True] bech32_roundtrip_gen [OF assms(1,3,4,5), of None True]
      eq assms(6) by (auto simp del: of_int_add)
  then have "uint (word_of_int (witver + 0x50) :: byte) = 0" by (simp only: unsigned_0)
  moreover have "witver \<le> 16" using assms(2) by (simp add: witness_program_def)
  ultimately show False using assms(6) unfolding uint_word_of_int by simp
qed

text \<open>
  The address of a taproot output does not survive \<^verbatim>\<open>Address.parse\<close>: the parsed object shows another
  address, with witness version 0.
\<close>

lemma taproot_parse_changes_address:
  assumes "network_named network = Inr nw" "n_prefix_bech32 nw \<in> {''bc'', ''tb'', ''ltc'', ''blt''}"
    and "witness_program 1 pkh" "length pkh = 32" "to_bytes (PBytes pkh) True = Inr pkh"
  shows "\<exists>addr a. pubkeyhash_to_addr_bech32 (PBytes pkh) (n_prefix_bech32 nw) 1 ''1'' 1 = Inr addr \<and>
    address_parse C addr None None None = Inr a \<and> ad_address a \<noteq> addr"
proof -
  obtain addr addr0 a where
    a: "pubkeyhash_to_addr_bech32 (PBytes pkh) (n_prefix_bech32 nw) 1 ''1'' 1 = Inr addr"
    "pubkeyhash_to_addr_bech32 (PBytes pkh) (n_prefix_bech32 nw) 0 ''1'' 1 = Inr addr0"
    "address_parse C addr None None None = Inr a" "ad_address a = addr0"
    using address_parse_encoded [OF assms(1-3) _ assms(5)] assms(4) by (metis order_refl)
  have "good_hrp (n_prefix_bech32 nw)" "length (n_prefix_bech32 nw) \<le> 5"
    using network_named_mem [OF assms(1)] definitions_hrp by (auto simp: list_all_iff)
  then have "addr \<noteq> addr0"
    using encodings_differ [OF assms(5,3), of "n_prefix_bech32 nw"] assms(4) a by (simp add: witness_program_def)
  then show ?thesis using a by blast
qed

text \<open>C24: a segwit address of a network whose prefix \<^verbatim>\<open>Address.parse\<close> recognises is parsed to an
  \<^verbatim>\<open>Address\<close> object with this address, its hash, its script type and the witness type segwit.\<close>

theorem segwit_address_roundtrip:
  assumes "network_named network = Inr nw" "n_prefix_bech32 nw \<in> {''bc'', ''tb'', ''ltc'', ''blt''}"
    and "length pkh = 20 \<or> length pkh = 32" "to_bytes (PBytes pkh) True = Inr pkh"
  shows "\<exists>addr a. pubkeyhash_to_addr_bech32 (PBytes pkh) (n_prefix_bech32 nw) 0 ''1'' 1 = Inr addr \<and>
    address_parse C addr None None None = Inr a \<and> ad_address a = addr \<and> ad_hash a = pkh \<and>
    ad_script_type a = Some (if length pkh = 20 then ''p2wpkh'' else ''p2wsh'') \<and> ad_witness_type a = ''segwit''"
proof -
  have "witness_program 0 pkh" "length pkh \<le> 32" using assms(3) by (auto simp: witness_program_def)
  from address_parse_encoded [OF assms(1,2) this assms(4), where C = C] obtain addr a where
    "pubkeyhash_to_addr_bech32 (PBytes pkh) (n_prefix_bech32 nw) 0 ''1'' 1 = Inr addr"
    "address_parse C addr None None None = Inr a" "ad_address a = addr" "ad_hash a = pkh"
    "ad_script_type a = Some (witness_script_type 0 pkh)" "ad_witness_type a = ''segwit''"
    by (metis sum.inject(2))
  then show ?thesis by (auto simp: witness_script_type_def)
qed

lemma output_to_encoded:
  assumes "network_named network = Inr nw" "to_bytes p True = Inr pkh" "witness_program witver pkh"
  obtains addr o1 where "pubkeyhash_to_addr_bech32 p (n_prefix_bech32 nw) witver ''1'' 1 = Inr addr"
    "\<And>encoding. encoding = Some ''bech32'' \<or>
       encoding = None \<and> change_base (PStr addr) 58 256 25 None None = Inl EncodingError \<Longrightarrow>
       output_to_address C network value addr n encoding change = Inr o1"
    "o_value o1 = value" "o_change o1 = change"
    "o_lock_script o1 = witness_lock (if witness_script_type witver pkh = ''p2tr'' then 1 else 0) pkh"
proof -
  obtain addr ck where addr: "pubkeyhash_to_addr_bech32 p (n_prefix_bech32 nw) witver ''1'' 1 = Inr addr" "addr \<noteq> []"
    and d: "deserialize_bech32 addr =
      Inr \<lparr>ai_address = addr, ai_encoding = ''bech32'', ai_hash = pkh, ai_prefix = PStr (n_prefix_bech32 nw),
           ai_network = Some (case network_by_value n_prefix_bech32 (n_prefix_bech32 nw) of [] \<Rightarrow> '''' | n # _ \<Rightarrow> n),
           ai_script_type = witness_script_type witver pkh,
           ai_witness_type = (if witver = 0 then ''segwit'' else ''taproot''),
           ai_networks = network_by_value n_prefix_bech32 (n_prefix_bech32 nw), ai_checksum = PInt ck,
           ai_witver = Some witver,
           ai_raw = word_of_int (if witver \<noteq> 0 then witver + 0x50 else 0) # byte_of (length pkh) # pkh\<rparr>"
    using encoded_address [OF assms] by blast
  obtain s0 where s0: "parse_bytes C [] None None (Some True) True = Inr s0" "s_commands s0 = []"
    using parse_empty by blast
  obtain sc where sc: "script_of_type (witness_script_type witver pkh) pkh [[]] = Inr sc" "s_commands sc \<noteq> []"
    "serialize (s_commands sc) = Inr (witness_lock (if witness_script_type witver pkh = ''p2tr'' then 1 else 0) pkh)"
    using witness_script [OF assms(3)] by blast
  have ne: "pkh \<noteq> []" "witness_script_type witver pkh \<noteq> []"
    using assms(3) by (auto simp: witness_program_def witness_script_type_def split: if_splits)
  have net: "n_name nw \<in> set (network_by_value n_prefix_bech32 (n_prefix_bech32 nw))"
    by (rule network_by_value_mem) (use network_named_mem [OF assms(1)] in simp)
  obtain o1 where "output_to_address C network value addr n (Some ''bech32'') change = Inr o1"
    "o_value o1 = value" "o_change o1 = change"
    "o_lock_script o1 = witness_lock (if witness_script_type witver pkh = ''p2tr'' then 1 else 0) pkh"
    by (simp add: output_to_address_def addr assms(1) s0 deserialize_address_bech32 d ne net sc)
  then show ?thesis
    using that [OF addr(1), of o1] by (simp add: output_to_address_def deserialize_address_bech32 cong: if_cong)
qed

text \<open>C23: an output to the segwit or taproot address of a witness program carries the amount and locks it
  with this program: the opcode of the version, the length of the program and the program.\<close>

theorem output_pays_address:
  assumes "network_named network = Inr nw" "to_bytes p True = Inr pkh"
    and "witver = 0 \<and> length pkh \<in> {20, 32} \<or> witver = 1 \<and> length pkh = 32"
  shows "\<exists>addr o1. pubkeyhash_to_addr_bech32 p (n_prefix_bech32 nw) witver ''1'' 1 = Inr addr \<and>
    output_to_address C network v addr n (Some ''bech32'') change = Inr o1 \<and> o_value o1 = v \<and> o_change o1 = change \<and>
    o_lock_script o1 = witness_lock (nat witver) pkh"
proof -
  have "witness_program witver pkh" using assms(3) by (auto simp: witness_program_def)
  then obtain addr o1 where "pubkeyhash_to_addr_bech32 p (n_prefix_bech32 nw) witver ''1'' 1 = Inr addr"
    "output_to_address C network v addr n (Some ''bech32'') change = Inr o1" "o_value o1 = v" "o_change o1 = change"
    "o_lock_script o1 = witness_lock (if witness_script_type witver pkh = ''p2tr'' then 1 else 0) pkh"
    by (rule output_to_encoded [OF assms(1,2)]) blast
  moreover have "(if witness_script_type witver pkh = ''p2tr'' then 1 else 0) = nat witver"
    using assms(3) by (auto simp: witness_script_type_def)
  ultimately show ?thesis by auto
qed

text \<open>
  Later versions are not distinguished: an output to an address of version 2 to 16 with 32 bytes
  is locked as taproot, and with 20 bytes as a public key hash of version 0, which is another address.
\<close>

lemma output_pays_other_version:
  assumes "network_named network = Inr nw" "to_bytes p True = Inr pkh"
    and "2 \<le> witver" "witver \<le> 16" "length pkh \<in> {20, 32}"
  shows "\<exists>addr o1. pubkeyhash_to_addr_bech32 p (n_prefix_bech32 nw) witver ''1'' 1 = Inr addr \<and>
    output_to_address C network v addr n (Some ''bech32'') change = Inr o1 \<and>
    o_lock_script o1 = witness_lock (if length pkh = 20 then 0 else 1) pkh"
proof -
  have "witness_program witver pkh" using assms(3-5) by (auto simp: witness_program_def)
  then obtain addr o1 where "pubkeyhash_to_addr_bech32 p (n_prefix_bech32 nw) witver ''1'' 1 = Inr addr"
    "output_to_address C network v addr n (Some ''bech32'') change = Inr o1"
    "o_lock_script o1 = witness_lock (if witness_script_type witver pkh = ''p2tr'' then 1 else 0) pkh"
    by (rule output_to_encoded [OF assms(1,2)]) blast
  moreover have "witness_script_type witver pkh = ''p2tr'' \<longleftrightarrow> length pkh \<noteq> 20"
    using assms(3) by (auto simp: witness_script_type_def)
  ultimately show ?thesis by auto
qed

lemma example_network: "\<exists>nw. network_named ''bitcoin'' = Inr nw \<and> n_prefix_bech32 nw = ''bc''"
  by (simp add: network_named_def NETWORK_DEFINITIONS_def)

lemma example_hash: "to_bytes (PBytes (replicate 20 7)) True = Inr (replicate 20 7)"
proof -
  have "replicate 20 (7 :: byte) = 7 # 7 # replicate 18 7" by (simp add: numeral_eq_Suc)
  then show ?thesis by (simp add: to_bytes_def ascii_space_def digit_val_def)
qed

theorem segwit_address_roundtrip_witness:
  "\<forall>C. \<exists>addr a. pubkeyhash_to_addr_bech32 (PBytes (replicate 20 7)) ''bc'' 0 ''1'' 1 = Inr addr \<and>
    address_parse C addr None None None = Inr a \<and> ad_address a = addr"
proof -
  obtain nw where nw: "network_named ''bitcoin'' = Inr nw" "n_prefix_bech32 nw = ''bc''" using example_network by blast
  show ?thesis
  proof
    fix C
    show "\<exists>addr a. pubkeyhash_to_addr_bech32 (PBytes (replicate 20 7)) ''bc'' 0 ''1'' 1 = Inr addr \<and>
      address_parse C addr None None None = Inr a \<and> ad_address a = addr"
      using segwit_address_roundtrip [OF nw(1) _ _ example_hash, where C = C] nw(2) by auto
  qed
qed

theorem output_pays_address_witness:
  "\<forall>C. \<exists>addr o1. pubkeyhash_to_addr_bech32 (PBytes (replicate 20 7)) ''bc'' 0 ''1'' 1 = Inr addr \<and>
    output_to_address C ''bitcoin'' 5000 addr 0 (Some ''bech32'') False = Inr o1 \<and> o_value o1 = 5000 \<and>
    o_lock_script o1 = 0 # 20 # replicate 20 7"
proof -
  obtain nw where nw: "network_named ''bitcoin'' = Inr nw" "n_prefix_bech32 nw = ''bc''" using example_network by blast
  show ?thesis
  proof
    fix C
    show "\<exists>addr o1. pubkeyhash_to_addr_bech32 (PBytes (replicate 20 7)) ''bc'' 0 ''1'' 1 = Inr addr \<and>
      output_to_address C ''bitcoin'' 5000 addr 0 (Some ''bech32'') False = Inr o1 \<and> o_value o1 = 5000 \<and>
      o_lock_script o1 = 0 # 20 # replicate 20 7"
      using output_pays_address [OF nw(1) example_hash, of 0 C 5000 0 False] nw(2) by (auto simp: witness_lock_def)
  qed
qed

end
