(* ===== verification/Wallet_Pays.thy ===== *)
theory Wallet_Pays
  imports Wallet_Create Wallet_Rules Address_Rules
begin

text \<open>What a transaction that the wallet creates pays: its outputs, its change and its fee.\<close>

section \<open>Inputs and outputs step by step\<close>

lemma map_res_all2: "map_res f xs = Inr ys \<longleftrightarrow> list_all2 (\<lambda>x y. f x = Inr y) xs ys"
  by (induction xs arbitrary: ys) (auto simp: bindE_Inr_iff list_all2_Cons1)

lemma input_from_keys_value:
  assumes "input_from_keys C p n keys st addr sq compressed m sort_flag ix value wt = Inr i"
  shows "i_value i = value"
  using assms
  by (auto simp: input_from_keys_def Let_def bindE_Inr_iff case_prod_beta outpoint_def dest!: update_scripts_outpoint)

lemma add_input_Inr:
  assumes "add_input C rbf t p n keys st addr sq compressed m sort_flag value wt = Inr (k, t')"
  shows "(\<exists>i. t_inputs t' = t_inputs t @ [i] \<and> i_value i = value) \<and> t_outputs t' = t_outputs t"
  using assms by (auto simp: add_input_def Let_def bindE_Inr_iff dest!: input_from_keys_value)

lemma add_selected_Inr:
  "add_selected C rbf w sq sel t = Inr t' \<Longrightarrow> t_outputs t' = t_outputs t \<and>
     map i_value (t_inputs t') = map i_value (t_inputs t) @ map (\<lambda>(i, _). i_value i) sel"
proof (induction sel arbitrary: t)
  case (Cons s sel)
  obtain i n keys addr where s: "s = (i, n, keys, addr)" by (metis surj_pair)
  then obtain k t1 where "add_input C rbf t (i_prev_txid i) (int n) keys (Some (i_script_type i)) addr sq (i_compressed i)
              (Some (wl_multisig_n_required w)) (wl_sort_keys w) (i_value i)
              (Some (if i_witness_type i \<noteq> [] then i_witness_type i else wl_witness_type w)) = Inr (k, t1)"
    "add_selected C rbf w sq sel t1 = Inr t'"
    using Cons.prems by (auto simp: bindE_Inr_iff)
  then show ?case using add_input_Inr Cons.IH [of t1] s by fastforce
qed simp

lemma add_given_Inr:
  "add_given C E protected rbf w d sq inps amount t = Inr (amount', t') \<Longrightarrow> t_outputs t' = t_outputs t \<and>
     sum_list (map i_value (t_inputs t')) - amount' = sum_list (map i_value (t_inputs t)) - amount"
proof (induction inps arbitrary: amount t)
  case (Cons inp inps)
  from Cons.prems show ?case unfolding add_given.simps bindE_Inr_iff case_prod_unfold
  proof (elim exE conjE, goal_cases)
    case (1 g kk r)
    obtain n t1 where r: "r = (n, t1)" by fastforce
    then show ?case using add_input_Inr [OF 1(3) [unfolded r]] Cons.IH [OF 1(4)] by auto
  qed
qed simp

lemma estimate_size_Inr:
  "estimate_size t n = Inr (v, t') \<Longrightarrow> t_inputs t' = t_inputs t \<and> t_outputs t' = t_outputs t"
  by (auto simp: estimate_size_def Let_def bindE_Inr_iff)

text \<open>An output that pays an amount to an address.\<close>

definition pays_to :: "crypto \<Rightarrow> string \<Rightarrow> string \<times> int \<Rightarrow> tx_output \<Rightarrow> bool" where
  "pays_to C network p o1 \<longleftrightarrow> (\<exists>n o2. output_to_address C network (snd p) (fst p) n None False = Inr o2 \<and>
     o_value o1 = o_value o2 \<and> o_lock_script o1 = o_lock_script o2 \<and> o_change o1 = o_change o2)"

lemma output_to_address_fields:
  "output_to_address C network value addr n encoding change = Inr o1 \<Longrightarrow> o_value o1 = value \<and> o_change o1 = change"
  by (auto simp: output_to_address_def bindE_Inr_iff split: if_splits)

lemma add_payments_Inr:
  "add_payments C network ps t = Inr t' \<Longrightarrow> t_inputs t' = t_inputs t \<and>
     (\<exists>os. t_outputs t' = t_outputs t @ os \<and> list_all2 (pays_to C network) ps os)"
proof (induction ps arbitrary: t)
  case (Cons p ps)
  obtain addr v where p: "p = (addr, v)" by fastforce
  then obtain n t1 where t1: "add_output_to C network t v addr None False = Inr (n, t1)"
    "add_payments C network ps t1 = Inr t'" using Cons.prems by (auto simp: bindE_Inr_iff)
  obtain o1 where o1: "output_to_address C network v addr (length (t_outputs t)) None False = Inr o1"
    "t1 = t\<lparr>t_outputs := t_outputs t @ [o1]\<rparr>" using t1(1) by (auto simp: add_output_to_def Let_def bindE_Inr_iff)
  then have "pays_to C network p o1" by (auto simp: pays_to_def p)
  then show ?case using Cons.IH [OF t1(2)] o1(2) by auto
qed simp

lemma add_change_Inr:
  "add_change C network encoding cks xs t = Inr t' \<Longrightarrow> t_inputs t' = t_inputs t \<and>
     (\<exists>os. t_outputs t' = t_outputs t @ os \<and> map o_value os = take (length cks) xs \<and> (\<forall>o1 \<in> set os. o_change o1))"
proof (induction C network encoding cks xs t rule: add_change.induct)
  case (3 C network encoding ck cks x xs t)
  then obtain n t1 where t1: "add_output_to C network t x (snd ck) encoding True = Inr (n, t1)"
    "add_change C network encoding cks xs t1 = Inr t'" by (auto simp: bindE_Inr_iff)
  then obtain o1 where "output_to_address C network x (snd ck) (length (t_outputs t)) encoding True = Inr o1"
    "t1 = t\<lparr>t_outputs := t_outputs t @ [o1]\<rparr>" by (auto simp: add_output_to_def Let_def bindE_Inr_iff)
  moreover obtain os where "t_inputs t' = t_inputs t1" "t_outputs t' = t_outputs t1 @ os"
    "map o_value os = take (length cks) xs" "\<forall>o1 \<in> set os. o_change o1" using 3 t1 by blast
  ultimately show ?case using output_to_address_fields by (intro conjI exI [of _ "o1 # os"]) auto
qed simp_all

lemma with_change_keys:
  "(if c then Inl e else bindE ks (\<lambda>cks. bindE (f cks) (\<lambda>t2. Inr (r, t2)))) = Inr (rate', t')
    \<Longrightarrow> \<exists>cks. f cks = Inr t'"
  by (auto simp: bindE_Inr_iff split: if_splits)

lemma with_change_Inr:
  assumes "with_change C V nw encoding a fee change rate out t = Inr (rate', t')"
  shows "t_inputs t' = t_inputs t \<and> (\<exists>os. t_outputs t' = t_outputs t @ os \<and> (\<forall>o1 \<in> set os. o_change o1) \<and>
    (ca_change_outputs a = 1 \<longrightarrow> map o_value os \<in> {[], [change]}))"
proof -
  obtain rate1 m n t1 cks where n: "(if ca_change_outputs a = 0
           then (let n = change_number V change out m
                 in bindE (estimate_size t n) (\<lambda>(vsize, t1). Inr (n, t1\<lparr>t_size := nat vsize\<rparr>)))
           else Inr (ca_change_outputs a, t)) = Inr (n, t1)"
    and c: "add_change C (n_name nw) (Some encoding) cks (change_amounts V n m change) t1 = Inr t'"
    using assms unfolding with_change_def bindE_Inr_iff case_prod_unfold
  proof (elim exE conjE, goal_cases)
    case (1 rm nt)
    from with_change_keys [OF 1(4)] obtain cks where
      "add_change C (n_name nw) (Some encoding) cks (change_amounts V (fst nt) (snd rm) change) (snd nt) = Inr t'"
      by blast
    then show ?case using 1(1) [of "snd rm" "fst nt" "snd nt"] 1(3) by simp
  qed
  have t1: "t_inputs t1 = t_inputs t" "t_outputs t1 = t_outputs t"
    using n by (auto simp: Let_def bindE_Inr_iff dest!: estimate_size_Inr split: if_splits)
  obtain os where os: "t_inputs t' = t_inputs t1" "t_outputs t' = t_outputs t1 @ os"
    "map o_value os = take (length cks) (change_amounts V n m change)" "\<forall>o1 \<in> set os. o_change o1"
    using add_change_Inr [OF c] by blast
  have "map o_value os \<in> {[], [change]}" if "ca_change_outputs a = 1"
  proof -
    have "n = 1" using n that by simp
    then show ?thesis using os(3) by (cases "length cks") (simp_all add: change_amounts_def)
  qed
  then show ?thesis using os t1 by (intro conjI exI [of _ os]) auto
qed

section \<open>The selection\<close>

lemma selected_input_value: "selected_input C E protected w d r = Inr (i, x) \<Longrightarrow> i_value i = row_value r"
  by (cases r) (auto simp: selected_input_def Let_def bindE_Inr_iff dest: input_from_keys_value)

lemma select_inputs_rows:
  assumes "select_inputs C E protected w d amount variance key_ids account0 network0 min_confirms m ignore_dust = Inr sel"
  shows "\<exists>rows. select_input_rows w d amount variance key_ids account0 network0 min_confirms m ignore_dust = Inr rows \<and>
    map (\<lambda>(i, _). i_value i) sel = map row_value rows"
proof -
  obtain rows where rows: "select_input_rows w d amount variance key_ids account0 network0 min_confirms m ignore_dust = Inr rows"
    "list_all2 (\<lambda>r x. selected_input C E protected w d r = Inr x) rows sel"
    using assms by (auto simp: select_inputs_def bindE_Inr_iff map_res_all2)
  from rows(2) have "map (\<lambda>(i, _). i_value i) sel = map row_value rows"
    by (induction rule: list_all2_induct) (auto dest: selected_input_value)
  then show ?thesis using rows(1) by blast
qed

lemma select_input_rows_pays:
  assumes "select_input_rows w d amount variance key_ids account0 network0 min_confirms m ignore_dust = Inr sel"
    and "sel \<noteq> []" "0 < amount"
  shows "amount \<le> sum_list (map row_value sel)"
proof -
  obtain us v where us: "select_utxos amount v m us = Inr sel"
    using assms(1) by (auto simp: select_input_rows_def Let_def bindE_Inr_iff)
  then have "us \<noteq> []" using select_utxos_sub [OF us] assms(2) by auto
  then have "pays amount us sel" using select_utxos_minimal [of us amount v m] us assms(2,3) by auto
  then show ?thesis by (simp add: pays_def)
qed

lemma create_inputs_selected:
  assumes "create_inputs C E protected w d a nw account amount t = Inr (total_in, t')" "ca_inputs a = None"
  shows "\<exists>rows. select_input_rows w d amount (Some (int (n_dust_amount nw))) (ca_key_ids a) (Some account)
      (Some (n_name nw)) (ca_min_confirms a) (ca_max_utxos a) (ca_ignore_dust a) = Inr rows \<and> rows \<noteq> [] \<and>
    total_in = sum_list (map row_value rows) \<and> t_outputs t' = t_outputs t \<and>
    map i_value (t_inputs t') = map i_value (t_inputs t) @ map row_value rows"
proof -
  obtain sel where sel: "select_inputs C E protected w d amount (Some (int (n_dust_amount nw))) (ca_key_ids a) (Some account)
      (Some (n_name nw)) (ca_min_confirms a) (ca_max_utxos a) (ca_ignore_dust a) = Inr sel" "sel \<noteq> []"
    "add_selected C (ca_replace_by_fee a) w (create_sequence (ca_replace_by_fee a) (t_locktime t)) sel t = Inr t'"
    "total_in = sum_list (map (\<lambda>(i, _). i_value i) sel)"
    using assms by (auto simp: create_inputs_def Let_def bindE_Inr_iff split: if_splits)
  then show ?thesis using select_inputs_rows [OF sel(1)] add_selected_Inr [OF sel(3)] by fastforce
qed

section \<open>The end of the creation\<close>

lemma renumber_inputs_value: "map i_value (renumber_inputs ins) = map i_value ins"
  unfolding renumber_inputs_def enumerate_eq_zip by (rule nth_equalityI) (simp_all add: case_prod_beta)

lemma renumber_outputs_fields:
  assumes "\<And>o1 n. f (o1\<lparr>o_output_n := n\<rparr>) = f o1"
  shows "map f (renumber_outputs outs) = map f outs"
  unfolding renumber_outputs_def enumerate_eq_zip by (rule nth_equalityI) (simp_all add: case_prod_beta assms)

text \<open>The shuffles only reorder.\<close>

definition reorders :: "create_env \<Rightarrow> bool" where
  "reorders V \<longleftrightarrow> (\<forall>xs. mset (e_shuffle_inputs V xs) = mset xs) \<and> (\<forall>xs. mset (e_shuffle_outputs V xs) = mset xs)"

definition payment :: "tx_output \<Rightarrow> int \<times> bytes \<times> bool" where
  "payment o1 = (o_value o1, o_lock_script o1, o_change o1)"

lemma payment_renumber: "payment (o1\<lparr>o_output_n := n\<rparr>) = payment o1"
  by (simp add: payment_def)

lemma renumber_mset:
  "mset (map i_value (renumber_inputs ins)) = image_mset i_value (mset ins)"
  "mset (map payment (renumber_outputs outs)) = image_mset payment (mset outs)"
  by (simp_all only: renumber_inputs_value mset_map [symmetric] renumber_outputs_fields [of payment, OF payment_renumber])

lemma signature_hash_fee:
  assumes "signature_hash C t None ht w = Inr (h, t1)"
  shows "t_fee t1 = t_fee t"
proof -
  have "calc_weight_units t = Inr x \<Longrightarrow> t_fee (snd x) = t_fee t" for t x
    by (auto simp: calc_weight_units_def Let_def bindE_Inr_iff split: if_splits)
  from this [of "t\<lparr>t_size := n\<rparr>" for n] show ?thesis using assms
    by (fastforce simp: signature_hash_def signature_def tx_raw_update_def bindE_Inr_iff split: if_splits)
qed

lemma create_finish_Inr:
  assumes "create_finish C V nw a fee rate t0 = Inr t" "reorders V"
  shows "t_fee t = Some fee \<and> sum_list (map i_value (t_inputs t)) = fee + sum_list (map o_value (t_outputs t)) \<and>
    mset (map i_value (t_inputs t)) = mset (map i_value (t_inputs t0)) \<and>
    mset (map payment (t_outputs t)) = mset (map payment (t_outputs t0))"
proof -
  define t1 where "t1 = (if ca_shuffle a then shuffle_tx V t0 else t0)"
  obtain h t3 t2 where t2: "t2 = t1\<lparr>t_input_total := sum_list (map i_value (t_inputs t1)),
      t_output_total := sum_list (map o_value (t_outputs t1)), t_fee := Some fee\<rparr>"
    and sum: "sum_list (map i_value (t_inputs t1)) = fee + sum_list (map o_value (t_outputs t1))"
    and h: "signature_hash C t2 None SIGHASH_ALL None = Inr (h, t3)" "t = t3\<lparr>t_txid := hex_of (rev h)\<rparr>"
    using assms(1) by (auto simp: create_finish_def Let_def bindE_Inr_iff t1_def [symmetric] split: if_splits)
  have f: "frame t = frame t2" using signature_hash_frame [OF h(1)] h(2) by simp
  then have "map (\<lambda>(_, _, _, _, v). v) (map outpoint (t_inputs t)) = map (\<lambda>(_, _, _, _, v). v) (map outpoint (t_inputs t1))"
    by (simp add: frame_def t2)
  then have ins: "map i_value (t_inputs t) = map i_value (t_inputs t1)" by (simp add: outpoint_def comp_def)
  have outs: "t_outputs t = t_outputs t1" using f by (simp add: frame_def t2)
  have "mset (map i_value (t_inputs t1)) = mset (map i_value (t_inputs t0)) \<and>
      mset (map payment (t_outputs t1)) = mset (map payment (t_outputs t0))"
    using assms(2) by (simp add: t1_def shuffle_tx_def renumber_mset reorders_def del: mset_map) simp
  then show ?thesis using ins outs sum signature_hash_fee [OF h(1)] h(2) by (simp add: t2)
qed

lemma transaction_create_steps:
  assumes "transaction_create C E protected V w d a = Inr t" "ca_fee a = FeeInt f"
    and "get_account_defaults w d (ca_network a) (ca_account a) None = Inr (network, account)"
    and "network_named network = Inr (nw :: network)"
  obtains t0 t1 total_in t3 est_size t4 fee change rate t6 where
    "add_payments C network (ca_outputs a) (empty_transaction w (ca_locktime a)) = Inr t0"
    "t_inputs t1 = t_inputs t0" "t_outputs t1 = t_outputs t0"
    "create_inputs C E protected w d a nw account (sum_list (map snd (ca_outputs a)) + f) t1 = Inr (total_in, t3)"
    "estimate_size t3 (ca_change_outputs a) = Inr (est_size, t4)"
    "(fee, change) = skip_dust nw None f (total_in - (sum_list (map snd (ca_outputs a)) + f))" "0 \<le> change"
    "(if change \<noteq> 0 then with_change C V nw (wl_encoding w) a fee change None (sum_list (map snd (ca_outputs a)))
        (t4\<lparr>t_size := nat est_size\<rparr>) else Inr (None, t4\<lparr>t_size := nat est_size\<rparr>)) = Inr (rate, t6)"
    "create_finish C V nw a fee rate t6 = Inr t"
proof -
  obtain t0 where t0: "add_payments C network (ca_outputs a) (empty_transaction w (ca_locktime a)) = Inr t0"
    using assms by (auto simp: transaction_create_def bindE_Inr_iff split: if_splits)
  define t1 where "t1 = (if ca_locktime a = 0 \<and> ca_anti_fee_sniping a \<and> e_blockcount V \<noteq> 0
              then t0\<lparr>t_locktime := e_blockcount V\<rparr> else t0)"
  have fc: "fee_and_change V nw s (Some f) None x y z = (f, y - (z + f), None, None)" for s x y z
    by (simp add: fee_and_change_def)
  have fee0: "initial_fee V a t' = Inr (Some f, f, None, t')" for t' by (simp add: initial_fee_def assms(2))
  have "bindE (create_inputs C E protected w d a nw account (sum_list (map snd (ca_outputs a)) + f) t1) (\<lambda>(ti, t3).
      bindE (estimate_size t3 (ca_change_outputs a)) (\<lambda>(est_size, t4).
        let (fee2, change2) = skip_dust nw None f (ti - (sum_list (map snd (ca_outputs a)) + f))
        in if change2 < 0 then Inl WalletError
           else bindE (if change2 \<noteq> 0
                       then with_change C V nw (wl_encoding w) a fee2 change2 None (sum_list (map snd (ca_outputs a)))
                              (t4\<lparr>t_size := nat est_size\<rparr>)
                       else Inr (None, t4\<lparr>t_size := nat est_size\<rparr>)) (\<lambda>(rate3, t6).
                  create_finish C V nw a fee2 rate3 t6))) = Inr t"
    using assms(1) by (simp add: transaction_create_def assms(3,4) t0 Let_def t1_def fee0 fc split: if_split_asm)
      (rule impI, simp)
  then show ?thesis unfolding bindE_Inr_iff case_prod_unfold Let_def
  proof (elim exE conjE, goal_cases)
    case (1 r s)
    obtain ti t3 est_size t4 where rs: "r = (ti, t3)" "s = (est_size, t4)" by (metis surj_pair)
    obtain fee change where fc: "skip_dust nw None f (ti - (sum_list (map snd (ca_outputs a)) + f)) = (fee, change)"
      by fastforce
    from 1(3) have "0 \<le> change" by (simp add: rs fc split: if_splits)
    from 1(3) obtain rate t6 where
      "(if change \<noteq> 0 then with_change C V nw (wl_encoding w) a fee change None (sum_list (map snd (ca_outputs a)))
        (t4\<lparr>t_size := nat est_size\<rparr>) else Inr (None, t4\<lparr>t_size := nat est_size\<rparr>)) = Inr (rate, t6)"
      "create_finish C V nw a fee rate t6 = Inr t"
      by (simp add: rs fc bindE_Inr_iff split: if_split_asm) auto
    then show ?case using that [of t0 t1] t0 1(1,2) rs fc \<open>0 \<le> change\<close> by (simp add: t1_def)
  qed
qed

lemma create_change:
  assumes "(if change \<noteq> 0 then with_change C V nw encoding a fee change None out t else Inr (None, t)) = Inr (rate, t')"
  shows "t_inputs t' = t_inputs t \<and> (\<exists>cs. t_outputs t' = t_outputs t @ cs \<and> (\<forall>o1 \<in> set cs. o_change o1) \<and>
    (ca_change_outputs a = 1 \<longrightarrow> (\<forall>o1 \<in> set cs. change \<noteq> 0 \<and> o_value o1 = change)))"
proof (cases "change = 0")
  case False
  then have wc: "with_change C V nw encoding a fee change None out t = Inr (rate, t')" using assms by simp
  obtain cs where cs: "t_inputs t' = t_inputs t" "t_outputs t' = t_outputs t @ cs" "\<forall>o1 \<in> set cs. o_change o1"
    "ca_change_outputs a = 1 \<longrightarrow> map o_value cs \<in> {[], [change]}"
    using with_change_Inr [OF wc] by auto
  have "set (map o_value cs) \<subseteq> {change}" if "ca_change_outputs a = 1" using cs(4) that by auto
  then show ?thesis using cs False by (intro conjI exI [of _ cs]) auto
qed (use assms in auto)

text \<open>C8: a transaction that the wallet creates with a fee \<open>f\<close> and its own selection of inputs pays
  exactly what was asked for: the inputs carry the values of the selected outputs, the outputs that are
  not change pay the amounts to the locking scripts of the addresses, the inputs are worth the outputs
  and the fee, and the fee is \<open>f\<close> and at most a dust amount of change; a single change
  output is more than dust.\<close>

theorem wallet_pays:
  assumes "transaction_create C E protected V w d a = Inr t" "ca_fee a = FeeInt f" "ca_inputs a = None"
    and "get_account_defaults w d (ca_network a) (ca_account a) None = Inr (network, account)"
    and "network_named network = Inr (nw :: network)"
    and "0 < sum_list (map snd (ca_outputs a)) + f" "reorders V"
  shows "\<exists>fee rows os.
    select_input_rows w d (sum_list (map snd (ca_outputs a)) + f) (Some (int (n_dust_amount nw))) (ca_key_ids a)
      (Some account) (Some (n_name nw)) (ca_min_confirms a) (ca_max_utxos a) (ca_ignore_dust a) = Inr rows \<and>
    mset (map i_value (t_inputs t)) = mset (map row_value rows) \<and>
    list_all2 (pays_to C network) (ca_outputs a) os \<and>
    filter_mset (\<lambda>(_, _, c). \<not> c) (mset (map payment (t_outputs t))) = mset (map payment os) \<and>
    t_fee t = Some fee \<and> f \<le> fee \<and> fee \<le> f + int (n_dust_amount nw) \<and>
    sum_list (map i_value (t_inputs t)) = fee + sum_list (map o_value (t_outputs t)) \<and>
    (ca_change_outputs a = 1 \<longrightarrow> (\<forall>o1 \<in> set (t_outputs t). o_change o1 \<longrightarrow> int (n_dust_amount nw) < o_value o1))"
proof -
  let ?out = "sum_list (map snd (ca_outputs a))" and ?dust = "int (n_dust_amount nw)"
  from assms(1,2,4,5) obtain t0 t1 total_in t3 est_size t4 fee change rate t6 where
    t0: "add_payments C network (ca_outputs a) (empty_transaction w (ca_locktime a)) = Inr t0"
    and t1: "t_inputs t1 = t_inputs t0" "t_outputs t1 = t_outputs t0"
    and t3: "create_inputs C E protected w d a nw account (?out + f) t1 = Inr (total_in, t3)"
    and t4: "estimate_size t3 (ca_change_outputs a) = Inr (est_size, t4)"
    and fee: "(fee, change) = skip_dust nw None f (total_in - (?out + f))" "0 \<le> change"
    and t6: "(if change \<noteq> 0 then with_change C V nw (wl_encoding w) a fee change None ?out
        (t4\<lparr>t_size := nat est_size\<rparr>) else Inr (None, t4\<lparr>t_size := nat est_size\<rparr>)) = Inr (rate, t6)"
    and t: "create_finish C V nw a fee rate t6 = Inr t"
    by (rule transaction_create_steps)
  obtain os where os: "t_inputs t0 = []" "t_outputs t0 = os" "list_all2 (pays_to C network) (ca_outputs a) os"
    using add_payments_Inr [OF t0] by (auto simp: empty_transaction_def)
  obtain rows where rows: "select_input_rows w d (?out + f) (Some ?dust) (ca_key_ids a)
      (Some account) (Some (n_name nw)) (ca_min_confirms a) (ca_max_utxos a) (ca_ignore_dust a) = Inr rows" "rows \<noteq> []"
    "total_in = sum_list (map row_value rows)" "t_outputs t3 = os" "map i_value (t_inputs t3) = map row_value rows"
    using create_inputs_selected [OF t3 assms(3)] os t1 by auto
  have enough: "?out + f \<le> total_in" using select_input_rows_pays [OF rows(1,2) assms(6)] rows(3) by simp
  have f: "f \<le> fee" "fee \<le> f + ?dust" "change \<noteq> 0 \<longrightarrow> ?dust < change"
    using fee(1) enough by (auto simp: skip_dust_def split: if_splits)
  obtain cs where cs: "t_inputs t6 = t_inputs t3" "t_outputs t6 = os @ cs" "\<forall>o1 \<in> set cs. o_change o1"
    "ca_change_outputs a = 1 \<longrightarrow> (\<forall>o1 \<in> set cs. ?dust < o_value o1)"
    using create_change [OF t6] rows(4) estimate_size_Inr [OF t4] f(3) by auto
  have no_change: "\<forall>o1 \<in> set os. \<not> o_change o1"
    using os(3) by (induction rule: list_all2_induct) (auto simp: pays_to_def dest: output_to_address_fields)
  have fin: "t_fee t = Some fee" "sum_list (map i_value (t_inputs t)) = fee + sum_list (map o_value (t_outputs t))"
    "mset (map i_value (t_inputs t)) = mset (map row_value rows)"
    "mset (map payment (t_outputs t)) = mset (map payment (os @ cs))"
    using create_finish_Inr [OF t assms(7)] cs(1,2) rows(5) by simp_all
  have "filter (\<lambda>(_, _, c). \<not> c) (map payment os) = map payment os"
    "filter (\<lambda>(_, _, c). \<not> c) (map payment cs) = []"
    using no_change cs(3) by (simp_all add: filter_id_conv filter_empty_conv payment_def)
  then have pays: "filter_mset (\<lambda>(_, _, c). \<not> c) (mset (map payment (t_outputs t))) = mset (map payment os)"
    unfolding fin(4) mset_filter [symmetric] by simp
  have "?dust < o_value o1" if "ca_change_outputs a = 1" "o1 \<in> set (t_outputs t)" "o_change o1" for o1
  proof -
    have "payment o1 \<in> set (map payment (os @ cs))" using fin(4) that(2) by (metis imageI list.set_map mset_eq_setD)
    then obtain o2 where "o2 \<in> set (os @ cs)" "payment o1 = payment o2" unfolding set_map by (elim imageE)
    then show ?thesis using no_change cs(4) that by (auto simp: payment_def)
  qed
  then show ?thesis using rows(1) fin pays os(3) f by blast
qed

section \<open>Witness\<close>

text \<open>
  A wallet with a multisig key without cosigners and one output of 100000 pays 90000 to a
  segwit address.
\<close>

definition example_hash_bytes :: bytes where
  "example_hash_bytes = [0x75,0x1e,0x76,0xe8,0x19,0x91,0x96,0xd4,0x54,0x94,0x1c,0x45,0xd1,0xb3,0xa3,0x23,0xf1,0x43,
     0x3b,0xd6]"

definition example_address :: string where
  "example_address = ''bc1qw508d6qejxtdg4y5r3zarvary0c5xw7kv8f3t4''"

definition example_multisig_key :: db_key where
  "example_multisig_key = example_db_key\<lparr>dk_key_type := ''multisig'', dk_address := []\<rparr>"

definition example_funding :: db_tx where
  "example_funding = example_db_tx\<lparr>dt_txid := replicate 32 7\<rparr>"

definition example_funded_db :: db where
  "example_funded_db = \<lparr>db_keys = [example_multisig_key], db_txs = [example_funding], db_inputs = [],
     db_outputs = [example_utxo 0 100000]\<rparr>"

definition example_env :: create_env where
  "example_env = \<lparr>e_estimate = (\<lambda>p. 5000), e_estimate_default = 5000, e_blockcount = 0, e_fee = (\<lambda>n r. n * r div 1000),
     e_rate = (\<lambda>f n. f * 1000 div n), e_number = (\<lambda>m. 2), e_amounts = (\<lambda>n m c. []), e_shuffle_inputs = rev,
     e_shuffle_outputs = rev, e_change_keys = (\<lambda>n. Inr [])\<rparr>"

definition example_args :: create_args where
  "example_args = \<lparr>ca_outputs = [(example_address, 90000)], ca_inputs = None, ca_key_ids = [], ca_account = None,
     ca_network = None, ca_fee = FeeInt 10000, ca_min_confirms = 1, ca_max_utxos = 0, ca_locktime = 0,
     ca_change_outputs = 1, ca_shuffle = True, ca_replace_by_fee = False, ca_ignore_dust = None,
     ca_anti_fee_sniping = True\<rparr>"

definition example_unsigned_input :: "nat \<Rightarrow> tx_input" where
  "example_unsigned_input sq = \<lparr>i_prev_txid = replicate 32 7, i_output_n = [0, 0, 0, 0], i_unlocking_script = [],
     i_locking_script = [], i_redeemscript = [], i_sequence = sq, i_compressed = True, i_index_n = 0,
     i_value = 100000, i_keys = [], i_signatures = [], i_sigs_required = 1, i_hash_type = SIGHASH_ALL,
     i_public_hash = [], i_script_type = ''sig_pubkey'', i_witness_type = ''segwit'', i_witnesses = [],
     i_script = None, i_strict = True\<rparr>"

lemma example_unsigned_from_keys:
  "input_from_keys C (replicate 32 7) 0 [] (Some ''sig_pubkey'') [] sq True (Some 1) False 0 100000 (Some ''segwit'') =
    Inr (example_unsigned_input sq)"
proof -
  have "to_bytes (PBytes (replicate 32 7)) True = Inr (replicate 32 7)" "int_to_be 4 0 = Inr [0, 0, 0, 0]"
    by code_simp+
  moreover have "replicate 32 (7 :: byte) \<noteq> replicate 32 0" by simp
  ultimately show ?thesis
    by (simp add: input_from_keys_def update_scripts_def update_sig_pubkey_def input_witness_type_def example_unsigned_input_def)
qed

lemma example_funded_rows:
  "utxo_rows example_funded_db = [(example_utxo 0 100000, example_funding, example_multisig_key)]"
  by (simp add: utxo_rows_def output_rows_def example_funded_db_def example_multisig_key_def example_funding_def example_defs)

lemma example_funded_selection:
  assumes "n_dust_amount nw = 1000" "network_named ''bitcoin'' = Inr nw"
  shows "select_input_rows example_wallet example_funded_db 100000 (Some 1000) [] (Some 0) (Some ''bitcoin'') 1 0 None =
    Inr [(example_utxo 0 100000, example_funding, example_multisig_key)]"
proof -
  have "candidate_utxos example_wallet example_funded_db 1000 [] 0 ''bitcoin'' 1 None = utxo_rows example_funded_db"
    unfolding candidate_utxos_def order_desc_def example_funded_rows
    by (simp add: example_multisig_key_def example_funding_def example_defs)
  moreover have "get_account_defaults example_wallet example_funded_db (Some ''bitcoin'') (Some 0) None = Inr (''bitcoin'', 0)"
    by (simp add: get_account_defaults_def example_wallet_def)
  ultimately show ?thesis
    using assms by (simp add: select_input_rows_def example_funded_rows select_utxos_def exact_utxo_def first_row_def
      order_desc_def example_value)
qed

lemma example_output_to_address:
  "\<exists>o1. output_to_address C ''bitcoin'' 90000 example_address 0 None False = Inr o1 \<and> o_value o1 = 90000 \<and>
    \<not> o_change o1 \<and> o_lock_script o1 = 0 # 20 # example_hash_bytes"
proof -
  obtain nw where nw: "network_named ''bitcoin'' = Inr nw" "n_prefix_bech32 nw = ''bc''" using example_network by blast
  have h: "to_bytes (PBytes example_hash_bytes) True = Inr example_hash_bytes" by code_simp
  have w: "witness_program 0 example_hash_bytes" by (simp add: witness_program_def example_hash_bytes_def)
  have a: "pubkeyhash_to_addr_bech32 (PBytes example_hash_bytes) ''bc'' 0 ''1'' 1 = Inr example_address" by code_simp
  have b58: "change_base (PStr example_address) 58 256 25 None None = Inl EncodingError"
    by (rule zero_not_base58) (simp add: example_address_def)
  obtain addr o1 where "pubkeyhash_to_addr_bech32 (PBytes example_hash_bytes) ''bc'' 0 ''1'' 1 = Inr addr"
    "change_base (PStr addr) 58 256 25 None None = Inl EncodingError \<Longrightarrow>
     output_to_address C ''bitcoin'' 90000 addr 0 None False = Inr o1"
    "o_value o1 = 90000" "\<not> o_change o1"
    "o_lock_script o1 = witness_lock (if witness_script_type 0 example_hash_bytes = ''p2tr'' then 1 else 0) example_hash_bytes"
    by (rule output_to_encoded [OF nw(1) h w, unfolded nw(2), of C 90000 0 False]) auto
  then show ?thesis using a b58
    by (auto simp: witness_lock_def witness_script_type_def example_hash_bytes_def)
qed

lemma example_selected:
  "selected_input C E protected example_wallet example_funded_db
     (example_utxo 0 100000, example_funding, example_multisig_key) =
   Inr (example_unsigned_input 0xffffffff, 0, [], [])"
proof -
  have "objects_by_key C E protected example_funded_db example_multisig_key = Inr []"
    by (simp add: objects_by_key_def child_objects_def example_multisig_key_def example_db_key_def)
  moreover have "get_unlocking_script_type ''p2wpkh'' wt False = Inr ''sig_pubkey''" for wt
    by (simp add: get_unlocking_script_type_def)
  ultimately show ?thesis
    by (simp add: example_unsigned_from_keys selected_input_def example_multisig_key_def example_funding_def example_defs)
qed

lemma example_added:
  assumes "t_inputs t = []" "t_version t = [0, 0, 0, 1]"
  shows "add_selected C False example_wallet 0xffffffff [(example_unsigned_input 0xffffffff, 0, [], [])] t =
    Inr (t\<lparr>t_inputs := [example_unsigned_input 0xffffffff]\<rparr>)"
proof -
  have s: "i_prev_txid (example_unsigned_input q) = replicate 32 7" "i_script_type (example_unsigned_input q) = ''sig_pubkey''"
    "i_compressed (example_unsigned_input q)" "i_value (example_unsigned_input q) = 100000" "i_witness_type (example_unsigned_input q) = ''segwit''"
    for q by (simp_all add: example_unsigned_input_def)
  show ?thesis using assms
    by (simp add: s add_input_def input_sequence_def SEQUENCE_LOCKTIME_DISABLE_FLAG_def example_wallet_def
        example_unsigned_from_keys)
qed

lemma example_defaults_funded:
  "get_account_defaults example_wallet example_funded_db None None None = Inr (''bitcoin'', 0)"
  by (simp add: get_account_defaults_def example_wallet_def)

lemma example_unsigned_raw:
  assumes "o_value o1 = 90000" "o_lock_script o1 = 0 # 20 # example_hash_bytes" "t_size t \<noteq> 0"
    "t_inputs t = [(example_unsigned_input 0xffffffff)\<lparr>i_index_n := n\<rparr>]" "t_outputs t = [o1\<lparr>o_output_n := m\<rparr>]" "t_locktime t = 0"
  shows "\<exists>h. signature_hash C t None SIGHASH_ALL None = Inr (h, t)"
proof -
  have "is_ok (varstr (0 # 20 # example_hash_bytes))" "is_ok (varstr [])" "is_ok (int_to_varbyteint 1)"
    "is_ok (int_to_le 8 90000)" "is_ok (int_to_le 4 0)" "is_ok (int_to_le 4 0xffffffff)"
    by (simp_all add: varstr_def int_to_varbyteint_def int_to_le_def example_hash_bytes_def)
  then obtain a b c u v x where "varstr (0 # 20 # example_hash_bytes) = Inr a" "varstr [] = Inr b" "int_to_varbyteint 1 = Inr c"
    "int_to_le 8 90000 = Inr u" "int_to_le 4 0 = Inr v" "int_to_le 4 0xffffffff = Inr x"
    by (auto simp: is_ok_def split: sum.splits)
  then show ?thesis using assms
    by (simp add: signature_hash_def signature_def tx_raw_update_def tx_raw_def raw_input_def raw_witness_def raw_output_def
        example_unsigned_input_def)
qed

lemma example_created:
  "\<exists>t. transaction_create C E protected example_env example_wallet example_funded_db example_args = Inr t"
proof -
  obtain nw where nw: "network_named ''bitcoin'' = Inr nw" "n_dust_amount nw = 1000" "n_name nw = ''bitcoin''"
    "n_fee_min nw = 1000" "n_fee_max nw = 1000000" by (simp add: network_named_def NETWORK_DEFINITIONS_def)
  obtain o1 where o1: "output_to_address C ''bitcoin'' 90000 example_address 0 None False = Inr o1" "o_value o1 = 90000"
    "o_lock_script o1 = 0 # 20 # example_hash_bytes" using example_output_to_address by blast
  let ?i = "example_unsigned_input 0xffffffff"
  define t0 where "t0 = (empty_transaction example_wallet 0)\<lparr>t_outputs := [o1]\<rparr>"
  have f: "t_inputs t0 = []" "t_outputs t0 = [o1]" "t_version t0 = [0, 0, 0, 1]" "t_locktime t0 = 0" "t_witness_type t0 = ''segwit''"
    by (simp_all add: t0_def empty_transaction_def example_wallet_def)
  have t0: "add_payments C ''bitcoin'' [(example_address, 90000)] (empty_transaction example_wallet 0) = Inr t0"
    by (simp add: add_output_to_def o1 t0_def empty_transaction_def)
  have v: "i_value ?i = 100000" by (simp add: example_unsigned_input_def)
  have rows: "select_inputs C E protected example_wallet example_funded_db 100000 (Some 1000) [] (Some 0) (Some ''bitcoin'')
      1 0 None = Inr [(?i, 0, [], [])]"
    using example_funded_selection [OF nw(2,1)] by (simp add: select_inputs_def example_selected)
  have sel: "create_inputs C E protected example_wallet example_funded_db example_args nw 0 100000 t0 =
      Inr (100000, t0\<lparr>t_inputs := [?i]\<rparr>)"
    using rows by (simp add: create_inputs_def example_args_def nw f create_sequence_def example_added v
        del: add_selected.simps)
  obtain vs where vs: "varstr (0 # 20 # example_hash_bytes) = Inr vs" "length vs = 23"
    by (simp add: varstr_def int_to_varbyteint_def int_to_le_def example_hash_bytes_def)
  let ?t4 = "t0\<lparr>t_inputs := [?i], t_size := 224, t_vsize := 141\<rparr>"
  have i: "i_unlocking_script ?i = []" "i_script_type ?i = ''sig_pubkey''" "i_compressed ?i" "i_witness_type ?i = ''segwit''"
    by (simp_all add: example_unsigned_input_def)
  have est: "estimate_size (t0\<lparr>t_inputs := [?i]\<rparr>) 1 = Inr (141, ?t4)"
    by (simp add: estimate_size_def f o1 vs change_size_def input_scr_size_def i)
  have "\<exists>t. create_finish C example_env nw example_args 10000 None (?t4\<lparr>t_size := 141\<rparr>) = Inr t"
  proof -
    let ?t5 = "shuffle_tx example_env (?t4\<lparr>t_size := 141\<rparr>)"
    let ?t6 = "?t5\<lparr>t_input_total := 100000, t_output_total := 90000, t_fee := Some 10000\<rparr>"
    have "t_inputs ?t5 = [?i\<lparr>i_index_n := 0\<rparr>]" "t_outputs ?t5 = [o1\<lparr>o_output_n := 0\<rparr>]"
      "t_size ?t5 = 141" "t_vsize ?t5 = 141" "t_locktime ?t5 = 0"
      by (simp_all add: shuffle_tx_def example_env_def renumber_inputs_def renumber_outputs_def f)
    moreover from this obtain h where "signature_hash C ?t6 None SIGHASH_ALL None = Inr (h, ?t6)"
      using example_unsigned_raw [OF o1(2,3), of ?t6 0 0 C] by auto
    ultimately show ?thesis
      by (simp add: create_finish_def v o1 fee_rate_def example_env_def nw)
        (simp add: example_args_def)
  qed
  moreover have "initial_fee example_env example_args t0 = Inr (Some 10000, 10000, None, t0)"
    by (simp add: initial_fee_def example_args_def)
  moreover have a: "ca_outputs example_args = [(example_address, 90000)]" "ca_inputs example_args = None"
    "ca_account example_args = None" "ca_network example_args = None" "ca_locktime example_args = 0"
    "ca_change_outputs example_args = 1" "e_blockcount example_env = 0"
    by (simp_all add: example_args_def example_env_def)
  ultimately show ?thesis using example_defaults_funded t0 nw sel est
    by (simp add: transaction_create_def a f fee_and_change_def skip_dust_def del: add_payments.simps)
qed

theorem wallet_pays_witness:
  "\<forall>C E protected. \<exists>t fee. transaction_create C E protected example_env example_wallet example_funded_db example_args = Inr t \<and>
     t_fee t = Some fee \<and> 10000 \<le> fee \<and> fee \<le> 11000 \<and>
     sum_list (map i_value (t_inputs t)) = fee + sum_list (map o_value (t_outputs t))"
proof (intro allI)
  fix C E protected
  obtain nw where nw: "network_named ''bitcoin'' = Inr nw" "n_dust_amount nw = 1000" using example_bitcoin by blast
  obtain t where t: "transaction_create C E protected example_env example_wallet example_funded_db example_args = Inr t"
    using example_created by blast
  have a: "ca_fee example_args = FeeInt 10000" "ca_inputs example_args = None"
    "get_account_defaults example_wallet example_funded_db (ca_network example_args) (ca_account example_args) None =
      Inr (''bitcoin'', 0)" "0 < sum_list (map snd (ca_outputs example_args)) + 10000" "reorders example_env"
    using example_defaults_funded by (simp_all add: example_args_def reorders_def example_env_def)
  show "\<exists>t fee. transaction_create C E protected example_env example_wallet example_funded_db example_args = Inr t \<and>
     t_fee t = Some fee \<and> 10000 \<le> fee \<and> fee \<le> 11000 \<and>
     sum_list (map i_value (t_inputs t)) = fee + sum_list (map o_value (t_outputs t))"
    using wallet_pays [OF t a(1-3) nw(1) a(4,5)] t nw(2) by auto
qed

end
