(* ===== verification/Service_Exec.thy ===== *)
theory Service_Exec
  imports BL_Prelude "HOL-Library.Multiset"
begin

text \<open>
  \<^verbatim>\<open>Service._provider_execute\<close> of \<^verbatim>\<open>bitcoinlib/services/services.py\<close>: asking the service providers
  one after the other until enough of them have answered. What a provider does when it is asked is a
  function from providers to answers; the random numbers that order providers of the same priority
  are another one.
\<close>

section \<open>Providers\<close>

record provider =
  pv_name :: string
  pv_provider :: string
  pv_network :: string
  pv_priority :: int
  pv_url :: string
  pv_api_key :: string

text \<open>
  What happens when a provider is asked: its client cannot be made, the client does not have the
  method, the method returns \<^verbatim>\<open>False\<close> or a value, or it raises an exception. Of an exception the
  message is kept, or \<open>None\<close> for an \<^verbatim>\<open>AttributeError\<close>.
\<close>

datatype 'a answer = NoClient "string option" | NoMethod | Empty | Answer 'a | Raises "string option"

record settings =
  se_network :: string
  se_providers :: "provider list"
  se_min_providers :: nat
  se_max_providers :: nat
  se_max_errors :: nat
  se_ignore_priority :: bool

text \<open>
  The providers of \<^verbatim>\<open>Service.__init__\<close>: the one that is named, or those of the network that have a
  priority, of the given kinds; without the excluded kinds. \<open>defs\<close> is the file \<^verbatim>\<open>providers.json\<close>, with
  distinct names.
\<close>

definition choose_providers ::
  "provider list \<Rightarrow> string \<Rightarrow> string list \<Rightarrow> string list \<Rightarrow> string \<Rightarrow> provider list res" where
  "choose_providers defs network providers exclude_providers provider_name =
    (if \<not> set providers \<subseteq> pv_provider ` set defs then Inl ServiceError
     else bindE
         (if provider_name \<noteq> [] then
            (case List.find (\<lambda>p. pv_name p = provider_name) defs of
               None \<Rightarrow> Inl ServiceError
             | Some p \<Rightarrow> if pv_network p \<noteq> network then Inl ServiceError else Inr [p])
          else Inr (filter (\<lambda>p. (pv_network p = network \<or> pv_network p = []) \<and> 0 < pv_priority p \<and>
                                 (providers = [] \<or> pv_provider p \<in> set providers)) defs))
         (\<lambda>chosen.
            let left = filter (\<lambda>p. pv_provider p \<notin> set exclude_providers) chosen
            in if left = [] then Inl ServiceError else Inr left))"

definition settings_init ::
  "provider list \<Rightarrow> string \<Rightarrow> nat \<Rightarrow> nat \<Rightarrow> string list \<Rightarrow> bool \<Rightarrow> string list \<Rightarrow> nat \<Rightarrow> string \<Rightarrow> settings res" where
  "settings_init defs network min_providers max_providers providers ignore_priority exclude_providers
     max_errors provider_name =
    bindE (choose_providers defs network providers exclude_providers provider_name) (\<lambda>chosen.
      Inr \<lparr>se_network = network, se_providers = chosen, se_min_providers = min_providers,
           se_max_providers = max min_providers max_providers, se_max_errors = max_errors,
           se_ignore_priority = ignore_priority\<rparr>)"

section \<open>The order of the providers\<close>

text \<open>By priority and then by a random number, descending; or shuffled.\<close>

definition provider_order :: "(string \<Rightarrow> nat) \<Rightarrow> (provider list \<Rightarrow> provider list) \<Rightarrow> settings \<Rightarrow> provider list" where
  "provider_order random shuffle se =
    (let lst = sort_key (\<lambda>p. - pv_priority p) (sort_key (\<lambda>p. - int (random (pv_name p))) (se_providers se))
     in if se_ignore_priority se then shuffle lst else lst)"

section \<open>The loop\<close>

text \<open>The attributes \<^verbatim>\<open>results\<close>, \<^verbatim>\<open>errors\<close> and \<^verbatim>\<open>resultcount\<close>.\<close>

record 'a exec =
  ex_results :: "(string \<times> 'a) list"
  ex_errors :: "(string \<times> string) list"
  ex_count :: nat

definition reset_results :: "'a exec" where
  "reset_results = \<lparr>ex_results = [], ex_errors = [], ex_count = 0\<rparr>"

text \<open>A provider without url is skipped, except for the local ones and in the test network.\<close>

definition reachable :: "settings \<Rightarrow> provider \<Rightarrow> bool" where
  "reachable se p \<longleftrightarrow> pv_name p \<in> {''bitcoind'', ''litecoind'', ''dogecoind'', ''caching''} \<or> pv_url p \<noteq> [] \<or>
     se_network se = ''bitcoinlib_test''"

text \<open>One provider: the new results and errors, and whether an exception was caught.\<close>

definition ask_provider :: "settings \<Rightarrow> (provider \<Rightarrow> 'a answer) \<Rightarrow> provider \<Rightarrow> 'a exec \<Rightarrow> 'a exec \<times> bool" where
  "ask_provider se ask p e =
    (let failed = (\<lambda>m. e\<lparr>ex_errors := ex_errors e @ [(pv_name p, m)]\<rparr>);
         caught = (\<lambda>x. (case x of Some m \<Rightarrow> failed m | None \<Rightarrow> e, True))
     in if \<not> reachable se p then (e, False)
        else case ask p of
          NoClient x \<Rightarrow> caught x
        | NoMethod \<Rightarrow> (e, False)
        | Empty \<Rightarrow> if pv_api_key p = ''api-key-needed'' then (e, False)
                   else (failed ''Received empty response'', False)
        | Answer r \<Rightarrow> if pv_api_key p = ''api-key-needed'' then (e, False)
                      else (e\<lparr>ex_results := ex_results e @ [(pv_name p, r)], ex_count := Suc (ex_count e)\<rparr>, False)
        | Raises x \<Rightarrow> if pv_api_key p = ''api-key-needed'' then (e, False) else caught x)"

text \<open>
  The loop, and whether it was left by the \<^verbatim>\<open>return\<close> for too many errors, which is only reached
  after an exception.
\<close>

fun provider_loop ::
  "settings \<Rightarrow> (provider \<Rightarrow> 'a answer) \<Rightarrow> provider list \<Rightarrow> 'a exec \<Rightarrow> 'a exec \<times> bool" where
  "provider_loop se ask [] e = (e, False)"
| "provider_loop se ask (p # ps) e =
     (if se_max_providers se \<le> ex_count e then (e, False)
      else let (e1, raised) = ask_provider se ask p e
           in if raised \<and> se_max_errors se \<le> length (ex_errors e1) then (e1, True)
              else provider_loop se ask ps e1)"

text \<open>The result is \<open>None\<close> for \<^verbatim>\<open>False\<close>.\<close>

definition provider_execute ::
  "settings \<Rightarrow> provider list \<Rightarrow> (provider \<Rightarrow> 'a answer) \<Rightarrow> ('a option \<times> 'a exec) res" where
  "provider_execute se order ask =
    (let (e, aborted) = provider_loop se ask order reset_results
     in case ex_results e of
          (_, r) # _ \<Rightarrow> Inr (Some r, e)
        | [] \<Rightarrow> if aborted then Inr (None, e) else Inl ServiceError)"

section \<open>What the loop does\<close>

text \<open>The answer of a provider, if it gives one.\<close>

definition answers :: "settings \<Rightarrow> (provider \<Rightarrow> 'a answer) \<Rightarrow> provider \<Rightarrow> (string \<times> 'a) option" where
  "answers se ask p =
    (if reachable se p \<and> pv_api_key p \<noteq> ''api-key-needed''
     then (case ask p of Answer r \<Rightarrow> Some (pv_name p, r) | _ \<Rightarrow> None) else None)"

text \<open>The providers that count as errors.\<close>

definition fails :: "settings \<Rightarrow> (provider \<Rightarrow> 'a answer) \<Rightarrow> provider \<Rightarrow> bool" where
  "fails se ask p \<longleftrightarrow> reachable se p \<and>
     (case ask p of NoClient x \<Rightarrow> x \<noteq> None
      | Empty \<Rightarrow> pv_api_key p \<noteq> ''api-key-needed''
      | Raises x \<Rightarrow> x \<noteq> None \<and> pv_api_key p \<noteq> ''api-key-needed''
      | _ \<Rightarrow> False)"

lemma ask_provider_cases:
  obtains (answer) r where "answers se ask p = Some (pv_name p, r)" "\<not> fails se ask p"
      "ask_provider se ask p e =
        (e\<lparr>ex_results := ex_results e @ [(pv_name p, r)], ex_count := Suc (ex_count e)\<rparr>, False)"
    | (error) m b where "answers se ask p = None" "fails se ask p"
      "ask_provider se ask p e = (e\<lparr>ex_errors := ex_errors e @ [(pv_name p, m)]\<rparr>, b)"
    | (silent) b where "answers se ask p = None" "\<not> fails se ask p" "ask_provider se ask p e = (e, b)"
proof (cases "ask p")
  case (NoClient x)
  then show ?thesis
    by (cases x; cases "reachable se p") (auto simp: ask_provider_def answers_def fails_def intro: that)
next
  case (Raises x)
  then show ?thesis
    by (cases x; cases "reachable se p"; cases "pv_api_key p = ''api-key-needed''")
      (auto simp: ask_provider_def answers_def fails_def intro: that)
qed (cases "reachable se p"; cases "pv_api_key p = ''api-key-needed''";
  auto simp: ask_provider_def answers_def fails_def intro: that)+

text \<open>
  While fewer providers fail than errors are allowed, the results are the answers of the first
  \<open>max_providers\<close> providers that answer, in the order in which they are asked.
\<close>

lemma provider_loop_results:
  assumes "length (ex_errors e) + length (filter (fails se ask) ps) < se_max_errors se"
    and "ex_count e = length (ex_results e)"
  shows "\<exists>e'. provider_loop se ask ps e = (e', False) \<and>
    ex_results e' = ex_results e @ take (se_max_providers se - ex_count e) (List.map_filter (answers se ask) ps) \<and>
    ex_count e' = length (ex_results e')"
  using assms
proof (induction ps arbitrary: e)
  case (Cons p ps)
  show ?case
  proof (cases "se_max_providers se \<le> ex_count e")
    case False
    show ?thesis
    proof (cases rule: ask_provider_cases [of se ask p e])
      case (answer r)
      let ?e = "e\<lparr>ex_results := ex_results e @ [(pv_name p, r)], ex_count := Suc (ex_count e)\<rparr>"
      have "Suc (se_max_providers se - Suc (ex_count e)) = se_max_providers se - ex_count e" using False by simp
      then show ?thesis using Cons.IH [of ?e] Cons.prems answer False
        by (auto simp: map_filter_simps simp flip: take_Suc_Cons)
    next
      case (error m b)
      let ?e = "e\<lparr>ex_errors := ex_errors e @ [(pv_name p, m)]\<rparr>"
      show ?thesis using Cons.IH [of ?e] Cons.prems error False by (auto simp: map_filter_simps)
    next
      case (silent b)
      show ?thesis using Cons.IH [of e] Cons.prems silent False by (auto simp: map_filter_simps)
    qed
  qed (use Cons.prems in simp)
qed (simp add: map_filter_simps)

lemma provider_loop_aborted:
  assumes "snd (provider_loop se ask ps e)"
  shows "se_max_errors se \<le> length (ex_errors (fst (provider_loop se ask ps e)))"
  using assms by (induction ps arbitrary: e) (auto simp: Let_def case_prod_unfold split: if_splits)

text \<open>The results only come from answers, whatever the errors.\<close>

lemma provider_loop_prefix:
  assumes "ex_count e = length (ex_results e)"
  shows "\<exists>n. ex_results (fst (provider_loop se ask ps e)) =
    ex_results e @ take n (List.map_filter (answers se ask) ps)"
  using assms
proof (induction ps arbitrary: e)
  case (Cons p ps)
  show ?case
  proof (cases rule: ask_provider_cases [of se ask p e])
    case (answer r)
    let ?e = "e\<lparr>ex_results := ex_results e @ [(pv_name p, r)], ex_count := Suc (ex_count e)\<rparr>"
    obtain n where "ex_results (fst (provider_loop se ask ps ?e)) =
        ex_results ?e @ take n (List.map_filter (answers se ask) ps)"
      using Cons.IH [of ?e] Cons.prems by auto
    then show ?thesis using answer
      by (auto simp: map_filter_simps intro: exI [of _ 0] exI [of _ "Suc n"])
  next
    case (error m b)
    then show ?thesis using Cons.IH [of "e\<lparr>ex_errors := ex_errors e @ [(pv_name p, m)]\<rparr>"] Cons.prems
      by (auto simp: map_filter_simps intro: exI [of _ 0])
  next
    case (silent b)
    then show ?thesis using Cons.IH [of e] Cons.prems by (auto simp: map_filter_simps intro: exI [of _ 0])
  qed
qed (simp add: map_filter_simps)

lemma map_filter_Nil_iff: "List.map_filter f xs = [] \<longleftrightarrow> (\<forall>x\<in>set xs. f x = None)"
  by (induction xs) (auto simp: map_filter_simps split: option.splits)

text \<open>C15: a call that fewer than \<open>max_errors\<close> providers fail returns the answer of the first provider that
  has one, and keeps the answers of the first \<open>max_providers\<close> of them.
\<close>

theorem provider_execute_first:
  assumes "length (filter (fails se ask) order) < se_max_errors se" "0 < se_max_providers se"
    and "List.map_filter (answers se ask) order = (name, r) # rest'"
  shows "\<exists>e. provider_execute se order ask = Inr (Some r, e) \<and>
    ex_results e = (name, r) # take (se_max_providers se - 1) rest' \<and>
    ex_count e = length (ex_results e)"
proof -
  obtain e where e: "provider_loop se ask order reset_results = (e, False)"
    "ex_results e = take (se_max_providers se) ((name, r) # rest')" "ex_count e = length (ex_results e)"
    using provider_loop_results [of reset_results se ask order] assms by (auto simp: reset_results_def)
  have "ex_results e = (name, r) # take (se_max_providers se - 1) rest'"
    using e(2) \<open>0 < se_max_providers se\<close> by (cases "se_max_providers se") auto
  then show ?thesis using e(1,3) by (simp add: provider_execute_def)
qed

text \<open>What a call of \<open>provider_execute\<close> ends in.\<close>

lemma provider_execute_cases:
  "case provider_execute se order ask of
     Inl x \<Rightarrow> x = ServiceError
   | Inr (None, e) \<Rightarrow> ex_results e = [] \<and> se_max_errors se \<le> length (ex_errors e)
   | Inr (Some r, e) \<Rightarrow> \<exists>p\<in>set order. reachable se p \<and> ask p = Answer r"
proof -
  obtain e b where e: "provider_loop se ask order reset_results = (e, b)" by fastforce
  show ?thesis
  proof (cases "ex_results e")
    case Nil
    then show ?thesis using e provider_loop_aborted [of se ask order reset_results]
      by (auto simp: provider_execute_def)
  next
    case (Cons x xs)
    obtain n where "ex_results e = take n (List.map_filter (answers se ask) order)"
      using provider_loop_prefix [of "reset_results" se ask order] e by (auto simp: reset_results_def)
    then have "x \<in> set (List.map_filter (answers se ask) order)"
      using Cons in_set_takeD [of x n] by (metis list.set_intros(1))
    then obtain p where p: "p \<in> set order" "answers se ask p = Some x"
      by (auto simp: map_filter_def)
    show ?thesis
    proof (cases x)
      case (Pair m r)
      then have "reachable se p" "ask p = Answer r" using p(2)
        by (auto simp: answers_def split: if_splits answer.splits)
      then show ?thesis using p(1) e Cons Pair by (auto simp: provider_execute_def)
    qed
  qed
qed

text \<open>C16: a call that no provider answers raises \<^verbatim>\<open>ServiceError\<close>, or returns \<^verbatim>\<open>False\<close> when as many providers
  failed as errors are allowed; and a call that returns a value returns an answer of a provider of
  the list.
\<close>

theorem provider_execute_answers:
  "case provider_execute se order ask of
     Inl x \<Rightarrow> x = ServiceError
   | Inr (None, e) \<Rightarrow> ex_results e = [] \<and> se_max_errors se \<le> length (ex_errors e)
   | Inr (Some r, e) \<Rightarrow> \<exists>p\<in>set order. reachable se p \<and> ask p = Answer r"
  by (rule provider_execute_cases)

lemma provider_loop_errors:
  "length (ex_errors (fst (provider_loop se ask ps e))) \<le> length (ex_errors e) + length ps"
proof (induction ps arbitrary: e)
  case (Cons p ps)
  have "length (ex_errors (fst (ask_provider se ask p e))) \<le> Suc (length (ex_errors e))"
    by (cases rule: ask_provider_cases [of se ask p e]) simp_all
  then show ?case using Cons.IH [of "fst (ask_provider se ask p e)"] by (auto simp: Let_def case_prod_unfold)
qed simp

lemma map_filter_first:
  assumes "List.map_filter f xs = y # ys"
  shows "\<exists>us x vs. xs = us @ x # vs \<and> f x = Some y \<and> (\<forall>u\<in>set us. f u = None)"
  using assms
proof (induction xs)
  case (Cons x xs)
  show ?case
  proof (cases "f x")
    case None
    then obtain us x' vs where "xs = us @ x' # vs" "f x' = Some y" "\<forall>u\<in>set us. f u = None"
      using Cons by (auto simp: map_filter_simps)
    then show ?thesis using None by (intro exI [of _ "x # us"] exI [of _ x'] exI [of _ vs]) simp
  next
    case (Some z)
    then show ?thesis using Cons.prems
      by (intro exI [of _ "[]"] exI [of _ x] exI [of _ xs]) (simp add: map_filter_simps)
  qed
qed (simp add: map_filter_simps)

text \<open>Unless priorities are ignored, the value that is returned is the answer of a provider whose
  priority no other answering provider exceeds.
\<close>

theorem provider_execute_priority:
  assumes "\<not> se_ignore_priority se" "0 < se_max_providers se"
    and "length (filter (fails se ask) (se_providers se)) < se_max_errors se"
    and "q \<in> set (se_providers se)" "answers se ask q \<noteq> None"
  shows "\<exists>p r e. provider_execute se (provider_order random shuffle se) ask = Inr (Some r, e) \<and>
    p \<in> set (se_providers se) \<and> ask p = Answer r \<and> pv_priority q \<le> pv_priority p"
proof -
  let ?o = "provider_order random shuffle se"
  have o: "mset ?o = mset (se_providers se)" "sorted (map (\<lambda>p. - pv_priority p) ?o)"
    using assms(1) by (simp_all add: provider_order_def)
  have set: "set ?o = set (se_providers se)" using o(1) by (metis set_mset_mset)
  have "length (filter (fails se ask) ?o) = length (filter (fails se ask) (se_providers se))"
    using o(1) by (metis mset_filter size_mset)
  then have few: "length (filter (fails se ask) ?o) < se_max_errors se" using assms(3) by simp
  obtain y ys where ys: "List.map_filter (answers se ask) ?o = y # ys"
    using map_filter_Nil_iff [of "answers se ask" ?o] assms(4,5) set by (metis neq_Nil_conv)
  obtain us p vs where p: "?o = us @ p # vs" "answers se ask p = Some y" "\<forall>u\<in>set us. answers se ask u = None"
    using map_filter_first [OF ys] by blast
  have "q \<in> set (p # vs)" using assms(4,5) set p by (metis Un_iff set_append)
  then have le: "pv_priority q \<le> pv_priority p"
    using o(2) unfolding p(1) by (auto simp: sorted_append)
  obtain m r where y: "y = (m, r)" by (cases y)
  then have "ask p = Answer r" using p(2) by (auto simp: answers_def split: if_splits answer.splits)
  moreover obtain e where "provider_execute se ?o ask = Inr (Some r, e)"
    using few assms(2) ys provider_loop_results [of reset_results se ask ?o]
    by (cases "se_max_providers se") (auto simp: provider_execute_def reset_results_def y)
  moreover have "p \<in> set (se_providers se)" using p(1) set by auto
  ultimately show ?thesis using le by blast
qed

section \<open>An example\<close>

definition example_providers :: "provider list" where
  "example_providers =
    [\<lparr>pv_name = ''a'', pv_provider = ''x'', pv_network = ''bitcoin'', pv_priority = 10, pv_url = ''u'',
      pv_api_key = []\<rparr>,
     \<lparr>pv_name = ''b'', pv_provider = ''y'', pv_network = ''bitcoin'', pv_priority = 20, pv_url = ''u'',
      pv_api_key = []\<rparr>,
     \<lparr>pv_name = ''c'', pv_provider = ''y'', pv_network = ''bitcoin'', pv_priority = 15, pv_url = ''u'',
      pv_api_key = []\<rparr>]"

definition example_settings :: settings where
  "example_settings =
    \<lparr>se_network = ''bitcoin'', se_providers = example_providers, se_min_providers = 1, se_max_providers = 1,
     se_max_errors = 4, se_ignore_priority = False\<rparr>"

definition example_ask :: "provider \<Rightarrow> int answer" where
  "example_ask p = (if pv_name p = ''b'' then Raises (Some ''timeout'') else Answer (pv_priority p))"

lemma settings_init_example:
  "settings_init example_providers ''bitcoin'' 1 1 [] False [] 4 [] = Inr example_settings"
  by (simp add: settings_init_def choose_providers_def example_settings_def example_providers_def)

lemma example_ask_props:
  "length (filter (fails example_settings example_ask) example_providers) < se_max_errors example_settings"
  "0 < se_max_providers example_settings" "\<not> se_ignore_priority example_settings"
  "se_providers example_settings = example_providers"
  "List.map_filter (answers example_settings example_ask)
     (provider_order (\<lambda>n. 0) id example_settings) = (''c'', 15) # [(''a'', 10)]"
  "length (filter (fails example_settings example_ask) (provider_order (\<lambda>n. 0) id example_settings))
     < se_max_errors example_settings"
  by (simp_all add: example_settings_def example_providers_def example_ask_def fails_def answers_def
      reachable_def provider_order_def map_filter_simps)

theorem provider_execute_first_witness:
  "\<exists>e. provider_execute example_settings (provider_order (\<lambda>n. 0) id example_settings) example_ask =
    Inr (Some 15, e) \<and> ex_results e = [(''c'', 15)] \<and> ex_count e = length (ex_results e)"
  using provider_execute_first [OF example_ask_props(6,2,5)] by (simp add: example_settings_def)

theorem provider_execute_priority_witness:
  "\<exists>p r e. provider_execute example_settings (provider_order (\<lambda>n. 0) id example_settings) example_ask =
      Inr (Some r, e) \<and> p \<in> set example_providers \<and> example_ask p = Answer r \<and>
    pv_priority (example_providers ! 0) \<le> pv_priority p"
  using provider_execute_priority [of example_settings example_ask "example_providers ! 0" "\<lambda>n. 0" id]
    example_ask_props(1-4)
  by (simp add: example_providers_def answers_def reachable_def example_ask_def)

end
