(* ===== verification/Service_Cache.thy ===== *)
theory Service_Cache
  imports BL_Prelude
begin

text \<open>
  The cache of the service: the tables of \<^verbatim>\<open>bitcoinlib/db_cache.py\<close> and the methods of \<^verbatim>\<open>Cache\<close> in
  \<^verbatim>\<open>bitcoinlib/services/services.py\<close> that read and write them. A table is the list of its rows, in the
  order in which the database returns them; \<^verbatim>\<open>session.merge\<close> replaces the row with the same primary key.
  The time is a number of seconds.
\<close>

section \<open>Tables\<close>

record cache_tx =
  ct_txid :: bytes
  ct_date :: nat
  ct_confirmations :: int
  ct_version :: nat
  ct_locktime :: nat
  ct_block_height :: nat
  ct_network :: string
  ct_fee :: "int option"
  ct_index :: "nat option"
  ct_witness_type :: string

record cache_node =
  cn_txid :: bytes
  cn_index_n :: nat
  cn_value :: int
  cn_address :: string
  cn_script :: bytes
  cn_witnesses :: bytes
  cn_sequence :: nat
  cn_is_input :: bool
  cn_spent :: "bool option"
  cn_ref_txid :: "bytes option"
  cn_ref_index_n :: "nat option"

record cache_address =
  ca_address :: string
  ca_network :: string
  ca_balance :: "int option"
  ca_last_block :: "nat option"
  ca_last_txid :: "bytes option"
  ca_n_utxos :: "nat option"
  ca_n_txs :: "nat option"

record cache_var =
  cv_varname :: string
  cv_network :: string
  cv_value :: int
  cv_expires :: nat

record cache =
  c_enabled :: bool
  c_txs :: "cache_tx list"
  c_nodes :: "cache_node list"
  c_addresses :: "cache_address list"
  c_vars :: "cache_var list"

section \<open>Variables\<close>

definition merge_var :: "cache_var \<Rightarrow> cache_var list \<Rightarrow> cache_var list" where
  "merge_var v vs = filter (\<lambda>x. (cv_varname x, cv_network x) \<noteq> (cv_varname v, cv_network v)) vs @ [v]"

definition get_var :: "string \<Rightarrow> string \<Rightarrow> (cache_var \<Rightarrow> bool) \<Rightarrow> cache \<Rightarrow> int option" where
  "get_var nw v P c = map_option cv_value
     (List.find (\<lambda>x. cv_varname x = v \<and> cv_network x = nw \<and> P x) (c_vars c))"

definition cache_blockcount :: "string \<Rightarrow> nat \<Rightarrow> bool \<Rightarrow> cache \<Rightarrow> int option" where
  "cache_blockcount nw now never_expires c =
    (if \<not> c_enabled c then None
     else get_var nw ''blockcount'' (\<lambda>x. never_expires \<or> now < cv_expires x) c)"

definition store_blockcount :: "string \<Rightarrow> nat \<Rightarrow> int \<Rightarrow> cache \<Rightarrow> cache" where
  "store_blockcount nw now n c =
    (if \<not> c_enabled c then c
     else c\<lparr>c_vars := merge_var \<lparr>cv_varname = ''blockcount'', cv_network = nw, cv_value = n,
                              cv_expires = now + 60\<rparr> (c_vars c)\<rparr>)"

definition fee_varname :: "int \<Rightarrow> string" where
  "fee_varname blocks = (if blocks \<le> 1 then ''fee_high'' else if blocks \<le> 5 then ''fee_medium'' else ''fee_low'')"

definition cache_estimatefee :: "string \<Rightarrow> nat \<Rightarrow> int \<Rightarrow> cache \<Rightarrow> int option" where
  "cache_estimatefee nw now blocks c =
    (if \<not> c_enabled c then None else get_var nw (fee_varname blocks) (\<lambda>x. now < cv_expires x) c)"

definition store_estimated_fee :: "string \<Rightarrow> nat \<Rightarrow> int \<Rightarrow> int \<Rightarrow> cache \<Rightarrow> cache" where
  "store_estimated_fee nw now blocks fee c =
    (if \<not> c_enabled c then c
     else c\<lparr>c_vars := merge_var \<lparr>cv_varname = fee_varname blocks, cv_network = nw, cv_value = fee,
                              cv_expires = now + 600\<rparr> (c_vars c)\<rparr>)"

lemma find_merge_var:
  "List.find (\<lambda>x. cv_varname x = n \<and> cv_network x = nw \<and> P x) (merge_var v vs) =
    (if cv_varname v = n \<and> cv_network v = nw then if P v then Some v else None
     else List.find (\<lambda>x. cv_varname x = n \<and> cv_network x = nw \<and> P x) vs)"
  by (induction vs) (auto simp: merge_var_def)

lemma get_var_merge [simp]:
  "get_var nw n P (c\<lparr>c_vars := merge_var v (c_vars c)\<rparr>) =
    (if cv_varname v = n \<and> cv_network v = nw then if P v then Some (cv_value v) else None else get_var nw n P c)"
  by (simp add: get_var_def find_merge_var)

section \<open>Addresses\<close>

definition cache_getaddress :: "string \<Rightarrow> string \<Rightarrow> cache \<Rightarrow> cache_address option" where
  "cache_getaddress nw a c =
    (if \<not> c_enabled c then None
     else List.find (\<lambda>r. ca_address r = a \<and> ca_network r = nw) (c_addresses c))"

definition merge_address :: "cache_address \<Rightarrow> cache_address list \<Rightarrow> cache_address list" where
  "merge_address r rs = filter (\<lambda>x. ca_address x \<noteq> ca_address r) rs @ [r]"

definition or_else :: "'a option \<Rightarrow> 'a option \<Rightarrow> 'a option" where
  "or_else a b = (case a of Some _ \<Rightarrow> a | None \<Rightarrow> b)"

text \<open>
  \<open>store_address\<close>: a balance of 0 is computed from the nodes when the transactions are complete; what is
  not known is kept from the stored row. A balance of \<^verbatim>\<open>False\<close> is stored as 0.
\<close>

definition address_n_txs :: "string \<Rightarrow> cache \<Rightarrow> nat" where
  "address_n_txs a c =
    length (filter (\<lambda>t. \<exists>n\<in>set (c_nodes c). cn_txid n = ct_txid t \<and> cn_address n = a) (c_txs c))"

definition address_outputs :: "string \<Rightarrow> bool option \<Rightarrow> cache \<Rightarrow> cache_node list" where
  "address_outputs a spent c =
    filter (\<lambda>n. cn_address n = a \<and> cn_spent n = spent \<and> \<not> cn_is_input n) (c_nodes c)"

definition address_sum :: "string \<Rightarrow> cache \<Rightarrow> int" where
  "address_sum a c =
    sum_list (map (\<lambda>n. if cn_is_input n then - cn_value n else cn_value n)
      (filter (\<lambda>n. cn_address n = a) (c_nodes c)))"

definition store_address ::
  "string \<Rightarrow> string \<Rightarrow> nat option \<Rightarrow> int option \<Rightarrow> nat option \<Rightarrow> bool \<Rightarrow> bytes option \<Rightarrow> cache \<Rightarrow> cache" where
  "store_address nw a last_block balance n_utxos txs_complete last_txid c =
    (if \<not> c_enabled c then c
     else let n_txs = (if txs_complete then Some (address_n_txs a c) else None);
              n_utxos' =
                (if txs_complete \<and> n_utxos = None then
                   (if address_outputs a None c = [] then Some (length (address_outputs a (Some False) c)) else None)
                 else n_utxos);
              balance' = (if txs_complete \<and> (balance = None \<or> balance = Some 0) then Some (address_sum a c)
                          else balance);
              old = cache_getaddress nw a c
          in c\<lparr>c_addresses := merge_address
               \<lparr>ca_address = a, ca_network = nw,
                ca_balance = or_else balance' (Option.bind old ca_balance),
                ca_last_block = or_else (if last_block = Some 0 then None else last_block) (Option.bind old ca_last_block),
                ca_last_txid = or_else last_txid (Option.bind old ca_last_txid),
                ca_n_utxos = or_else n_utxos' (Option.bind old ca_n_utxos),
                ca_n_txs = or_else n_txs (Option.bind old ca_n_txs)\<rparr> (c_addresses c)\<rparr>)"

end
