(* ===== verification/Service_Calls.thy ===== *)
theory Service_Calls
  imports Service_Exec Service_Cache Networks
begin

text \<open>
  The methods \<^verbatim>\<open>blockcount\<close>, \<^verbatim>\<open>estimatefee\<close> and \<^verbatim>\<open>getbalance\<close> of \<^verbatim>\<open>Service\<close> in
  \<^verbatim>\<open>bitcoinlib/services/services.py\<close>: requests to the providers, combined with the cache. The outside
  world is a record of functions of the number of requests made so far: the clock, the random
  numbers and what the providers answer.
\<close>

section \<open>The service and the outside world\<close>

record service =
  sv_settings :: settings
  sv_network :: network
  sv_cache :: cache
  sv_blockcount :: "int option"
  sv_count_time :: nat
  sv_requests :: nat
  sv_results :: "string list"
  sv_results_cache_n :: nat
  sv_complete :: "bool option"

record world =
  wo_now :: "nat \<Rightarrow> nat"
  wo_random :: "nat \<Rightarrow> string \<Rightarrow> nat"
  wo_shuffle :: "nat \<Rightarrow> provider list \<Rightarrow> provider list"
  wo_blockcount :: "nat \<Rightarrow> provider \<Rightarrow> int answer"
  wo_estimatefee :: "nat \<Rightarrow> int \<Rightarrow> provider \<Rightarrow> int answer"
  wo_getbalance :: "nat \<Rightarrow> string list \<Rightarrow> provider \<Rightarrow> int answer"

text \<open>
  A call of \<^verbatim>\<open>_provider_execute\<close>; \<^verbatim>\<open>False\<close> is \<open>None\<close>. Of \<^verbatim>\<open>results\<close> the names of the providers are kept.
\<close>

definition now :: "world \<Rightarrow> service \<Rightarrow> nat" where
  "now w sv = wo_now w (sv_requests sv)"

definition request :: "world \<Rightarrow> (nat \<Rightarrow> provider \<Rightarrow> 'a answer) \<Rightarrow> service \<Rightarrow> ('a option \<times> service) res" where
  "request w ask sv =
    (let k = sv_requests sv; se = sv_settings sv
     in bindE (provider_execute se (provider_order (wo_random w k) (wo_shuffle w k) se) (ask k)) (\<lambda>(r, e).
          Inr (r, sv\<lparr>sv_requests := Suc k, sv_results := map fst (ex_results e)\<rparr>)))"

text \<open>\<^verbatim>\<open>False\<close> counts as the number 0.\<close>

definition number :: "int option \<Rightarrow> int" where
  "number x = (case x of Some n \<Rightarrow> n | None \<Rightarrow> 0)"

section \<open>The block count\<close>

definition BLOCK_COUNT_CACHE_TIME :: nat where
  "BLOCK_COUNT_CACHE_TIME = 3"

text \<open>Five more requests, when the first answer is below the number that is cached.\<close>

fun more_blockcounts :: "nat \<Rightarrow> world \<Rightarrow> service \<Rightarrow> (int list \<times> service) res" where
  "more_blockcounts 0 w sv = Inr ([], sv)"
| "more_blockcounts (Suc k) w sv =
     bindE (request w (wo_blockcount w) sv) (\<lambda>(r, sv1).
       bindE (more_blockcounts k w sv1) (\<lambda>(rs, sv2). Inr (number r # rs, sv2)))"

text \<open>\<^verbatim>\<open>sorted(blockcounts)[-2]\<close>\<close>

definition second_largest :: "int list \<Rightarrow> int" where
  "second_largest xs = sort xs ! (length xs - 2)"

definition update_blockcount :: "world \<Rightarrow> service \<Rightarrow> service res" where
  "update_blockcount w sv =
    (let nw = n_name (sv_network sv); now0 = now w sv;
         last_cache = number (cache_blockcount nw now0 True (sv_cache sv))
     in bindE (request w (wo_blockcount w) sv) (\<lambda>(r, sv1).
          let new_count = number r
          in bindE
               (if new_count < last_cache then
                  bindE (more_blockcounts 5 w sv1) (\<lambda>(rs, sv2).
                    Inr (sv2\<lparr>sv_blockcount := Some (second_largest (last_cache # rs)),
                             sv_count_time := now0\<rparr>))
                else if number (sv_blockcount sv1) = 0 \<or> new_count \<noteq> 0 \<and> number (sv_blockcount sv1) < new_count
                then Inr (sv1\<lparr>sv_blockcount := Some new_count, sv_count_time := now0\<rparr>)
                else Inr sv1)
               (\<lambda>sv3. Inr
                  (if sv_results sv3 \<noteq> [] \<and> hd (sv_results sv3) \<noteq> ''caching''
                   then sv3\<lparr>sv_cache := store_blockcount nw (now w sv3) (number (sv_blockcount sv3)) (sv_cache sv3)\<rparr>
                   else sv3))))"

definition blockcount :: "world \<Rightarrow> service \<Rightarrow> (int option \<times> service) res" where
  "blockcount w sv =
    (let cached = cache_blockcount (n_name (sv_network sv)) (now w sv) False (sv_cache sv)
     in if number cached \<noteq> 0 then Inr (cached, sv\<lparr>sv_blockcount := cached\<rparr>)
        else if int (sv_count_time sv) < int (now w sv) - int BLOCK_COUNT_CACHE_TIME
        then bindE (update_blockcount w sv) (\<lambda>sv1. Inr (sv_blockcount sv1, sv1))
        else Inr (sv_blockcount sv, sv))"

section \<open>Fees\<close>

definition fee_blocks :: "int \<Rightarrow> string \<Rightarrow> int" where
  "fee_blocks blocks priority =
    (if priority = ''low'' then 25 else if priority = ''high'' then 2 else blocks)"

definition clamp_fee :: "network \<Rightarrow> int \<Rightarrow> int" where
  "clamp_fee n fee =
    (if fee < int (n_fee_min n) then int (n_fee_min n)
     else if int (n_fee_max n) < fee then int (n_fee_max n) else fee)"

definition estimatefee :: "world \<Rightarrow> int \<Rightarrow> string \<Rightarrow> service \<Rightarrow> (int \<times> service) res" where
  "estimatefee w blocks0 priority sv =
    (let blocks = fee_blocks blocks0 priority; n = sv_network sv; nw = n_name n;
         cached = (if se_min_providers (sv_settings sv) \<le> 1
                   then number (cache_estimatefee nw (now w sv) blocks (sv_cache sv)) else 0)
     in if cached \<noteq> 0 then Inr (cached, sv\<lparr>sv_results_cache_n := 1\<rparr>)
        else bindE (request w (\<lambda>k. wo_estimatefee w k blocks) (sv\<lparr>sv_results_cache_n := 0\<rparr>)) (\<lambda>(r, sv1).
          bindE
            (if number r \<noteq> 0 then Inr (number r)
             else case n_fee_default n of
               Some f \<Rightarrow> if f \<noteq> 0 then Inr (int f) else Inl ServiceError
             | None \<Rightarrow> Inl ServiceError)
            (\<lambda>fee0. let fee = clamp_fee n fee0
              in Inr (fee, sv1\<lparr>sv_cache := store_estimated_fee nw (now w sv1) blocks fee (sv_cache sv1)\<rparr>))))"

section \<open>Balances\<close>

text \<open>
  The inner loop of \<open>getbalance\<close>: it removes the addresses whose balance is cached from the list that it
  iterates over, so that the address behind a removed one is not looked at.
\<close>

function cached_pass ::
  "world \<Rightarrow> nat \<Rightarrow> string list \<Rightarrow> int \<Rightarrow> service \<Rightarrow> (string list \<times> int \<times> service) res" where
  "cached_pass w i xs tot sv =
    (if length xs \<le> i then Inr (xs, tot, sv)
     else case cache_getaddress (n_name (sv_network sv)) (xs ! i) (sv_cache sv) of
       None \<Rightarrow> cached_pass w (Suc i) xs tot sv
     | Some r \<Rightarrow>
         (case ca_last_block r of
            None \<Rightarrow> cached_pass w (Suc i) xs tot sv
          | Some b \<Rightarrow>
              if b = 0 then cached_pass w (Suc i) xs tot sv
              else bindE (blockcount w sv) (\<lambda>(count, sv1).
                case count of
                  None \<Rightarrow> Inl TypeError
                | Some n \<Rightarrow>
                    if n \<le> int b \<and> number (ca_balance r) \<noteq> 0
                    then cached_pass w (Suc i) (remove1 (xs ! i) xs) (tot + number (ca_balance r)) sv1
                    else cached_pass w (Suc i) xs tot sv1)))"
  by pat_completeness auto
termination
  by (relation "measure (\<lambda>(w, i, xs, tot, sv). length xs - i)") (auto simp: length_remove1)

declare cached_pass.simps [simp del]

text \<open>The loop over the requests: \<open>None\<close> when it never ends. A slice may start at a negative index.\<close>

definition slice_to :: "int \<Rightarrow> 'a list \<Rightarrow> 'a list" where
  "slice_to n xs = take (if n < 0 then nat (int (length xs) + n) else nat n) xs"

definition slice_from :: "int \<Rightarrow> 'a list \<Rightarrow> 'a list" where
  "slice_from n xs = drop (if n < 0 then nat (int (length xs) + n) else nat n) xs"

partial_function (option) getbalance_loop ::
  "world \<Rightarrow> int \<Rightarrow> string list \<Rightarrow> int \<Rightarrow> service \<Rightarrow> (int \<times> service) res option" where
  "getbalance_loop w n xs tot sv =
    (if xs = [] then Some (Inr (tot, sv))
     else case cached_pass w 0 xs tot sv of
       Inl e \<Rightarrow> Some (Inl e)
     | Inr (ys, tot1, sv1) \<Rightarrow>
         (case request w (\<lambda>k. wo_getbalance w k (slice_to n ys)) sv1 of
            Inl e \<Rightarrow> Some (Inl e)
          | Inr (r, sv2) \<Rightarrow>
              getbalance_loop w n (slice_from n ys) (tot1 + number r)
                (if length ys = 1
                 then sv2\<lparr>sv_cache := store_address (n_name (sv_network sv2)) (hd ys) None (Some (number r))
                            None False None (sv_cache sv2)\<rparr>
                 else sv2)))"

definition getbalance :: "world \<Rightarrow> int \<Rightarrow> string list \<Rightarrow> service \<Rightarrow> (int \<times> service) res option" where
  "getbalance w n xs sv = getbalance_loop w n xs 0 sv"

section \<open>What the calls keep\<close>

text \<open>A call never changes the settings or the network; the block count leaves the addresses alone.\<close>

definition same_service :: "service \<Rightarrow> service \<Rightarrow> bool" where
  "same_service sv sv' \<longleftrightarrow> sv_settings sv' = sv_settings sv \<and> sv_network sv' = sv_network sv \<and>
     c_enabled (sv_cache sv') = c_enabled (sv_cache sv) \<and> c_addresses (sv_cache sv') = c_addresses (sv_cache sv)"

lemma same_service_refl [simp]: "same_service sv sv"
  by (simp add: same_service_def)

lemma same_service_trans: "same_service a b \<Longrightarrow> same_service b c \<Longrightarrow> same_service a c"
  by (simp add: same_service_def)

lemma request_cases:
  assumes "request w ask sv = Inr (r, sv')"
  obtains e where "sv' = sv\<lparr>sv_requests := Suc (sv_requests sv), sv_results := map fst (ex_results e)\<rparr>"
    "provider_execute (sv_settings sv) (provider_order (wo_random w (sv_requests sv))
       (wo_shuffle w (sv_requests sv)) (sv_settings sv)) (ask (sv_requests sv)) = Inr (r, e)"
  using assms by (auto simp: request_def Let_def bindE_Inr_iff)

lemma request_same: "request w ask sv = Inr (r, sv') \<Longrightarrow> same_service sv sv' \<and> sv_cache sv' = sv_cache sv"
  by (elim request_cases) (simp add: same_service_def)

lemma more_blockcounts_same:
  "more_blockcounts k w sv = Inr (rs, sv') \<Longrightarrow> same_service sv sv' \<and> sv_cache sv' = sv_cache sv \<and> length rs = k"
proof (induction k arbitrary: sv rs)
  case (Suc k)
  then show ?case unfolding more_blockcounts.simps bindE_Inr_iff case_prod_unfold
    by (fastforce dest: request_same intro: same_service_trans)
qed simp

lemma store_blockcount_same [simp]:
  "c_enabled (store_blockcount nw t n c) = c_enabled c" "c_addresses (store_blockcount nw t n c) = c_addresses c"
  by (simp_all add: store_blockcount_def)

lemma update_blockcount_same: "update_blockcount w sv = Inr sv' \<Longrightarrow> same_service sv sv'"
  unfolding update_blockcount_def bindE_Inr_iff case_prod_unfold Let_def
proof (elim exE conjE, goal_cases)
  case (1 x sv3)
  have "same_service sv (snd x)" using request_same [of w _ sv "fst x" "snd x"] 1(1) by simp
  moreover have "same_service (snd x) sv3"
  proof -
    have upd: "same_service (snd x) (sv2\<lparr>sv_blockcount := b, sv_count_time := t\<rparr>)"
      if "same_service (snd x) sv2" for sv2 b t using that by (simp add: same_service_def)
    show ?thesis using 1(2) upd
      by (auto simp: bindE_Inr_iff case_prod_unfold split: if_splits
          dest!: more_blockcounts_same [of 5 w "snd x" "fst y" "snd y" for y, simplified])
  qed
  moreover have "same_service sv3 sv'" using 1(3) by (auto simp: same_service_def split: if_splits)
  ultimately show ?case by (blast intro: same_service_trans)
qed

lemma blockcount_same: "blockcount w sv = Inr (n, sv') \<Longrightarrow> same_service sv sv'"
  unfolding blockcount_def Let_def
  by (auto simp: bindE_Inr_iff split: if_splits dest: update_blockcount_same) (auto simp: same_service_def)

section \<open>The inner loop\<close>

text \<open>The balances in the cache are the true ones.\<close>

definition true_cache :: "(string \<Rightarrow> int) \<Rightarrow> service \<Rightarrow> bool" where
  "true_cache bal sv \<longleftrightarrow>
    (\<forall>a r. cache_getaddress (n_name (sv_network sv)) a (sv_cache sv) = Some r \<longrightarrow>
       number (ca_balance r) = 0 \<or> number (ca_balance r) = bal a)"

lemma true_cache_same: "same_service sv sv' \<Longrightarrow> true_cache bal sv' \<longleftrightarrow> true_cache bal sv"
  by (simp add: true_cache_def same_service_def cache_getaddress_def)

lemma sum_list_remove1: "x \<in> set xs \<Longrightarrow> f x + sum_list (map f (remove1 x xs)) = (sum_list (map f xs) :: int)"
  by (induction xs) auto

text \<open>One step of the loop: the address is removed and counted, or it stays.\<close>

lemma cached_pass_step:
  assumes "i < length xs" "cached_pass w i xs tot sv = Inr q"
  obtains (keep) sv1 where "sv1 = sv \<or> (\<exists>n. blockcount w sv = Inr (n, sv1))" "same_service sv sv1"
        "cached_pass w (Suc i) xs tot sv1 = Inr q"
    | (drop) r sv1 n where "blockcount w sv = Inr (n, sv1)" "same_service sv sv1"
        "cache_getaddress (n_name (sv_network sv)) (xs ! i) (sv_cache sv) = Some r" "number (ca_balance r) \<noteq> 0"
        "cached_pass w (Suc i) (remove1 (xs ! i) xs) (tot + number (ca_balance r)) sv1 = Inr q"
proof (cases "cache_getaddress (n_name (sv_network sv)) (xs ! i) (sv_cache sv)")
  case None
  then show ?thesis using assms keep [of sv] by (simp add: cached_pass.simps [of w i xs])
next
  case (Some r)
  show ?thesis
  proof (cases "ca_last_block r = None \<or> ca_last_block r = Some 0")
    case True
    then show ?thesis using assms keep [of sv] Some by (auto simp: cached_pass.simps [of w i xs])
  next
    case False
    then obtain b where b: "ca_last_block r = Some b" "b \<noteq> 0" by auto
    with assms Some obtain count sv1 where c: "blockcount w sv = Inr (count, sv1)"
      by (cases "blockcount w sv") (auto simp: cached_pass.simps [of w i xs])
    then show ?thesis using assms Some b blockcount_same [OF c] keep [of sv1] drop [OF c, of r]
      by (auto simp: cached_pass.simps [of w i xs] split: option.splits if_splits)
  qed
qed

lemma cached_pass_result:
  assumes "cached_pass w i xs tot sv = Inr (ys, tot', sv')"
  shows "length ys \<le> length xs \<and> same_service sv sv' \<and>
    (true_cache bal sv \<longrightarrow> tot' + sum_list (map bal ys) = tot + sum_list (map bal xs))"
  using assms
proof (induction "length xs - i" arbitrary: i xs tot sv rule: less_induct)
  case less
  show ?case
  proof (cases "i < length xs")
    case False
    then show ?thesis using less.prems by (simp add: cached_pass.simps [of w i xs])
  next
    case True
    from True less.prems show ?thesis
    proof (cases rule: cached_pass_step)
      case (keep sv1)
      then show ?thesis using less.hyps [OF _ keep(3)] True true_cache_same [OF keep(2)]
        by (auto intro: same_service_trans)
    next
      case (drop r sv1 n)
      have m: "length (remove1 (xs ! i) xs) - Suc i < length xs - i" using True by (simp add: length_remove1)
      have "true_cache bal sv \<Longrightarrow> number (ca_balance r) = bal (xs ! i)" using drop(3,4) by (auto simp: true_cache_def)
      then show ?thesis using less.hyps [OF m drop(5)] True true_cache_same [OF drop(2)] drop(2)
          sum_list_remove1 [of "xs ! i" xs bal]
        by (auto simp: length_remove1 intro: same_service_trans)
    qed
  qed
qed

section \<open>The balance\<close>

lemma slice_from_shorter: "0 < n \<Longrightarrow> length ys \<le> length xs \<Longrightarrow> xs \<noteq> [] \<Longrightarrow> length (slice_from n ys) < length xs"
  by (cases xs) (auto simp: slice_from_def)


text \<open>C14: \<open>getbalance\<close> returns, a total or an error, for a positive number of addresses per request, whatever
  the cache holds and the providers answer.
\<close>

theorem getbalance_returns:
  assumes "0 < n"
  shows "\<exists>r. getbalance w n xs sv = Some r"
proof -
  have "\<exists>r. getbalance_loop w n xs tot sv = Some r" for xs tot sv
  proof (induction "length xs" arbitrary: xs tot sv rule: less_induct)
    case less
    show ?case
    proof (cases "xs = [] \<or> is_ok (cached_pass w 0 xs tot sv) = False")
      case True
      then show ?thesis
        by (cases "xs = []"; cases "cached_pass w 0 xs tot sv")
          (auto simp: getbalance_loop.simps [of w n xs] getbalance_loop.simps [of w n "[]"] is_ok_def)
    next
      case False
      then obtain ys tot1 sv1 where c: "cached_pass w 0 xs tot sv = Inr (ys, tot1, sv1)"
        by (cases "cached_pass w 0 xs tot sv") (auto simp: is_ok_def)
      have "length (slice_from n ys) < length xs"
        using False cached_pass_result [OF c] assms by (intro slice_from_shorter) auto
      from less.hyps [OF this] show ?thesis using False c
        by (auto simp: getbalance_loop.simps [of w n xs] split: sum.splits)
    qed
  qed
  then show ?thesis by (simp add: getbalance_def)
qed

section \<open>Providers that answer\<close>

text \<open>
  Some provider answers every request for the block count or for balances, there are fewer providers
  than errors allowed, and \<^verbatim>\<open>random.shuffle\<close> permutes a list.
\<close>

definition responsive :: "settings \<Rightarrow> (provider \<Rightarrow> 'a answer) \<Rightarrow> bool" where
  "responsive se ask \<longleftrightarrow> (\<exists>p\<in>set (se_providers se). answers se ask p \<noteq> None)"

definition steady :: "world \<Rightarrow> settings \<Rightarrow> bool" where
  "steady w se \<longleftrightarrow> 0 < se_max_providers se \<and> length (se_providers se) < se_max_errors se \<and>
    (\<forall>k ps. mset (wo_shuffle w k ps) = mset ps) \<and> (\<forall>k. responsive se (wo_blockcount w k)) \<and>
    (\<forall>k ys. responsive se (wo_getbalance w k ys))"

lemma request_answered:
  assumes "steady w (sv_settings sv)" "responsive (sv_settings sv) (ask (sv_requests sv))"
  shows "\<exists>v sv' p. request w ask sv = Inr (Some v, sv') \<and> ask (sv_requests sv) p = Answer v \<and>
    same_service sv sv' \<and> sv_blockcount sv' = sv_blockcount sv"
proof -
  define se where "se = sv_settings sv"
  let ?k = "sv_requests sv"
  let ?o = "provider_order (wo_random w ?k) (wo_shuffle w ?k) se"
  have "mset ?o = mset (se_providers se)"
    using assms(1) by (simp add: provider_order_def steady_def Let_def)
  then have o: "set ?o = set (se_providers se)" "length ?o = length (se_providers se)"
    by (metis set_mset_mset, metis size_mset)
  have "length (filter (fails se (ask ?k)) ?o) \<le> length ?o" by simp
  then have few: "length (filter (fails se (ask ?k)) ?o) < se_max_errors se"
    by (rule order.strict_trans1) (use o(2) assms(1) in \<open>simp add: steady_def se_def\<close>)
  have pos: "0 < se_max_providers se" using assms(1) by (simp add: steady_def se_def)
  have "List.map_filter (answers se (ask ?k)) ?o \<noteq> []"
    using assms(2) o(1) by (auto simp: map_filter_Nil_iff responsive_def se_def)
  then obtain m v ys where ys: "List.map_filter (answers se (ask ?k)) ?o = (m, v) # ys"
    by (cases "List.map_filter (answers se (ask ?k)) ?o") auto
  obtain p where p: "answers se (ask ?k) p = Some (m, v)" using map_filter_first [OF ys] by blast
  obtain e where e: "provider_execute se ?o (ask ?k) = Inr (Some v, e)"
    using few pos ys provider_loop_results [of reset_results se "ask ?k" ?o]
    by (cases "se_max_providers se") (auto simp: provider_execute_def reset_results_def)
  let ?sv = "sv\<lparr>sv_requests := Suc ?k, sv_results := map fst (ex_results e)\<rparr>"
  have r: "request w ask sv = Inr (Some v, ?sv)" using e by (simp add: request_def Let_def se_def)
  moreover have "ask ?k p = Answer v" using p by (auto simp: answers_def split: if_splits answer.splits)
  moreover have "same_service sv ?sv" using request_same [OF r] by simp
  ultimately show ?thesis by (intro exI [of _ v] exI [of _ ?sv] exI [of _ p]) simp
qed








text \<open>
  With 0 addresses per request the list never gets shorter: where every request is answered and
  nothing is cached, the call does not return.
\<close>

lemma getbalance_zero_diverges:
  assumes "\<not> c_enabled (sv_cache sv)" "xs \<noteq> []" "steady w (sv_settings sv)"
  shows "getbalance w 0 xs sv = None"
proof -
  have pass: "cached_pass w i xs tot sv = Inr (xs, tot, sv)" if "\<not> c_enabled (sv_cache sv)" for i xs tot sv
  proof (induction "length xs - i" arbitrary: i rule: less_induct)
    case less
    then show ?case using that
      by (cases "length xs \<le> i") (simp_all add: cached_pass.simps [of w i xs] cache_getaddress_def)
  qed
  define P where "P w' n xs tot sv' (y :: (int \<times> service) res) \<longleftrightarrow>
    \<not> (w' = w \<and> n = 0 \<and> xs \<noteq> [] \<and> \<not> c_enabled (sv_cache sv') \<and> steady w (sv_settings sv'))"
    for w' and n :: int and xs :: "string list" and tot :: int and sv' :: service and y
  have P: "P w' n xs tot sv' y" if "getbalance_loop w' n xs tot sv' = Some y" for w' n xs tot sv' y
  proof (rule getbalance_loop.raw_induct [OF _ that], goal_cases)
    case (1 loop w' n xs tot sv y)
    show ?case
    proof (rule ccontr)
      assume "\<not> P w' n xs tot sv y"
      then have a: "w' = w" "n = 0" "xs \<noteq> []" "\<not> c_enabled (sv_cache sv)" "steady w (sv_settings sv)"
        by (simp_all add: P_def)
      then obtain v sv2 where q: "request w (\<lambda>k. wo_getbalance w k (slice_to 0 xs)) sv = Inr (Some v, sv2)"
          "same_service sv sv2"
        using request_answered [of w sv "\<lambda>k. wo_getbalance w k (slice_to 0 xs)"] by (auto simp: steady_def)
      obtain sv3 where l: "loop w 0 xs (tot + v) sv3 = Some y" and same: "same_service sv2 sv3"
        using 1(2) a q pass
        by (auto simp: number_def slice_from_def same_service_def store_address_def split: if_splits)
      show False using 1(1) [OF l] a same_service_trans [OF q(2) same]
        by (auto simp: P_def same_service_def)
    qed
  qed
  then show ?thesis using assms by (cases "getbalance w 0 xs sv") (auto simp: getbalance_def P_def dest: P)
qed

section \<open>Fees stay within the bounds of the network\<close>

definition fees_bounded :: "network \<Rightarrow> cache \<Rightarrow> bool" where
  "fees_bounded n c \<longleftrightarrow> (\<forall>v\<in>set (c_vars c). cv_network v = n_name n \<longrightarrow>
     cv_varname v \<in> {''fee_high'', ''fee_medium'', ''fee_low''} \<longrightarrow>
     int (n_fee_min n) \<le> cv_value v \<and> cv_value v \<le> int (n_fee_max n))"

lemma fee_varname_mem: "fee_varname b \<in> {''fee_high'', ''fee_medium'', ''fee_low''}"
  by (simp add: fee_varname_def)

lemma fees_bounded_cached:
  assumes "fees_bounded n c" "cache_estimatefee (n_name n) t b c = Some f"
  shows "int (n_fee_min n) \<le> f \<and> f \<le> int (n_fee_max n)"
  using assms fee_varname_mem [of b]
  by (auto simp: cache_estimatefee_def get_var_def fees_bounded_def find_Some_iff split: if_splits)

lemma clamp_fee_bounds:
  "n_fee_min n \<le> n_fee_max n \<Longrightarrow> int (n_fee_min n) \<le> clamp_fee n f \<and> clamp_fee n f \<le> int (n_fee_max n)"
  by (simp add: clamp_fee_def)

lemma fees_bounded_store:
  "fees_bounded n c \<Longrightarrow> int (n_fee_min n) \<le> f \<Longrightarrow> f \<le> int (n_fee_max n) \<Longrightarrow>
   fees_bounded n (store_estimated_fee (n_name n) t b f c)"
  by (auto simp: fees_bounded_def store_estimated_fee_def merge_var_def)

text \<open>A call returns a cached fee, or stores the one it returns.\<close>

lemma estimatefee_cases:
  assumes "estimatefee w blocks priority sv = Inr (fee, sv')"
  obtains (cached) "cache_estimatefee (n_name (sv_network sv)) (now w sv) (fee_blocks blocks priority) (sv_cache sv) = Some fee"
      "sv' = sv\<lparr>sv_results_cache_n := 1\<rparr>"
    | (fetched) r sv1 fee0 where
      "request w (\<lambda>k. wo_estimatefee w k (fee_blocks blocks priority)) (sv\<lparr>sv_results_cache_n := 0\<rparr>) = Inr (r, sv1)"
      "fee = clamp_fee (sv_network sv) fee0"
      "sv' = sv1\<lparr>sv_cache := store_estimated_fee (n_name (sv_network sv)) (now w sv1) (fee_blocks blocks priority) fee (sv_cache sv1)\<rparr>"
proof -
  let ?n = "sv_network sv"
  define c where "c = (if se_min_providers (sv_settings sv) \<le> 1
    then number (cache_estimatefee (n_name ?n) (now w sv) (fee_blocks blocks priority) (sv_cache sv)) else 0)"
  note e = assms(1) [unfolded estimatefee_def Let_def, folded c_def]
  show ?thesis
  proof (cases "c = 0")
    case True
    then show ?thesis using e fetched by (auto simp: bindE_Inr_iff)
  next
    case False
    then have "cache_estimatefee (n_name ?n) (now w sv) (fee_blocks blocks priority) (sv_cache sv) = Some c"
      by (auto simp: number_def c_def split: option.splits if_splits)
    then show ?thesis using cached False e by auto
  qed
qed

text \<open>An estimated fee lies between the minimum and the maximum of the network, whatever the providers
  answer, and a call keeps this of the fees that are cached.
\<close>

lemma estimatefee_bounds:
  assumes "estimatefee w blocks priority sv = Inr (fee, sv')"
    and "fees_bounded (sv_network sv) (sv_cache sv)" "n_fee_min (sv_network sv) \<le> n_fee_max (sv_network sv)"
  shows "int (n_fee_min (sv_network sv)) \<le> fee \<and> fee \<le> int (n_fee_max (sv_network sv)) \<and>
    fees_bounded (sv_network sv) (sv_cache sv')"
  using assms(1)
proof (cases rule: estimatefee_cases)
  case cached
  then show ?thesis using fees_bounded_cached [OF assms(2)] assms(2) by simp
next
  case (fetched r sv1 fee0)
  then show ?thesis using clamp_fee_bounds [OF assms(3)] request_same [OF fetched(1)] assms(2)
    by (auto intro: fees_bounded_store)
qed

section \<open>The consensus about the block count\<close>

lemma sorted_count_ge:
  assumes "sorted xs" "i < length xs"
  shows "length xs - i \<le> length (filter (\<lambda>x. xs ! i \<le> x) xs)" "length (filter (\<lambda>x. xs ! i < x) xs) \<le> length xs - Suc i"
proof -
  have "xs = take i xs @ drop i xs" by simp
  then have "length (filter (\<lambda>x. xs ! i \<le> x) xs) \<ge> length (filter (\<lambda>x. xs ! i \<le> x) (drop i xs))"
    by (metis filter_append le_add2 length_append)
  moreover have "filter (\<lambda>x. xs ! i \<le> x) (drop i xs) = drop i xs"
    using assms by (auto simp: filter_id_conv in_set_conv_nth sorted_nth_mono)
  ultimately show "length xs - i \<le> length (filter (\<lambda>x. xs ! i \<le> x) xs)" by simp
  have "xs = take (Suc i) xs @ drop (Suc i) xs" by simp
  then have "length (filter (\<lambda>x. xs ! i < x) xs) =
      length (filter (\<lambda>x. xs ! i < x) (take (Suc i) xs)) + length (filter (\<lambda>x. xs ! i < x) (drop (Suc i) xs))"
    by (metis filter_append length_append)
  moreover have "filter (\<lambda>x. xs ! i < x) (take (Suc i) xs) = []"
    using assms by (auto simp: filter_empty_conv in_set_conv_nth not_less sorted_nth_mono)
  moreover have "length (filter (\<lambda>x. xs ! i < x) (drop (Suc i) xs)) \<le> length xs - Suc i"
    using length_filter_le [of _ "drop (Suc i) xs"] by simp
  ultimately show "length (filter (\<lambda>x. xs ! i < x) xs) \<le> length xs - Suc i" by simp
qed

text \<open>Two of the numbers are at least the one that is chosen, at most one is above it.\<close>

lemma second_largest_count:
  assumes "2 \<le> length xs"
  shows "2 \<le> length (filter (\<lambda>x. second_largest xs \<le> x) xs)" "length (filter (\<lambda>x. second_largest xs < x) xs) \<le> 1"
proof -
  have f: "length (filter P (sort xs)) = length (filter P xs)" for P
    by (metis mset_filter mset_sort size_mset)
  show "2 \<le> length (filter (\<lambda>x. second_largest xs \<le> x) xs)"
    using sorted_count_ge(1) [of "sort xs" "length xs - 2"] assms by (simp add: second_largest_def f)
  show "length (filter (\<lambda>x. second_largest xs < x) xs) \<le> 1"
    using sorted_count_ge(2) [of "sort xs" "length xs - 2"] assms by (simp add: second_largest_def f)
qed

text \<open>
  When the first answer is below the cached count, six numbers are compared: at least two of them reach
  the one that is chosen, and at most one exceeds it.
\<close>

lemma blockcount_consensus:
  assumes "request w (wo_blockcount w) sv = Inr (r, sv1)" "more_blockcounts 5 w sv1 = Inr (rs, sv2)"
    and "last_cache = number (cache_blockcount (n_name (sv_network sv)) (now w sv) True (sv_cache sv))"
    and "number r < last_cache"
  shows "\<exists>sv' n. update_blockcount w sv = Inr sv' \<and> sv_blockcount sv' = Some n \<and> n \<in> set (last_cache # rs) \<and>
    2 \<le> length (filter (\<lambda>x. n \<le> x) (last_cache # rs)) \<and> length (filter (\<lambda>x. n < x) (last_cache # rs)) \<le> 1"
proof -
  let ?n = "second_largest (last_cache # rs)"
  have l: "length rs = 5" using more_blockcounts_same [OF assms(2)] by simp
  then have "?n \<in> set (sort (last_cache # rs))"
    unfolding second_largest_def by (intro nth_mem) simp
  then have "?n \<in> set (last_cache # rs)" by (simp only: set_sort)
  moreover obtain sv' where "update_blockcount w sv = Inr sv'" "sv_blockcount sv' = Some ?n"
    using assms by (auto simp: update_blockcount_def Let_def)
  ultimately show ?thesis using second_largest_count [of "last_cache # rs"] l by auto
qed

text \<open>The fee for priority \<^verbatim>\<open>high\<close> is cached under the name of the medium one.\<close>

lemma high_fee_cached_as_medium: "fee_varname (fee_blocks blocks ''high'') = ''fee_medium''"
  by (simp add: fee_blocks_def fee_varname_def)

section \<open>Examples\<close>

definition example_balance :: "string \<Rightarrow> int" where
  "example_balance a = int (length a)"

definition example_world :: world where
  "example_world =
    \<lparr>wo_now = \<lambda>k. 1000 + k, wo_random = \<lambda>k p. 0, wo_shuffle = \<lambda>k ps. ps,
     wo_blockcount = \<lambda>k p. Answer 90, wo_estimatefee = \<lambda>k b p. Answer 5,
     wo_getbalance = \<lambda>k ys p. Answer (sum_list (map example_balance ys))\<rparr>"

definition example_cache :: cache where
  "example_cache =
    \<lparr>c_enabled = True, c_txs = [], c_nodes = [],
     c_addresses = [\<lparr>ca_address = ''ab'', ca_network = ''bitcoin'', ca_balance = Some 2, ca_last_block = Some 100,
       ca_last_txid = None, ca_n_utxos = None, ca_n_txs = None\<rparr>],
     c_vars = [\<lparr>cv_varname = ''fee_low'', cv_network = ''bitcoin'', cv_value = 2000, cv_expires = 10\<rparr>]\<rparr>"

definition example_network :: network where
  "example_network = NETWORK_DEFINITIONS ! 1"

definition example_service :: service where
  "example_service =
    \<lparr>sv_settings = example_settings, sv_network = example_network, sv_cache = example_cache,
     sv_blockcount = Some 90, sv_count_time = 0, sv_requests = 0, sv_results = [], sv_results_cache_n = 0,
     sv_complete = None\<rparr>"



theorem getbalance_returns_witness: "\<exists>r. getbalance example_world 1 [''ab'', ''c''] example_service = Some r"
  by (rule getbalance_returns) simp


definition example_fee_service :: service where
  "example_fee_service =
    \<lparr>sv_settings = example_settings, sv_network = example_network,
     sv_cache = store_estimated_fee ''bitcoin'' 1001 25 1000 example_cache,
     sv_blockcount = Some 90, sv_count_time = 0, sv_requests = 1, sv_results = [''b''], sv_results_cache_n = 0,
     sv_complete = None\<rparr>"

lemma estimatefee_bounds_witness:
  "n_fee_min example_network \<le> 1000 \<and> 1000 \<le> n_fee_max example_network \<and>
   fees_bounded example_network (sv_cache example_fee_service)"
proof -
  have "estimatefee example_world 3 ''low'' example_service = Inr (1000, example_fee_service)"
    by (simp add: estimatefee_def example_fee_service_def example_service_def example_world_def fee_blocks_def
        example_network_def NETWORK_DEFINITIONS_def cache_estimatefee_def get_var_def example_cache_def now_def fee_varname_def
        number_def request_def provider_execute_def provider_order_def example_settings_def example_providers_def
        reset_results_def ask_provider_def reachable_def clamp_fee_def)
  moreover have "fees_bounded (sv_network example_service) (sv_cache example_service)"
    by (simp add: example_service_def fees_bounded_def example_cache_def example_network_def NETWORK_DEFINITIONS_def)
  ultimately show ?thesis
    using estimatefee_bounds [of example_world 3 "''low''" example_service 1000 example_fee_service]
    by (simp add: example_service_def example_network_def NETWORK_DEFINITIONS_def)
qed

end
