(* ===== verification/Service_Txs.thy ===== *)
theory Service_Txs
  imports Service_Calls Tx
begin

text \<open>
  Transactions of the service: the tables \<^verbatim>\<open>cache_transactions\<close> and \<^verbatim>\<open>cache_transactions_node\<close>, the
  methods of \<^verbatim>\<open>Cache\<close> that store and read them, \<^verbatim>\<open>Service.getutxos\<close>, and
  \<^verbatim>\<open>transaction_update_spents\<close> of \<^verbatim>\<open>bitcoinlib/transactions.py\<close>. Transaction ids are byte strings,
  also where the code renders them in hexadecimal; an empty spending id is \<open>None\<close>.
\<close>

section \<open>Transactions\<close>

record service_input =
  vi_index_n :: nat
  vi_prev_txid :: bytes
  vi_output_n :: nat
  vi_value :: int
  vi_address :: string
  vi_unlocking_script :: bytes
  vi_sequence :: nat
  vi_witnesses :: "bytes list"

record service_output =
  vo_output_n :: nat
  vo_value :: int
  vo_address :: string
  vo_lock_script :: bytes
  vo_spent :: "bool option"
  vo_spending_txid :: "bytes option"
  vo_spending_index_n :: "nat option"

record service_tx =
  vt_txid :: bytes
  vt_date :: "nat option"
  vt_confirmations :: int
  vt_block_height :: "nat option"
  vt_network :: string
  vt_fee :: "int option"
  vt_index :: "nat option"
  vt_version :: nat
  vt_locktime :: nat
  vt_witness_type :: string
  vt_coinbase :: bool
  vt_inputs :: "service_input list"
  vt_outputs :: "service_output list"

section \<open>Storing a transaction\<close>

text \<open>
  The result is whether the transaction is kept: \<open>False\<close> when it is incomplete. A transaction that is
  known already is left as it is.
\<close>

definition input_node :: "bytes \<Rightarrow> service_input \<Rightarrow> cache_node res" where
  "input_node txid i =
    bindE (raw_witness_items (vi_witnesses i)) (\<lambda>ws.
      Inr \<lparr>cn_txid = txid, cn_index_n = vi_index_n i, cn_value = vi_value i, cn_address = vi_address i,
           cn_script = vi_unlocking_script i, cn_witnesses = ws, cn_sequence = vi_sequence i,
           cn_is_input = True, cn_spent = None, cn_ref_txid = Some (vi_prev_txid i),
           cn_ref_index_n = Some (vi_output_n i)\<rparr>)"

definition output_node :: "bytes \<Rightarrow> service_output \<Rightarrow> cache_node" where
  "output_node txid o1 =
    \<lparr>cn_txid = txid, cn_index_n = vo_output_n o1, cn_value = vo_value o1, cn_address = vo_address o1,
     cn_script = vo_lock_script o1, cn_witnesses = [], cn_sequence = 0xffffffff,
     cn_is_input = False, cn_spent = vo_spent o1, cn_ref_txid = vo_spending_txid o1,
     cn_ref_index_n = vo_spending_index_n o1\<rparr>"

definition storable :: "service_tx \<Rightarrow> bool" where
  "storable t \<longleftrightarrow> vt_txid t \<noteq> [] \<and> vt_date t \<noteq> None \<and> vt_block_height t \<notin> {None, Some 0} \<and>
     (vt_coinbase t \<or> (\<forall>i\<in>set (vt_inputs t). vi_value i \<noteq> 0))"

definition store_transaction :: "service_tx \<Rightarrow> nat option \<Rightarrow> cache \<Rightarrow> (bool \<times> cache) res" where
  "store_transaction t index c =
    (if \<not> c_enabled c then Inr (True, c)
     else if \<not> storable t then Inr (False, c)
     else if vt_txid t \<in> ct_txid ` set (c_txs c) then Inr (True, c)
     else bindE (map_res (input_node (vt_txid t)) (vt_inputs t)) (\<lambda>ins.
       Inr (True, c\<lparr>
         c_txs := c_txs c @
           [\<lparr>ct_txid = vt_txid t, ct_date = the (vt_date t), ct_confirmations = vt_confirmations t,
             ct_version = vt_version t, ct_locktime = vt_locktime t, ct_block_height = the (vt_block_height t),
             ct_network = vt_network t, ct_fee = vt_fee t, ct_index = index,
             ct_witness_type = vt_witness_type t\<rparr>],
         c_nodes := c_nodes c @ ins @ map (output_node (vt_txid t)) (vt_outputs t)\<rparr>)))"

section \<open>Reading it back\<close>

text \<open>The witnesses of an input, from one byte string: \<^verbatim>\<open>Input.__init__\<close>.\<close>

fun witness_items :: "nat \<Rightarrow> nat \<Rightarrow> bytes \<Rightarrow> bytes list" where
  "witness_items 0 cursor ws = []"
| "witness_items (Suc m) cursor ws =
     (let (item_size, s) = varbyteint_to_int (slice cursor (cursor + 9) ws);
          witness = (if item_size \<noteq> 0 then slice (cursor + s) (cursor + item_size + s) ws else [0])
      in witness # witness_items m (cursor + (item_size + s)) ws)"

definition parse_witnesses :: "bytes \<Rightarrow> bytes list" where
  "parse_witnesses ws = (let (n_items, cursor) = varbyteint_to_int (slice 0 9 ws) in witness_items n_items cursor ws)"

text \<open>The arguments that \<^verbatim>\<open>Cache._parse_db_transaction\<close> passes on to the transaction, its inputs and outputs.\<close>

definition node_input :: "cache_node \<Rightarrow> service_input" where
  "node_input n =
    \<lparr>vi_index_n = cn_index_n n, vi_prev_txid = the (cn_ref_txid n), vi_output_n = the (cn_ref_index_n n),
     vi_value = cn_value n, vi_address = cn_address n, vi_unlocking_script = cn_script n,
     vi_sequence = cn_sequence n, vi_witnesses = parse_witnesses (cn_witnesses n)\<rparr>"

definition node_output :: "cache_node \<Rightarrow> service_output" where
  "node_output n =
    \<lparr>vo_output_n = cn_index_n n, vo_value = cn_value n, vo_address = cn_address n,
     vo_lock_script = cn_script n, vo_spent = cn_spent n, vo_spending_txid = cn_ref_txid n,
     vo_spending_index_n = cn_ref_index_n n\<rparr>"

definition tx_nodes :: "bool \<Rightarrow> bytes \<Rightarrow> cache \<Rightarrow> cache_node list" where
  "tx_nodes is_input txid c = filter (\<lambda>n. cn_txid n = txid \<and> cn_is_input n = is_input) (c_nodes c)"

definition parse_db_transaction :: "cache \<Rightarrow> cache_tx \<Rightarrow> service_tx" where
  "parse_db_transaction c d =
    (let ins = map node_input (tx_nodes True (ct_txid d) c)
     in \<lparr>vt_txid = ct_txid d, vt_date = Some (ct_date d), vt_confirmations = ct_confirmations d,
         vt_block_height = Some (ct_block_height d), vt_network = ct_network d, vt_fee = ct_fee d,
         vt_index = ct_index d, vt_version = ct_version d, vt_locktime = ct_locktime d,
         vt_witness_type = ct_witness_type d,
         vt_coinbase = (\<exists>i\<in>set ins. vi_prev_txid i = replicate 32 0),
         vt_inputs = ins, vt_outputs = map node_output (tx_nodes False (ct_txid d) c)\<rparr>)"

text \<open>The number of confirmations is computed from the cached block count, 0 when there is none.\<close>

definition cached_confirmations :: "string \<Rightarrow> nat \<Rightarrow> cache \<Rightarrow> service_tx \<Rightarrow> service_tx" where
  "cached_confirmations nw now0 c t =
    (case vt_block_height t of
       Some h \<Rightarrow> if h = 0 then t
                 else t\<lparr>vt_confirmations := number (cache_blockcount nw now0 False c) - int h + 1\<rparr>
     | None \<Rightarrow> t)"

definition cache_gettransaction :: "string \<Rightarrow> nat \<Rightarrow> bytes \<Rightarrow> cache \<Rightarrow> service_tx option" where
  "cache_gettransaction nw now0 txid c =
    (if \<not> c_enabled c then None
     else map_option (\<lambda>d. cached_confirmations nw now0 c (parse_db_transaction c d))
       (List.find (\<lambda>d. ct_txid d = txid \<and> ct_network d = nw) (c_txs c)))"

section \<open>Unspent outputs in the cache\<close>

record cache_utxo =
  cu_address :: string
  cu_txid :: bytes
  cu_confirmations :: int
  cu_output_n :: nat
  cu_block_height :: nat
  cu_fee :: "int option"
  cu_value :: int
  cu_date :: nat

text \<open>The rows in the order of the blocks, a missing index first.\<close>

definition ordered_txs :: "cache_tx list \<Rightarrow> cache_tx list" where
  "ordered_txs ts = sort_key ct_block_height
     (sort_key (\<lambda>t. case ct_index t of None \<Rightarrow> 0 | Some i \<Rightarrow> Suc i) ts)"

definition cache_output_rows :: "string \<Rightarrow> string \<Rightarrow> cache \<Rightarrow> (cache_tx \<times> cache_node) list" where
  "cache_output_rows nw a c = concat (map
     (\<lambda>t. map (Pair t) (filter (\<lambda>n. cn_address n = a) (tx_nodes False (ct_txid t) c)))
     (ordered_txs (filter (\<lambda>t. ct_network t = nw) (c_txs c))))"

definition row_utxo :: "string \<Rightarrow> cache_tx \<times> cache_node \<Rightarrow> cache_utxo" where
  "row_utxo a = (\<lambda>(t, n).
    \<lparr>cu_address = a, cu_txid = ct_txid t, cu_confirmations = ct_confirmations t, cu_output_n = cn_index_n n,
     cu_block_height = ct_block_height t, cu_fee = ct_fee t, cu_value = cn_value n, cu_date = ct_date t\<rparr>)"

fun utxo_loop :: "string \<Rightarrow> bytes \<Rightarrow> (cache_tx \<times> cache_node) list \<Rightarrow> cache_utxo list \<Rightarrow> cache_utxo list" where
  "utxo_loop a after_txid [] utxos = utxos"
| "utxo_loop a after_txid (r # rows) utxos =
     (if cn_spent (snd r) = None then utxos
      else let utxos1 = (if cn_spent (snd r) = Some False then utxos @ [row_utxo a r] else utxos)
           in utxo_loop a after_txid rows (if ct_txid (fst r) = after_txid then [] else utxos1))"

definition cache_getutxos :: "string \<Rightarrow> string \<Rightarrow> bytes \<Rightarrow> cache \<Rightarrow> cache_utxo list" where
  "cache_getutxos nw a after_txid c =
    (if \<not> c_enabled c then [] else utxo_loop a after_txid (cache_output_rows nw a c) [])"

definition store_utxo :: "bytes \<Rightarrow> nat \<Rightarrow> cache \<Rightarrow> cache" where
  "store_utxo txid index_n c =
    (if \<not> c_enabled c then c
     else c\<lparr>c_nodes := map (\<lambda>n. if cn_txid n = txid \<and> cn_index_n n = index_n \<and> \<not> cn_is_input n
                             then n\<lparr>cn_spent := Some False\<rparr> else n) (c_nodes c)\<rparr>)"

text \<open>\<^verbatim>\<open>Service.getutxos\<close>: the cached ones, and those behind them from a provider.\<close>

definition getutxos ::
  "world \<Rightarrow> (nat \<Rightarrow> string \<Rightarrow> bytes \<Rightarrow> nat \<Rightarrow> provider \<Rightarrow> cache_utxo list answer) \<Rightarrow> string \<Rightarrow> bytes \<Rightarrow> nat \<Rightarrow>
   service \<Rightarrow> (cache_utxo list \<times> service) res" where
  "getutxos w ask a after_txid limit sv =
    (let nw = n_name (sv_network sv);
         utxos_cache = (if se_min_providers (sv_settings sv) \<le> 1
                        then cache_getutxos nw a after_txid (sv_cache sv) else []);
         after1 = (if utxos_cache = [] then after_txid else cu_txid (last utxos_cache))
     in bindE (request w (\<lambda>k. ask k a after1 limit)
                 (sv\<lparr>sv_results_cache_n := length utxos_cache, sv_complete := Some True\<rparr>)) (\<lambda>(r, sv1).
          case r of
            None \<Rightarrow> Inl ServiceError
          | Some utxos \<Rightarrow>
              let c1 = fold (\<lambda>u. store_utxo (cu_txid u) (cu_output_n u)) utxos (sv_cache sv1)
              in Inr (utxos_cache @ utxos,
                   if utxos \<noteq> [] \<and> limit \<le> length utxos
                   then sv1\<lparr>sv_cache := c1, sv_complete := Some False\<rparr>
                   else if after1 = []
                   then sv1\<lparr>sv_cache := store_address nw a None (Some (sum_list (map cu_value utxos)))
                              (Some (length utxos)) False None c1\<rparr>
                   else sv1\<lparr>sv_cache := c1\<rparr>)))"

section \<open>Spent outputs\<close>

text \<open>\<^verbatim>\<open>transaction_update_spents\<close>: the inputs of the address, a later one replacing an earlier one.\<close>

definition spend_list :: "string \<Rightarrow> service_tx list \<Rightarrow> (bytes \<times> nat) \<Rightarrow> service_tx option" where
  "spend_list a txs =
    fold (\<lambda>t. fold (\<lambda>i m. if vi_address i = a then m((vi_prev_txid i, vi_output_n i) \<mapsto> t) else m) (vt_inputs t))
      txs Map.empty"

text \<open>\<^verbatim>\<open>txs.index(t)\<close>: transactions are equal when their ids are.\<close>

fun tx_index :: "bytes \<Rightarrow> service_tx list \<Rightarrow> nat" where
  "tx_index x [] = 0"
| "tx_index x (t # ts) = (if vt_txid t = x then 0 else Suc (tx_index x ts))"

definition spends :: "bytes \<Rightarrow> nat \<Rightarrow> service_input \<Rightarrow> bool" where
  "spends txid n i \<longleftrightarrow> vi_prev_txid i = txid \<and> vi_output_n i = n"

definition update_tx_output :: "nat \<Rightarrow> nat \<Rightarrow> (service_output \<Rightarrow> service_output) \<Rightarrow> service_tx list \<Rightarrow> service_tx list" where
  "update_tx_output k n f txs =
    txs[k := (txs ! k)\<lparr>vt_outputs := (vt_outputs (txs ! k))[n := f (vt_outputs (txs ! k) ! n)]\<rparr>]"

definition update_spent :: "string \<Rightarrow> (bytes \<times> nat \<Rightarrow> service_tx option) \<Rightarrow> bytes \<Rightarrow> service_output \<Rightarrow>
    service_tx list \<Rightarrow> service_tx list res" where
  "update_spent a m txid o1 txs =
    (let k = tx_index txid txs; n = vo_output_n o1
     in if vo_address o1 \<noteq> a then Inr txs
        else if length (vt_outputs (txs ! k)) \<le> n then Inl IndexError
        else case m (txid, n) of
          None \<Rightarrow> Inr (update_tx_output k n (\<lambda>x. x\<lparr>vo_spent := Some False\<rparr>) txs)
        | Some s \<Rightarrow>
            (case filter (spends txid n) (vt_inputs (txs ! tx_index (vt_txid s) txs)) of
               [] \<Rightarrow> Inl IndexError
             | i # _ \<Rightarrow> Inr (update_tx_output k n (\<lambda>x. x\<lparr>vo_spent := Some True,
                 vo_spending_txid := Some (vt_txid s), vo_spending_index_n := Some (vi_index_n i)\<rparr>) txs)))"

fun update_spents :: "string \<Rightarrow> (bytes \<times> nat \<Rightarrow> service_tx option) \<Rightarrow> (bytes \<times> service_output) list \<Rightarrow>
    service_tx list \<Rightarrow> service_tx list res" where
  "update_spents a m [] txs = Inr txs"
| "update_spents a m (p # ps) txs = bindE (update_spent a m (fst p) (snd p) txs) (update_spents a m ps)"

definition transaction_update_spents :: "service_tx list \<Rightarrow> string \<Rightarrow> service_tx list res" where
  "transaction_update_spents txs a =
    update_spents a (spend_list a txs) (concat (map (\<lambda>t. map (Pair (vt_txid t)) (vt_outputs t)) txs)) txs"

section \<open>A stored transaction is read back\<close>

lemma slice_append: "slice (length u) (length u + n) (u @ v) = take n v"
  by (simp add: slice_def)

lemma witness_items_written:
  assumes "write_list varstr ws = Inr vs" "b = u @ vs @ r" "c = length u"
  shows "witness_items (length ws) c b = map (\<lambda>d. if d = [] then [0] else d) ws"
  using assms
proof (induction ws arbitrary: u vs c)
  case (Cons d ws)
  from Cons.prems(1) obtain l v where l: "varstr d = Inr l" "write_list varstr ws = Inr v" "vs = l @ v"
    by (auto simp: bindE_Inr_iff)
  have IH: "witness_items (length ws) (length u + length l) b = map (\<lambda>d. if d = [] then [0] else d) ws"
    using Cons.IH [of v "u @ l" "length u + length l"] l Cons.prems(2) by simp
  have b: "slice c (c + 9) b = take 9 (l @ v @ r)"
    using slice_append [of u 9 "l @ v @ r"] Cons.prems(2,3) l(3) by simp
  show ?case
  proof (cases "d = [0]")
    case True
    then have "l = [0]" using l(1) by (simp add: varstr_def)
    then have "varbyteint_to_int (slice c (c + 9) b) = (0, 1)"
      unfolding b by (simp add: varbyteint_to_int_def)
    then show ?thesis using True IH \<open>l = [0]\<close> Cons.prems(3) by simp
  next
    case False
    then obtain k where k: "int_to_varbyteint (int (length d)) = Inr k" "l = k @ d"
      using l(1) by (auto simp: varstr_def bindE_Inr_iff)
    have v: "varbyteint_to_int (slice c (c + 9) b) = (length d, length k)"
      using varbyteint_to_int_encoded [OF k(1), of "d @ v @ r"] b k(2) by simp
    have "slice (c + length k) (c + length d + length k) b = d"
      using slice_append [of "u @ k" "length d" "d @ v @ r"] Cons.prems(2,3) l(3) k(2)
      by (simp add: add.commute add.left_commute)
    then show ?thesis using v IH Cons.prems(3) k(2) by (simp add: add.commute add.left_commute)
  qed
qed simp

lemma parse_raw_witness_items:
  assumes "raw_witness_items ws = Inr b"
  shows "parse_witnesses b = map (\<lambda>d. if d = [] then [0] else d) ws"
proof -
  from assms obtain n vs where n: "int_to_varbyteint (int (length ws)) = Inr n" "write_list varstr ws = Inr vs" "b = n @ vs"
    by (auto simp: raw_witness_items_def bindE_Inr_iff)
  then show ?thesis
    using varbyteint_to_int_encoded [OF n(1), of vs] witness_items_written [OF n(2), of b n "[]"]
    by (simp add: parse_witnesses_def slice_def)
qed

text \<open>Every node belongs to a transaction of the table, which are distinct.\<close>

definition cache_linked :: "cache \<Rightarrow> bool" where
  "cache_linked c \<longleftrightarrow> cn_txid ` set (c_nodes c) \<subseteq> ct_txid ` set (c_txs c) \<and> distinct (map ct_txid (c_txs c))"

lemma input_node_cases:
  assumes "input_node txid i = Inr n"
  shows "cn_txid n = txid \<and> cn_is_input n \<and> ([] \<notin> set (vi_witnesses i) \<longrightarrow> node_input n = i)"
proof -
  obtain ws where ws: "raw_witness_items (vi_witnesses i) = Inr ws"
    using assms by (auto simp: input_node_def bindE_Inr_iff)
  have "map (\<lambda>d. if d = [] then [0] else d) (vi_witnesses i) = vi_witnesses i" if "[] \<notin> set (vi_witnesses i)"
    using that by (intro map_idI) auto
  then show ?thesis using assms ws parse_raw_witness_items [OF ws]
    by (auto simp: input_node_def node_input_def)
qed

lemma input_nodes:
  assumes "map_res (input_node txid) is = Inr ns"
  shows "(\<forall>n\<in>set ns. cn_txid n = txid \<and> cn_is_input n) \<and>
    ((\<forall>i\<in>set is. [] \<notin> set (vi_witnesses i)) \<longrightarrow> map node_input ns = is)"
  using assms
proof (induction "is" arbitrary: ns)
  case (Cons i "is")
  then show ?case using input_node_cases [of txid i] by (auto simp: bindE_Inr_iff)
qed simp

lemma node_output_node [simp]: "node_output (output_node txid o1) = o1"
  by (simp add: node_output_def output_node_def)

text \<open>
  A transaction that the cache stores is read back as it was, its block index and confirmations
  apart, if no witness is empty; and the tables stay linked.
\<close>

lemma cached_transaction_roundtrip:
  assumes "store_transaction t index c = Inr (True, c')" "c_enabled c" "cache_linked c"
    and "vt_txid t \<notin> ct_txid ` set (c_txs c)"
    and "\<forall>i\<in>set (vt_inputs t). [] \<notin> set (vi_witnesses i)"
    and "vt_coinbase t \<longleftrightarrow> (\<exists>i\<in>set (vt_inputs t). vi_prev_txid i = replicate 32 0)"
  shows "cache_gettransaction (vt_network t) now0 (vt_txid t) c' =
      Some (cached_confirmations (vt_network t) now0 c' (t\<lparr>vt_index := index\<rparr>)) \<and> cache_linked c'"
proof -
  let ?d = "\<lparr>ct_txid = vt_txid t, ct_date = the (vt_date t), ct_confirmations = vt_confirmations t,
             ct_version = vt_version t, ct_locktime = vt_locktime t, ct_block_height = the (vt_block_height t),
             ct_network = vt_network t, ct_fee = vt_fee t, ct_index = index,
             ct_witness_type = vt_witness_type t\<rparr>"
  have s: "storable t" using assms(1,2) by (auto simp: store_transaction_def split: if_splits)
  then obtain ns where ns: "map_res (input_node (vt_txid t)) (vt_inputs t) = Inr ns"
    and c': "c' = c\<lparr>c_txs := c_txs c @ [?d],
      c_nodes := c_nodes c @ ns @ map (output_node (vt_txid t)) (vt_outputs t)\<rparr>"
    using assms(1,2,4) by (auto simp: store_transaction_def bindE_Inr_iff)
  have fresh: "\<forall>n\<in>set (c_nodes c). cn_txid n \<noteq> vt_txid t"
    using assms(3,4) by (force simp: cache_linked_def)
  have i: "tx_nodes True (vt_txid t) c' = ns" and o: "tx_nodes False (vt_txid t) c' = map (output_node (vt_txid t)) (vt_outputs t)"
    using fresh input_nodes [OF ns]
    by (auto simp: tx_nodes_def c' filter_empty_conv filter_id_conv output_node_def)
  have "List.find (\<lambda>d. ct_txid d = vt_txid t \<and> ct_network d = vt_network t) (xs @ [?d]) = Some ?d"
    if "vt_txid t \<notin> ct_txid ` set xs" for xs using that by (induction xs) auto
  then have f: "List.find (\<lambda>d. ct_txid d = vt_txid t \<and> ct_network d = vt_network t) (c_txs c') = Some ?d"
    using assms(4) by (simp add: c')
  have "parse_db_transaction c' ?d = t\<lparr>vt_index := index\<rparr>"
    using input_nodes [OF ns] assms(5,6) s
    by (auto simp: parse_db_transaction_def i o storable_def comp_def Let_def)
  moreover have "cache_linked c'" using assms(3,4) input_nodes [OF ns]
    by (auto simp: cache_linked_def c' output_node_def)
  ultimately show ?thesis using f assms(2) by (simp add: cache_gettransaction_def c')
qed

section \<open>Transactions from the service\<close>


text \<open>\<^verbatim>\<open>Service.isspent\<close>: from the cache when it knows, else from a provider; \<open>None\<close> there is \<^verbatim>\<open>False\<close>.\<close>

definition isspent ::
  "world \<Rightarrow> (nat \<Rightarrow> bytes \<Rightarrow> nat \<Rightarrow> provider \<Rightarrow> bool answer) \<Rightarrow> bytes \<Rightarrow> nat \<Rightarrow> service \<Rightarrow> (bool \<times> service) res" where
  "isspent w ask txid output_n sv =
    (let known = Option.bind (cache_gettransaction (n_name (sv_network sv)) (now w sv) txid (sv_cache sv))
                   (\<lambda>t. if output_n < length (vt_outputs t) then vo_spent (vt_outputs t ! output_n) else None)
     in case known of
          Some b \<Rightarrow> Inr (b, sv)
        | None \<Rightarrow> bindE (request w (\<lambda>k. ask k txid output_n) sv) (\<lambda>(r, sv1). Inr (r = Some True, sv1)))"



section \<open>Which unspent outputs the cache knows\<close>

lemma utxo_loop_all:
  assumes "\<forall>r\<in>set rows. ct_txid (fst r) \<noteq> after_txid"
  shows "utxo_loop a after_txid rows us =
     us @ map (row_utxo a) (filter (\<lambda>r. cn_spent (snd r) = Some False) (takeWhile (\<lambda>r. cn_spent (snd r) \<noteq> None) rows))"
  using assms
proof (induction rows arbitrary: us)
  case (Cons r rows)
  then show ?case by (cases "cn_spent (snd r)") simp_all
qed simp

lemma utxo_loop_after:
  assumes "\<forall>r\<in>set us. cn_spent (snd r) \<noteq> None" "us \<noteq> []" "ct_txid (fst (last us)) = after_txid"
  shows "utxo_loop a after_txid (us @ vs) ys = utxo_loop a after_txid vs []"
  using assms by (induction us arbitrary: ys) (auto split: if_splits)

section \<open>Spent outputs\<close>

text \<open>The last transaction of the list with an input of the address that spends an output.\<close>

definition spender :: "string \<Rightarrow> service_tx list \<Rightarrow> bytes \<Rightarrow> nat \<Rightarrow> service_tx option" where
  "spender a txs txid n =
    List.find (\<lambda>s. \<exists>i\<in>set (vt_inputs s). vi_address i = a \<and> spends txid n i) (rev txs)"

lemma fold_inputs:
  "fold (\<lambda>i m. if vi_address i = a then m((vi_prev_txid i, vi_output_n i) \<mapsto> t) else m) is m (txid, n) =
    (if \<exists>i\<in>set is. vi_address i = a \<and> spends txid n i then Some t else m (txid, n))"
  by (induction "is" arbitrary: m) (auto simp: spends_def)

lemma spend_list_spender: "spend_list a txs (txid, n) = spender a txs txid n"
proof (induction txs rule: rev_induct)
  case (snoc t txs)
  then show ?case by (auto simp: spend_list_def spender_def fold_inputs)
qed (simp add: spend_list_def spender_def)

lemma spender_Some:
  assumes "spender a txs txid n = Some s"
  shows "s \<in> set txs" "filter (spends txid n) (vt_inputs s) \<noteq> []"
  using assms by (auto simp: spender_def find_Some_iff filter_empty_conv in_set_conv_nth rev_nth)
    (metis diff_less length_greater_0_conv list.size(3) not_less0 zero_less_Suc)

text \<open>What the transactions of the list say about an output.\<close>

definition mark_output :: "string \<Rightarrow> service_tx list \<Rightarrow> bytes \<Rightarrow> service_output \<Rightarrow> service_output" where
  "mark_output a txs txid o1 =
    (if vo_address o1 \<noteq> a then o1
     else case spender a txs txid (vo_output_n o1) of
       None \<Rightarrow> o1\<lparr>vo_spent := Some False\<rparr>
     | Some s \<Rightarrow> o1\<lparr>vo_spent := Some True, vo_spending_txid := Some (vt_txid s),
                   vo_spending_index_n := Some (vi_index_n (hd (filter (spends txid (vo_output_n o1)) (vt_inputs s))))\<rparr>)"

definition mark_tx :: "string \<Rightarrow> service_tx list \<Rightarrow> service_tx \<Rightarrow> service_tx" where
  "mark_tx a txs t = t\<lparr>vt_outputs := map (mark_output a txs (vt_txid t)) (vt_outputs t)\<rparr>"

lemma tx_index_append: "x \<notin> vt_txid ` set pre \<Longrightarrow> vt_txid t = x \<Longrightarrow> tx_index x (pre @ t # post) = length pre"
  by (induction pre) auto

lemma inputs_at_index:
  assumes "map (\<lambda>t. (vt_txid t, vt_inputs t)) txs' = map (\<lambda>t. (vt_txid t, vt_inputs t)) txs"
    and "distinct (map vt_txid txs)" "s \<in> set txs"
  shows "vt_inputs (txs' ! tx_index (vt_txid s) txs') = vt_inputs s"
  using assms
proof (induction txs' arbitrary: txs)
  case (Cons t' txs')
  then obtain t ts where "txs = t # ts" by (cases txs) auto
  then show ?case using Cons by force
qed simp

text \<open>One output, of the transaction at a known place.\<close>

lemma update_spent_at:
  assumes txs: "map (\<lambda>t. (vt_txid t, vt_inputs t)) (pre @ t # post) = map (\<lambda>t. (vt_txid t, vt_inputs t)) txs"
    "distinct (map vt_txid txs)"
    and t: "vt_outputs t = os @ o1 # os'" "vo_output_n o1 = length os"
  shows "update_spent a (spend_list a txs) (vt_txid t) o1 (pre @ t # post) =
    Inr (pre @ t\<lparr>vt_outputs := os @ mark_output a txs (vt_txid t) o1 # os'\<rparr> # post)"
proof -
  have "map fst (map (\<lambda>t. (vt_txid t, vt_inputs t)) (pre @ t # post)) = map vt_txid txs"
    by (simp only: txs(1)) (simp add: comp_def)
  then have "distinct (map vt_txid (pre @ t # post))" using txs(2) by (simp add: comp_def)
  then have k: "tx_index (vt_txid t) (pre @ t # post) = length pre" by (intro tx_index_append) auto
  have same: "t\<lparr>vt_outputs := os @ o1 # os'\<rparr> = t" using t(1) by simp
  show ?thesis
  proof (cases "spender a txs (vt_txid t) (length os)")
    case None
    then show ?thesis
      by (simp add: update_spent_def k t mark_output_def spend_list_spender update_tx_output_def Let_def same)
  next
    case (Some s)
    obtain i "is" where i: "filter (spends (vt_txid t) (length os)) (vt_inputs s) = i # is"
      using spender_Some(2) [OF Some] by (cases "filter (spends (vt_txid t) (length os)) (vt_inputs s)") auto
    have s: "vt_inputs ((pre @ t # post) ! tx_index (vt_txid s) (pre @ t # post)) = vt_inputs s"
      using inputs_at_index [OF txs spender_Some(1) [OF Some]] .
    show ?thesis using Some i
      by (simp add: update_spent_def k t mark_output_def spend_list_spender update_tx_output_def Let_def same s)
  qed
qed

lemma update_spents_append:
  "update_spents a m (ps @ qs) txs = bindE (update_spents a m ps txs) (update_spents a m qs)"
proof (induction ps arbitrary: txs)
  case (Cons p ps)
  then show ?case by (cases "update_spent a m (fst p) (snd p) txs") auto
qed simp

text \<open>The outputs of one transaction, then all of them.\<close>

lemma update_spents_tx:
  assumes "map (\<lambda>t. (vt_txid t, vt_inputs t)) (pre @ t # post) = map (\<lambda>t. (vt_txid t, vt_inputs t)) txs"
    and "distinct (map vt_txid txs)" "vt_outputs t = os @ os'"
    and "\<forall>n<length (vt_outputs t). vo_output_n (vt_outputs t ! n) = n"
  shows "update_spents a (spend_list a txs) (map (Pair (vt_txid t)) os') (pre @ t # post) =
    Inr (pre @ t\<lparr>vt_outputs := os @ map (mark_output a txs (vt_txid t)) os'\<rparr> # post)"
  using assms
proof (induction os' arbitrary: os t)
  case (Cons o1 os')
  let ?t = "t\<lparr>vt_outputs := os @ mark_output a txs (vt_txid t) o1 # os'\<rparr>"
  have n: "vo_output_n (mark_output a txs x o1) = vo_output_n o1" for x
    by (simp add: mark_output_def split: option.split)
  have o: "vo_output_n o1 = length os" using Cons.prems(3,4) by (auto dest: spec [of _ "length os"])
  have idx: "\<forall>n<length (vt_outputs ?t). vo_output_n (vt_outputs ?t ! n) = n"
  proof (intro allI impI)
    fix j assume "j < length (vt_outputs ?t)"
    then show "vo_output_n (vt_outputs ?t ! j) = j"
      using Cons.prems(3,4) o n by (auto simp: nth_append nth_Cons' dest: spec [of _ j])
  qed
  have "update_spents a (spend_list a txs) (map (Pair (vt_txid ?t)) os') (pre @ ?t # post) =
      Inr (pre @ ?t\<lparr>vt_outputs := (os @ [mark_output a txs (vt_txid t) o1]) @ map (mark_output a txs (vt_txid ?t)) os'\<rparr> # post)"
    by (rule Cons.IH) (use Cons.prems(1,2) idx in simp_all)
  then show ?case using update_spent_at [OF Cons.prems(1-3) o] by simp
qed simp

lemma update_spents_all:
  assumes "map (\<lambda>t. (vt_txid t, vt_inputs t)) (pre @ post) = map (\<lambda>t. (vt_txid t, vt_inputs t)) txs"
    and "distinct (map vt_txid txs)"
    and "\<forall>t\<in>set post. \<forall>n<length (vt_outputs t). vo_output_n (vt_outputs t ! n) = n"
  shows "update_spents a (spend_list a txs) (concat (map (\<lambda>t. map (Pair (vt_txid t)) (vt_outputs t)) post)) (pre @ post) =
    Inr (pre @ map (mark_tx a txs) post)"
  using assms
proof (induction post arbitrary: pre)
  case (Cons t post)
  have "update_spents a (spend_list a txs) (concat (map (\<lambda>t. map (Pair (vt_txid t)) (vt_outputs t)) post))
      ((pre @ [mark_tx a txs t]) @ post) = Inr ((pre @ [mark_tx a txs t]) @ map (mark_tx a txs) post)"
    by (rule Cons.IH) (use Cons.prems in \<open>simp_all add: mark_tx_def\<close>)
  then show ?case
    using update_spents_tx [of pre t post txs "[]" "vt_outputs t" a] Cons.prems
    by (simp add: update_spents_append mark_tx_def)
qed simp

text \<open>C18: for distinct transactions whose outputs are numbered by their places, the update marks exactly the
  outputs of the address that an input of the address in the list refers to as spent, with the last
  such transaction as the spender, all its other outputs as unspent, and changes nothing else.
\<close>

theorem transaction_update_spents_marks:
  assumes "distinct (map vt_txid txs)"
    and "\<forall>t\<in>set txs. \<forall>n<length (vt_outputs t). vo_output_n (vt_outputs t ! n) = n"
  shows "transaction_update_spents txs a = Inr (map (mark_tx a txs) txs)"
  using update_spents_all [of "[]" txs txs a] assms by (simp add: transaction_update_spents_def)

text \<open>Transactions that are known already are not stored again: what the update finds out is not kept.\<close>

lemma known_transaction_not_updated:
  assumes "vt_txid t \<in> ct_txid ` set (c_txs c)"
  shows "store_transaction t index c = Inr (\<not> c_enabled c \<or> storable t, c)"
  using assms by (simp add: store_transaction_def)

section \<open>The unspent outputs are complete\<close>

lemma mset_by_tx:
  assumes "distinct (map ct_txid ts)" "cn_txid ` set ns \<subseteq> ct_txid ` set ts"
  shows "mset (concat (map (\<lambda>t. filter (\<lambda>n. cn_txid n = ct_txid t) ns) ts)) = mset ns"
  using assms
proof (induction ts arbitrary: ns)
  case (Cons t ts)
  let ?ns = "filter (\<lambda>n. cn_txid n \<noteq> ct_txid t) ns"
  have "filter (\<lambda>n. cn_txid n = ct_txid t') ns = filter (\<lambda>n. cn_txid n = ct_txid t') ?ns" if "t' \<in> set ts" for t'
    using that Cons.prems(1) by (auto intro!: filter_cong)
  then have "concat (map (\<lambda>t. filter (\<lambda>n. cn_txid n = ct_txid t) ns) ts) =
      concat (map (\<lambda>t. filter (\<lambda>n. cn_txid n = ct_txid t) ?ns) ts)"
    by (metis (mono_tags, lifting) map_eq_conv)
  moreover have "mset (concat (map (\<lambda>t. filter (\<lambda>n. cn_txid n = ct_txid t) ?ns) ts)) = mset ?ns"
    using Cons.prems by (intro Cons.IH) auto
  ultimately show ?case using multiset_partition [of "mset ns" "\<lambda>n. cn_txid n = ct_txid t"]
    by (simp flip: mset_filter)
qed simp

lemma set_ordered_txs [simp]: "set (ordered_txs ts) = set ts" and distinct_ordered_txs:
  "distinct (map ct_txid ts) \<Longrightarrow> distinct (map ct_txid (ordered_txs ts))"
proof -
  have m: "mset (ordered_txs ts) = mset ts" by (simp add: ordered_txs_def)
  then show "set (ordered_txs ts) = set ts" by (metis set_mset_mset)
  assume "distinct (map ct_txid ts)"
  then show "distinct (map ct_txid (ordered_txs ts))" using m by (metis mset_eq_imp_distinct_iff mset_map)
qed

text \<open>The rows of the join are the outputs of the address.\<close>

lemma output_rows_mset:
  assumes "cache_linked c" "\<forall>t\<in>set (c_txs c). ct_network t = nw"
  shows "mset (map snd (cache_output_rows nw a c)) = mset (filter (\<lambda>n. cn_address n = a \<and> \<not> cn_is_input n) (c_nodes c))"
proof -
  let ?ns = "filter (\<lambda>n. cn_address n = a \<and> \<not> cn_is_input n) (c_nodes c)"
  have f: "filter (\<lambda>t. ct_network t = nw) (c_txs c) = c_txs c" using assms(2) by (simp add: filter_id_conv)
  have g: "filter (\<lambda>n. cn_address n = a) (tx_nodes False x c) = filter (\<lambda>n. cn_txid n = x) ?ns" for x
    by (auto simp: tx_nodes_def intro: filter_cong)
  have "map snd (cache_output_rows nw a c) = concat (map (\<lambda>t. filter (\<lambda>n. cn_txid n = ct_txid t) ?ns) (ordered_txs (c_txs c)))"
    by (simp only: cache_output_rows_def f g) (simp add: map_concat comp_def)
  moreover have "mset \<dots> = mset ?ns"
    using assms(1) by (intro mset_by_tx distinct_ordered_txs) (auto simp: cache_linked_def)
  ultimately show ?thesis by simp
qed

text \<open>When it is known of every cached output of the address whether it is spent, the cache returns one
  entry for each unspent one: as many as \<open>store_address\<close> counts, and with the same values.
\<close>

theorem cached_utxos_complete:
  assumes "c_enabled c" "cache_linked c" "\<forall>t\<in>set (c_txs c). ct_network t = nw \<and> ct_txid t \<noteq> []"
    and "address_outputs a None c = []"
  shows "mset (map (\<lambda>u. (cu_output_n u, cu_value u)) (cache_getutxos nw a [] c)) =
    mset (map (\<lambda>n. (cn_index_n n, cn_value n)) (address_outputs a (Some False) c))"
proof -
  let ?rows = "cache_output_rows nw a c"
  let ?P = "\<lambda>n. cn_spent n = Some False"
  have rows: "mset (map snd ?rows) = mset (filter (\<lambda>n. cn_address n = a \<and> \<not> cn_is_input n) (c_nodes c))"
    using assms by (intro output_rows_mset) auto
  then have "snd ` set ?rows = {n \<in> set (c_nodes c). cn_address n = a \<and> \<not> cn_is_input n}"
    by (metis set_filter set_map set_mset_mset)
  then have known: "takeWhile (\<lambda>r. cn_spent (snd r) \<noteq> None) ?rows = ?rows"
    using assms(4) by (force simp: address_outputs_def filter_empty_conv takeWhile_eq_all_conv)
  have "\<forall>r\<in>set ?rows. ct_txid (fst r) \<noteq> []" using assms(3) by (auto simp: cache_output_rows_def)
  then have "cache_getutxos nw a [] c = map (row_utxo a) (filter (\<lambda>r. ?P (snd r)) ?rows)"
    unfolding cache_getutxos_def utxo_loop_all [OF \<open>\<forall>r\<in>set ?rows. ct_txid (fst r) \<noteq> []\<close>] known
    using assms(1) by simp
  then have u: "map (\<lambda>u. (cu_output_n u, cu_value u)) (cache_getutxos nw a [] c) =
      map (\<lambda>n. (cn_index_n n, cn_value n)) (filter ?P (map snd ?rows))"
    by (simp add: row_utxo_def case_prod_unfold comp_def filter_map)
  have "mset (filter ?P (map snd ?rows)) = mset (address_outputs a (Some False) c)"
  proof -
    have "filter ?P (filter (\<lambda>n. cn_address n = a \<and> \<not> cn_is_input n) (c_nodes c)) = address_outputs a (Some False) c"
      by (auto simp: address_outputs_def intro: filter_cong)
    then show ?thesis using rows by (metis mset_filter)
  qed
  then show ?thesis unfolding u by (simp only: mset_map)
qed

section \<open>Examples\<close>

definition example_funding_tx :: service_tx where
  "example_funding_tx =
    \<lparr>vt_txid = [1], vt_date = Some 10, vt_confirmations = 0, vt_block_height = Some 5, vt_network = ''bitcoin'',
     vt_fee = None, vt_index = None, vt_version = 1, vt_locktime = 0, vt_witness_type = ''segwit'',
     vt_coinbase = False,
     vt_inputs = [\<lparr>vi_index_n = 0, vi_prev_txid = [7], vi_output_n = 0, vi_value = 9, vi_address = ''z'',
       vi_unlocking_script = [], vi_sequence = 0, vi_witnesses = [[0], [4, 5]]\<rparr>],
     vt_outputs = [\<lparr>vo_output_n = 0, vo_value = 8, vo_address = ''a'', vo_lock_script = [3], vo_spent = None,
       vo_spending_txid = None, vo_spending_index_n = None\<rparr>]\<rparr>"

definition example_spending_tx :: service_tx where
  "example_spending_tx =
    \<lparr>vt_txid = [2], vt_date = Some 11, vt_confirmations = 0, vt_block_height = Some 6, vt_network = ''bitcoin'',
     vt_fee = None, vt_index = None, vt_version = 1, vt_locktime = 0, vt_witness_type = ''segwit'',
     vt_coinbase = False,
     vt_inputs = [\<lparr>vi_index_n = 0, vi_prev_txid = [1], vi_output_n = 0, vi_value = 8, vi_address = ''a'',
       vi_unlocking_script = [], vi_sequence = 0, vi_witnesses = []\<rparr>],
     vt_outputs = [\<lparr>vo_output_n = 0, vo_value = 7, vo_address = ''a'', vo_lock_script = [3], vo_spent = None,
       vo_spending_txid = None, vo_spending_index_n = None\<rparr>]\<rparr>"

theorem transaction_update_spents_marks_witness:
  "transaction_update_spents [example_funding_tx, example_spending_tx] ''a'' =
    Inr (map (mark_tx ''a'' [example_funding_tx, example_spending_tx]) [example_funding_tx, example_spending_tx]) \<and>
   map vo_spent (vt_outputs (mark_tx ''a'' [example_funding_tx, example_spending_tx] example_funding_tx)) = [Some True] \<and>
   map vo_spending_txid (vt_outputs (mark_tx ''a'' [example_funding_tx, example_spending_tx] example_funding_tx)) = [Some [2]] \<and>
   map vo_spent (vt_outputs (mark_tx ''a'' [example_funding_tx, example_spending_tx] example_spending_tx)) = [Some False]"
proof (intro conjI)
  show "transaction_update_spents [example_funding_tx, example_spending_tx] ''a'' =
    Inr (map (mark_tx ''a'' [example_funding_tx, example_spending_tx]) [example_funding_tx, example_spending_tx])"
    by (rule transaction_update_spents_marks) (simp_all add: example_funding_tx_def example_spending_tx_def)
qed (simp_all add: mark_tx_def mark_output_def spender_def spends_def example_funding_tx_def example_spending_tx_def)

definition empty_cache :: cache where
  "empty_cache = \<lparr>c_enabled = True, c_txs = [], c_nodes = [], c_addresses = [], c_vars = []\<rparr>"

definition example_tx_cache :: cache where
  "example_tx_cache = empty_cache\<lparr>
     c_txs := [\<lparr>ct_txid = [1], ct_date = 10, ct_confirmations = 0, ct_version = 1, ct_locktime = 0,
       ct_block_height = 5, ct_network = ''bitcoin'', ct_fee = None, ct_index = Some 3, ct_witness_type = ''segwit''\<rparr>],
     c_nodes := [\<lparr>cn_txid = [1], cn_index_n = 0, cn_value = 9, cn_address = ''z'', cn_script = [],
         cn_witnesses = [2, 0, 2, 4, 5], cn_sequence = 0, cn_is_input = True, cn_spent = None,
         cn_ref_txid = Some [7], cn_ref_index_n = Some 0\<rparr>,
       \<lparr>cn_txid = [1], cn_index_n = 0, cn_value = 8, cn_address = ''a'', cn_script = [3], cn_witnesses = [],
         cn_sequence = 0xffffffff, cn_is_input = False, cn_spent = None, cn_ref_txid = None, cn_ref_index_n = None\<rparr>]\<rparr>"

lemma example_tx_cache_stored: "store_transaction example_funding_tx (Some 3) empty_cache = Inr (True, example_tx_cache)"
  by (simp add: store_transaction_def example_funding_tx_def example_tx_cache_def empty_cache_def storable_def
      input_node_def output_node_def raw_witness_items_def varstr_def int_to_varbyteint_def int_to_le_def)

lemma cached_transaction_roundtrip_witness:
  "cache_gettransaction ''bitcoin'' 0 [1] example_tx_cache =
     Some (cached_confirmations ''bitcoin'' 0 example_tx_cache (example_funding_tx\<lparr>vt_index := Some 3\<rparr>)) \<and>
   cache_linked example_tx_cache"
proof -
  have "length [7::byte] \<noteq> length (replicate 32 (0::byte))" by simp
  then have "[7::byte] \<noteq> replicate 32 0" by metis
  then show ?thesis using cached_transaction_roundtrip [OF example_tx_cache_stored, of 0]
    by (simp add: example_funding_tx_def empty_cache_def cache_linked_def)
qed

theorem cached_utxos_complete_witness:
  "mset (map (\<lambda>u. (cu_output_n u, cu_value u))
     (cache_getutxos ''bitcoin'' ''a'' [] (store_utxo [1] 0 example_tx_cache))) = {#(0, 8)#}"
proof -
  let ?c = "store_utxo [1] 0 example_tx_cache"
  have p: "c_enabled ?c" "cache_linked ?c" "\<forall>t\<in>set (c_txs ?c). ct_network t = ''bitcoin'' \<and> ct_txid t \<noteq> []"
    "address_outputs ''a'' None ?c = []"
    by (simp_all add: store_utxo_def example_tx_cache_def empty_cache_def cache_linked_def address_outputs_def)
  show ?thesis unfolding cached_utxos_complete [OF p]
    by (simp add: address_outputs_def store_utxo_def example_tx_cache_def empty_cache_def)
qed





end
