(* ===== verification/Service_State.thy ===== *)
theory Service_State
  imports Service_Txs Transition
begin




section \<open>The methods of the cache\<close>









section \<open>The calls\<close>











section \<open>Reachable states\<close>



end
