(* ===== verification/Hex_Digits.thy ===== *)
theory Hex_Digits
  imports Base_Conv
begin

text \<open>
  Hexadecimal text as a number: \<^verbatim>\<open>hex(n)[2:].zfill(2 * m)\<close> is the text of the bytes of
  \<open>n\<close>, and \<^verbatim>\<open>change_base(_, 58, 16)\<close> of base58 text is the text of the decoded bytes. With a
  bound on the length of base58 text.
\<close>

interpretation b16: radix 16 by unfold_locales simp

definition nibbles :: "bytes \<Rightarrow> nat list" where
  "nibbles bs = concat (map (\<lambda>b. [unat b div 16, unat b mod 16]) bs)"

lemma nibbles_simps [simp]:
  "nibbles [] = []" "nibbles (b # bs) = (unat b div 16) # (unat b mod 16) # nibbles bs"
  by (simp_all add: nibbles_def)

lemma hex_of_nibbles: "hex_of bs = map hex_char (nibbles bs)"
  by (induction bs) (simp_all add: hex_of_def)

lemma length_nibbles [simp]: "length (nibbles bs) = 2 * length bs"
  by (induction bs) simp_all

lemma nibbles_lt: "d \<in> set (nibbles bs) \<Longrightarrow> d < 16"
proof (induction bs)
  case (Cons b bs)
  have "unat b div 16 < 16" using unat_byte_lt [of b] by (simp add: less_mult_imp_div_less)
  then show ?case using Cons by auto
qed simp

lemma nibbles_val: "digits_val 16 (nibbles bs) = be_val bs"
proof (induction bs)
  case (Cons b bs)
  have p: "16 ^ (2 * length bs) = (256 :: nat) ^ length bs" by (simp add: power_mult)
  have "digits_val 16 (nibbles (b # bs)) =
      unat b div 16 * (16 * 16 ^ (2 * length bs)) + (unat b mod 16 * 16 ^ (2 * length bs) + be_val bs)"
    using Cons by (simp only: nibbles_simps digits_val_Cons length_Cons length_nibbles power_Suc)
  also have "\<dots> = (unat b div 16 * 16 + unat b mod 16) * 256 ^ length bs + be_val bs"
    unfolding p by (simp only: algebra_simps)
  also have "unat b div 16 * 16 + unat b mod 16 = unat b" by simp
  finally show ?case by (simp add: be_val_Cons)
qed simp

context radix
begin

lemma length_to_digits_le: "n < b ^ k \<Longrightarrow> length (to_digits b n []) \<le> k"
proof (induction k arbitrary: n)
  case (Suc k)
  show ?case
  proof (cases "n = 0")
    case False
    then have "n div b < b ^ k" using Suc.prems two_le by (simp add: less_mult_imp_div_less mult.commute)
    then show ?thesis using Suc.IH False by (simp add: to_digits_step)
  qed simp
qed simp

text \<open>The digits with leading zeros are any digit string of that length and value.\<close>

lemma padded_digits:
  assumes "\<forall>d \<in> set ds. d < b"
  shows "replicate (length ds - length (to_digits b (digits_val b ds) [])) 0 @ to_digits b (digits_val b ds) [] = ds"
proof (rule digits_inj)
  have "length (to_digits b (digits_val b ds) []) \<le> length ds"
    using digits_val_lt [OF assms] by (rule length_to_digits_le)
  then show "length (replicate (length ds - length (to_digits b (digits_val b ds) [])) 0 @
      to_digits b (digits_val b ds) []) = length ds" by simp
qed (use assms to_digits_lt two_le in \<open>auto simp: digits_val_append digits_val_to_digits\<close>)

end

lemma hex_char_0: "hex_char 0 = CHR ''0''"
  by code_simp

lemma zfill_hex_tail:
  assumes "n < 256 ^ m" "0 < m"
  shows "zfill (2 * m) (hex_tail (int n)) = hex_of (be_bytes m n)"
proof -
  let ?ds = "nibbles (be_bytes m n)"
  have v: "digits_val 16 ?ds = n" using assms(1) by (simp add: nibbles_val be_val_be_bytes)
  have p: "replicate (2 * m - length (to_digits 16 n [])) 0 @ to_digits 16 n [] = ?ds"
    using b16.padded_digits [of ?ds] nibbles_lt by (auto simp: v)
  show ?thesis
  proof (cases "n = 0")
    case True
    have "replicate (2 * m - 1) (CHR ''0'') @ ''0'' = replicate (Suc (2 * m - 1)) (CHR ''0'')"
      by (metis replicate_Suc replicate_append_same)
    also have "Suc (2 * m - 1) = 2 * m" using assms(2) by simp
    finally have "replicate (2 * m - 1) (CHR ''0'') @ ''0'' = replicate (2 * m) (CHR ''0'')" .
    moreover have "?ds = replicate (2 * m) 0" using p True by simp
    then have "hex_of (be_bytes m n) = replicate (2 * m) (CHR ''0'')"
      by (simp add: hex_of_nibbles hex_char_0)
    ultimately show ?thesis using True by (simp add: zfill_def hex_tail_def)
  next
    case False
    have "map hex_char (replicate (2 * m - length (to_digits 16 n [])) 0 @ to_digits 16 n []) = map hex_char ?ds"
      by (simp only: p)
    then show ?thesis using False by (simp add: zfill_def hex_tail_def hex_of_nibbles hex_char_0)
  qed
qed

section \<open>Base 58 to base 16\<close>

lemma fast_path_58_16: "fast_path chars inp 58 16 m = None"
  by (simp add: fast_path_def Let_def)

lemma code_string_16: "d < 16 \<Longrightarrow> get_code_string 16 ! d = of_char (hex_char d)"
proof -
  have "list_all (\<lambda>d. get_code_string 16 ! d = of_char (hex_char d)) [0..<16]" by code_simp
  then show "d < 16 \<Longrightarrow> get_code_string 16 ! d = of_char (hex_char d)" by (simp add: list_all_iff)
qed

lemma hd_code_string_16: "hd (get_code_string 16) = of_char (hex_char 0)"
  by code_simp

lemma even_digits_hex:
  assumes "b \<noteq> []" "hd b \<noteq> 0"
  shows "(if odd (length (to_digits 16 (be_val b) [])) then 0 # to_digits 16 (be_val b) []
    else to_digits 16 (be_val b) []) = nibbles b"
proof -
  let ?d = "to_digits 16 (be_val b) []"
  have p: "replicate (2 * length b - length ?d) 0 @ ?d = nibbles b"
    using b16.padded_digits [of "nibbles b"] nibbles_lt by (auto simp: nibbles_val)
  obtain c cs where b: "b = c # cs" "c \<noteq> 0" using assms by (cases b) simp_all
  have le: "length ?d \<le> 2 * length b" using arg_cong [OF p, of length] by simp
  have c: "unat c \<noteq> 0" using b(2) by (simp add: unat_eq_zero)
  have "2 * length b - length ?d \<le> 1"
  proof (rule ccontr)
    assume "\<not> ?thesis"
    then have "2 \<le> 2 * length b - length ?d" by simp
    then obtain k where "2 * length b - length ?d = 2 + k" by (auto simp: le_iff_add)
    then have "nibbles b = 0 # 0 # replicate k 0 @ ?d" using p by (simp add: numeral_2_eq_2)
    then have "unat c div 16 = 0" "unat c mod 16 = 0" using b(1) by simp_all
    then have "unat c = 0" using div_mult_mod_eq [of "unat c" 16] by linarith
    then show False using c by simp
  qed
  then consider "length ?d = 2 * length b" | "Suc (length ?d) = 2 * length b" using le by linarith
  then show ?thesis
  proof cases
    case 1
    then show ?thesis using p by simp
  next
    case 2
    then have "odd (length ?d)" by presburger
    moreover have "2 * length b - length ?d = 1" using 2 by simp
    ultimately show ?thesis using p by simp
  qed
qed

lemma base58_to_hex:
  assumes "b \<noteq> []" "hd b \<noteq> 0"
  shows "change_base (PStr (base58encode b)) 58 16 0 None None = Inr (PStr (hex_of b))"
proof -
  let ?d = "to_digits 16 (be_val b) []"
  have z: "takeWhile (\<lambda>x. x = 0) b = []" using assms by (cases b) simp_all
  have m: "map (\<lambda>d. get_code_string 16 ! d) ds = map (\<lambda>d. of_char (hex_char d)) ds" if "\<forall>d \<in> set ds. d < 16" for ds
    using that by (simp add: code_string_16)
  have d: "\<forall>d \<in> set ?d. d < 16" using b16.to_digits_lt by blast
  have "output_digits 58 16 0 True 0 len (be_val b) =
      map (\<lambda>d. of_char (hex_char d)) (if odd (length ?d) then 0 # ?d else ?d)" for len
    using m [OF d] by (simp add: output_digits_def zeros_to_add_def hd_code_string_16 Let_def)
  then have out: "output_digits 58 16 0 True 0 len (be_val b) = map (\<lambda>d. of_char (hex_char d)) (nibbles b)" for len
    by (simp only: even_digits_hex [OF assms])
  have ne: "nibbles b \<noteq> []" using assms(1) by (cases b) simp_all
  have "map char_of (map (\<lambda>d. of_char (hex_char d) :: nat) (nibbles b)) = hex_of b"
    by (simp add: hex_of_nibbles comp_def)
  then have c: "convert_output 16 False (map (\<lambda>d. of_char (hex_char d)) (nibbles b)) = Inr (PStr (hex_of b))"
    using ne by (simp add: convert_output_def)
  have "change_base (PStr (base58encode b)) 58 16 0 None None =
    bindE (digit_loop 58 49 (rev (utf8_encode (base58encode b))) 1 0 0) (\<lambda>(n, z).
      convert_output 16 False (output_digits 58 16 0 True z (length (base58encode b)) n))"
    by (simp add: change_base_def normalize_var_def fast_path_58_16 code_strings_58
      code_strings_def Let_def py_str_len_def)
  then show ?thesis unfolding digit_loop_base58encode z by (simp add: out c)
qed

section \<open>Reading digits back\<close>

lemma utf8_encode_hex_char:
  "\<forall>d \<in> set ds. d < 16 \<Longrightarrow> map unat (utf8_encode (map hex_char ds)) = map (\<lambda>d. of_char (hex_char d)) ds"
proof (induction ds)
  case (Cons d ds)
  then have "of_char (hex_char d) < (128 :: nat)" by (simp add: of_char_hex_char)
  then have "utf8_char (hex_char d) = [byte_of (of_char (hex_char d))]"
    "unat (byte_of (of_char (hex_char d))) = of_char (hex_char d)"
    by (simp_all add: utf8_char_def unat_byte_of)
  with Cons show ?case by (simp add: utf8_encode_def)
qed (simp add: utf8_encode_def)

lemma parse_digits_hex_char:
  assumes "\<forall>d \<in> set ds. d < base" "base \<le> 16" "w \<or> ds \<noteq> []"
  shows "parse_digits base w acc (map (\<lambda>d. of_char (hex_char d)) ds) =
    Some (foldl (\<lambda>a d. a * base + d) acc ds)"
  using assms
proof (induction ds arbitrary: w acc)
  case (Cons d ds)
  then have d: "d < 16" "d < base" by auto
  then have "(of_char (hex_char d) :: nat) \<noteq> 95" by (simp add: of_char_hex_char)
  with Cons d show ?case by simp
qed simp

text \<open>\<^verbatim>\<open>int(text, base)\<close> of the digits of a number is the number.\<close>

lemma py_int_hex_char:
  assumes "\<forall>d \<in> set ds. d < base" "base \<le> 16" "ds \<noteq> []"
  shows "py_int base (utf8_encode (map hex_char ds)) = Some (int (digits_val base ds))"
proof -
  let ?cs = "map (\<lambda>d. of_char (hex_char d) :: nat) ds"
  have lt: "\<forall>d \<in> set ds. d < 16" using assms by auto
  have c: "48 \<le> c \<and> c < 110 \<and> c \<noteq> 120 \<and> c \<noteq> 88 \<and> \<not> ascii_space c" if "c \<in> set ?cs" for c
    using that lt by (auto simp: of_char_hex_char ascii_space_def)
  have dw: "dropWhile ascii_space xs = xs" if "set xs \<subseteq> set ?cs" for xs
    using that c by (cases xs) auto
  have s: "strip_space ?cs = ?cs"
    unfolding strip_space_def using dw [of ?cs] dw [of "rev ?cs"] by simp
  have "parse_unsigned base xs = parse_digits base False 0 xs" if "120 \<notin> set xs" "88 \<notin> set xs" for xs
    using that unfolding parse_unsigned_def by (auto simp del: parse_digits.simps split: list.split)
  then have "parse_unsigned base ?cs = parse_digits base False 0 ?cs"
    using c [of 120] c [of 88] by blast
  also have "\<dots> = Some (digits_val base ds)"
    using parse_digits_hex_char [of ds base False 0] assms by (simp add: digits_val_def)
  finally have p: "parse_unsigned base ?cs = Some (digits_val base ds)" .
  obtain e es where cs: "?cs = e # es" using assms(3) by (cases ds) auto
  then have "e \<noteq> 45" "e \<noteq> 43" using c [of e] by auto
  then show ?thesis
    unfolding py_int_def utf8_encode_hex_char [OF lt] s using p by (simp add: cs)
qed

lemma py_int_hex_of:
  assumes "b \<noteq> []"
  shows "py_int 16 (utf8_encode (hex_of b)) = Some (int (be_val b))"
proof -
  have "nibbles b \<noteq> []" using assms by (cases b) simp_all
  then show ?thesis
    using py_int_hex_char [of "nibbles b" 16] nibbles_lt by (simp add: hex_of_nibbles nibbles_val)
qed

section \<open>The length of base58 text\<close>

lemma length_base58encode:
  assumes "b \<noteq> []" "hd b \<noteq> 0" "256 ^ length b \<le> (58 :: nat) ^ k"
  shows "length (base58encode b) \<le> k" "base58encode b \<noteq> []"
proof -
  have z: "takeWhile (\<lambda>x. x = 0) b = []" using assms by (cases b) simp_all
  have "be_val b < 256 ^ length b" by (rule be_val_bound)
  then have "be_val b < 58 ^ k" using assms(3) by linarith
  then show "length (base58encode b) \<le> k"
    using b58.length_to_digits_le by (simp add: base58encode_digits base58_digits_def z)
  show "base58encode b \<noteq> []" using assms(1) by (simp add: base58encode_digits)
qed

lemma base58encode_no_space: "CHR '' '' \<notin> set (base58encode b)"
proof
  assume "CHR '' '' \<in> set (base58encode b)"
  then obtain d where "d < 58" "base58_char d = CHR '' ''"
    by (auto simp: base58encode_digits dest: base58_digits_lt)
  moreover have "list_all (\<lambda>d. base58_char d \<noteq> CHR '' '') [0..<58]" by code_simp
  ultimately show False by (simp add: list_all_iff)
qed

end
