(* ===== verification/Key_Rules.thy ===== *)
theory Key_Rules
  imports Keys Hex_Digits
begin

text \<open>
  Properties of keys: a private key in wallet import format is read back, except when it is
  uncompressed and ends with the byte that marks compressed keys.
\<close>

section \<open>Keys made from a secret\<close>

text \<open>Coordinates are 256-bit numbers.\<close>

definition coordinates :: "curve \<Rightarrow> bool" where
  "coordinates E \<longleftrightarrow> (\<forall>m. fst (e_point E m) < 2 ^ 256 \<and> snd (e_point E m) < 2 ^ 256)"

lemma unhex_hex_of [simp]: "unhex (hex_of b) = Inr b"
  by (simp add: unhex_def fromhex_hex_of)

lemma hex_of_append: "hex_of (xs @ ys) = hex_of xs @ hex_of ys"
  by (simp add: hex_of_def)

lemma hex64_hex_of: "n < 2 ^ 256 \<Longrightarrow> hex64 n = hex_of (be_bytes 32 n)"
  using zfill_hex_tail [of n 32] by (simp add: hex64_def)

lemma prefix_hex: "''02'' = hex_of [2]" "''03'' = hex_of [3]" "''04'' = hex_of [4]"
  by code_simp+

definition compressed_bytes :: "nat \<Rightarrow> nat \<Rightarrow> bytes" where
  "compressed_bytes x y = (if odd y then 3 else 2) # be_bytes 32 x"

definition secret_key :: "curve \<Rightarrow> nat \<Rightarrow> bytes \<Rightarrow> bool \<Rightarrow> string \<Rightarrow> key" where
  "secret_key E s b c network =
    (let (x, y) = e_point E s
     in \<lparr>k_is_private = True, k_secret = Some s, k_private = b,
         k_public = (if c then compressed_bytes x y else 4 # be_bytes 32 x @ be_bytes 32 y),
         k_public_compressed = compressed_bytes x y,
         k_x = x, k_y = Some y, k_compressed = c, k_network = network\<rparr>)"

lemma key_of_secret_ok:
  assumes "coordinates E"
  shows "key_of_secret E s b c network = Inr (secret_key E s b c network)"
proof -
  obtain x y where p: "e_point E s = (x, y)" by fastforce
  then have xy: "x < 2 ^ 256" "y < 2 ^ 256" using assms by (metis coordinates_def fst_conv, metis coordinates_def snd_conv)
  have pc: "(if odd y then ''03'' else ''02'') @ hex64 x = hex_of (compressed_bytes x y)"
    using xy by (simp add: hex64_hex_of prefix_hex hex_of_append [symmetric] compressed_bytes_def)
  have pu: "''04'' @ hex64 x @ hex64 y = hex_of (4 # be_bytes 32 x @ be_bytes 32 y)"
    using xy by (simp add: hex64_hex_of prefix_hex hex_of_append [symmetric])
  show ?thesis unfolding key_of_secret_def p Let_def prod.case pc pu by (simp add: secret_key_def p)
qed

section \<open>Wallet import format\<close>

definition wif_byte :: "byte \<Rightarrow> bool" where
  "wif_byte v \<longleftrightarrow> v \<noteq> 0 \<and> network_by_value n_prefix_wif (hex_of [v]) \<noteq> [] \<and>
     take 2 (map upper_char (hex_of [v])) \<notin> {''2F'', ''04'', ''02'', ''01''}"

lemma wif_names: "map n_prefix_wif NETWORK_DEFINITIONS =
    [''99'', ''80'', ''EF'', ''EF'', ''EF'', ''80'', ''B0'', ''B0'', ''EF'', ''9E'', ''F1'']"
  by (simp add: NETWORK_DEFINITIONS_def)

lemma sort_key_Nil [simp]: "sort_key f xs = [] \<longleftrightarrow> xs = []"
  by (metis set_empty set_sort)

lemma network_by_value_ne:
  "network_by_value f v \<noteq> [] \<longleftrightarrow>
    v \<in> set (map f NETWORK_DEFINITIONS) \<or> map upper_char v \<in> set (map f NETWORK_DEFINITIONS)"
  by (force simp: network_by_value_def Let_def filter_empty_conv)

lemma network_wif_byte:
  assumes "n \<in> set NETWORK_DEFINITIONS"
  obtains v where "unhex (n_prefix_wif n) = Inr [v]" "wif_byte v"
proof -
  have *: "list_all (\<lambda>p. case unhex p of Inr [v] \<Rightarrow> v \<noteq> 0 \<and> map upper_char (hex_of [v]) = p | _ \<Rightarrow> False)
    [''99'', ''80'', ''EF'', ''B0'', ''9E'', ''F1'']" by code_simp
  have "n_prefix_wif n \<in> set (map n_prefix_wif NETWORK_DEFINITIONS)" using assms by simp
  then have "n_prefix_wif n \<in> set [''99'', ''80'', ''EF'', ''B0'', ''9E'', ''F1'']"
    unfolding wif_names by auto
  with * have "case unhex (n_prefix_wif n) of Inr [v] \<Rightarrow> v \<noteq> 0 \<and> map upper_char (hex_of [v]) = n_prefix_wif n | _ \<Rightarrow> False"
    unfolding list_all_iff by blast
  then obtain v where v: "unhex (n_prefix_wif n) = Inr [v]" "v \<noteq> 0" "map upper_char (hex_of [v]) = n_prefix_wif n"
    by (auto split: sum.splits list.splits)
  have "n_prefix_wif n \<notin> {''2F'', ''04'', ''02'', ''01''}"
    using \<open>n_prefix_wif n \<in> set [''99'', ''80'', ''EF'', ''B0'', ''9E'', ''F1'']\<close> by auto
  moreover have "length (n_prefix_wif n) = 2"
    using \<open>n_prefix_wif n \<in> set [''99'', ''80'', ''EF'', ''B0'', ''9E'', ''F1'']\<close> by auto
  ultimately have "wif_byte v" using v assms by (simp add: wif_byte_def network_by_value_ne)
  then show ?thesis using that v(1) by blast
qed

lemma table_heads:
  "list_all (\<lambda>rows. list_all (\<lambda>p. take 2 p \<in> {''2F'', ''04'', ''02'', ''01''})
    (prefixes_of True rows @ prefixes_of False rows)) prefix_table"
  by (simp add: prefixes_of_def prefix_table_def prefix_tables)

lemma wif_matches_none:
  assumes "take 2 prefix \<notin> {''2F'', ''04'', ''02'', ''01''}"
  shows "wif_matches prefix wt ms nw = []"
proof (rule ccontr)
  assume "wif_matches prefix wt ms nw \<noteq> []"
  then obtain m where "m \<in> set (wif_matches prefix wt ms nw)" by (cases "wif_matches prefix wt ms nw") auto
  then obtain rows where "rows \<in> set prefix_table" "prefix \<in> set (prefixes_of (w_is_private m) rows)"
    by (rule wif_matches_in)
  then show False using table_heads assms by (cases "w_is_private m") (auto simp: list_all_iff)
qed

lemma network_named_ok:
  assumes "n \<in> set NETWORK_DEFINITIONS"
  obtains m where "network_named (n_name n) = Inr m" "n_name m = n_name n"
    "m \<in> set NETWORK_DEFINITIONS"
proof -
  have "n \<in> set (filter (\<lambda>m. n_name m = n_name n) NETWORK_DEFINITIONS)" using assms by simp
  then obtain m ms where m: "filter (\<lambda>m. n_name m = n_name n) NETWORK_DEFINITIONS = m # ms"
    by (cases "filter (\<lambda>m. n_name m = n_name n) NETWORK_DEFINITIONS") auto
  then have "m \<in> set (filter (\<lambda>m. n_name m = n_name n) NETWORK_DEFINITIONS)" by simp
  then have "n_name m = n_name n" "m \<in> set NETWORK_DEFINITIONS" unfolding set_filter by blast+
  then show ?thesis using that m by (simp add: network_named_def)
qed

lemma key_from_wif_encoded:
  assumes n: "n \<in> set NETWORK_DEFINITIONS" and v: "wif_byte v" and h: "digest_size 32 (c_sha256 C)"
    and len: "length body = 32 \<or> length body = 33"
  shows "key_from_wif C E protected
      (base58encode (v # body @ take 4 (double_sha256 (c_sha256 C) (v # body)))) (Some (n_name n)) =
    (let (b, comp) = (if last_n 1 body = [1] then (but_last_n 1 body, True) else (body, False))
     in key_of_secret E (be_val b) b comp (n_name n))"
proof -
  define chk where "chk = take 4 (double_sha256 (c_sha256 C) (v # body))"
  define d where "d = v # body @ chk"
  define w where "w = base58encode d"
  define r where "r = (if last_n 1 body = [1] then (but_last_n 1 body, True) else (body, False))"
  have chk: "length chk = 4" using h by (simp add: chk_def length_double_sha256)
  have d: "d \<noteq> []" "hd d \<noteq> 0" using v by (simp_all add: d_def wif_byte_def)
  have hex: "change_base (PStr w) 58 16 0 None None = Inr (PStr (hex_of d))"
    unfolding w_def using d by (rule base58_to_hex)
  have bytes: "change_base (PStr w) 58 256 0 None None = Inr (PBytes d)"
    unfolding w_def using d(1) by (rule base58_decode_encode) simp
  have "256 ^ length d \<le> (58 :: nat) ^ 52"
  proof -
    have "length d \<le> 38" using len chk by (auto simp: d_def)
    then have "256 ^ length d \<le> (256 :: nat) ^ 38" by (rule power_increasing) simp
    also have "\<dots> \<le> 58 ^ 52" by simp
    finally show ?thesis .
  qed
  note lw = length_base58encode [OF d this, folded w_def]
  have ne: "key_empty (KStr w) = False" using lw(2) by (simp add: key_empty_def)
  have nm: "n_name n \<noteq> []" using n by (auto simp: NETWORK_DEFINITIONS_def)
  have hv: "hex_of d = hex_of [v] @ hex_of (body @ chk)" by (simp add: hex_of_append [symmetric] d_def)
  have t2: "take 2 (hex_of d) = hex_of [v]" unfolding hv by simp
  have nets: "network_by_value n_prefix_wif (hex_of [v]) \<noteq> []" using v by (simp add: wif_byte_def)
  then obtain nn ns where nns: "network_by_value n_prefix_wif (hex_of [v]) = nn # ns"
    by (cases "network_by_value n_prefix_wif (hex_of [v])") simp_all
  have "take 2 (map upper_char (take 8 (hex_of d))) = take 2 (map upper_char (hex_of [v]))"
    unfolding hv by (simp add: take_map)
  then have none: "wif_matches (map upper_char (take 8 (hex_of d))) None None None = []"
    using v by (intro wif_matches_none) (simp add: wif_byte_def)
  obtain fmt kf where kf: "wif_format (hex_of d) (Some True) = Inr (Some kf)" "kf_format kf = fmt"
    "kf_networks kf = NetworkList (nn # ns)" "kf_is_private kf = Some True"
    and fmt: "fmt = ''wif'' \<or> fmt = ''wif_compressed''"
    unfolding wif_format_def none t2 nns Let_def by auto
  have sp: "CHR '' '' \<notin> set w" unfolding w_def by (rule base58encode_no_space)
  have plain: "plain_format (KStr w) (Some True) = None"
    using lw(1) sp by (simp add: plain_format_def)
  have gk: "get_key_format (c_sha256 C) (KStr w) (Some True) = Inr kf"
    unfolding get_key_format_def plain key_pyval_def key_input.case hex ne by (simp add: kf)
  obtain m where m: "network_named (n_name n) = Inr m" "n_name m = n_name n"
    using network_named_ok [OF n] by blast
  have dl: "but_last_n 4 d = v # body" "last_n 4 d = chk"
    using chk but_last_n_append [of chk 4 "v # body"] last_n_append [of chk 4 "v # body"] by (simp_all add: d_def)
  have body: "last_n 1 (v # body) = last_n 1 body" "drop 1 (but_last_n 1 (v # body)) = but_last_n 1 body"
    using len by (auto simp: last_n_def but_last_n_def Suc_diff_le)
  have pb: "wif_private_bytes (c_sha256 C) (KStr w) = Inr r"
    unfolding wif_private_bytes_def key_pyval_def key_input.case bytes bindE_simps pyval.case Let_def dl
      chk_def [symmetric] r_def body
    using nets by simp
  have init: "key_init C E protected (KStr w) (Some (n_name n)) c (Some True) True =
      key_of_format C E (KStr w) fmt True c (n_name n)" for c
    using fmt unfolding key_init_def gk ne by (auto simp: key_network_def m kf)
  have "fst r \<noteq> []" using len by (auto simp: r_def but_last_n_def)
  then have "key_of_format C E (KStr w) fmt True c (n_name n) =
      (let (b, comp) = r in key_of_secret E (be_val b) b comp (n_name n))" for c
    using fmt by (cases r) (auto simp: key_of_format_def private_bytes_def pb)
  then show ?thesis
    unfolding chk_def [symmetric] d_def [symmetric] w_def [symmetric] r_def [symmetric]
    unfolding key_from_wif_def hex bindE_simps pyval.case t2 nns Let_def list.case
    using nm by (simp add: init)
qed

lemma be_bytes_Suc: "be_bytes (Suc m) s = be_bytes m (s div 256) @ [byte_of (s mod 256)]"
  by (simp add: be_bytes_def)

lemma last_secret_byte: "last_n 1 (be_bytes 32 s) = [1] \<longleftrightarrow> s mod 256 = 1"
proof -
  have "last_n 1 (be_bytes 32 s) = [byte_of (s mod 256)]"
    using be_bytes_Suc [of 31 s] last_n_append [of "[byte_of (s mod 256)]" 1 "be_bytes 31 (s div 256)"] by simp
  moreover have "byte_of (s mod 256) = 1 \<longleftrightarrow> s mod 256 = 1"
  proof
    assume "byte_of (s mod 256) = 1"
    then have "unat (byte_of (s mod 256)) = 1" by simp
    then show "s mod 256 = 1" by (simp add: unat_byte_of)
  qed simp
  ultimately show ?thesis by simp
qed

lemma key_init_secret:
  assumes "n \<in> set NETWORK_DEFINITIONS" "coordinates E" "0 < s" "s < 2 ^ 256"
  shows "key_init C E protected (KInt (int s)) (Some (n_name n)) compressed None True =
    Inr (secret_key E s (be_bytes 32 s) compressed (n_name n))"
proof -
  obtain m where m: "network_named (n_name n) = Inr m" "n_name m = n_name n"
    using network_named_ok [OF assms(1)] by blast
  have z: "unhex (zfill 64 (hex_tail (int s))) = Inr (be_bytes 32 s)"
    using hex64_hex_of [OF assms(4)] by (simp add: hex64_def)
  have gk: "get_key_format (c_sha256 C) (KInt (int s)) None =
      Inr (plain_key_format ''decimal'' NoNetworks (Some True) [])"
    using assms(3) by (simp add: get_key_format_def key_empty_def plain_format_def)
  have e: "key_empty (KInt (int s)) = False" using assms(3) by (simp add: key_empty_def)
  show ?thesis
    unfolding key_init_def gk e
    by (simp add: plain_key_format_def key_network_def m key_of_format_def z key_of_secret_ok [OF assms(2)])
qed

lemma key_wif_secret:
  assumes "n \<in> set NETWORK_DEFINITIONS" "0 < s" "s < 2 ^ 256"
  obtains v where "wif_byte v"
    "key_wif C (secret_key E s b compressed (n_name n)) None =
      Inr (base58encode (v # (be_bytes 32 s @ (if compressed then [1] else [])) @
        take 4 (double_sha256 (c_sha256 C) (v # be_bytes 32 s @ (if compressed then [1] else [])))))"
proof -
  obtain m where m: "network_named (n_name n) = Inr m" "m \<in> set NETWORK_DEFINITIONS"
    using network_named_ok [OF assms(1)] by blast
  obtain v where v: "unhex (n_prefix_wif m) = Inr [v]" "wif_byte v" using network_wif_byte [OF m(2)] .
  have f: "k_secret (secret_key E s b compressed (n_name n)) = Some s"
    "k_network (secret_key E s b compressed (n_name n)) = n_name n"
    "k_compressed (secret_key E s b compressed (n_name n)) = compressed"
    by (simp_all add: secret_key_def split: prod.splits)
  have i: "int_to_be 32 (int s) = Inr (be_bytes 32 s)" using assms(3) by (simp add: int_to_be_Inr)
  show ?thesis
    using that [OF v(2)] assms(2) unfolding key_wif_def f by (simp add: m(1) v(1) i Let_def)
qed

section \<open>Properties\<close>


text \<open>An uncompressed key that ends with the byte 1 is read back as the compressed key of
  the other 31 bytes, a different secret.\<close>

theorem key_wif_misread:
  assumes "n \<in> set NETWORK_DEFINITIONS" "digest_size 32 (c_sha256 C)" "coordinates E"
    and "s < 2 ^ 256" "s mod 256 = 1"
    and "key_init C E protected (KInt (int s)) (Some (n_name n)) False None True = Inr k"
  shows "\<exists>w k'. key_wif C k None = Inr w \<and>
    key_from_wif C E protected w (Some (n_name n)) = Inr k' \<and>
    k_secret k' = Some (s div 256) \<and> k_compressed k'"
proof -
  have s0: "0 < s" using assms(5) by (cases s) simp_all
  have k: "k = secret_key E s (be_bytes 32 s) False (n_name n)"
    using key_init_secret [OF assms(1,3) s0 assms(4)] assms(6) by simp
  let ?body = "be_bytes 32 s"
  obtain v where v: "wif_byte v" "key_wif C k None =
      Inr (base58encode (v # ?body @ take 4 (double_sha256 (c_sha256 C) (v # ?body))))"
    unfolding k using key_wif_secret [OF assms(1) s0 assms(4), of C E "be_bytes 32 s" False] by auto
  have "last_n 1 ?body = [1]" using assms(5) last_secret_byte [of s] by simp
  moreover have "but_last_n 1 ?body = be_bytes 31 (s div 256)"
    using be_bytes_Suc [of 31 s] by simp
  moreover have "be_val (be_bytes 31 (s div 256)) = s div 256"
    using assms(4) by (intro be_val_be_bytes) (simp add: less_mult_imp_div_less)
  ultimately have "key_from_wif C E protected
      (base58encode (v # ?body @ take 4 (double_sha256 (c_sha256 C) (v # ?body)))) (Some (n_name n)) =
      Inr (secret_key E (s div 256) (be_bytes 31 (s div 256)) True (n_name n))"
    using key_from_wif_encoded [OF assms(1) v(1) assms(2), of ?body E protected]
    by (simp add: key_of_secret_ok [OF assms(3)])
  then show ?thesis using v(2) by (auto simp: secret_key_def split: prod.splits)
qed

section \<open>Witnesses\<close>

definition example_curve :: curve where
  "example_curve = \<lparr>e_point = \<lambda>m. (1, m mod 2), e_add = \<lambda>p q. (1, (snd p + snd q) mod 2),
     e_hmac512 = \<lambda>k m. replicate 31 0 @ [7] @ replicate 32 9, e_random = 5,
     e_urandom = []\<rparr>"

definition example_digests :: crypto where
  "example_digests = example_crypto\<lparr>c_sha256 := \<lambda>b. replicate 31 0 @ [byte_of (length b)],
     c_ripemd160 := \<lambda>b. replicate 20 4\<rparr>"

lemma example_digests_size: "digest_size 32 (c_sha256 example_digests)"
  by (simp add: digest_size_def example_digests_def)

lemma example_coordinates: "coordinates example_curve"
proof -
  have "m mod 2 < 2 ^ 256" for m :: nat
    by (rule less_trans [of _ 2]) simp_all
  then show ?thesis by (simp add: coordinates_def example_curve_def)
qed

lemma bitcoin_network: "\<exists>n \<in> set NETWORK_DEFINITIONS. n_name n = ''bitcoin''"
  by (simp add: NETWORK_DEFINITIONS_def)


theorem key_wif_misread_witness:
  "\<exists>k k' w. key_init example_digests example_curve (\<lambda>_. Inl BKeyError) (KInt 513) (Some ''bitcoin'') False None True = Inr k \<and>
    key_wif example_digests k None = Inr w \<and>
    key_from_wif example_digests example_curve (\<lambda>_. Inl BKeyError) w (Some ''bitcoin'') = Inr k' \<and>
    k_secret k' = Some 2"
proof -
  let ?P = "\<lambda>_ :: string. Inl BKeyError :: (bytes \<times> bool) res"
  obtain n where n: "n \<in> set NETWORK_DEFINITIONS" "n_name n = ''bitcoin''"
    using bitcoin_network by blast
  obtain k where k: "key_init example_digests example_curve ?P (KInt (int 513))
      (Some (n_name n)) False None True = Inr k"
    using key_init_secret [OF n(1) example_coordinates, of 513] by simp
  from key_wif_misread [OF n(1) example_digests_size example_coordinates _ _ k] k
  show ?thesis unfolding n(2) by auto
qed

end
