(* ===== verification/HD_Rules.thy ===== *)
theory HD_Rules
  imports HD_Keys Key_Rules
begin

text \<open>
  Properties of hierarchical deterministic keys: the invariant of private keys, the agreement of
  private and public derivation, paths, and the extended wallet import format.
\<close>

section \<open>Keys made from bytes\<close>

definition public_key :: "bytes \<Rightarrow> nat \<Rightarrow> string \<Rightarrow> key" where
  "public_key pc x network =
    \<lparr>k_is_private = False, k_secret = None, k_private = [], k_public = pc, k_public_compressed = pc,
     k_x = x, k_y = None, k_compressed = True, k_network = network\<rparr>"

lemma key_init_private_bytes:
  assumes "n \<in> set NETWORK_DEFINITIONS" "coordinates E" "length b = 32"
  shows "key_init C E protected (KBytes b) (Some (n_name n)) compressed (Some True) True =
    Inr (secret_key E (be_val b) b compressed (n_name n))"
proof -
  obtain m where m: "network_named (n_name n) = Inr m" "n_name m = n_name n"
    using network_named_ok [OF assms(1)] by blast
  have e: "key_empty (KBytes b) = False" and ne: "b \<noteq> []" using assms(3) by (auto simp: key_empty_def)
  have gk: "get_key_format (c_sha256 C) (KBytes b) (Some True) =
      Inr (plain_key_format ''bin'' NoNetworks (Some True) [])"
    using assms(3) e by (simp add: get_key_format_def plain_format_def)
  show ?thesis
    unfolding key_init_def gk e
    by (simp add: plain_key_format_def key_network_def m key_of_format_def private_bytes_def ne
        key_of_secret_ok [OF assms(2)])
qed

lemma key_init_public_bytes:
  assumes "n \<in> set NETWORK_DEFINITIONS" "x < 2 ^ 256"
  shows "key_init C E protected (KBytes (compressed_bytes x y)) (Some (n_name n)) compressed (Some False) True =
    Inr (public_key (compressed_bytes x y) x (n_name n))"
proof -
  let ?b = "compressed_bytes x y"
  obtain m where m: "network_named (n_name n) = Inr m" "n_name m = n_name n"
    using network_named_ok [OF assms(1)] by blast
  have len: "length ?b = 33" "?b \<noteq> []" by (simp_all add: compressed_bytes_def)
  have e: "key_empty (KBytes ?b) = False" using len by (simp add: key_empty_def)
  have "take 1 ?b = [2] \<or> take 1 ?b = [3]" by (simp add: compressed_bytes_def)
  then have gk: "get_key_format (c_sha256 C) (KBytes ?b) (Some False) =
      Inr (plain_key_format ''bin_compressed'' NoNetworks (Some False) [])"
    using len e by (auto simp: get_key_format_def plain_format_def)
  have "hex_of ?b = hex_of [if odd y then 3 else 2] @ hex_of (be_bytes 32 x)"
    unfolding hex_of_append [symmetric] by (simp add: compressed_bytes_def)
  then have s: "slice 2 66 (hex_of ?b) = hex_of (be_bytes 32 x)" by (simp add: slice_def)
  have "be_bytes 32 x \<noteq> []" by (metis length_be_bytes list.size(3) zero_neq_numeral)
  then have "py_int 16 (utf8_encode (slice 2 66 (hex_of ?b))) = Some (int x)"
    using py_int_hex_of [of "be_bytes 32 x"] assms(2) by (simp add: s be_val_be_bytes)
  then have "key_of_public (hex_of ?b) (n_name n) = Inr (public_key ?b x (n_name n))"
    using len by (simp add: key_of_public_def public_key_def)
  then show ?thesis
    unfolding key_init_def gk e
    by (simp add: plain_key_format_def key_network_def m key_of_format_def key_pyval_def to_hexstring_def len)
qed

section \<open>Construction from given bytes\<close>

lemma given_simps [simp]:
  "given None = False" "given (Some x) = (x \<noteq> [])"
  by (simp_all add: given_def)

text \<open>What \<^verbatim>\<open>__init__\<close> fills in: the script type and the encoding.\<close>

definition hd_types :: "hd_args \<Rightarrow> (string \<times> string \<times> string option) res" where
  "hd_types a =
    (let w = (case a_witness_type a of None \<Rightarrow> ''segwit'' | Some w \<Rightarrow> w)
     in bindE (hd_script_type None w (a_multisig a)) (\<lambda>st.
        bindE (if given (a_encoding a) then Inr (the (a_encoding a)) else get_encoding_from_witness (Some w))
          (\<lambda>e. Inr (w, e, st))))"

lemma hd_init_key:
  assumes "a_key a \<noteq> []"
  shows "hd_init C E protected a =
    bindE (hd_types a) (\<lambda>(w, e, st).
    bindE (key_init C E protected (KBytes (a_key a)) (a_network a) (a_compressed a)
      (Some (a_is_private a \<noteq> Some False)) True) (\<lambda>k. Inr (hd_extend k a w e st)))"
  using assms
  by (auto simp: hd_init_def hd_resolve_def hd_types_def Let_def bindE_assoc
      intro!: bindE_cong arg_cong [of _ _ "\<lambda>p. key_init C E protected _ _ _ (Some p) True"]
      split: option.splits bool.splits)

section \<open>The curve\<close>

text \<open>
  What the library relies on: coordinates are 256-bit numbers, HMAC-SHA512 gives 64 bytes, points of
  the curve add up like their secrets, and the second coordinate of a point is the one that
  decompression computes from the first and the parity.
\<close>

definition curve_laws :: "curve \<Rightarrow> bool" where
  "curve_laws E \<longleftrightarrow> coordinates E \<and> (\<forall>k m. length (e_hmac512 E k m) = 64) \<and>
     (\<forall>a b. 0 < (a + b) mod secp256k1_n \<longrightarrow>
        e_add E (e_point E a) (e_point E b) = e_point E ((a + b) mod secp256k1_n)) \<and>
     (\<forall>a. 0 < a mod secp256k1_n \<longrightarrow>
        decompress (fst (e_point E a)) (odd (snd (e_point E a))) = snd (e_point E a))"

lemma curve_lawsD:
  assumes "curve_laws E"
  shows "coordinates E" "length (e_hmac512 E k m) = 64"
    "0 < (a + b) mod secp256k1_n \<Longrightarrow> e_add E (e_point E a) (e_point E b) = e_point E ((a + b) mod secp256k1_n)"
    "0 < a mod secp256k1_n \<Longrightarrow> decompress (fst (e_point E a)) (odd (snd (e_point E a))) = snd (e_point E a)"
  using assms unfolding curve_laws_def by blast+

section \<open>Private extended keys\<close>

text \<open>
  The invariant of a private extended key: a secret below the order of the curve with its bytes
  and its public half, a chain code of 32 bytes, and position and types within their ranges.
\<close>

definition hd_secret :: "curve \<Rightarrow> nat \<Rightarrow> network \<Rightarrow> hdkey \<Rightarrow> bool" where
  "hd_secret E s n k \<longleftrightarrow>
     n \<in> set NETWORK_DEFINITIONS \<and> 0 < s \<and> s < secp256k1_n \<and>
     key.truncate k = secret_key E s (be_bytes 32 s) True (n_name n)"

definition hd_position :: "hdkey \<Rightarrow> bool" where
  "hd_position k \<longleftrightarrow> (\<exists>c. h_chain k = Some c \<and> length c = 32) \<and> 0 \<le> h_depth k \<and>
     length (h_parent_fingerprint k) = 4 \<and> 0 \<le> h_child_index k \<and> h_child_index k < 2 ^ 32 \<and>
     h_witness_type k \<in> {''legacy'', ''segwit'', ''p2sh-segwit''} \<and> h_encoding k \<noteq> []"

definition hd_private :: "curve \<Rightarrow> hdkey \<Rightarrow> bool" where
  "hd_private E k \<longleftrightarrow> hd_position k \<and> (\<exists>s n. hd_secret E s n k)"

lemma hd_secretD:
  assumes "hd_secret E s n k"
  shows "n \<in> set NETWORK_DEFINITIONS" "0 < s" "s < secp256k1_n"
    "k_is_private k" "k_secret k = Some s" "k_private k = be_bytes 32 s"
    "k_public k = compressed_bytes (fst (e_point E s)) (snd (e_point E s))"
    "k_public_compressed k = k_public k" "k_x k = fst (e_point E s)" "k_y k = Some (snd (e_point E s))"
    "k_compressed k" "k_network k = n_name n"
  using assms by (simp_all add: hd_secret_def secret_key_def key.defs split: prod.splits)

lemma order_256: "secp256k1_n < 2 ^ 256"
  by (simp add: secp256k1_n_def)

lemma hd_types_child:
  assumes "hd_position k"
  obtains st where "hd_types (child_args C k key chain i nw) = Inr (h_witness_type k, h_encoding k, Some st)"
    "script_type_default (h_witness_type k) (h_multisig k) False = Inr st"
proof -
  have "\<exists>st. script_type_default (h_witness_type k) (h_multisig k) False = Inr st"
    using assms by (auto simp: hd_position_def script_type_default_def)
  then obtain st where st: "script_type_default (h_witness_type k) (h_multisig k) False = Inr st" by blast
  have "h_witness_type k \<noteq> []" "h_encoding k \<noteq> []" using assms by (auto simp: hd_position_def)
  with st have "hd_types (child_args C k key chain i nw) = Inr (h_witness_type k, h_encoding k, Some st)"
    by (simp add: hd_types_def hd_script_type_def child_args_def hd_defaults_def)
  then show ?thesis using that st by blast
qed

lemma hd_types_private: "hd_types (a\<lparr>a_is_private := p\<rparr>) = hd_types a"
  by (simp add: hd_types_def cong: if_cong)

lemma key_derivation_Inr:
  assumes "key_derivation E chain seed = Inr (l, r)" "curve_laws E"
  shows "length l = 32" "length r = 32" "be_val l < secp256k1_n"
  using assms(1) curve_lawsD(2) [OF assms(2)] by (auto simp: key_derivation_def Let_def split: if_split_asm)

text \<open>A private child, field by field.\<close>

lemma child_private_Inr:
  assumes "hd_secret E s n k" "hd_position k" "curve_laws E"
    and "child_private C E protected k index hardened None = Inr c"
  obtains ib l r st where
    "int_to_be 4 (if hardened then index OR 0x80000000 else index) = Inr ib"
    "key_derivation E (h_chain k) ((if hardened then 0 # k_private k else k_public k) @ ib) = Inr (l, r)"
    "0 < (be_val l + s) mod secp256k1_n"
    "c = hd_extend (secret_key E ((be_val l + s) mod secp256k1_n)
           (be_bytes 32 ((be_val l + s) mod secp256k1_n)) True (n_name n))
         (child_args C k (be_bytes 32 ((be_val l + s) mod secp256k1_n)) r
           (if hardened then index OR 0x80000000 else index) None)
         (h_witness_type k) (h_encoding k) (Some st)"
    "script_type_default (h_witness_type k) (h_multisig k) False = Inr st"
proof -
  let ?i = "if hardened then index OR 0x80000000 else index"
  note k = hd_secretD [OF assms(1)]
  obtain ib l r where d: "int_to_be 4 ?i = Inr ib"
    "key_derivation E (h_chain k) ((if hardened then 0 # k_private k else k_public k) @ ib) = Inr (l, r)"
    and c: "(if (be_val l + s) mod secp256k1_n = 0 then Inl BKeyError
      else hd_init C E protected (child_args C k (be_bytes 32 ((be_val l + s) mod secp256k1_n)) r ?i None)) = Inr c"
    using assms(4) k(4,5) by (auto simp: child_private_def Let_def bindE_Inr_iff)
  define t where "t = (be_val l + s) mod secp256k1_n"
  have t: "0 < t" using c by (simp add: t_def split: if_split_asm)
  have "t < secp256k1_n" by (simp add: t_def secp256k1_n_def)
  then have v: "be_val (be_bytes 32 t) = t" using order_256 by (simp add: be_val_be_bytes)
  obtain st where st: "hd_types (child_args C k (be_bytes 32 t) r ?i None) =
      Inr (h_witness_type k, h_encoding k, Some st)"
    "script_type_default (h_witness_type k) (h_multisig k) False = Inr st"
    using hd_types_child [OF assms(2)] by blast
  have a: "a_key (child_args C k (be_bytes 32 t) r ?i None) = be_bytes 32 t"
    "a_network (child_args C k (be_bytes 32 t) r ?i None) = Some (n_name n)"
    "a_compressed (child_args C k (be_bytes 32 t) r ?i None)"
    "a_is_private (child_args C k (be_bytes 32 t) r ?i None) = None"
    by (simp_all add: child_args_def hd_defaults_def k(12))
  have ne: "be_bytes 32 t \<noteq> []" by (metis length_be_bytes list.size(3) zero_neq_numeral)
  have init: "key_init C E protected (KBytes (be_bytes 32 t)) (Some (n_name n)) True (Some True) True =
      Inr (secret_key E t (be_bytes 32 t) True (n_name n))"
    using key_init_private_bytes [OF k(1) curve_lawsD(1) [OF assms(3)], of "be_bytes 32 t"] by (simp add: v)
  have "hd_init C E protected (child_args C k (be_bytes 32 t) r ?i None) = Inr
      (hd_extend (secret_key E t (be_bytes 32 t) True (n_name n)) (child_args C k (be_bytes 32 t) r ?i None)
        (h_witness_type k) (h_encoding k) (Some st))"
    using hd_init_key [of "child_args C k (be_bytes 32 t) r ?i None"] ne
    by (simp add: a st(1) init)
  then show ?thesis using that [OF d, folded t_def, OF t _ st(2)] c t by (simp add: t_def [symmetric])
qed

section \<open>Public derivation\<close>

text \<open>The public half of a key as public derivation makes it: the second coordinate is not stored.\<close>

definition hd_watch :: "hdkey \<Rightarrow> hdkey" where
  "hd_watch k = (hd_public k)\<lparr>k_y := None\<rparr>"

lemma public_point_watch:
  assumes "hd_secret E s n k" "curve_laws E"
  shows "public_point (hd_watch k) = e_point E s" "public_point (hd_public k) = e_point E s"
proof -
  note k = hd_secretD [OF assms(1)]
  have "0 < s mod secp256k1_n" using k(2,3) by simp
  moreover have "(take 1 (k_public k) = [3]) = odd (snd (e_point E s))"
    by (simp add: k(7) compressed_bytes_def)
  ultimately show "public_point (hd_watch k) = e_point E s" "public_point (hd_public k) = e_point E s"
    using curve_lawsD(4) [OF assms(2)]
    by (simp_all add: public_point_def key_y_def hd_watch_def hd_public_def k)
qed

lemma hd_extend_watch:
  assumes "a_chain a' = a_chain a" "a_depth a' = a_depth a" "a_parent_fingerprint a' = a_parent_fingerprint a"
    "a_child_index a' = a_child_index a" "a_multisig a' = a_multisig a" "a_key_type a' = a_key_type a"
  shows "hd_extend (public_key (compressed_bytes (fst (e_point E t)) (snd (e_point E t))) (fst (e_point E t)) nw) a' w e st =
    hd_watch (hd_extend (secret_key E t b True nw) a w e st)"
  using assms
  by (simp add: hd_watch_def hd_public_def hd_extend_def key.defs hdkey.defs public_key_def secret_key_def
      split: prod.splits)

lemma child_public_point:
  assumes "hd_secret E s n k" "hd_position k" "curve_laws E" "index \<le> 0x80000000"
    and "child_private C E protected k index False None = Inr c"
    and p: "k_public p = k_public k" "h_chain p = h_chain k" "k_network p = k_network k"
      "public_point p = e_point E s" "\<And>key chain. child_args C p key chain index None = child_args C k key chain index None"
  shows "child_public C E protected p index None = Inr (hd_watch c)"
proof -
  note k = hd_secretD [OF assms(1)]
  obtain ib l r st where d: "int_to_be 4 index = Inr ib"
    "key_derivation E (h_chain k) (k_public k @ ib) = Inr (l, r)"
    "0 < (be_val l + s) mod secp256k1_n"
    and c: "c = hd_extend (secret_key E ((be_val l + s) mod secp256k1_n)
           (be_bytes 32 ((be_val l + s) mod secp256k1_n)) True (n_name n))
         (child_args C k (be_bytes 32 ((be_val l + s) mod secp256k1_n)) r index None)
         (h_witness_type k) (h_encoding k) (Some st)"
    and st: "script_type_default (h_witness_type k) (h_multisig k) False = Inr st"
    by (rule child_private_Inr [OF assms(1,2,3,5), unfolded if_False])
  define t where "t = (be_val l + s) mod secp256k1_n"
  obtain x y where xy: "e_point E t = (x, y)" by fastforce
  have x: "x < 2 ^ 256" using curve_lawsD(1) [OF assms(3)] xy by (metis coordinates_def fst_conv)
  have add: "e_add E (e_point E (be_val l)) (e_point E s) = (x, y)"
    using curve_lawsD(3) [OF assms(3) d(3)] xy by (simp add: t_def)
  have hex: "(if odd y then ''03'' else ''02'') @ hex64 x = hex_of (compressed_bytes x y)"
    using x by (simp add: hex64_hex_of prefix_hex hex_of_append [symmetric] compressed_bytes_def)
  define a where "a = (child_args C k (compressed_bytes x y) r index None)\<lparr>a_is_private := Some False\<rparr>"
  obtain st' where "hd_types (child_args C k (compressed_bytes x y) r index None) =
      Inr (h_witness_type k, h_encoding k, Some st')"
    "script_type_default (h_witness_type k) (h_multisig k) False = Inr st'"
    using hd_types_child [OF assms(2)] by blast
  then have ty: "hd_types a = Inr (h_witness_type k, h_encoding k, Some st)"
    using st by (simp add: a_def hd_types_private)
  have a: "a_key a = compressed_bytes x y" "a_network a = Some (n_name n)" "a_is_private a = Some False"
    "compressed_bytes x y \<noteq> []"
    by (simp_all add: a_def child_args_def hd_defaults_def k(12) compressed_bytes_def)
  have "hd_init C E protected a = Inr (hd_extend (public_key (compressed_bytes x y) x (n_name n)) a
      (h_witness_type k) (h_encoding k) (Some st))"
    using hd_init_key [of a C E protected] a key_init_public_bytes [OF k(1) x] by (simp add: ty)
  also have "\<dots> = Inr (hd_watch c)"
    using hd_extend_watch [of a "child_args C k (be_bytes 32 t) r index None" E t "n_name n"] xy
    by (simp add: c t_def [symmetric]) (simp add: a_def child_args_def hd_defaults_def)
  finally have "hd_init C E protected a = Inr (hd_watch c)" .
  then show ?thesis
    using assms(4) d(1,2) unfolding child_public_def p add [folded p(4)]
    by (simp add: p(4) add hex a_def)
qed

lemma hd_watch_fields [simp]:
  "k_public (hd_watch k) = k_public k" "h_chain (hd_watch k) = h_chain k" "k_network (hd_watch k) = k_network k"
  "k_public (hd_public k) = k_public k" "h_chain (hd_public k) = h_chain k" "k_network (hd_public k) = k_network k"
  "\<not> k_is_private (hd_watch k)" "\<not> k_is_private (hd_public k)"
  "h_key_type (hd_watch k) = h_key_type k" "h_key_type (hd_public k) = h_key_type k"
  by (simp_all add: hd_watch_def hd_public_def)

lemma child_args_watch:
  assumes "k_compressed k"
  shows "child_args C (hd_watch k) key chain i nw = child_args C k key chain i nw"
    "child_args C (hd_public k) key chain i nw = child_args C k key chain i nw"
  using assms
  by (simp_all add: child_args_def hd_fingerprint_def key_hash160_def hd_watch_def hd_public_def
      split: option.split)

lemma child_public_watch:
  assumes "hd_secret E s n k" "hd_position k" "curve_laws E" "index \<le> 0x80000000"
    and "child_private C E protected k index False None = Inr c"
  shows "child_public C E protected (hd_watch k) index None = Inr (hd_watch c)"
    "child_public C E protected (hd_public k) index None = Inr (hd_watch c)"
  by (rule child_public_point [OF assms];
      simp add: public_point_watch [OF assms(1,3)] child_args_watch [OF hd_secretD(11) [OF assms(1)]])+

section \<open>The invariant\<close>

lemma truncate_extend [simp]: "key.truncate (hd_extend k a w e st) = k"
  by (simp add: hd_extend_def key.defs hdkey.defs)

lemma hd_extend_fields [simp]:
  "h_chain (hd_extend k a w e st) = a_chain a" "h_depth (hd_extend k a w e st) = a_depth a"
  "h_parent_fingerprint (hd_extend k a w e st) = a_parent_fingerprint a"
  "h_child_index (hd_extend k a w e st) = a_child_index a" "h_encoding (hd_extend k a w e st) = e"
  "h_script_type (hd_extend k a w e st) = st" "h_witness_type (hd_extend k a w e st) = w"
  "h_multisig (hd_extend k a w e st) = a_multisig a" "h_key_type (hd_extend k a w e st) = a_key_type a"
  by (simp_all add: hd_extend_def key.defs hdkey.defs)

lemma hd_fingerprint_length:
  assumes "digest_size 20 (c_ripemd160 C)"
  shows "length (hd_fingerprint C k) = 4"
  using assms by (simp add: hd_fingerprint_def key_hash160_def hash160_def digest_size_def)

lemma child_private_invariant:
  assumes "hd_secret E s n k" "hd_position k" "curve_laws E" "digest_size 20 (c_ripemd160 C)"
    and "child_private C E protected k index hardened None = Inr c"
  obtains t where "hd_secret E t n c" "hd_position c"
    "h_depth c = h_depth k + 1" "h_parent_fingerprint c = hd_fingerprint C k"
    "h_child_index c = (if hardened then index OR 0x80000000 else index)"
    "h_witness_type c = h_witness_type k" "h_multisig c = h_multisig k" "h_encoding c = h_encoding k"
    "h_key_type c = ''bip32''"
proof -
  let ?i = "if hardened then index OR 0x80000000 else index"
  note k = hd_secretD [OF assms(1)]
  obtain ib l r st where d: "int_to_be 4 ?i = Inr ib"
    "key_derivation E (h_chain k) ((if hardened then 0 # k_private k else k_public k) @ ib) = Inr (l, r)"
    "0 < (be_val l + s) mod secp256k1_n"
    and c: "c = hd_extend (secret_key E ((be_val l + s) mod secp256k1_n)
           (be_bytes 32 ((be_val l + s) mod secp256k1_n)) True (n_name n))
         (child_args C k (be_bytes 32 ((be_val l + s) mod secp256k1_n)) r ?i None)
         (h_witness_type k) (h_encoding k) (Some st)"
    by (rule child_private_Inr [OF assms(1,2,3,5)])
  have "(be_val l + s) mod secp256k1_n < secp256k1_n" by (simp add: secp256k1_n_def)
  then have s: "hd_secret E ((be_val l + s) mod secp256k1_n) n c"
    using d(3) k(1) by (simp add: hd_secret_def c)
  have i: "0 \<le> ?i \<and> ?i < 2 ^ 32" using d(1) by (simp add: int_to_be_Inr_iff)
  have r: "length r = 32" using key_derivation_Inr [OF d(2) assms(3)] by blast
  have f: "h_chain c = Some r" "h_depth c = h_depth k + 1" "h_parent_fingerprint c = hd_fingerprint C k"
    "h_child_index c = ?i" "h_witness_type c = h_witness_type k" "h_multisig c = h_multisig k"
    "h_encoding c = h_encoding k" "h_key_type c = ''bip32''"
    by (simp_all add: c child_args_def hd_defaults_def)
  have "hd_position c"
    using assms(2) i r unfolding hd_position_def f hd_fingerprint_length [OF assms(4)] by simp
  then show ?thesis using that [OF s] f by blast
qed

lemma derive_path_invariant:
  assumes "hd_secret E s n k" "hd_position k" "curve_laws E" "digest_size 20 (c_ripemd160 C)"
    and "derive_path C E protected None False path k = Inr c"
  shows "\<exists>t. hd_secret E t n c \<and> hd_position c \<and> h_depth c = h_depth k + int (length path) \<and>
    h_witness_type c = h_witness_type k \<and> h_multisig c = h_multisig k \<and> h_encoding c = h_encoding k"
  using assms(1,2,5)
proof (induction path arbitrary: k s)
  case (Cons item path)
  obtain i h k1 where k1: "path_index item = Inr (i, h)" "child_private C E protected k i h None = Inr k1"
    "derive_path C E protected None False path k1 = Inr c"
    using Cons.prems(3) hd_secretD(4) [OF Cons.prems(1)] by (auto simp: bindE_Inr_iff)
  obtain t where t: "hd_secret E t n k1" "hd_position k1" "h_depth k1 = h_depth k + 1"
    "h_witness_type k1 = h_witness_type k" "h_multisig k1 = h_multisig k" "h_encoding k1 = h_encoding k"
    by (rule child_private_invariant [OF Cons.prems(1,2) assms(3,4) k1(2)])
  show ?case using Cons.IH [OF t(1,2) k1(3)] t(3-6) by (auto simp: algebra_simps)
qed auto

section \<open>Paths\<close>

definition normal_path :: "string list \<Rightarrow> bool" where
  "normal_path path \<longleftrightarrow> list_all (\<lambda>item. case path_index item of Inr (i, h) \<Rightarrow> \<not> h \<and> i < 0x80000000 | _ \<Rightarrow> False) path"

lemma normal_path_Cons:
  assumes "normal_path (item # path)"
  obtains i where "path_index item = Inr (i, False)" "i < 0x80000000" "normal_path path"
  using assms by (auto simp: normal_path_def split: sum.splits)

lemma derive_path_watch:
  assumes "hd_secret E s n k" "hd_position k" "curve_laws E" "digest_size 20 (c_ripemd160 C)"
    and "normal_path path" "derive_path C E protected None False path k = Inr c"
  shows "derive_path C E protected None False path (hd_watch k) = Inr (hd_watch c)"
  using assms(1,2,5,6)
proof (induction path arbitrary: k s)
  case (Cons item path)
  obtain i where i: "path_index item = Inr (i, False)" "i < 0x80000000" "normal_path path"
    using normal_path_Cons [OF Cons.prems(3)] .
  obtain k1 where k1: "child_private C E protected k i False None = Inr k1"
    "derive_path C E protected None False path k1 = Inr c"
    using Cons.prems(4) hd_secretD(4) [OF Cons.prems(1)] i(1) by (auto simp: bindE_Inr_iff)
  obtain t where t: "hd_secret E t n k1" "hd_position k1"
    by (rule child_private_invariant [OF Cons.prems(1,2) assms(3,4) k1(1)])
  have "child_public C E protected (hd_watch k) i None = Inr (hd_watch k1)"
    using child_public_watch(1) [OF Cons.prems(1,2) assms(3) _ k1(1)] i(2) by simp
  then show ?case using Cons.IH [OF t i(3) k1(2)] by (simp add: i(1))
qed simp

lemma derive_path_first:
  assumes "hd_secret E s n k" "hd_position k" "curve_laws E" "digest_size 20 (c_ripemd160 C)"
    and "normal_path path" "path \<noteq> []" "derive_path C E protected None False path k = Inr c"
  shows "derive_path C E protected None True path k = Inr (hd_watch c)"
    "derive_path C E protected None False path (hd_public k) = Inr (hd_watch c)"
proof -
  obtain item rest where p: "path = item # rest" using assms(6) by (cases path) auto
  obtain i where i: "path_index item = Inr (i, False)" "i < 0x80000000" "normal_path rest"
    using normal_path_Cons assms(5) p by blast
  obtain k1 where k1: "child_private C E protected k i False None = Inr k1"
    "derive_path C E protected None False rest k1 = Inr c"
    using assms(7) hd_secretD(4) [OF assms(1)] i(1) p by (auto simp: bindE_Inr_iff)
  obtain t where t: "hd_secret E t n k1" "hd_position k1"
    by (rule child_private_invariant [OF assms(1,2,3,4) k1(1)])
  have "public_point k = e_point E s"
    by (simp add: public_point_def key_y_def hd_secretD [OF assms(1)])
  then have "child_public C E protected k i None = Inr (hd_watch k1)"
    using child_public_point [OF assms(1,2,3) _ k1(1), of k] i(2) by simp
  moreover have "child_public C E protected (hd_public k) i None = Inr (hd_watch k1)"
    using child_public_watch(2) [OF assms(1,2,3) _ k1(1)] i(2) by simp
  ultimately show "derive_path C E protected None True path k = Inr (hd_watch c)"
    "derive_path C E protected None False path (hd_public k) = Inr (hd_watch c)"
    using derive_path_watch [OF t assms(3,4) i(3) k1(2)] by (simp_all add: p i(1))
qed

text \<open>Derived keys are of the type \<^verbatim>\<open>bip32\<close>.\<close>

lemma hd_init_key_type:
  assumes "hd_init C E protected a = Inr k" "a_import a = NoImport"
  shows "h_key_type k = a_key_type a"
  using assms by (auto simp: hd_init_def hd_resolve_def Let_def bindE_Inr_iff split: if_split_asm)

lemma child_args_key_type:
  "hd_init C E protected (child_args C k key chain i nw) = Inr c \<Longrightarrow> h_key_type c = ''bip32''"
  "hd_init C E protected ((child_args C k key chain i nw)\<lparr>a_is_private := p\<rparr>) = Inr c \<Longrightarrow> h_key_type c = ''bip32''"
  by (drule hd_init_key_type; simp add: child_args_def hd_defaults_def)+

lemma child_public_Inr:
  assumes "child_public C E protected k i nw = Inr c"
  obtains kc where "(case kc of (key, chain) \<Rightarrow>
      (let (x, y) = e_add E (e_point E (be_val key)) (public_point k)
       in bindE (unhex ((if odd y then ''03'' else ''02'') @ hex64 x)) (\<lambda>pub.
         hd_init C E protected ((child_args C k pub chain i nw)\<lparr>a_is_private := Some False\<rparr>)))) = Inr c"
proof -
  define f where "f = (\<lambda>kc. case kc of (key, chain) \<Rightarrow>
      (let (x, y) = e_add E (e_point E (be_val key)) (public_point k)
       in bindE (unhex ((if odd y then ''03'' else ''02'') @ hex64 x)) (\<lambda>pub.
         hd_init C E protected ((child_args C k pub chain i nw)\<lparr>a_is_private := Some False\<rparr>))))"
  have "(if i > 0x80000000 then Inl BKeyError
      else bindE (int_to_be 4 i) (\<lambda>ib. bindE (key_derivation E (h_chain k) (k_public k @ ib)) f)) = Inr c"
    using assms unfolding child_public_def f_def .
  then obtain kc where "f kc = Inr c" by (auto simp: bindE_Inr_iff split: if_split_asm)
  then show ?thesis using that unfolding f_def by blast
qed

lemma child_key_type:
  "child_private C E protected k i h nw = Inr c \<Longrightarrow> h_key_type c = ''bip32''"
  "child_public C E protected k i nw = Inr c \<Longrightarrow> h_key_type c = ''bip32''"
proof -
  show "child_private C E protected k i h nw = Inr c \<Longrightarrow> h_key_type c = ''bip32''"
    by (auto simp: child_private_def Let_def bindE_Inr_iff child_args_key_type
        split: if_split_asm option.split_asm)
  assume "child_public C E protected k i nw = Inr c"
  then obtain kc where "(case kc of (key, chain) \<Rightarrow>
      (let (x, y) = e_add E (e_point E (be_val key)) (public_point k)
       in bindE (unhex ((if odd y then ''03'' else ''02'') @ hex64 x)) (\<lambda>pub.
         hd_init C E protected ((child_args C k pub chain i nw)\<lparr>a_is_private := Some False\<rparr>)))) = Inr c"
    by (elim child_public_Inr)
  then obtain l x y where "(case e_add E (e_point E l) (public_point k) of (x, y) \<Rightarrow>
      bindE (unhex ((if odd y then ''03'' else ''02'') @ hex64 x)) (\<lambda>pub.
         hd_init C E protected ((child_args C k pub (snd kc) i nw)\<lparr>a_is_private := Some False\<rparr>))) = Inr c"
    by (cases kc) simp
  then show "h_key_type c = ''bip32''"
    by (cases "e_add E (e_point E l) (public_point k)") (auto simp: bindE_Inr_iff child_args_key_type)
qed

lemma derive_path_key_type:
  "derive_path C E protected nw fp path k = Inr c \<Longrightarrow> h_key_type k \<noteq> ''single'' \<Longrightarrow> h_key_type c \<noteq> ''single''"
proof (induction path arbitrary: k fp)
  case (Cons item path)
  then obtain i h k1 where k1: "derive_path C E protected nw False path k1 = Inr c"
    "child_private C E protected k i h nw = Inr k1 \<or> child_public C E protected k i nw = Inr k1"
    by (auto simp: bindE_Inr_iff split: if_split_asm)
  then have "h_key_type k1 = ''bip32''" using child_key_type by blast
  then show ?case using Cons.IH [OF k1(1)] by simp
qed simp

lemma derive_path_append:
  "derive_path C E protected nw fp (p @ q) k =
    bindE (derive_path C E protected nw fp p k) (derive_path C E protected nw (fp \<and> p = []) q)"
proof (induction p arbitrary: k fp)
  case (Cons item p)
  show ?case
    by (cases "path_index item") (auto simp: Cons.IH bindE_assoc intro!: bindE_cong split: prod.splits)
qed simp

lemma split_text_not_Nil [simp]: "split_text c p \<noteq> []"
  by (cases p) (auto split: list.splits)

lemma split_text_append: "split_text c (p @ c # q) = split_text c p @ split_text c q"
proof (induction p)
  case (Cons x p)
  show ?case by (cases "split_text c p") (use Cons in \<open>simp_all split: list.splits\<close>)
qed simp

lemma split_text_m: "split_text (CHR ''/'') (''m/'' @ p) = ''m'' # split_text (CHR ''/'') p"
  by simp

section \<open>Modular powers\<close>

lemma pow_mod_power: "pow_mod a e m = a ^ e mod m"
proof (induction a e m rule: pow_mod.induct)
  case (1 a e m)
  show ?case
  proof (cases "e = 0")
    case False
    then have h: "pow_mod (a * a mod m) (e div 2) m = (a * a) ^ (e div 2) mod m"
      using 1 by (simp add: power_mod)
    have sq: "(a * a) ^ (e div 2) = a ^ (2 * (e div 2))" by (simp only: power_mult power2_eq_square)
    have "e = (if odd e then Suc (2 * (e div 2)) else 2 * (e div 2))" by presburger
    then have "a ^ e = (if odd e then a * (a * a) ^ (e div 2) else (a * a) ^ (e div 2))"
      unfolding sq by (metis power_Suc)
    then show ?thesis
      using False h by (subst pow_mod.simps) (auto simp: Let_def mod_mult_right_eq)
  qed (simp add: pow_mod.simps)
qed

section \<open>The text of a public key\<close>

lemma hd_wif_watch:
  "bindE (hd_wif C (hd_watch k) False 0 v wt ms) (\<lambda>(w, _). Inr w) =
   bindE (hd_wif C k False 0 v wt ms) (\<lambda>(w, _). Inr w)"
proof -
  have f: "h_witness_type (hd_watch k) = h_witness_type k" "h_multisig (hd_watch k) = h_multisig k"
    "h_depth (hd_watch k) = h_depth k" "h_child_index (hd_watch k) = h_child_index k"
    "h_parent_fingerprint (hd_watch k) = h_parent_fingerprint k"
    by (simp_all add: hd_watch_def hd_public_def)
  show ?thesis
    unfolding hd_wif_def hd_wif_key_def f hd_watch_fields Let_def
    by (cases "h_chain k") (simp_all add: bindE_assoc f)
qed

lemma child_private_ok:
  assumes "hd_secret E s n k" "hd_position k" "curve_laws E" "int_to_be 4 index = Inr ib"
    and "key_derivation E (h_chain k) (k_public k @ ib) = Inr (l, r)"
    and "0 < (be_val l + s) mod secp256k1_n"
  shows "\<exists>c. child_private C E protected k index False None = Inr c"
proof -
  note k = hd_secretD [OF assms(1)]
  define t where "t = (be_val l + s) mod secp256k1_n"
  have "t < secp256k1_n" by (simp add: t_def secp256k1_n_def)
  then have v: "be_val (be_bytes 32 t) = t" using order_256 by (simp add: be_val_be_bytes)
  obtain st where st: "hd_types (child_args C k (be_bytes 32 t) r index None) =
      Inr (h_witness_type k, h_encoding k, Some st)"
    using hd_types_child [OF assms(2)] by blast
  have a: "a_key (child_args C k (be_bytes 32 t) r index None) = be_bytes 32 t"
    "a_network (child_args C k (be_bytes 32 t) r index None) = Some (n_name n)"
    "a_compressed (child_args C k (be_bytes 32 t) r index None)"
    "a_is_private (child_args C k (be_bytes 32 t) r index None) = None"
    by (simp_all add: child_args_def hd_defaults_def k(12))
  have ne: "be_bytes 32 t \<noteq> []" by (metis length_be_bytes list.size(3) zero_neq_numeral)
  have "\<exists>c. hd_init C E protected (child_args C k (be_bytes 32 t) r index None) = Inr c"
    using hd_init_key [of "child_args C k (be_bytes 32 t) r index None" C E protected] ne
      key_init_private_bytes [OF k(1) curve_lawsD(1) [OF assms(3)], of "be_bytes 32 t" C protected True]
    by (simp add: a st)
  then show ?thesis
    using assms(4-6) k(4,5) by (simp add: child_private_def t_def)
qed

section \<open>Properties\<close>

text \<open>C35: deriving a path from a private extended key keeps the invariant: the secret stays between
  1 and the order of the curve, the stored bytes, point and public key are those of the secret, chain
  code, fingerprint and index keep their sizes; the depth grows by the length of the path, and
  network, witness type, multisig flag and encoding are inherited.\<close>

theorem private_path_invariant:
  assumes "curve_laws E" "digest_size 20 (c_ripemd160 C)" "hd_private E k"
    and "key_for_path C E protected k (''m'' # path) None = Inr c"
  shows "hd_private E c \<and> h_depth c = h_depth k + int (length path) \<and> k_network c = k_network k \<and>
    h_witness_type c = h_witness_type k \<and> h_multisig c = h_multisig k \<and> h_encoding c = h_encoding k"
proof -
  obtain s n where k: "hd_secret E s n k" "hd_position k" using assms(3) by (auto simp: hd_private_def)
  have d: "derive_path C E protected None False path k = Inr c"
    using assms(4) by (simp add: key_for_path_def split: if_split_asm)
  then obtain t where t: "hd_secret E t n c" "hd_position c" "h_depth c = h_depth k + int (length path)"
    "h_witness_type c = h_witness_type k" "h_multisig c = h_multisig k" "h_encoding c = h_encoding k"
    using derive_path_invariant [OF k assms(1,2)] by blast
  then show ?thesis using hd_secretD(12) [OF k(1)] hd_secretD(12) [OF t(1)] by (auto simp: hd_private_def)
qed

text \<open>C34: private and public derivation agree. If a private key derives \<open>c\<close> along a path without
  hardened levels, then its public half derives exactly the public half of \<open>c\<close> along the same path,
  and so does a path that starts with \<^verbatim>\<open>M\<close>; the extended public keys have the same text.\<close>

theorem public_derivation_agrees:
  assumes "curve_laws E" "digest_size 20 (c_ripemd160 C)" "hd_private E k"
    and "normal_path path" "path \<noteq> []"
    and "key_for_path C E protected k (''m'' # path) None = Inr c"
  shows "key_for_path C E protected (hd_public k) (''m'' # path) None = Inr (hd_watch c) \<and>
    key_for_path C E protected k (''M'' # path) None = Inr (hd_watch c) \<and>
    k_public (hd_watch c) = k_public c \<and> \<not> k_is_private (hd_watch c) \<and>
    bindE (hd_wif C (hd_watch c) False 0 None None False) (\<lambda>(w, _). Inr w) =
    bindE (hd_wif C c False 0 None None False) (\<lambda>(w, _). Inr w)"
proof -
  obtain s n where k: "hd_secret E s n k" "hd_position k" using assms(3) by (auto simp: hd_private_def)
  have d: "h_key_type k \<noteq> ''single''" "derive_path C E protected None False path k = Inr c"
    using assms(6) by (simp_all add: key_for_path_def split: if_split_asm)
  show ?thesis
    using derive_path_first [OF k assms(1,2,4,5) d(2)] d(1) by (simp add: key_for_path_def hd_wif_watch)
qed

text \<open>A path can be derived in two parts: \<^verbatim>\<open>key_for_path\<close> of the text \<^verbatim>\<open>m/p/q\<close> gives the same
  key, or the same error, as \<^verbatim>\<open>m/p\<close> followed by \<^verbatim>\<open>m/q\<close> from the key reached, for every key.\<close>

theorem key_for_path_in_parts:
  "key_for_path_text C E protected k (''m/'' @ p @ ''/'' @ q) network =
   bindE (key_for_path_text C E protected k (''m/'' @ p) network)
     (\<lambda>k'. key_for_path_text C E protected k' (''m/'' @ q) network)"
proof -
  have s: "split_text (CHR ''/'') (''m/'' @ p @ ''/'' @ q) =
      ''m'' # split_text (CHR ''/'') p @ split_text (CHR ''/'') q"
    using split_text_append [of "CHR ''/''" p q] unfolding split_text_m by simp
  show ?thesis
    unfolding key_for_path_text_def s unfolding split_text_m
    by (auto simp: key_for_path_def derive_path_append bindE_assoc dest: derive_path_key_type
        intro!: bindE_cong)
qed

text \<open>On a public key the mark of a hardened level is dropped without an error: the path \<^verbatim>\<open>m/i'\<close>
  derives the public half of the key that the private key derives along \<^verbatim>\<open>m/i\<close>.\<close>

theorem hardened_mark_dropped:
  assumes "curve_laws E" "digest_size 20 (c_ripemd160 C)" "hd_private E k"
    and "path_index item' = Inr (i, True)" "path_index item = Inr (i, False)" "i < 0x80000000"
    and "key_for_path C E protected k [''m'', item] None = Inr c"
  shows "key_for_path C E protected (hd_public k) [''m'', item'] None = Inr (hd_watch c)"
proof -
  obtain s n where k: "hd_secret E s n k" "hd_position k" using assms(3) by (auto simp: hd_private_def)
  have "normal_path [item]" using assms(5,6) by (simp add: normal_path_def)
  moreover have d: "h_key_type k \<noteq> ''single''" "derive_path C E protected None False [item] k = Inr c"
    using assms(7) by (simp_all add: key_for_path_def split: if_split_asm)
  ultimately have "derive_path C E protected None False [item] (hd_public k) = Inr (hd_watch c)"
    using derive_path_first(2) [OF k assms(1,2)] by blast
  then show ?thesis using assms(4,5) d(1) by (simp add: key_for_path_def)
qed

section \<open>Witnesses\<close>

text \<open>A curve on which all points are the point with the second coordinate 1.\<close>

definition point_1 :: nat where
  "point_1 = 14420825845716772930243294451304383010336953996540286189290595400563546912007"

definition one_point_curve :: curve where
  "one_point_curve = \<lparr>e_point = \<lambda>_. (point_1, 1), e_add = \<lambda>_ _. (point_1, 1),
     e_hmac512 = \<lambda>_ _. replicate 31 0 @ [7] @ replicate 32 9, e_random = 5, e_urandom = []\<rparr>"

lemma decompress_point_1: "decompress point_1 True = 1"
proof -
  have "pow_mod point_1 3 secp256k1_p = secp256k1_p - 6"
    by (simp add: pow_mod_power point_1_def secp256k1_p_def)
  then have ys: "pow_mod point_1 3 secp256k1_p + 7 = secp256k1_p + 1" by (simp add: secp256k1_p_def)
  have "(secp256k1_p + 1) ^ e mod secp256k1_p = 1" for e
  proof -
    have "(secp256k1_p + 1) ^ e mod secp256k1_p = ((secp256k1_p + 1) mod secp256k1_p) ^ e mod secp256k1_p"
      by (simp add: power_mod)
    also have "(secp256k1_p + 1) mod secp256k1_p = 1" by (simp add: secp256k1_p_def)
    finally show ?thesis by (simp add: secp256k1_p_def)
  qed
  then show ?thesis unfolding decompress_def ys by (simp add: mod_sqrt_def pow_mod_power Let_def)
qed

lemma one_point_curve_laws: "curve_laws one_point_curve"
proof -
  have "coordinates one_point_curve"
    by (simp add: coordinates_def one_point_curve_def point_1_def)
  then show ?thesis
    by (simp add: curve_laws_def one_point_curve_def decompress_point_1)
qed

lemma example_ripemd_size: "digest_size 20 (c_ripemd160 example_digests)"
  by (simp add: digest_size_def example_digests_def)

lemma example_hd_key:
  obtains k c where "hd_private one_point_curve k" "k_network k = ''bitcoin''"
    "key_for_path example_digests one_point_curve protected k (''m'' # [''0'']) None = Inr c"
proof -
  obtain n where n: "n \<in> set NETWORK_DEFINITIONS" "n_name n = ''bitcoin''"
    using bitcoin_network by blast
  define k where "k = hd_extend (secret_key one_point_curve 300 (be_bytes 32 300) True (n_name n))
    (hd_defaults\<lparr>a_chain := Some (replicate 32 1)\<rparr>) ''segwit'' ''bech32'' None"
  have s: "hd_secret one_point_curve 300 n k"
    using n(1) by (simp add: hd_secret_def k_def secp256k1_n_def)
  have p: "hd_position k" by (simp add: hd_position_def k_def hd_defaults_def)
  have b: "int_to_be 4 0 = Inr (be_bytes 4 0)" by (simp add: int_to_be_Inr)
  have "be_val (replicate 31 0 @ [7]) = 7" by (simp only: be_val_append) (simp add: be_val_def)
  then have d: "key_derivation one_point_curve (h_chain k) (k_public k @ be_bytes 4 0) =
      Inr (replicate 31 0 @ [7], replicate 32 9)"
    and v: "0 < (be_val (replicate 31 0 @ [7]) + 300) mod secp256k1_n"
    by (simp_all add: key_derivation_def one_point_curve_def secp256k1_n_def)
  obtain c where "child_private example_digests one_point_curve protected k 0 False None = Inr c"
    using child_private_ok [OF s p one_point_curve_laws b d v] by blast
  moreover have "path_index ''0'' = Inr (0, False)" by code_simp
  moreover have "h_key_type k = ''bip32''" by (simp add: k_def hd_defaults_def)
  ultimately have "key_for_path example_digests one_point_curve protected k (''m'' # [''0'']) None = Inr c"
    using hd_secretD(4) [OF s] by (simp add: key_for_path_def)
  moreover have "hd_private one_point_curve k" using s p by (auto simp: hd_private_def)
  ultimately show ?thesis using that hd_secretD(12) [OF s] n(2) by simp
qed

theorem private_path_invariant_witness:
  "\<exists>k c. key_for_path example_digests one_point_curve (\<lambda>_. Inl BKeyError) k (''m'' # [''0'']) None = Inr c \<and>
    hd_private one_point_curve c \<and> h_depth c = h_depth k + 1"
proof -
  obtain k c where k: "hd_private one_point_curve k"
    "key_for_path example_digests one_point_curve (\<lambda>_. Inl BKeyError) k (''m'' # [''0'']) None = Inr c"
    by (rule example_hd_key)
  show ?thesis
    using private_path_invariant [OF one_point_curve_laws example_ripemd_size k] k(2) by auto
qed

theorem public_derivation_agrees_witness:
  "\<exists>k c. key_for_path example_digests one_point_curve (\<lambda>_. Inl BKeyError) k (''m'' # [''0'']) None = Inr c \<and>
    key_for_path example_digests one_point_curve (\<lambda>_. Inl BKeyError) (hd_public k) (''m'' # [''0'']) None =
      Inr (hd_watch c)"
proof -
  obtain k c where k: "hd_private one_point_curve k"
    "key_for_path example_digests one_point_curve (\<lambda>_. Inl BKeyError) k (''m'' # [''0'']) None = Inr c"
    by (rule example_hd_key)
  have "normal_path [''0'']" by code_simp
  then show ?thesis
    using public_derivation_agrees [OF one_point_curve_laws example_ripemd_size k(1) _ _ k(2)] k(2) by auto
qed

end
