(* ===== verification/Mnemonic.thy ===== *)
theory Mnemonic
  imports HD_Rules
begin

text \<open>
  \<^verbatim>\<open>bitcoinlib/mnemonic.py\<close>: mnemonic sentences for byte strings and back (BIP39), and the seed of a
  sentence. The word lists, files of the repository, are an association list from languages to
  words in the order of the directory; the list of a \<^verbatim>\<open>Mnemonic\<close> object is one of them. The
  normalisation \<^verbatim>\<open>unicodedata.normalize\<close> and \<^verbatim>\<open>hashlib.pbkdf2_hmac\<close> are functions.
\<close>

section \<open>The operations\<close>

fun join_text :: "char \<Rightarrow> string list \<Rightarrow> string" where
  "join_text c [] = []"
| "join_text c [w] = w"
| "join_text c (w # ws) = w @ c # join_text c ws"

text \<open>A hexadecimal string, also one of bytes, is decoded first.\<close>

definition mnemonic_checksum :: "crypto \<Rightarrow> pyval \<Rightarrow> string res" where
  "mnemonic_checksum C data =
    bindE (to_bytes data True) (\<lambda>d.
      if 0 < length d mod 4 then Inl ValueError
      else bindE (change_base (PBytes (c_sha256 C d)) 256 2 256 None None) (\<lambda>r.
        case r of PStr s \<Rightarrow> Inr (take (length d * 8 div 32) s) | _ \<Rightarrow> Inl TypeError))"

fun pick_words :: "string list \<Rightarrow> int list \<Rightarrow> string list res" where
  "pick_words wl [] = Inr []"
| "pick_words wl (i # is) =
     (if length wl \<le> nat i then Inl IndexError
      else bindE (pick_words wl is) (\<lambda>ws. Inr (wl ! nat i # ws)))"

text \<open>
  Without a checksum the minimal length is a comparison, \<^verbatim>\<open>len(data) // 1.375 + len(data) % 1.375 > 0\<close>,
  and so 1 or 0.
\<close>

definition mnemonic_digits :: "crypto \<Rightarrow> bytes \<Rightarrow> bool \<Rightarrow> pyval res" where
  "mnemonic_digits C data add_checksum =
    (if add_checksum then
       bindE (change_base (PInt (int (be_val data))) 10 2 (length data * 8) None None) (\<lambda>b.
       bindE (mnemonic_checksum C (PBytes data)) (\<lambda>c.
         case b of PStr s \<Rightarrow> change_base (PStr (s @ c)) 2 2048 0 None None | _ \<Rightarrow> Inl TypeError))
     else change_base (PInt (int (be_val data))) 10 2048 (if data = [] then 0 else 1) None None)"

definition to_mnemonic ::
  "crypto \<Rightarrow> (string \<Rightarrow> string) \<Rightarrow> string list \<Rightarrow> pyval \<Rightarrow> bool \<Rightarrow> bool \<Rightarrow> string res" where
  "to_mnemonic C nfkd wl x add_checksum check_on_curve =
    bindE (to_bytes x True) (\<lambda>data.
      if check_on_curve \<and> \<not> (0 < be_val data \<and> be_val data < secp256k1_n) then Inl ValueError
      else bindE (mnemonic_digits C data add_checksum) (\<lambda>wi.
        case wi of
          PList is \<Rightarrow> bindE (pick_words wl is) (\<lambda>ws. Inr (nfkd (join_text (CHR '' '') ws)))
        | _ \<Rightarrow> Inl TypeError))"

definition generate ::
  "crypto \<Rightarrow> (string \<Rightarrow> string) \<Rightarrow> string list \<Rightarrow> (nat \<Rightarrow> bytes) \<Rightarrow> nat \<Rightarrow> bool \<Rightarrow> string res" where
  "generate C nfkd wl urandom strength add_checksum =
    (if 0 < strength mod 32 then Inl ValueError
     else to_mnemonic C nfkd wl (PBytes (urandom (strength div 8))) add_checksum True)"

text \<open>The first language of the directory that has the most words of the sentence.\<close>

definition detect_language :: "(string \<Rightarrow> string) \<Rightarrow> (string \<times> string list) list \<Rightarrow> string \<Rightarrow> string res" where
  "detect_language nfkd wordlists words =
    (let ws = split_text (CHR '' '') (nfkd words);
         counts = map (\<lambda>(l, wl). (l, length (filter (\<lambda>w. w \<in> set wl) ws))) wordlists
     in case List.find (\<lambda>(l, n). list_all (\<lambda>(l', n'). n' \<le> n) counts) counts of
          None \<Rightarrow> Inl ValueError
        | Some (l, n) \<Rightarrow> if n = 0 then Inl WarningException else Inr l)"

definition sanitize_mnemonic :: "(string \<Rightarrow> string) \<Rightarrow> (string \<times> string list) list \<Rightarrow> string \<Rightarrow> string res" where
  "sanitize_mnemonic nfkd wordlists words0 =
    (let words = nfkd words0
     in bindE (detect_language nfkd wordlists words) (\<lambda>language.
          let ws = split_text (CHR '' '') words
          in if list_all (\<lambda>w. w \<in> set (the (map_of wordlists language))) ws
             then Inr (join_text (CHR '' '') ws) else Inl WarningException))"

fun word_indices :: "string list \<Rightarrow> string list \<Rightarrow> int list res" where
  "word_indices wl [] = Inr []"
| "word_indices wl (w # ws) =
     (case index_of w wl of
        None \<Rightarrow> Inl ValueError
      | Some i \<Rightarrow> bindE (word_indices wl ws) (\<lambda>is. Inr (int i # is)))"

text \<open>\<^verbatim>\<open>-len(binresult) // 33\<close> rounds up: the number of bits of the checksum.\<close>

definition checksum_bits :: "nat \<Rightarrow> nat" where
  "checksum_bits n = (n + 32) div 33"

definition check_entropy :: "crypto \<Rightarrow> bytes \<Rightarrow> nat \<Rightarrow> pyval res" where
  "check_entropy C ent ent_length =
    bindE (change_base (PBytes ent) 256 2 (length ent * 4) None None) (\<lambda>r.
      case r of
        PStr binresult \<Rightarrow>
          (let n = length binresult - checksum_bits (length binresult)
           in bindE (change_base (PStr (take n binresult)) 2 256 ent_length None None) (\<lambda>ent1.
              bindE (mnemonic_checksum C ent1) (\<lambda>c.
                if drop n binresult \<noteq> c then Inl ValueError else Inr ent1)))
      | _ \<Rightarrow> Inl TypeError)"

definition to_entropy ::
  "crypto \<Rightarrow> (string \<Rightarrow> string) \<Rightarrow> (string \<times> string list) list \<Rightarrow> string list \<Rightarrow> string \<Rightarrow> bool \<Rightarrow> pyval res" where
  "to_entropy C nfkd wordlists wl words includes_checksum =
    bindE (sanitize_mnemonic nfkd wordlists words) (\<lambda>sentence.
      let ws = split_text (CHR '' '') sentence; ent_length = length ws * 4 div 3
      in bindE (word_indices wl ws) (\<lambda>wi.
         bindE (change_base (PList wi) 2048 256 ent_length (Some False) None) (\<lambda>ent.
           if includes_checksum
           then (case ent of PBytes b \<Rightarrow> check_entropy C b ent_length | _ \<Rightarrow> Inl TypeError)
           else Inr ent)))"

definition to_seed ::
  "crypto \<Rightarrow> (bytes \<Rightarrow> bytes \<Rightarrow> nat \<Rightarrow> bytes) \<Rightarrow> (string \<Rightarrow> string) \<Rightarrow> (string \<times> string list) list \<Rightarrow> string list \<Rightarrow>
   string \<Rightarrow> string \<Rightarrow> bool \<Rightarrow> bytes res" where
  "to_seed C pbkdf2 nfkd wordlists wl words0 password validate =
    bindE (sanitize_mnemonic nfkd wordlists words0) (\<lambda>words.
    bindE (if validate then bindE (to_entropy C nfkd wordlists wl words True) (\<lambda>_. Inr ()) else Inr ()) (\<lambda>_.
      Inr (pbkdf2 (utf8_encode words) (utf8_encode (''mnemonic'' @ password)) 2048)))"

end
