(* ===== verification/Mnemonic_Rules.thy ===== *)
theory Mnemonic_Rules
  imports Mnemonic
begin

text \<open>
  A mnemonic sentence is read back to the entropy it was made of. The conversions go through
  \<^verbatim>\<open>change_base\<close>, which guesses leading zeros from the input; the lemmas here determine how many digits
  each of them returns.
\<close>

section \<open>Numbers of digits\<close>

context radix begin

lemma length_to_digits: "length (to_digits b n []) \<le> k \<longleftrightarrow> n < b ^ k"
proof
  assume "length (to_digits b n []) \<le> k"
  then have "b ^ length (to_digits b n []) \<le> b ^ k" using two_le by (intro power_increasing) auto
  moreover have "n < b ^ length (to_digits b n [])"
    using digits_val_lt [of "to_digits b n []"] to_digits_lt digits_val_to_digits by simp
  ultimately show "n < b ^ k" by simp
next
  assume n: "n < b ^ k"
  show "length (to_digits b n []) \<le> k"
  proof (cases "n = 0")
    case False
    then obtain d ds where ds: "to_digits b n [] = d # ds" by (cases "to_digits b n []") auto
    then have "0 < d" using to_digits_hd [of n] False by simp
    have "n = d * b ^ length ds + digits_val b ds"
      using digits_val_to_digits [of n] ds by (simp add: digits_val_Cons)
    then have "b ^ length ds \<le> n" using \<open>0 < d\<close> by (simp add: trans_le_add1)
    then have "b ^ length ds < b ^ k" using n by simp
    then have "length ds < k" using two_le power_less_imp_less_exp by auto
    then show ?thesis using ds by simp
  qed simp
qed

end

lemma add_zeros_form:
  "\<exists>j\<le>k. add_zeros z e k out = replicate j z @ out \<and> (j = k \<or> e (length out + j)) \<and>
     (\<forall>i<j. \<not> e (length out + i))"
proof (induction k arbitrary: out)
  case (Suc k)
  show ?case
  proof (cases "e (length out)")
    case True
    have "add_zeros z e k out = out" using True by (induction k) simp_all
    then show ?thesis using True by (intro exI [of _ 0]) simp
  next
    case False
    obtain j where j: "j \<le> k" "add_zeros z e k (z # out) = replicate j z @ z # out"
      "j = k \<or> e (length (z # out) + j)" "\<forall>i<j. \<not> e (length (z # out) + i)" using Suc.IH by blast
    have "\<forall>i<Suc j. \<not> e (length out + i)" using j(4) False by (auto simp: less_Suc_eq_0_disj)
    then show ?thesis using False j(1-3) by (intro exI [of _ "Suc j"]) (auto simp: replicate_app_Cons_same)
  qed
qed simp

section \<open>Bit strings\<close>

definition bit_text :: "nat list \<Rightarrow> string" where
  "bit_text ds = map (\<lambda>d. if d = 0 then CHR ''0'' else CHR ''1'') ds"

lemma length_bit_text [simp]: "length (bit_text ds) = length ds"
  by (simp add: bit_text_def)

lemma bit_text_append: "bit_text (ds @ es) = bit_text ds @ bit_text es"
  by (simp add: bit_text_def)

lemma take_bit_text: "take n (bit_text ds) = bit_text (take n ds)"
  by (simp add: bit_text_def take_map)

lemma drop_bit_text: "drop n (bit_text ds) = bit_text (drop n ds)"
  by (simp add: bit_text_def drop_map)

lemma bit_text_inj:
  assumes "\<forall>d\<in>set ds. d < 2" "\<forall>d\<in>set es. d < 2" "bit_text ds = bit_text es"
  shows "ds = es"
  using assms
proof (induction ds arbitrary: es)
  case (Cons d ds)
  then obtain e es' where es: "es = e # es'" by (cases es) (auto simp: bit_text_def)
  have "d = 0 \<or> d = 1" "e = 0 \<or> e = 1" using Cons.prems(1,2) es by auto
  then show ?case using Cons.prems Cons.IH [of es'] es by (auto simp: bit_text_def)
qed (simp add: bit_text_def)

text \<open>What is read from a bit string: its value and the number of its leading zeros.\<close>

lemma base_2_codes: "code_strings 2 = Some [48, 49]" "get_code_string 2 = [48, 49]"
  by (simp_all add: code_strings_def get_code_string_def codes_def)

lemma bit_text_read:
  assumes "\<forall>d\<in>set ds. d < 2"
  shows "digit_loop 2 48 (rev (utf8_encode (bit_text ds))) 1 0 0 =
    Inr (digits_val 2 ds, length (takeWhile (\<lambda>d. d = 0) ds))"
proof -
  have "list_all2 (\<lambda>b d. byte_index 2 b = Some d \<and> (unat b = 48 \<longleftrightarrow> d = 0)) (utf8_encode (bit_text ds)) ds"
    using assms
  proof (induction ds)
    case (Cons d ds)
    then have "d = 0 \<or> d = 1" by auto
    then show ?case using Cons
      by (auto simp: bit_text_def utf8_encode_def utf8_char_def byte_index_def base_2_codes)
  qed (simp add: bit_text_def utf8_encode_def)
  from digit_loop_digits [OF this, of 1 0 0] show ?thesis by simp
qed

section \<open>What the conversions return\<close>

text \<open>The digits of a number, with at least \<open>k\<close> of them.\<close>

definition pad :: "nat \<Rightarrow> nat \<Rightarrow> nat \<Rightarrow> nat list" where
  "pad b k n = replicate (k - length (to_digits b n [])) 0 @ to_digits b n []"

lemma length_pad: "length (pad b k n) = max k (length (to_digits b n []))"
  by (simp add: pad_def)

lemma pad_val: "2 \<le> b \<Longrightarrow> digits_val b (pad b k n) = n"
  using radix.digits_val_to_digits [of b n] by (simp add: pad_def digits_val_append radix_def)

lemma pad_lt: "2 \<le> b \<Longrightarrow> d \<in> set (pad b k n) \<Longrightarrow> d < b"
  using radix.to_digits_lt [of b d n] by (auto simp: pad_def radix_def)

lemma pad_unique:
  assumes "2 \<le> b" "\<forall>d\<in>set ds. d < b" "n < b ^ length ds" "digits_val b ds = n"
  shows "ds = pad b (length ds) n"
proof -
  have r: "radix b" using assms(1) by (simp add: radix_def)
  have "length (to_digits b n []) \<le> length ds" using radix.length_to_digits [OF r] assms(3) by simp
  then show ?thesis
    using radix.digits_inj [OF r, of ds "pad b (length ds) n"] assms pad_val pad_lt
    by (auto simp: length_pad)
qed

lemma takeWhile_pad:
  assumes "2 \<le> b" "0 < n"
  shows "length (takeWhile (\<lambda>d. d = 0) (pad b k n)) = k - length (to_digits b n [])"
proof -
  have r: "radix b" using assms(1) by (simp add: radix_def)
  obtain d ds where "to_digits b n [] = d # ds" "d \<noteq> 0"
    using radix.to_digits_hd [OF r assms(2)] radix.to_digits_eq_Nil [OF r, of n] assms(2)
    by (cases "to_digits b n []") auto
  then show ?thesis by (simp add: pad_def takeWhile_append)
qed

text \<open>
  The output is padded to the number of digits that the input seems to call for, unless its length is
  the expected one already, and then to the minimal length.
\<close>

lemma output_digits_pad:
  assumes "bt \<noteq> 10" "get_code_string bt \<noteq> []"
  obtains j where "j \<le> zeros_to_add bf bt az"
    "j = zeros_to_add bf bt az \<or> bf ^ sl = bt ^ (length (to_digits bt n []) + j)"
    "\<forall>i<j. bf ^ sl \<noteq> bt ^ (length (to_digits bt n []) + i)"
    "output_digits bf bt m False az sl n =
      map ((!) (get_code_string bt)) (pad bt (max m (length (to_digits bt n []) + j)) n)"
proof -
  let ?c = "get_code_string bt"
  let ?out = "map (\<lambda>d. ?c ! d) (to_digits bt n [])"
  obtain j where j: "j \<le> zeros_to_add bf bt az"
    "add_zeros (hd ?c) (\<lambda>n. bf ^ sl = bt ^ n) (zeros_to_add bf bt az) ?out = replicate j (hd ?c) @ ?out"
    "j = zeros_to_add bf bt az \<or> bf ^ sl = bt ^ (length ?out + j)"
    "\<forall>i<j. bf ^ sl \<noteq> bt ^ (length ?out + i)"
    using add_zeros_form by blast
  have hd: "hd ?c = ?c ! 0" using assms(2) by (simp add: hd_conv_nth)
  have "output_digits bf bt m False az sl n =
      replicate (m - (j + length (to_digits bt n []))) (?c ! 0) @ replicate j (?c ! 0) @ ?out"
    using assms(1) j(2) by (simp add: output_digits_def hd Let_def)
  also have "\<dots> = replicate ((m - (j + length (to_digits bt n []))) + j) (?c ! 0) @ ?out"
    by (simp only: replicate_add append_assoc)
  also have "(m - (j + length (to_digits bt n []))) + j =
      max m (length (to_digits bt n []) + j) - length (to_digits bt n [])" by arith
  finally show ?thesis using that [OF j(1)] j(3,4) by (simp add: pad_def)
qed

lemma char_of_bits: "char_of (48 :: nat) = CHR ''0''" "char_of (49 :: nat) = CHR ''1''"
  by code_simp+

lemma bit_text_codes: "\<forall>d\<in>set ds. d < 2 \<Longrightarrow> map char_of (map ((!) (get_code_string 2)) ds) = bit_text ds"
proof (induction ds)
  case (Cons d ds)
  then have "d = 0 \<or> d = 1" by auto
  then show ?case using Cons by (auto simp: base_2_codes bit_text_def char_of_bits)
qed (simp add: bit_text_def)

lemma decimal_to_bits:
  assumes "0 < m"
  shows "change_base (PInt (int n)) 10 2 m None None = Inr (PStr (bit_text (pad 2 m n)))"
proof -
  have z: "zeros_to_add 10 2 0 = 0" by (simp add: zeros_to_add_def ilog.simps)
  obtain o1 where o: "output_digits 10 2 m False 0 (py_str_len (PInt (int n))) n = o1"
    "o1 = map ((!) (get_code_string 2)) (pad 2 (max m (length (to_digits 2 n []))) n)"
    using output_digits_pad [of 2 10 0 "py_str_len (PInt (int n))" n m] z
    by (auto simp: base_2_codes)
  have p: "pad 2 (max m (length (to_digits 2 n []))) n = pad 2 m n" by (simp add: pad_def)
  have "pad 2 m n \<noteq> []" using assms by (metis length_pad list.size(3) max.strict_coboundedI1 less_irrefl)
  then have "convert_output 2 False o1 = Inr (PStr (bit_text (pad 2 m n)))"
    using bit_text_codes [of "pad 2 m n"] pad_lt [of 2 _ m n] by (auto simp: convert_output_def o(2) p)
  then show ?thesis using assms o(1)
    by (simp add: change_base_def normalize_var_def fast_path_def Let_def base_2_codes)
qed

lemma index_of_upt: "k \<le> i \<Longrightarrow> i < n \<Longrightarrow> index_of i [k..<n] = Some (i - k)"
proof (induction "n - k" arbitrary: k)
  case (Suc m)
  then have "[k..<n] = k # [Suc k..<n]" by (simp add: upt_conv_Cons)
  then show ?case using Suc by (cases "i = k") simp_all
qed simp

lemma ilog_unique: "2 \<le> b \<Longrightarrow> b ^ k \<le> n \<Longrightarrow> n < b ^ Suc k \<Longrightarrow> ilog b n = k"
proof (induction k arbitrary: n)
  case (Suc k)
  have "b ^ k \<le> n div b" using Suc.prems by (simp add: less_eq_div_iff_mult_less_eq mult.commute)
  moreover have "n div b < b ^ Suc k" using Suc.prems by (simp add: div_less_iff_less_mult mult.commute)
  moreover have "b \<le> n" using Suc.prems
    by (metis power_Suc le_trans nat_mult_1_right mult_le_mono2 one_le_power le_trans one_le_numeral numeral_2_eq_2 Suc_leD)
  ultimately show ?case using Suc.IH [of "n div b"] Suc.prems(1) by (simp add: ilog.simps [of b n])
qed (simp add: ilog.simps)

lemma bytes_read:
  "digit_loop 256 0 (rev b) 1 0 0 = Inr (be_val b, length (takeWhile (\<lambda>x. x = 0) b))"
proof -
  have "list_all2 (\<lambda>b d. byte_index 256 b = Some d \<and> (unat b = 0 \<longleftrightarrow> d = 0)) b (map unat b)"
  proof (induction b)
    case (Cons x b)
    then show ?case using Cons by (simp add: byte_index_def code_strings_def index_of_upt)
  qed simp
  moreover have "(\<lambda>x :: byte. unat x = 0) = (\<lambda>x. x = 0)" by (auto simp: word_unat_eq_iff)
  ultimately show ?thesis using digit_loop_digits [of 256 0 b "map unat b" 1 0 0]
    by (simp add: be_val_digits takeWhile_map comp_def)
qed

lemma py_str_len_bytes: "length b + 3 \<le> py_str_len (PBytes b)"
proof -
  have one: "1 \<le> repr_byte_len q x" for q x by (simp add: repr_byte_len_def Let_def)
  have "length b \<le> sum_list (map (repr_byte_len q) b)" for q
  proof (induction b)
    case (Cons x b)
    then show ?case using one [of q x] by simp
  qed simp
  then show ?thesis by (simp add: py_str_len_def Let_def)
qed

lemma be_val_lt: "be_val b < 256 ^ length b"
  using b256.digits_val_lt [of "map unat b"] by (simp add: be_val_digits)

lemma bytes_to_bits:
  assumes "0 < m" "z = length (takeWhile (\<lambda>x. x = 0) b)"
  shows "change_base (PBytes b) 256 2 m None None =
    Inr (PStr (bit_text (pad 2 (max m (length (to_digits 2 (be_val b) []) + (if z = 1 then 1 else 8 * z))) (be_val b))))"
proof -
  let ?v = "be_val b" and ?sl = "py_str_len (PBytes b)"
  let ?l = "length (to_digits 2 ?v [])"
  have "ilog 2 (256 ^ z) = 8 * z"
    by (rule ilog_unique) (simp_all add: power_mult)
  then have zs: "zeros_to_add 256 2 z = (if z = 1 then 1 else 8 * z)" by (simp add: zeros_to_add_def)
  obtain j where j: "j \<le> zeros_to_add 256 2 z" "j = zeros_to_add 256 2 z \<or> 256 ^ ?sl = (2::nat) ^ (?l + j)"
    "output_digits 256 2 m False z ?sl ?v = map ((!) (get_code_string 2)) (pad 2 (max m (?l + j)) ?v)"
    using output_digits_pad [of 2 256 z ?sl ?v m] by (auto simp: base_2_codes)
  let ?r = "dropWhile (\<lambda>x. x = 0) b"
  have len: "z + length ?r = length b"
    unfolding assms(2) by (metis length_append takeWhile_dropWhile_id)
  have "?v < 256 ^ length ?r" using be_val_lt [of ?r] be_val_dropWhile_zero [of b] by simp
  then have "?l \<le> 8 * length ?r" by (simp add: b2.length_to_digits power_mult)
  then have "?l + j \<le> 8 * length b" using j(1) len by (auto simp: zs split: if_splits)
  then have "?l + j < 8 * ?sl" using py_str_len_bytes [of b] by linarith
  moreover have "(256::nat) ^ ?sl = 2 ^ (8 * ?sl)" by (simp add: power_mult)
  ultimately have "(256::nat) ^ ?sl \<noteq> 2 ^ (?l + j)" by simp
  then have jz: "j = (if z = 1 then 1 else 8 * z)" using j(2) zs by simp
  let ?ds = "pad 2 (max m (?l + j)) ?v"
  have "?ds \<noteq> []" using assms(1) by (metis length_pad list.size(3) max.strict_coboundedI1 less_irrefl)
  moreover have "map char_of (map ((!) (get_code_string 2)) ?ds) = bit_text ?ds"
    using pad_lt [of 2] by (intro bit_text_codes) auto
  ultimately show ?thesis using j(3) bytes_read [of b] unfolding jz [symmetric]
    by (simp add: change_base_def normalize_var_def fast_path_def Let_def base_2_codes code_strings_256
        convert_output_def assms(2))
qed

text \<open>The number of leading zeros, from the lengths.\<close>

lemma leading_zeros:
  assumes "2 \<le> b" "\<forall>d\<in>set ds. d < b"
  shows "length (takeWhile (\<lambda>d. d = 0) ds) + length (to_digits b (digits_val b ds) []) = length ds"
proof -
  have "radix b" using assms(1) by (simp add: radix_def)
  then show ?thesis using radix.digits_split [of b ds] assms(2) by (metis length_append)
qed

lemma digits_lower:
  assumes "2 \<le> b" "0 < n"
  shows "b ^ (length (to_digits b n []) - 1) \<le> n"
proof (rule ccontr)
  have r: "radix b" using assms(1) by (simp add: radix_def)
  assume "\<not> b ^ (length (to_digits b n []) - 1) \<le> n"
  then have "length (to_digits b n []) \<le> length (to_digits b n []) - 1" using radix.length_to_digits [OF r] by simp
  moreover have "to_digits b n [] \<noteq> []" using radix.to_digits_eq_Nil [OF r] assms(2) by simp
  ultimately show False by (cases "to_digits b n []") auto
qed

text \<open>The number of digits in base \<open>2 ^ k\<close>, from the number of bits.\<close>

lemma length_digits_bits:
  assumes "0 < k" "0 < n"
  shows "length (to_digits 2 n []) \<le> k * length (to_digits (2 ^ k) n [])"
    "k * (length (to_digits (2 ^ k) n []) - 1) < length (to_digits 2 n [])"
proof -
  have two: "2 \<le> (2::nat) ^ k" using assms(1) power_increasing [of 1 k "2::nat"] by simp
  then have r: "radix (2 ^ k)" by (simp add: radix_def)
  have "n < (2 ^ k) ^ length (to_digits (2 ^ k) n [])" by (simp flip: radix.length_to_digits [OF r])
  then show "length (to_digits 2 n []) \<le> k * length (to_digits (2 ^ k) n [])"
    by (simp add: b2.length_to_digits power_mult)
  have "(2 ^ k) ^ (length (to_digits (2 ^ k) n []) - 1) \<le> n" by (rule digits_lower [OF two assms(2)])
  then have "\<not> length (to_digits 2 n []) \<le> k * (length (to_digits (2 ^ k) n []) - 1)"
    by (simp add: b2.length_to_digits power_mult not_less)
  then show "k * (length (to_digits (2 ^ k) n []) - 1) < length (to_digits 2 n [])" by simp
qed

lemma base_2048_codes: "code_strings 2048 = None" "get_code_string 2048 = [0..<2048]"
  by (simp_all add: code_strings_def get_code_string_def)

lemma map_nth_upt: "\<forall>d\<in>set ds. d < n \<Longrightarrow> map ((!) [0..<n]) ds = ds"
  by (induction ds) auto

lemma ilog_2_power:
  assumes "0 < k"
  shows "ilog (2 ^ k) (2 ^ z) = z div k"
proof (rule ilog_unique)
  show "2 \<le> (2::nat) ^ k" using assms power_increasing [of 1 k "2::nat"] by simp
  have e: "k * (z div k) \<le> z" by simp
  have e': "z < k * Suc (z div k)" using dividend_less_times_div [OF assms, of z] by simp
  show "(2 ^ k) ^ (z div k) \<le> (2::nat) ^ z" using e by (simp flip: power_mult)
  show "(2::nat) ^ z < (2 ^ k) ^ Suc (z div k)" unfolding power_mult [symmetric] using e' by simp
qed

lemma bits_to_words:
  assumes "\<forall>d\<in>set ds. d < 2" "length ds = 11 * k" "0 < digits_val 2 ds"
  shows "change_base (PStr (bit_text ds)) 2 2048 0 None None =
    Inr (PList (map int (pad 2048 k (digits_val 2 ds))))"
proof -
  let ?v = "digits_val 2 ds" and ?z = "length (takeWhile (\<lambda>d. d = 0) ds)" and ?sl = "py_str_len (PStr (bit_text ds))"
  let ?n = "length (to_digits 2048 ?v [])" and ?b = "length (to_digits 2 ?v [])"
  have sl: "?sl = 11 * k" using assms(2) by (simp add: py_str_len_def)
  have zs: "zeros_to_add 2 2048 ?z = (if ?z = 1 then 1 else ?z div 11)"
    using ilog_2_power [of 11 ?z] by (simp add: zeros_to_add_def)
  have e: "?z + ?b = 11 * k" using leading_zeros [of 2 ds] assms(1,2) by simp
  have nb: "?b \<le> 11 * ?n" "11 * (?n - 1) < ?b" using length_digits_bits [of 11 ?v] assms(3) by simp_all
  have pw: "(2::nat) ^ ?sl = 2048 ^ i \<longleftrightarrow> i = k" for i
  proof -
    have "(2048::nat) ^ i = 2 ^ (11 * i)" by (simp add: power_mult)
    then show ?thesis by (auto simp: sl)
  qed
  obtain j where j: "j \<le> zeros_to_add 2 2048 ?z" "j = zeros_to_add 2 2048 ?z \<or> ?n + j = k"
    "\<forall>i<j. ?n + i \<noteq> k"
    "output_digits 2 2048 0 False ?z ?sl ?v = map ((!) (get_code_string 2048)) (pad 2048 (max 0 (?n + j)) ?v)"
    by (rule output_digits_pad [of 2048 2 ?z ?sl ?v 0]) (auto simp: base_2048_codes pw)
  have "?n + j = k"
  proof (cases "?z = 1")
    case True
    then have "?n = k" using e nb by linarith
    then show ?thesis using j(3) by auto
  next
    case False
    then have "?n + ?z div 11 = k" using e nb by linarith
    then show ?thesis using j(2) zs False by auto
  qed
  then have "output_digits 2 2048 0 False ?z ?sl ?v = pad 2048 k ?v"
    using j(4) pad_lt [of 2048 _ k ?v] by (simp add: base_2048_codes map_nth_upt)
  then show ?thesis using bit_text_read [OF assms(1)]
    by (simp add: change_base_def normalize_var_def fast_path_def Let_def base_2_codes base_2048_codes convert_output_def)
qed

lemma words_read:
  assumes "\<forall>d\<in>set ws. d < 2048"
  shows "digit_loop_list 2048 (rev (map int ws)) 1 0 0 =
    Inr (digits_val 2048 ws, if ws \<noteq> [] \<and> hd ws = 0 then 1 else 0)"
proof -
  have idx: "index_of (int d) (map int [0..<2048]) = Some d" if "d < 2048" for d
  proof -
    have "index_of (int d) (map int xs) = index_of d xs" for xs by (induction xs) simp_all
    then show ?thesis using that by (simp only: index_of_upt) simp
  qed
  have "digit_loop_list 2048 (rev (map int ws)) f n z =
      Inr (n + f * digits_val 2048 ws, if ws \<noteq> [] \<and> hd ws = 0 then z + 1 else z)" if "0 < f" for f n z
    using assms that
  proof (induction ws arbitrary: f n z rule: rev_induct)
    case (snoc d ds)
    then show ?case using idx [of d] snoc.IH [of "f * 2048"] digits_val_snoc [of 2048 ds d]
      by (cases ds) (simp_all add: base_2048_codes algebra_simps)
  qed simp
  from this [of 1 0 0] show ?thesis by simp
qed

interpretation b10: radix 10 by unfold_locales simp

lemma py_str_len_words: "ws \<noteq> [] \<Longrightarrow> 3 * length ws \<le> py_str_len (PList (map int ws))"
proof -
  have one: "1 \<le> int_str_len (int i)" for i
    using b10.to_digits_eq_Nil [of i] by (cases "to_digits 10 i []") (auto simp: int_str_len_def)
  have "length ws \<le> sum_list (map int_str_len (map int ws))"
  proof (induction ws)
    case (Cons x ws)
    then show ?case using one [of x] by simp
  qed simp
  then show "ws \<noteq> [] \<Longrightarrow> 3 * length ws \<le> py_str_len (PList (map int ws))"
    by (cases ws) (simp_all add: py_str_len_def)
qed

lemma words_to_bytes:
  assumes "\<forall>d\<in>set ws. d < 2048" "ws \<noteq> []" "0 < m" "v = digits_val 2048 ws"
  shows "change_base (PList (map int ws)) 2048 256 m (Some False) None =
    Inr (PBytes (map byte_of (pad 256 (max m (length (to_digits 256 v []) + (if hd ws = 0 then 1 else 0))) v)))"
proof -
  let ?z = "if hd ws = 0 then 1 else 0 :: nat" and ?sl = "py_str_len (PList (map int ws))"
  let ?n = "length (to_digits 256 v [])"
  have zs: "zeros_to_add 2048 256 ?z = ?z" by (simp add: zeros_to_add_def ilog.simps)
  obtain j where j: "j \<le> ?z" "j = ?z \<or> 2048 ^ ?sl = (256::nat) ^ (?n + j)"
    "output_digits 2048 256 m False ?z ?sl v = map ((!) (get_code_string 256)) (pad 256 (max m (?n + j)) v)"
    by (rule output_digits_pad [of 256 2048 ?z ?sl v m]) (auto simp: code_strings_256 zs)
  have jz: "j = ?z"
  proof (rule ccontr)
    assume "j \<noteq> ?z"
    then have "(2048::nat) ^ ?sl = 256 ^ (?n + j)" using j(2) by blast
    moreover have "(2048::nat) ^ x = 2 ^ (11 * x)" "(256::nat) ^ x = 2 ^ (8 * x)" for x
      by (simp_all add: power_mult)
    ultimately have e: "11 * ?sl = 8 * (?n + j)" using power_inject_exp [of "2::nat"] by simp
    have "v < 2048 ^ length ws" using b2048.digits_val_lt [of ws] assms(1,4) by simp
    also have "(2048::nat) ^ length ws = 2 ^ (11 * length ws)" by (simp add: power_mult)
    also have "(2::nat) ^ (11 * length ws) \<le> 2 ^ (16 * length ws)" by simp
    also have "(2::nat) ^ (16 * length ws) = 256 ^ (2 * length ws)" by (simp add: power_mult)
    finally have "?n \<le> 2 * length ws" by (simp add: b256.length_to_digits)
    then show False using e j(1) py_str_len_words [OF assms(2)] assms(2) by (cases ws) (auto split: if_splits)
  qed
  let ?ds = "pad 256 (max m (?n + ?z)) v"
  have "?ds \<noteq> []" using assms(3) by (metis length_pad list.size(3) max.strict_coboundedI1 max.cobounded1 le_zero_eq less_irrefl)
  moreover have "output_digits 2048 256 m False ?z ?sl v = ?ds"
    using j(3) pad_lt [of 256 _ "max m (?n + ?z)" v] by (simp add: jz code_strings_256 map_nth_upt)
  moreover have "digit_loop_list 2048 (rev (map int ws)) 1 0 0 = Inr (v, ?z)"
    using words_read [OF assms(1)] assms(2,4) by simp
  ultimately show ?thesis
    by (simp add: change_base_def normalize_var_def fast_path_def Let_def base_2048_codes convert_output_def
        code_strings_def rev_map)
qed

lemma bits_to_bytes:
  assumes "\<forall>d\<in>set ds. d < 2" "0 < m" "v = digits_val 2 ds" "z = length (takeWhile (\<lambda>d. d = 0) ds)"
  obtains j where "j \<le> (if z = 1 then 1 else z div 8)"
    "change_base (PStr (bit_text ds)) 2 256 m None None =
      Inr (PBytes (map byte_of (pad 256 (max m (length (to_digits 256 v []) + j)) v)))"
proof -
  let ?sl = "py_str_len (PStr (bit_text ds))" and ?n = "length (to_digits 256 v [])"
  have zs: "zeros_to_add 2 256 z = (if z = 1 then 1 else z div 8)"
    using ilog_2_power [of 8 z] by (simp add: zeros_to_add_def)
  obtain j where j: "j \<le> (if z = 1 then 1 else z div 8)"
    "output_digits 2 256 m False z ?sl v = map ((!) (get_code_string 256)) (pad 256 (max m (?n + j)) v)"
    by (rule output_digits_pad [of 256 2 z ?sl v m]) (auto simp: code_strings_256 zs)
  let ?ds = "pad 256 (max m (?n + j)) v"
  have "?ds \<noteq> []" using assms(2) by (metis length_pad list.size(3) max.strict_coboundedI1 max.cobounded1 le_zero_eq less_irrefl)
  moreover have "output_digits 2 256 m False z ?sl v = ?ds"
    using j(2) pad_lt [of 256 _ "max m (?n + j)" v] by (simp add: code_strings_256 map_nth_upt)
  ultimately have "change_base (PStr (bit_text ds)) 2 256 m None None = Inr (PBytes (map byte_of ?ds))"
    using bit_text_read [OF assms(1)] assms(3,4)
    by (simp add: change_base_def normalize_var_def fast_path_def Let_def base_2_codes convert_output_def code_strings_def)
  then show ?thesis using that j(1) by blast
qed

section \<open>The entropy is found again\<close>

lemma bits_div:
  assumes "0 < n"
  shows "length (to_digits 2 (n div 2 ^ c) []) = length (to_digits 2 n []) - c"
proof -
  have "length (to_digits 2 (n div 2 ^ c) []) \<le> k \<longleftrightarrow> length (to_digits 2 n []) - c \<le> k" for k
    by (simp add: b2.length_to_digits div_less_iff_less_mult le_diff_conv flip: power_add)
  then show ?thesis by (meson dual_order.antisym order_refl)
qed

text \<open>
  The lengths, for an entropy of \<open>4 * c\<close> bytes with its checksum of \<open>c\<close> bits: \<open>bl\<close> is the number of bits
  of both, \<open>nb\<close> that of bytes, \<open>k\<close> the leading zero bytes that are put in front.
\<close>

lemma entropy_lengths:
  fixes c bl nb m k n :: nat
  assumes c: "0 < c" "c \<le> 18" and bl: "bl \<le> 33 * c" "bl \<le> 8 * nb" "8 * (nb - 1) < bl"
    and m: "m = max (4 * c) (nb + w)" "w \<le> 1" "w = 1 \<longrightarrow> bl \<le> 33 * c - 11" "k = m - nb"
    and n: "n = bl + (if k = 1 then 1 else 8 * k)"
  shows "4 * m \<le> n" "33 * (c - 1) < n" "n \<le> 33 * c" "k = 1 \<longrightarrow> bl + 8 \<le> 33 * c"
proof -
  have nb: "0 < nb" using bl by (cases nb) auto
  have m': "4 * c \<le> m" "nb + w \<le> m" "m = 4 * c \<or> m = nb + w" using m(1) by auto
  have k: "nb + k = m" using m' m(4) by linarith
  have k1: "k = 1 \<Longrightarrow> bl + 8 \<le> 33 * c"
  proof -
    assume "k = 1"
    then have "m = 4 * c \<or> w = 1" using m' k m(2) by linarith
    then show ?thesis
    proof
      assume "m = 4 * c"
      then show ?thesis using k \<open>k = 1\<close> bl c by linarith
    next
      assume "w = 1"
      then show ?thesis using m(3) c by linarith
    qed
  qed
  then show "k = 1 \<longrightarrow> bl + 8 \<le> 33 * c" ..
  show "n \<le> 33 * c"
  proof (cases "k = 1 \<or> k = 0")
    case True
    then show ?thesis using n k1 bl by auto
  next
    case False
    then have "m = 4 * c" using m' k m(2) by linarith
    then show ?thesis using n False k bl by auto
  qed
  have lo: "8 * m \<le> n + 14"
  proof (cases "k = 1")
    case True
    then show ?thesis using n k bl nb by auto
  next
    case False
    then show ?thesis using n k bl nb by auto
  qed
  then show "4 * m \<le> n" "33 * (c - 1) < n" using m' c by linarith+
qed

lemma map_unat_bytes: "\<forall>d\<in>set ds. d < 256 \<Longrightarrow> map unat (map byte_of ds) = ds"
  by (induction ds) (simp_all add: unat_byte_of del: of_nat_nat)

lemma pad_bytes: "be_val (map byte_of (pad 256 k n)) = n"
  using map_unat_bytes [of "pad 256 k n"] pad_lt [of 256 _ k n] pad_val [of 256 k n] by (simp add: be_val_digits)

lemma bytes_pad: "map byte_of (pad 256 (length b) (be_val b)) = b"
proof -
  have "map unat b = pad 256 (length (map unat b)) (be_val b)"
    by (rule pad_unique) (use be_val_lt [of b] in \<open>simp_all add: be_val_digits\<close>)
  then have "map unat b = pad 256 (length b) (be_val b)" by (simp only: length_map)
  then have "map byte_of (pad 256 (length b) (be_val b)) = map (byte_of \<circ> unat) b" by (metis map_map)
  also have "\<dots> = b" by (rule map_idI) simp
  finally show ?thesis .
qed

lemma zero_bytes_pad:
  assumes "0 < n"
  shows "length (takeWhile (\<lambda>x. x = 0) (map byte_of (pad 256 k n))) = k - length (to_digits 256 n [])"
proof -
  have "map unat (map byte_of (pad 256 k n)) = pad 256 k n"
    using pad_lt [of 256 _ k n] by (intro map_unat_bytes) auto
  moreover have "length (takeWhile (\<lambda>x. x = 0) b) = length (takeWhile (\<lambda>d. d = 0) (map unat b))" for b :: bytes
    by (simp add: takeWhile_map comp_def word_unat_eq_iff)
  ultimately show ?thesis using takeWhile_pad [of 256 n k] assms by simp
qed

text \<open>The checksum of a byte string of \<open>4 * c\<close> bytes: \<open>c\<close> bits.\<close>

lemma checksum_of_bytes:
  assumes "to_bytes (PBytes d) True = Inr d" "length d = 4 * c" "c \<le> 256" "length (c_sha256 C d) = 32"
  obtains cs where "mnemonic_checksum C (PBytes d) = Inr (bit_text cs)" "length cs = c" "\<forall>x\<in>set cs. x < 2"
proof -
  obtain ds where ds: "change_base (PBytes (c_sha256 C d)) 256 2 256 None None = Inr (PStr (bit_text ds))"
    "256 \<le> length ds" "\<forall>x\<in>set ds. x < 2"
    using bytes_to_bits [of 256 _ "c_sha256 C d"] pad_lt [of 2] by (force simp: length_pad)
  have "length d * 8 div 32 = c" "length d mod 4 = 0" using assms(2) by simp_all
  then have "mnemonic_checksum C (PBytes d) = Inr (bit_text (take c ds))"
    using ds(1) assms(1) by (simp add: mnemonic_checksum_def take_bit_text)
  then show ?thesis using that [of "take c ds"] ds(2,3) assms(3) by (auto dest: in_set_takeD)
qed

lemma digits_val_lt2: "\<forall>d\<in>set ds. d < 2 \<Longrightarrow> digits_val 2 ds < 2 ^ length ds"
  by (rule b2.digits_val_lt)

text \<open>The words of an entropy: the digits of the entropy followed by its checksum.\<close>

lemma mnemonic_digits_value:
  assumes "to_bytes (PBytes d) True = Inr d" "length d = 4 * c" "0 < c" "c \<le> 256" "0 < be_val d"
    and "mnemonic_checksum C (PBytes d) = Inr (bit_text cs)" "length cs = c" "\<forall>x\<in>set cs. x < 2"
  shows "mnemonic_digits C d True =
    Inr (PList (map int (pad 2048 (3 * c) (be_val d * 2 ^ c + digits_val 2 cs))))"
proof -
  let ?ds = "pad 2 (32 * c) (be_val d)"
  have "be_val d < 256 ^ (4 * c)" using be_val_lt [of d] assms(2) by simp
  then have "length (to_digits 2 (be_val d) []) \<le> 32 * c" by (simp add: b2.length_to_digits power_mult)
  then have len: "length ?ds = 32 * c" by (simp add: length_pad)
  have v: "digits_val 2 (?ds @ cs) = be_val d * 2 ^ c + digits_val 2 cs"
    by (simp add: digits_val_append pad_val assms(7))
  have bits: "\<forall>x\<in>set (?ds @ cs). x < 2" using pad_lt [of 2 _ "32 * c" "be_val d"] assms(8) by auto
  have "change_base (PInt (int (be_val d))) 10 2 (length d * 8) None None = Inr (PStr (bit_text ?ds))"
    using decimal_to_bits [of "length d * 8" "be_val d"] assms(2,3) by (simp add: mult.commute)
  moreover have "change_base (PStr (bit_text (?ds @ cs))) 2 2048 0 None None =
      Inr (PList (map int (pad 2048 (3 * c) (digits_val 2 (?ds @ cs)))))"
    by (rule bits_to_words [OF bits]) (use len assms(3,5,7) v in simp_all)
  ultimately show ?thesis using assms(6) v by (simp add: mnemonic_digits_def bit_text_append)
qed

lemma check_entropy_finds:
  assumes c: "0 < c" "c \<le> 18" and d: "to_bytes (PBytes d) True = Inr d" "length d = 4 * c" "0 < be_val d"
    and cs: "mnemonic_checksum C (PBytes d) = Inr (bit_text cs)" "length cs = c" "\<forall>x\<in>set cs. x < 2"
    and v: "v = be_val d * 2 ^ c + digits_val 2 cs"
    and m: "m = max (4 * c) (length (to_digits 256 v []) + (if hd (pad 2048 (3 * c) v) = 0 then 1 else 0))"
  shows "check_entropy C (map byte_of (pad 256 m v)) (4 * c) = Inr (PBytes d)"
proof -
  let ?ent = "map byte_of (pad 256 m v)"
  let ?nb = "length (to_digits 256 v [])" and ?bl = "length (to_digits 2 v [])"
  let ?w = "if hd (pad 2048 (3 * c) v) = 0 then 1 else 0 :: nat"
  define k where "k = m - ?nb"
  define n where "n = ?bl + (if k = 1 then 1 else 8 * k)"
  have cs_lt: "digits_val 2 cs < 2 ^ c" using digits_val_lt2 [OF cs(3)] cs(2) by simp
  have pos: "0 < v" using d(3) v by simp
  have div: "v div 2 ^ c = be_val d" "v mod 2 ^ c = digits_val 2 cs" using cs_lt v by simp_all
  have dlt: "be_val d < 2 ^ (32 * c)" using be_val_lt [of d] d(2) by (simp add: power_mult)
  have vlt: "v < 2 ^ (33 * c)"
  proof -
    have "v < 2 ^ (32 * c) * 2 ^ c" using dlt div(1) div_less_iff_less_mult [of "2 ^ c" v "2 ^ (32 * c)"] by simp
    also have "(2::nat) ^ (32 * c) * 2 ^ c = 2 ^ (33 * c)" by (simp flip: power_add)
    finally show ?thesis .
  qed
  have bl: "?bl \<le> 33 * c" using vlt by (simp add: b2.length_to_digits)
  have nb: "?bl \<le> 8 * ?nb" "8 * (?nb - 1) < ?bl" using length_digits_bits [of 8 v] pos by simp_all
  have w: "?w = 1 \<longrightarrow> ?bl \<le> 33 * c - 11"
  proof
    assume "?w = 1"
    then have z: "hd (pad 2048 (3 * c) v) = 0" by (simp split: if_splits)
    obtain e es where e: "pad 2048 (3 * c) v = e # es" using c(1) length_pad [of 2048 "3 * c" v]
      by (cases "pad 2048 (3 * c) v") auto
    have "length (to_digits 2048 v []) \<le> 3 * c" using vlt by (simp add: b2048.length_to_digits power_mult)
    then have "length es = 3 * c - 1" using length_pad [of 2048 "3 * c" v] e by simp
    moreover have "v = digits_val 2048 es"
      using z e pad_val [of 2048 "3 * c" v] by (simp add: digits_val_Cons)
    ultimately have "v < 2048 ^ (3 * c - 1)"
      using b2048.digits_val_lt [of es] pad_lt [of 2048 _ "3 * c" v] e by simp
    also have "(2048::nat) ^ (3 * c - 1) = 2 ^ (11 * (3 * c - 1))" by (simp add: power_mult)
    finally show "?bl \<le> 33 * c - 11" by (simp add: b2.length_to_digits right_diff_distrib')
  qed
  note len = entropy_lengths [OF c bl nb m _ w k_def n_def]
  have lens: "4 * m \<le> n" "33 * (c - 1) < n" "n \<le> 33 * c" "k = 1 \<longrightarrow> ?bl + 8 \<le> 33 * c"
    by (rule len, simp)+
  have ent: "be_val ?ent = v" "length ?ent = m" "length (takeWhile (\<lambda>x. x = 0) ?ent) = k"
    using pad_bytes zero_bytes_pad [OF pos] m by (simp_all add: length_pad k_def)
  let ?bs = "pad 2 n v"
  have "max (m * 4) (?bl + (if k = 1 then 1 else 8 * k)) = n" using lens(1) by (simp add: n_def)
  moreover have "0 < m * 4" using m c(1) by simp
  ultimately have bits: "change_base (PBytes ?ent) 256 2 (length ?ent * 4) None None = Inr (PStr (bit_text ?bs))"
    using bytes_to_bits [of "m * 4" k ?ent] ent by simp
  have bl_n: "?bl \<le> n" by (simp add: n_def)
  then have lbs: "length ?bs = n" by (simp add: length_pad)
  have cb: "checksum_bits n = c" using lens(2,3) c by (simp add: checksum_bits_def)
  define ds where "ds = take (n - c) ?bs"
  define es where "es = drop (n - c) ?bs"
  have b2: "\<forall>x\<in>set ?bs. x < 2" using pad_lt [of 2 _ n v] by simp
  have ds2: "\<forall>x\<in>set ds. x < 2" "\<forall>x\<in>set es. x < 2"
    using b2 by (auto simp: ds_def es_def dest: in_set_takeD in_set_dropD)
  have cn: "c \<le> n" using lens(2) c by linarith
  have les: "length es = c" "length ds = n - c" using lbs cn by (simp_all add: es_def ds_def)
  have "v = digits_val 2 (ds @ es)" by (simp add: ds_def es_def pad_val)
  then have ve: "v = digits_val 2 ds * 2 ^ c + digits_val 2 es" by (simp add: digits_val_append les)
  have "digits_val 2 es < 2 ^ c" using digits_val_lt2 [OF ds2(2)] les by simp
  then have vals: "digits_val 2 ds = be_val d" "digits_val 2 es = digits_val 2 cs"
    using ve div by simp_all
  have es: "es = cs" using b2.digits_inj [of es cs] ds2(2) cs(2,3) les vals(2) by simp
  let ?z = "length (takeWhile (\<lambda>x. x = 0) ds)" and ?bv = "length (to_digits 2 (be_val d) [])"
    and ?nv = "length (to_digits 256 (be_val d) [])"
  have z: "?z + ?bv = n - c" using leading_zeros [of 2 ds] ds2(1) vals(1) les by simp
  have bv: "?bv = ?bl - c" using bits_div [of v c] pos div(1) by simp
  have nv: "8 * (?nv - 1) < ?bv" using length_digits_bits [of 8 "be_val d"] d(3) by simp
  obtain j where j: "j \<le> (if ?z = 1 then 1 else ?z div 8)"
    "change_base (PStr (bit_text ds)) 2 256 (4 * c) None None =
      Inr (PBytes (map byte_of (pad 256 (max (4 * c) (?nv + j)) (be_val d))))"
    using bits_to_bytes [of ds "4 * c" "be_val d" ?z] ds2(1) c(1) vals(1) by auto
  have "?nv + j \<le> 4 * c"
  proof (cases "?z = 1")
    case True
    have "0 < ?bv" using d(3) by simp
    then have "?z = n - ?bl" using z bv by linarith
    then have "(if k = 1 then 1 else 8 * k) = 1" using True by (simp only: n_def diff_add_inverse)
    then have "k = 1" by (cases "k = 1") auto
    then have "?bl + 8 \<le> 33 * c" using lens(4) by blast
    moreover have "j \<le> 1" using j(1) True by simp
    moreover have "?bv = ?bl - c" by (rule bv)
    ultimately show ?thesis using nv c(1) by linarith
  next
    case False
    have "8 * (?z div 8) \<le> ?z" by (rule times_div_less_eq_dividend)
    moreover have "j \<le> ?z div 8" using j(1) False by (simp only: if_False)
    ultimately show ?thesis using nv z lens(3) cn by linarith
  qed
  then have "change_base (PStr (bit_text ds)) 2 256 (4 * c) None None = Inr (PBytes d)"
    using j(2) bytes_pad [of d] d(2) by (simp add: max_absorb1)
  then show ?thesis
    using bits cs(1) lbs cb es
    by (simp add: check_entropy_def take_bit_text drop_bit_text Let_def flip: ds_def es_def)
qed

section \<open>Words and sentences\<close>

lemma split_text_one: "c \<notin> set w \<Longrightarrow> split_text c w = [w]"
  by (induction w) auto

lemma split_join: "ws \<noteq> [] \<Longrightarrow> \<forall>w\<in>set ws. c \<notin> set w \<Longrightarrow> split_text c (join_text c ws) = ws"
  by (induction c ws rule: join_text.induct) (simp_all add: split_text_one split_text_append)

lemma pick_words_nth: "\<forall>i\<in>set is. i < length wl \<Longrightarrow> pick_words wl (map int is) = Inr (map ((!) wl) is)"
  by (induction "is") simp_all

lemma index_of_nth: "distinct wl \<Longrightarrow> i < length wl \<Longrightarrow> index_of (wl ! i) wl = Some i"
proof (induction wl arbitrary: i)
  case (Cons w wl)
  then show ?case by (cases i) (auto simp: nth_mem)
qed simp

lemma word_indices_nth:
  "distinct wl \<Longrightarrow> \<forall>i\<in>set is. i < length wl \<Longrightarrow> word_indices wl (map ((!) wl) is) = Inr (map int is)"
  by (induction "is") (simp_all add: index_of_nth)

text \<open>A word list of 2048 distinct words without spaces; sentences of its words are normalised.\<close>

definition word_list_ok :: "(string \<Rightarrow> string) \<Rightarrow> string list \<Rightarrow> bool" where
  "word_list_ok nfkd wl \<longleftrightarrow> distinct wl \<and> length wl = 2048 \<and> (\<forall>w\<in>set wl. CHR '' '' \<notin> set w) \<and>
     (\<forall>ws. set ws \<subseteq> set wl \<longrightarrow> nfkd (join_text (CHR '' '') ws) = join_text (CHR '' '') ws)"

lemma find_maximal:
  fixes f :: "'a \<Rightarrow> nat"
  assumes "xs \<noteq> []"
  shows "\<exists>x. List.find (\<lambda>x. \<forall>y\<in>set xs. f y \<le> f x) xs = Some x"
proof -
  obtain x where "x \<in> set xs" "f x = Max (f ` set xs)"
    using Max_in [of "f ` set xs"] assms by fastforce
  then have "\<forall>y\<in>set xs. f y \<le> f x" by simp
  then have "List.find (\<lambda>x. \<forall>y\<in>set xs. f y \<le> f x) xs \<noteq> None"
    using \<open>x \<in> set xs\<close> by (auto simp: find_None_iff)
  then show ?thesis by blast
qed

text \<open>
  A sentence of a word list is accepted, whichever language is detected: a list that has as many of the
  words has them all.
\<close>

lemma sanitize_sentence:
  assumes lists: "distinct (map fst wordlists)" "(language, wl) \<in> set wordlists"
    and ws: "ws \<noteq> []" "set ws \<subseteq> set wl" "\<forall>w\<in>set ws. CHR '' '' \<notin> set w"
    and nfkd: "nfkd (join_text (CHR '' '') ws) = join_text (CHR '' '') ws"
  shows "sanitize_mnemonic nfkd wordlists (join_text (CHR '' '') ws) = Inr (join_text (CHR '' '') ws)"
proof -
  let ?count = "\<lambda>wl. length (filter (\<lambda>w. w \<in> set wl) ws)"
  define counts where "counts = map (\<lambda>(l, wl). (l, ?count wl)) wordlists"
  have mem: "(language, length ws) \<in> set counts"
  proof -
    have "?count wl = length ws" using ws(2) by (intro arg_cong [of _ _ length] filter_True) auto
    then show ?thesis using lists(2) by (force simp: counts_def)
  qed
  have split: "split_text (CHR '' '') (join_text (CHR '' '') ws) = ws" using ws by (intro split_join) auto
  obtain p where p: "List.find (\<lambda>x. \<forall>y\<in>set counts. snd y \<le> snd x) counts = Some p"
    using find_maximal [of counts snd] mem by fastforce
  obtain l n where ln: "p = (l, n)" by (cases p)
  have "p \<in> set counts" "\<forall>y\<in>set counts. snd y \<le> snd p"
    using p by (auto simp: find_Some_iff in_set_conv_nth)
  then have max: "length ws \<le> n" and "(l, n) \<in> set counts" using mem ln by auto
  then obtain wl' where wl': "(l, wl') \<in> set wordlists" "n = ?count wl'" by (auto simp: counts_def)
  have "?count wl' = length ws" using max wl'(2) length_filter_le [of "\<lambda>w. w \<in> set wl'" ws] by simp
  then have all: "\<forall>w\<in>set ws. w \<in> set wl'"
    by (metis (mono_tags, lifting) filter_id_conv length_filter_less less_irrefl)
  have pos: "0 < n" using max ws(1) by (cases ws) auto
  have find: "List.find (\<lambda>(l, n). list_all (\<lambda>(l', n'). n' \<le> n) counts) counts = Some (l, n)"
    using p ln by (simp add: case_prod_unfold list_all_iff)
  have "map_of wordlists l = Some wl'" using lists(1) wl'(1) by (simp add: map_of_eq_Some_iff)
  moreover have "detect_language nfkd wordlists (join_text (CHR '' '') ws) = Inr l"
    using find pos by (simp add: detect_language_def nfkd split counts_def [symmetric] Let_def)
  ultimately show ?thesis using all nfkd split by (simp add: sanitize_mnemonic_def Let_def list_all_iff)
qed

section \<open>The round trip\<close>

text \<open>C12: the sentence made of an entropy of up to 72 bytes, a multiple of 4, is read back to the same
  entropy: its leading zeros are found again and its checksum is accepted, whatever language is
  detected. The entropy must not look like a hexadecimal string.
\<close>

theorem mnemonic_roundtrip:
  assumes "word_list_ok nfkd wl" "distinct (map fst wordlists)" "(language, wl) \<in> set wordlists"
    and "\<forall>x. length (c_sha256 C x) = 32"
    and "length d mod 4 = 0" "length d \<le> 72" "0 < be_val d" "be_val d < secp256k1_n"
    and "to_bytes (PBytes d) True = Inr d"
  shows "\<exists>s. to_mnemonic C nfkd wl (PBytes d) True True = Inr s \<and>
    to_entropy C nfkd wordlists wl s True = Inr (PBytes d)"
proof -
  define c where "c = length d div 4"
  have len: "length d = 4 * c" using assms(5) div_mult_mod_eq [of "length d" 4] by (simp add: c_def)
  have c: "0 < c" "c \<le> 18" "c \<le> 256" using assms(6,7) len by (cases d; auto)+
  obtain cs where cs: "mnemonic_checksum C (PBytes d) = Inr (bit_text cs)" "length cs = c" "\<forall>x\<in>set cs. x < 2"
    using checksum_of_bytes [OF assms(9) len c(3)] assms(4) by blast
  define v where "v = be_val d * 2 ^ c + digits_val 2 cs"
  define ix where "ix = pad 2048 (3 * c) v"
  have digits: "mnemonic_digits C d True = Inr (PList (map int ix))"
    using mnemonic_digits_value [OF assms(9) len c(1,3) assms(7) cs] by (simp add: ix_def v_def)
  have ix: "\<forall>i\<in>set ix. i < 2048" "digits_val 2048 ix = v" using pad_lt [of 2048] pad_val [of 2048] by (auto simp: ix_def)
  have vlt: "v < 2048 ^ (3 * c)"
  proof -
    have "be_val d < 2 ^ (32 * c)" using be_val_lt [of d] len by (simp add: power_mult)
    moreover have "v div 2 ^ c = be_val d" using digits_val_lt2 [OF cs(3)] cs(2) by (simp add: v_def)
    ultimately have "v < 2 ^ (32 * c) * 2 ^ c" using div_less_iff_less_mult [of "2 ^ c" v "2 ^ (32 * c)"] by simp
    also have "(2::nat) ^ (32 * c) * 2 ^ c = 2 ^ (11 * (3 * c))" by (simp flip: power_add)
    also have "\<dots> = 2048 ^ (3 * c)" unfolding power_mult by simp
    finally show ?thesis .
  qed
  then have lix: "length ix = 3 * c" by (simp add: ix_def length_pad b2048.length_to_digits max_absorb1)
  define ws where "ws = map ((!) wl) ix"
  have wl: "distinct wl" "length wl = 2048" "\<forall>w\<in>set wl. CHR '' '' \<notin> set w"
    using assms(1) by (auto simp: word_list_ok_def)
  have ws: "ws \<noteq> []" "set ws \<subseteq> set wl" "length ws = 3 * c" using ix(1) lix c(1) wl(2) by (auto simp: ws_def)
  let ?s = "join_text (CHR '' '') ws"
  have nfkd: "nfkd ?s = ?s" using assms(1) ws(2) by (simp add: word_list_ok_def)
  have "to_mnemonic C nfkd wl (PBytes d) True True = Inr ?s"
    using assms(7-9) digits pick_words_nth [of ix wl] ix(1) wl(2) nfkd
    by (simp add: to_mnemonic_def ws_def)
  moreover have "to_entropy C nfkd wordlists wl ?s True = Inr (PBytes d)"
  proof -
    define m where "m = max (4 * c) (length (to_digits 256 v []) + (if hd ix = 0 then 1 else 0))"
    have sp: "\<forall>w\<in>set ws. CHR '' '' \<notin> set w" using ws(2) wl(3) by blast
    have "change_base (PList (map int ix)) 2048 256 (4 * c) (Some False) None = Inr (PBytes (map byte_of (pad 256 m v)))"
    proof -
      have "ix \<noteq> []" using lix c(1) by auto
      then show ?thesis using words_to_bytes [of ix "4 * c" v] ix c(1) by (simp add: m_def)
    qed
    moreover have "check_entropy C (map byte_of (pad 256 m v)) (4 * c) = Inr (PBytes d)"
      by (rule check_entropy_finds [OF c(1,2) assms(9) len assms(7) cs v_def]) (simp add: m_def ix_def)
    ultimately show ?thesis
      using sanitize_sentence [of wordlists language wl ws nfkd, OF assms(2,3) ws(1,2) sp nfkd] split_join [OF ws(1) sp] ws(3)
        word_indices_nth [of wl ix] wl(1,2) ix(1)
      by (simp add: to_entropy_def ws_def [symmetric] Let_def)
  qed
  ultimately show ?thesis by blast
qed

definition example_words :: "string list" where
  "example_words = map (\<lambda>i. replicate (Suc i) (CHR ''a'')) [0..<2048]"

lemma example_words_ok: "word_list_ok id example_words"
  unfolding word_list_ok_def
proof (intro conjI)
  show "distinct example_words"
    unfolding example_words_def distinct_map by (auto simp: inj_on_def dest: arg_cong [where f = length])
  show "length example_words = 2048" by (simp add: example_words_def)
qed (simp_all add: example_words_def)

definition example_hash :: crypto where
  "example_hash = \<lparr>c_sha256 = \<lambda>b. replicate 32 0, c_ripemd160 = id, c_sha1 = id, key_point = \<lambda>b. Inl BKeyError,
     ecdsa_verify = \<lambda>_ _ _ _. False, ecdsa_sign = \<lambda>_ _. (0, 0)\<rparr>"

theorem mnemonic_roundtrip_witness:
  "\<exists>s. to_mnemonic example_hash id example_words (PBytes [0, 0, 0, 1]) True True = Inr s \<and>
    to_entropy example_hash id [(''english'', example_words)] example_words s True = Inr (PBytes [0, 0, 0, 1])"
  by (rule mnemonic_roundtrip [OF example_words_ok])
    (simp_all add: example_hash_def be_val_def le_val.simps secp256k1_n_def to_bytes_def eval_bytes digit_val_def ascii_space_def)

section \<open>Where the round trip fails\<close>

text \<open>Without a checksum the words do not tell the length of the entropy: leading zeros are lost.\<close>

lemma mnemonic_without_checksum_short: "mnemonic_digits C [0, 0, 0, 1] False = Inr (PList [1])"
proof -
  have d: "to_digits 2048 (Suc 0) [] = [Suc 0]" by (simp add: to_digits_unfold)
  have "output_digits 10 2048 1 False 0 l (Suc 0) = [Suc 0]" for l
    by (simp add: output_digits_def zeros_to_add_def ilog.simps Let_def d base_2048_codes nth_upt del: upt_rec_numeral)
  then show ?thesis
    by (simp add: mnemonic_digits_def change_base_def normalize_var_def fast_path_def Let_def base_2048_codes
        convert_output_def be_val_def)
qed

text \<open>Entropy whose bytes are hexadecimal digits is decoded to half its length.\<close>

lemma entropy_of_hex_digits: "to_bytes (PBytes [97, 98, 99, 100]) True = Inr [171, 205]"
  by (simp add: to_bytes_def digit_val_def ascii_space_def eval_bytes)

end
