(* ===== verification/Spec2Isabelle.thy ===== *)
theory Spec2Isabelle
  imports Bech32_Errors Script_Rules Script_Roundtrip Tx_Fee Block_Rules Wallet_Pays Service_State Mnemonic_Rules
begin

text \<open>
  A verification of \<^verbatim>\<open>bitcoinlib\<close>, a Python library for Bitcoin and related networks: a model in
  HOL of the code that encodes, signs, verifies, stores and pays, and theorems on what it does. File names
  are relative to \<^verbatim>\<open>src/bitcoinlib\<close>.

  \<^bold>\<open>The program and its parts.\<close> \<^verbatim>\<open>encoding.py\<close> holds the conversions on which everything rests. Keys and
  addresses (\<^verbatim>\<open>keys.py\<close>, \<^verbatim>\<open>networks.py\<close>, \<^verbatim>\<open>mnemonic.py\<close>) are written and read with them. Scripts
  (\<^verbatim>\<open>scripts.py\<close>, \<^verbatim>\<open>config/opcodes.py\<close>) are parsed, recognised and evaluated; transactions
  (\<^verbatim>\<open>transactions.py\<close>) consist of inputs and outputs with scripts, are hashed, signed and verified, and
  blocks (\<^verbatim>\<open>blocks.py\<close>) consist of transactions. A wallet (\<^verbatim>\<open>wallets.py\<close>, \<^verbatim>\<open>db.py\<close>) keeps keys,
  transactions and unspent outputs in tables, selects outputs and creates transactions. It learns about
  the chain from a service (\<^verbatim>\<open>services/services.py\<close>, \<^verbatim>\<open>db_cache.py\<close>), which asks a list of providers
  and caches what they answer.

  \<^bold>\<open>How the code is modelled.\<close> A class is a record with the attributes that the modelled code reads, a
  method a function with the object as an argument and the new object in the result, under the name of
  the method. An exception is a value: \<open>'a res\<close> is \<open>py_error + 'a\<close>, with one constructor of
  \<open>py_error\<close> for each class that is raised (\<open>BL_Prelude\<close>). Python's integers are \<^typ>\<open>int\<close> or
  \<^typ>\<open>nat\<close>, a byte is a word of 8 bits, a byte string a list of them, a text a list of characters with codes
  below 256, a file-like object a buffer and a position. A table of a database is the list of its rows.
  Code outside the repository is an argument: hash functions and ECDSA (record \<open>crypto\<close>), the group of
  the curve and HMAC (record \<open>curve\<close>), the decryption of protected keys (\<open>protected\<close>), the answers of
  the providers, the clock and the random numbers (record \<open>world\<close>), text normalisation and key
  stretching. What a theorem needs of them (lengths of digests, group laws, that signing produces what
  verification accepts) is among its hypotheses, and each such theorem is applied to an example in the
  lemma \<open>..._witness\<close> behind it.

  \<^bold>\<open>The theories.\<close>
  \<^item> Foundations. \<open>BL_Prelude\<close>: exceptions, byte strings, streams. \<open>Radix\<close>: digits in any base, with the
    locale \<open>radix\<close>, interpreted for the bases 2, 10, 16, 58, 256 and 2048. \<open>Codec\<close>: the locale
    \<open>wire_format\<close> of a writer and a reader that agree, interpreted for integers and strings (\<open>Varint\<close>),
    inputs and outputs (\<open>Tx_Roundtrip\<close>) and the second transaction parser (\<open>Dict_Rules\<close>). \<open>Transition\<close>:
    the locale \<open>transition\<close> of a step relation and an invariant, interpreted for the wallet
    (\<open>Wallet_Rules\<close>) and the service (\<open>Service_State\<close>). \<open>Stream_Pos\<close>: parsers move forward.
  \<^item> \<^verbatim>\<open>encoding.py\<close>. \<open>Varint\<close>, \<open>Der\<close>, \<open>Py_Text\<close>, \<open>Hex_Digits\<close>, \<open>Base_Conv\<close>: integers, signatures, text,
    \<^verbatim>\<open>change_base\<close>. \<open>Bech32\<close> with \<open>Bech32_Bits\<close>, \<open>Bech32_Checksum\<close>, \<open>Bech32_Addr\<close>, \<open>Bech32_Errors\<close>: regrouping of
    bits, the checksum as a linear map, the round trip of addresses, and that one or two wrong symbols
    are always detected. \<open>Addr\<close>: base58 addresses.
  \<^item> Scripts. \<open>Opcodes\<close>, \<open>Script_Num\<close>, \<open>Script_Stack\<close>, \<open>Script_Eval\<close>: the opcode table, numbers, the class
    \<^verbatim>\<open>Stack\<close> and \<^verbatim>\<open>Script.evaluate\<close>. \<open>Script_Types\<close>, \<open>Script_Parse\<close>: recognition and parsing. \<open>Script_Rules\<close>
    shows which branch conditionals take and that p2pkh and multisig scripts accept exactly the valid
    signatures, \<open>Script_Roundtrip\<close> that a serialised script is parsed to its commands.
  \<^item> Transactions. \<open>Signature\<close>, \<open>Tx_Input\<close>, \<open>Tx\<close>, \<open>Tx_Parse\<close>, \<open>Tx_Build\<close>: the objects, \<^verbatim>\<open>raw\<close>, the signature
    hashes, the parser, construction from addresses and keys. \<open>Tx_Roundtrip\<close> and \<open>Tx_Legacy\<close>: what \<^verbatim>\<open>raw\<close>
    writes is parsed back. \<open>Tx_Verify\<close>: \<^verbatim>\<open>verify\<close> accepts exactly when enough signatures are valid for
    different keys. \<open>Tx_Sign\<close>, \<open>Tx_Sign_Rules\<close>: signing, what it leaves alone, and that its result
    verifies. \<open>Tx_Fee\<close>: estimated sizes and \<^verbatim>\<open>bumpfee\<close>.
  \<^item> Blocks. \<open>Block\<close>, \<open>Block_Dict\<close>: the class \<^verbatim>\<open>Block\<close> and its second parser of transactions. \<open>Block_Rules\<close>,
    \<open>Dict_Rules\<close>: the round trip of blocks, and that both parsers find the same.
  \<^item> Keys. \<open>Networks\<close>, \<open>Key_Format\<close>, \<open>Keys\<close>, \<open>HD_Keys\<close>, \<open>Address\<close>: prefixes, formats, the classes \<^verbatim>\<open>Key\<close>, \<^verbatim>\<open>HDKey\<close>
    and \<^verbatim>\<open>Address\<close>. \<open>Key_Rules\<close>: the import format. \<open>HD_Rules\<close>: the invariant of derived private keys, and
    public derivation as the public half of the private one. \<open>Address_Rules\<close>: an output to an address
    locks it with the program of the address. \<open>Mnemonic\<close>, \<open>Mnemonic_Rules\<close>: sentences for entropy, and
    that they are read back.
  \<^item> The wallet. \<open>Wallet_Db\<close>: tables and queries. \<open>Wallet_Balance\<close>: balances are sums over unspent outputs.
    \<open>Wallet_Tx\<close>: storing, sending, deleting and updating transactions and outputs. \<open>Wallet_Rules\<close>: the
    invariant of the tables along these steps, with the consequence that no output is spent twice.
    \<open>Coin_Select\<close>: \<^verbatim>\<open>select_inputs\<close> finds a payment when there is one, with the fewest outputs.
    \<open>Wallet_Create\<close>, \<open>Wallet_Pays\<close>: \<^verbatim>\<open>transaction_create\<close> pays what was asked for, and inputs equal
    outputs and fee.
  \<^item> The service. \<open>Service_Exec\<close>: \<^verbatim>\<open>_provider_execute\<close>, the providers in their order. \<open>Service_Cache\<close>,
    \<open>Service_Txs\<close>: the cache. \<open>Service_Calls\<close>: \<^verbatim>\<open>blockcount\<close>, \<^verbatim>\<open>estimatefee\<close>, \<^verbatim>\<open>getbalance\<close>. \<open>Service_State\<close>: the
    invariant along all calls.

  \<^bold>\<open>What the lemmas show.\<close> A property of the program carries a number, \<open>C1\<close> to \<open>C40\<close>, in the order of
  their importance; the lemmas around it show the behaviour of the single operations on every branch.
  Specifications stand beside the operations they are compared with: \<open>multisig_spec\<close> for signature
  checks, \<open>checksum_of\<close> and linear maps for bech32, \<open>own_unspent\<close> and \<open>spends_marked\<close> for the tables,
  \<open>wanted\<close> choices of outputs for coin selection, \<open>mark_tx\<close> for spent information. Where the code does
  not do what it means to, a lemma evaluates it on the offending input, for example
  \<open>comparison_opcodes_unavailable\<close>, \<open>key_wif_misread\<close>, \<open>taproot_parse_changes_address\<close> or
  \<open>getbalance_zero_diverges\<close>.

  \<^bold>\<open>Termination and bounds.\<close> Most loops are structural or have a measure. Loops that the source ends by
  the position in a stream are functions on the remaining length, justified by \<open>Stream_Pos\<close>. A loop that
  may never end is \<open>getbalance_loop\<close>, a partial function into \<open>option\<close>: \<open>getbalance_returns\<close> shows when it
  returns. Where \<^verbatim>\<open>change_base\<close> would loop for ever, the model has the exception \<open>NonTermination\<close>. The parser
  of scripts follows sub-scripts one level deep, as the code does. Floating point appears in
  \<^verbatim>\<open>change_base\<close> (lengths from logarithms), in sums of balances and in fee factors; the model computes with
  exact numbers, which agree as long as values stay below \<open>2 ^ 53\<close> and inputs of \<^verbatim>\<open>change_base\<close> below
  600 digits. Wire formats bound lengths by \<open>2 ^ 64\<close>; the round trip of mnemonic sentences is shown up
  to 72 bytes of entropy.

  \<^bold>\<open>Not modelled.\<close> The clients of the service providers and the command line tools are input and output.
  The database layer appears as tables only, without engines, sessions and migrations. The class \<^verbatim>\<open>Value\<close>
  converts floating point numbers to text. Of the wallet, the creation of wallets and keys, the import and
  export of wallets and the summaries are left out, of the service the calls that only pass a request on, blocks
  and lists of transactions in the cache. BIP38 encryption rests on ciphers of other packages. Of objects,
  attributes that only serve display are left out; each theory says which.
\<close>

end
